(* ===== verification/Wafer_Prelude.thy ===== *)
theory Wafer_Prelude
  imports Complex_Main "HOL-Library.Sublist" "HOL-Library.Char_ord" "HOL-Library.List_Lexorder"
    "HOL-Library.Multiset" "HOL-Library.AList"
begin

text \<open>
  Shared ground of the development: results as sums, and the operations of Rust's
  \<^verbatim>\<open>str\<close> the sources use.

  A Rust string is the list of its UTF-8 bytes, a \<^typ>\<open>string\<close> (a \<^typ>\<open>char\<close> is one
  byte).  Byte positions, slices and \<^verbatim>\<open>len()\<close> are then positions, \<^const>\<open>take\<close>/\<^const>\<open>drop\<close>
  and \<^const>\<open>length\<close> of the list, as in the sources.
\<close>

named_theorems result_simps \<open>case analysis of results\<close>
named_theorems str_simps \<open>equations of the string operations\<close>

section \<open>Results\<close>

text \<open>\<^verbatim>\<open>Result<T, E>\<close> is \<open>'e + 'a\<close>: \<^const>\<open>Inl\<close> is \<^verbatim>\<open>Err\<close>, \<^const>\<open>Inr\<close> is \<^verbatim>\<open>Ok\<close>;
  \<open>and_then r f\<close> is \<^verbatim>\<open>f(r?)\<close>.\<close>

definition and_then :: "'e + 'a \<Rightarrow> ('a \<Rightarrow> 'e + 'b) \<Rightarrow> 'e + 'b" where
  "and_then r f = (case r of Inl e \<Rightarrow> Inl e | Inr x \<Rightarrow> f x)"

lemma and_then_simps [simp, result_simps]:
  "and_then (Inl e) f = Inl e"
  "and_then (Inr x) f = f x"
  by (simp_all add: and_then_def)

lemma and_then_eq_Inr [result_simps]:
  "and_then r f = Inr y \<longleftrightarrow> (\<exists>x. r = Inr x \<and> f x = Inr y)"
  by (cases r) simp_all

lemma and_then_eq_Inl [result_simps]:
  "and_then r f = Inl e \<longleftrightarrow> r = Inl e \<or> (\<exists>x. r = Inr x \<and> f x = Inl e)"
  by (cases r) auto

lemma and_then_cong [fundef_cong]:
  assumes "r = r'" and "\<And>x. r' = Inr x \<Longrightarrow> f x = g x"
  shows "and_then r f = and_then r' g"
  using assms by (cases r') simp_all

lemma Inr_projr: "\<not> isl r \<Longrightarrow> r = Inr (projr r)"
  by (cases r) simp_all

text \<open>A fallible map over a list stops at the first error, as a \<^verbatim>\<open>for\<close> loop with \<^verbatim>\<open>?\<close> does.\<close>

fun traverse :: "('a \<Rightarrow> 'e + 'b) \<Rightarrow> 'a list \<Rightarrow> 'e + 'b list" where
  "traverse f [] = Inr []"
| "traverse f (x # xs) = and_then (f x) (\<lambda>y. and_then (traverse f xs) (\<lambda>ys. Inr (y # ys)))"

lemma traverse_cong [fundef_cong]:
  assumes "xs = ys" and "\<And>x. x \<in> set ys \<Longrightarrow> f x = g x"
  shows "traverse f xs = traverse g ys"
  using assms by (induction ys arbitrary: xs) auto

lemma traverse_Inr_map: "traverse f xs = Inr (map g xs)" if "\<And>x. x \<in> set xs \<Longrightarrow> f x = Inr (g x)"
  using that by (induction xs) auto

lemma traverse_map: "traverse f (map g xs) = traverse (\<lambda>x. f (g x)) xs"
  by (induction xs) simp_all

lemma traverse_list_all2: "traverse f xs = Inr ys \<Longrightarrow> list_all2 (\<lambda>y x. f x = Inr y) ys xs"
  by (induction xs arbitrary: ys) (auto simp: and_then_eq_Inr)

lemma traverse_result: "traverse f xs = Inr ys \<Longrightarrow> y \<in> set ys \<Longrightarrow> \<exists>x \<in> set xs. f x = Inr y"
  by (induction xs arbitrary: ys) (auto simp: and_then_eq_Inr)

lemma traverse_accepts: "(\<exists>ys. traverse f xs = Inr ys) \<longleftrightarrow> (\<forall>x \<in> set xs. \<exists>y. f x = Inr y)"
  by (induction xs) (auto simp: and_then_eq_Inr)

lemma and_then_accepts:
  "(\<exists>y. and_then r f = Inr y) \<longleftrightarrow> (\<exists>x. r = Inr x \<and> (\<exists>y. f x = Inr y))"
  "(\<exists>y. and_then r (\<lambda>x. Inr (g x)) = Inr y) \<longleftrightarrow> (\<exists>x. r = Inr x)"
  by (cases r; simp)+

lemma concat_map_Nil [simp]: "concat (map (\<lambda>x. []) xs) = []"
  by (induction xs) simp_all

lemma traverse_append:
  "traverse f (xs @ ys) =
     and_then (traverse f xs) (\<lambda>as. and_then (traverse f ys) (\<lambda>bs. Inr (as @ bs)))"
proof (induction xs)
  case Nil
  show ?case by (cases "traverse f ys") simp_all
next
  case (Cons x xs)
  show ?case
    by (cases "f x"; cases "traverse f xs"; cases "traverse f ys") (simp_all add: Cons.IH)
qed

section \<open>Bytes and characters\<close>

abbreviation dquote :: char where "dquote \<equiv> CHR 0x22"
abbreviation squote :: char where "squote \<equiv> CHR 0x27"
abbreviation backslash :: char where "backslash \<equiv> CHR 0x5C"
abbreviation dot :: char where "dot \<equiv> CHR 0x2E"
abbreviation slash :: char where "slash \<equiv> CHR 0x2F"
abbreviation star :: char where "star \<equiv> CHR 0x2A"

text \<open>\<^verbatim>\<open>u8::is_ascii_whitespace\<close>, \<^verbatim>\<open>u8::is_ascii_digit\<close>, \<^verbatim>\<open>u8::to_ascii_lowercase\<close>.\<close>

definition is_ascii_whitespace :: "char \<Rightarrow> bool" where
  "is_ascii_whitespace c \<longleftrightarrow> c \<in> {CHR 0x20, CHR 0x09, CHR 0x0A, CHR 0x0C, CHR 0x0D}"

definition is_ascii_digit :: "char \<Rightarrow> bool" where
  "is_ascii_digit c \<longleftrightarrow> CHR 0x30 \<le> c \<and> c \<le> CHR 0x39"

definition is_ascii_alphanumeric :: "char \<Rightarrow> bool" where
  "is_ascii_alphanumeric c \<longleftrightarrow>
     is_ascii_digit c \<or> (CHR ''a'' \<le> c \<and> c \<le> CHR ''z'') \<or> (CHR ''A'' \<le> c \<and> c \<le> CHR ''Z'')"

definition digit_val :: "char \<Rightarrow> nat" where
  "digit_val c = (of_char c :: nat) - 48"

definition ascii_lower :: "char \<Rightarrow> char" where
  "ascii_lower c = (if CHR 0x41 \<le> c \<and> c \<le> CHR 0x5A then char_of ((of_char c :: nat) + 32) else c)"

definition to_ascii_lowercase :: "string \<Rightarrow> string" where
  "to_ascii_lowercase = map ascii_lower"

lemma to_ascii_lowercase_append [simp]:
  "to_ascii_lowercase (s @ t) = to_ascii_lowercase s @ to_ascii_lowercase t"
  by (simp add: to_ascii_lowercase_def)

definition eq_ignore_ascii_case :: "string \<Rightarrow> string \<Rightarrow> bool" where
  "eq_ignore_ascii_case a b \<longleftrightarrow> to_ascii_lowercase a = to_ascii_lowercase b"

section \<open>Searching and splitting strings\<close>

definition starts_with :: "string \<Rightarrow> string \<Rightarrow> bool" where
  "starts_with p s \<longleftrightarrow> take (length p) s = p"

definition ends_with :: "string \<Rightarrow> string \<Rightarrow> bool" where
  "ends_with p s \<longleftrightarrow> length p \<le> length s \<and> drop (length s - length p) s = p"

definition strip_prefix :: "string \<Rightarrow> string \<Rightarrow> string option" where
  "strip_prefix p s = (if starts_with p s then Some (drop (length p) s) else None)"

definition strip_suffix :: "string \<Rightarrow> string \<Rightarrow> string option" where
  "strip_suffix p s = (if ends_with p s then Some (take (length s - length p) s) else None)"

text \<open>\<^verbatim>\<open>str::find\<close>: the first byte position where the pattern occurs.\<close>

fun str_find :: "string \<Rightarrow> string \<Rightarrow> nat option" where
  "str_find p [] = (if p = [] then Some 0 else None)"
| "str_find p (c # s) =
     (if starts_with p (c # s) then Some 0 else map_option Suc (str_find p s))"

text \<open>\<^verbatim>\<open>str::split(char)\<close> and \<^verbatim>\<open>join\<close>.\<close>

fun split_on :: "char \<Rightarrow> string \<Rightarrow> string list" where
  "split_on d [] = [[]]"
| "split_on d (c # s) =
     (if c = d then [] # split_on d s
      else (case split_on d s of [] \<Rightarrow> [[c]] | p # ps \<Rightarrow> (c # p) # ps))"

fun join_with :: "string \<Rightarrow> string list \<Rightarrow> string" where
  "join_with d [] = []"
| "join_with d [s] = s"
| "join_with d (s # t # ss) = s @ d @ join_with d (t # ss)"

text \<open>\<^verbatim>\<open>str::replace(char, &str)\<close>.\<close>

definition replace_char :: "char \<Rightarrow> string \<Rightarrow> string \<Rightarrow> string" where
  "replace_char d r s = concat (map (\<lambda>c. if c = d then r else [c]) s)"

text \<open>\<^verbatim>\<open>str::replace(&str, &str)\<close>: non-overlapping occurrences, left to right.  The fuel is the
  length of the string: every round consumes at least one byte.\<close>

fun replace_fuel :: "nat \<Rightarrow> string \<Rightarrow> string \<Rightarrow> string \<Rightarrow> string" where
  "replace_fuel 0 p r s = s"
| "replace_fuel (Suc n) p r s =
     (case s of [] \<Rightarrow> []
      | c # s' \<Rightarrow> (if starts_with p s then r @ replace_fuel n p r (drop (length p) s)
                   else c # replace_fuel n p r s'))"

definition replace_str :: "string \<Rightarrow> string \<Rightarrow> string \<Rightarrow> string" where
  "replace_str p r s = (if p = [] then s else replace_fuel (length s) p r s)"

lemma starts_with_prefix: "starts_with p s \<longleftrightarrow> prefix p s"
  by (metis append_take_drop_id append_eq_conv_conj prefix_def starts_with_def)

lemma starts_with_Nil [simp]: "starts_with [] s"
  by (simp add: starts_with_def)

lemma starts_with_Cons_Nil [simp]: "\<not> starts_with (c # p) []"
  by (simp add: starts_with_def)

lemma starts_with_Cons [simp]: "starts_with (c # p) (d # s) \<longleftrightarrow> c = d \<and> starts_with p s"
  by (auto simp: starts_with_def)

lemma starts_with_append [simp]: "starts_with p (p @ s)"
  by (simp add: starts_with_prefix)

lemma starts_with_length: "starts_with p s \<Longrightarrow> length p \<le> length s"
  by (simp add: starts_with_prefix prefix_length_le)

lemma ends_with_append [simp]: "ends_with p (s @ p)"
  by (simp add: ends_with_def)

lemma ends_with_iff: "ends_with p s \<longleftrightarrow> (\<exists>r. s = r @ p)"
  by (metis append_eq_append_conv append_take_drop_id ends_with_append ends_with_def
      diff_diff_cancel length_drop)

lemma strip_prefix_Some: "strip_prefix p s = Some r \<longleftrightarrow> s = p @ r"
  by (auto simp: strip_prefix_def starts_with_prefix prefix_def)

lemma strip_suffix_Some: "strip_suffix p s = Some r \<longleftrightarrow> s = r @ p"
  by (auto simp: strip_suffix_def ends_with_iff)

lemma strip_suffix_case:
  "(case strip_suffix p s of None \<Rightarrow> False | Some r \<Rightarrow> Q r) \<longleftrightarrow> (\<exists>r. s = r @ p \<and> Q r)"
  by (auto simp: strip_suffix_def ends_with_iff)

lemma str_find_Some_bound: "str_find p s = Some i \<Longrightarrow> i + length p \<le> length s"
  by (induction p s arbitrary: i rule: str_find.induct)
     (auto split: if_splits dest: starts_with_length)

lemma str_find_Some_match: "str_find p s = Some i \<Longrightarrow> starts_with p (drop i s)"
  by (induction p s arbitrary: i rule: str_find.induct) (auto split: if_splits)

lemma str_find_Some_least: "str_find p s = Some i \<Longrightarrow> j < i \<Longrightarrow> \<not> starts_with p (drop j s)"
proof (induction p s arbitrary: i j rule: str_find.induct)
  case (2 p c s)
  then show ?case by (cases j) (auto split: if_splits)
qed (auto split: if_splits)

lemma str_find_None: "str_find p s = None \<longleftrightarrow> (\<forall>j. j \<le> length s \<longrightarrow> \<not> starts_with p (drop j s))"
proof (induction p s rule: str_find.induct)
  case (1 p)
  then show ?case by (cases p) auto
next
  case (2 p c s)
  show ?case
  proof (cases "starts_with p (c # s)")
    case True
    then show ?thesis by (auto intro!: exI [of _ 0])
  next
    case False
    have "(\<forall>j. j \<le> length s \<longrightarrow> \<not> starts_with p (drop j s)) \<longleftrightarrow>
          (\<forall>j. j \<le> length (c # s) \<longrightarrow> \<not> starts_with p (drop j (c # s)))"
      using False by (auto simp: drop_Cons' less_Suc_eq_le)
    then show ?thesis using False "2.IH" by simp
  qed
qed

lemma str_find_append:
  "str_find p s = Some i \<Longrightarrow> \<exists>u v. s = u @ p @ v \<and> length u = i"
  by (metis append_take_drop_id length_take min.absorb2 starts_with_prefix prefix_def
      str_find_Some_bound str_find_Some_match add_leD1)

lemma split_on_neq_Nil [simp]: "split_on d s \<noteq> []"
  by (induction s) (auto split: list.splits)

lemma split_on_join: "join_with [d] (split_on d s) = s"
proof (induction s)
  case Nil
  then show ?case by simp
next
  case (Cons c s)
  obtain p ps where "split_on d s = p # ps"
    by (cases "split_on d s") auto
  with Cons show ?case by (cases ps) auto
qed

lemma split_on_no_delim: "p \<in> set (split_on d s) \<Longrightarrow> d \<notin> set p"
proof (induction s arbitrary: p)
  case (Cons c s)
  then show ?case by (cases "split_on d s") (auto split: if_splits)
qed simp

lemma split_on_subset: "p \<in> set (split_on d s) \<Longrightarrow> set p \<subseteq> set s"
proof (induction s arbitrary: p)
  case (Cons c s)
  then show ?case by (cases "split_on d s") (fastforce split: if_splits)+
qed simp

lemma join_with_hd: "join_with d ((c # s) # ss) = c # join_with d (s # ss)"
  by (cases ss) simp_all

lemma join_with_set: "set (join_with d ss) \<subseteq> \<Union> (set ` set ss) \<union> set d"
  by (induction d ss rule: join_with.induct) auto

lemma split_on_single: "d \<notin> set p \<Longrightarrow> split_on d p = [p]"
  by (induction p) auto

lemma split_on_append: "d \<notin> set p \<Longrightarrow> split_on d (p @ d # s) = p # split_on d s"
  by (induction p) auto

lemma split_on_append_any: "split_on d (r @ d # s) = split_on d r @ split_on d s"
proof (induction r)
  case (Cons c r)
  then show ?case by (cases "split_on d r") auto
qed simp

lemma join_with_append:
  "ss \<noteq> [] \<Longrightarrow> ts \<noteq> [] \<Longrightarrow> join_with d (ss @ ts) = join_with d ss @ d @ join_with d ts"
  by (induction d ss rule: join_with.induct) (auto simp: neq_Nil_conv)

lemma split_on_join_inverse:
  "ss \<noteq> [] \<Longrightarrow> (\<And>s. s \<in> set ss \<Longrightarrow> d \<notin> set s) \<Longrightarrow> split_on d (join_with [d] ss) = ss"
  by (induction "[d]" ss rule: join_with.induct) (auto simp: split_on_single split_on_append)

section \<open>Trimming\<close>

text \<open>
  \<^verbatim>\<open>str::trim\<close> removes characters with the Unicode property \<^verbatim>\<open>White_Space\<close>.  In UTF-8
  these are the one-byte characters U+0009..U+000D and U+0020, and the multi-byte ones
  listed here; \<open>ws_len s\<close> is the byte length of the white-space character \<open>s\<close> starts
  with (0 if it starts with none).
\<close>

definition ws_multibyte :: "string list" where
  "ws_multibyte =
    [[CHR 0xC2, CHR 0x85], [CHR 0xC2, CHR 0xA0], [CHR 0xE1, CHR 0x9A, CHR 0x80]]
    @ map (\<lambda>b. [CHR 0xE2, CHR 0x80, b])
        [CHR 0x80, CHR 0x81, CHR 0x82, CHR 0x83, CHR 0x84, CHR 0x85, CHR 0x86, CHR 0x87,
         CHR 0x88, CHR 0x89, CHR 0x8A, CHR 0xA8, CHR 0xA9, CHR 0xAF]
    @ [[CHR 0xE2, CHR 0x81, CHR 0x9F], [CHR 0xE3, CHR 0x80, CHR 0x80]]"

definition is_ws_byte :: "char \<Rightarrow> bool" where
  "is_ws_byte c \<longleftrightarrow> c = CHR 0x20 \<or> (CHR 0x09 \<le> c \<and> c \<le> CHR 0x0D)"

definition ws_len_in :: "string list \<Rightarrow> string \<Rightarrow> nat" where
  "ws_len_in ws s =
     (case s of [] \<Rightarrow> 0
      | c # _ \<Rightarrow> (if is_ws_byte c then 1
                  else (case List.find (\<lambda>w. starts_with w s) ws of None \<Rightarrow> 0 | Some w \<Rightarrow> length w)))"

fun trim_by :: "nat \<Rightarrow> string list \<Rightarrow> string \<Rightarrow> string" where
  "trim_by 0 ws s = s"
| "trim_by (Suc n) ws s = (if ws_len_in ws s = 0 then s else trim_by n ws (drop (ws_len_in ws s) s))"

text \<open>The end is trimmed on the reversed string, with the reversed encodings; a round
  removes at least one byte, so \<open>length s\<close> rounds are enough (\<open>trim_by_enough\<close>).\<close>

definition trim_start :: "string \<Rightarrow> string" where
  "trim_start s = trim_by (length s) ws_multibyte s"

definition trim_end :: "string \<Rightarrow> string" where
  "trim_end s = rev (trim_by (length s) (map rev ws_multibyte) (rev s))"

definition str_trim :: "string \<Rightarrow> string" where
  "str_trim s = trim_end (trim_start s)"

lemma trim_by_enough: "length s \<le> n \<Longrightarrow> ws_len_in ws (trim_by n ws s) = 0"
proof (induction n arbitrary: s)
  case 0
  then show ?case by (simp add: ws_len_in_def)
next
  case (Suc n)
  show ?case
  proof (cases "ws_len_in ws s = 0")
    case False
    then have "length (drop (ws_len_in ws s) s) \<le> n" using Suc.prems by simp
    then show ?thesis using False Suc.IH by simp
  qed simp
qed

lemma trim_by_suffix: "\<exists>p. s = p @ trim_by n ws s"
proof (induction n arbitrary: s)
  case (Suc n)
  obtain p where "drop (ws_len_in ws s) s = p @ trim_by n ws (drop (ws_len_in ws s) s)"
    using Suc.IH by blast
  then have "s = (take (ws_len_in ws s) s @ p) @ trim_by n ws (drop (ws_len_in ws s) s)"
    by (metis append.assoc append_take_drop_id)
  then show ?case by (metis append_Nil trim_by.simps(2))
qed simp

lemma str_trim_sublist: "\<exists>p q. s = p @ str_trim s @ q"
proof -
  obtain p where p: "s = p @ trim_start s"
    using trim_by_suffix unfolding trim_start_def by blast
  obtain q where "rev (trim_start s) = q @ rev (trim_end (trim_start s))"
    using trim_by_suffix unfolding trim_end_def by (metis rev_rev_ident)
  then have "trim_start s = trim_end (trim_start s) @ rev q"
    by (metis rev_append rev_rev_ident)
  with p show ?thesis unfolding str_trim_def by metis
qed

lemma length_str_trim: "length (str_trim s) \<le> length s"
  using str_trim_sublist [of s] by (metis length_append le_add1 le_add2 le_trans)

lemma trim_by_no_ws: "ws_len_in ws s = 0 \<Longrightarrow> trim_by n ws s = s"
  by (cases n) simp_all

text \<open>A string whose first and last bytes are ASCII and not white space is already trimmed.\<close>

definition solid :: "char \<Rightarrow> bool" where
  "solid c \<longleftrightarrow> c < CHR 0x80 \<and> \<not> is_ws_byte c"

lemma find_append:
  "List.find P (xs @ ys) = (case List.find P xs of Some x \<Rightarrow> Some x | None \<Rightarrow> List.find P ys)"
  by (induction xs) auto

lemma find_None_if: "(\<And>w. w \<in> set ws \<Longrightarrow> \<not> P w) \<Longrightarrow> List.find P ws = None"
  by (simp add: find_None_iff)

lemma ws_multibyte_hd:
  "w \<in> set ws_multibyte \<Longrightarrow> CHR 0x80 \<le> hd w \<and> w \<noteq> [] \<and> CHR 0x80 \<le> last w"
  by (auto simp: ws_multibyte_def less_eq_char_def)

lemma ws_len_in_solid:
  assumes "solid (hd s)" and "\<And>w. w \<in> set ws \<Longrightarrow> w \<noteq> [] \<and> CHR 0x80 \<le> hd w"
  shows "ws_len_in ws s = 0"
proof (cases s)
  case (Cons c s')
  have "List.find (\<lambda>w. starts_with w s) ws = None"
  proof (rule find_None_if)
    fix w assume "w \<in> set ws"
    then obtain d w' where "w = d # w'" and "CHR 0x80 \<le> d"
      using assms(2) by (metis list.collapse)
    with assms(1) Cons show "\<not> starts_with w s" by (auto simp: solid_def)
  qed
  with Cons assms(1) show ?thesis by (auto simp: ws_len_in_def solid_def)
qed (simp add: ws_len_in_def)

lemma str_trim_solid:
  assumes "s \<noteq> []" and "solid (hd s)" and "solid (last s)"
  shows "str_trim s = s"
proof -
  have "trim_start s = s"
    unfolding trim_start_def
    by (rule trim_by_no_ws, rule ws_len_in_solid [OF assms(2)]) (use ws_multibyte_hd in blast)
  moreover have "trim_end s = s"
  proof -
    have "solid (hd (rev s))" using assms by (simp add: hd_rev)
    then have "ws_len_in (map rev ws_multibyte) (rev s) = 0"
      by (rule ws_len_in_solid) (use ws_multibyte_hd in \<open>auto simp: hd_rev\<close>)
    then show ?thesis by (simp add: trim_end_def trim_by_no_ws)
  qed
  ultimately show ?thesis by (simp add: str_trim_def)
qed

lemma str_trim_Nil [simp]: "str_trim [] = []"
  by (simp add: str_trim_def trim_start_def trim_end_def)

section \<open>Decimal numbers\<close>

definition all_digits :: "string \<Rightarrow> bool" where
  "all_digits s \<longleftrightarrow> s \<noteq> [] \<and> list_all is_ascii_digit s"

definition nat_of_digits :: "string \<Rightarrow> nat" where
  "nat_of_digits s = fold (\<lambda>c n. 10 * n + digit_val c) s 0"

text \<open>\<^verbatim>\<open>str::parse\<close> into an unsigned type of maximum \<open>mx\<close>: an optional \<^verbatim>\<open>+\<close>, then digits.\<close>

definition parse_unsigned :: "nat \<Rightarrow> string \<Rightarrow> nat option" where
  "parse_unsigned mx s =
     (let d = (case s of c # r \<Rightarrow> if c = CHR ''+'' then r else s | [] \<Rightarrow> s) in
      if all_digits d \<and> nat_of_digits d \<le> mx then Some (nat_of_digits d) else None)"

definition u64_max :: nat where "u64_max = 2 ^ 64 - 1"

definition parse_i64 :: "string \<Rightarrow> int option" where
  "parse_i64 s =
     (case s of [] \<Rightarrow> None
      | c # r \<Rightarrow>
          (let d = (if c = CHR ''+'' \<or> c = CHR ''-'' then r else s);
               n = (if c = CHR ''-'' then - int (nat_of_digits d) else int (nat_of_digits d))
           in if all_digits d \<and> - (2 ^ 63) \<le> n \<and> n < 2 ^ 63 then Some n else None))"

lemma parse_unsigned_bound: "parse_unsigned mx s = Some n \<Longrightarrow> n \<le> mx"
  by (auto simp: parse_unsigned_def Let_def split: if_splits)

lemma parse_i64_bound: "parse_i64 s = Some n \<Longrightarrow> - (2 ^ 63) \<le> n \<and> n < 2 ^ 63"
  by (auto simp: parse_i64_def Let_def split: list.splits if_splits)

text \<open>\<open>show_nat\<close> prints a number in decimal, as \<^verbatim>\<open>format!\<close> does.\<close>

fun show_nat :: "nat \<Rightarrow> string" where
  "show_nat n = (if n < 10 then [char_of (48 + n)] else show_nat (n div 10) @ [char_of (48 + n mod 10)])"

declare show_nat.simps [simp del]

lemma digit_char: "n < 10 \<Longrightarrow> is_ascii_digit (char_of (48 + n)) \<and> digit_val (char_of (48 + n)) = n"
  by (simp add: is_ascii_digit_def digit_val_def less_eq_char_def)

lemma nat_of_digits_snoc: "nat_of_digits (s @ [c]) = 10 * nat_of_digits s + digit_val c"
  by (simp add: nat_of_digits_def)

lemma show_nat_digits: "all_digits (show_nat n) \<and> nat_of_digits (show_nat n) = n"
proof (induction n rule: show_nat.induct)
  case (1 n)
  show ?case
  proof (cases "n < 10")
    case True
    then show ?thesis
      using digit_char [of n] by (simp add: show_nat.simps [of n] all_digits_def nat_of_digits_def)
  next
    case False
    then show ?thesis
      using 1 digit_char [of "n mod 10"] by (simp add: show_nat.simps [of n] all_digits_def nat_of_digits_snoc)
  qed
qed

lemma show_nat_chars: "c \<in> set (show_nat n) \<Longrightarrow> is_ascii_digit c"
  using show_nat_digits [of n] by (auto simp: all_digits_def list_all_iff)

lemma show_nat_not_Nil [simp]: "show_nat n \<noteq> []"
  using show_nat_digits [of n] by (simp add: all_digits_def)

section \<open>Keyed stores\<close>

text \<open>What a client of a keyed store relies on: a write is read back under its key and changes no
  other key.\<close>

locale keyed_store =
  fixes get :: "'s \<Rightarrow> 'k \<Rightarrow> 'v option"
    and put :: "'s \<Rightarrow> 'k \<Rightarrow> 'v \<Rightarrow> 's"
  assumes get_put: "get (put s k v) k' = (if k' = k then Some v else get s k')"
begin

definition put_all :: "'s \<Rightarrow> ('k \<times> 'v) list \<Rightarrow> 's" where
  "put_all s kvs = fold (\<lambda>(k, v) s. put s k v) kvs s"

lemma put_all_simps [simp]:
  "put_all s [] = s"
  "put_all s ((k, v) # kvs) = put_all (put s k v) kvs"
  by (simp_all add: put_all_def)

lemma get_put_same [simp]: "get (put s k v) k = Some v"
  by (simp add: get_put)

lemma get_put_other [simp]: "k' \<noteq> k \<Longrightarrow> get (put s k v) k' = get s k'"
  by (simp add: get_put)

text \<open>After a batch of writes a key holds its last written value, and the old one if it
  was not written.\<close>

lemma get_put_all:
  "get (put_all s kvs) k = (case map_of (rev kvs) k of Some v \<Rightarrow> Some v | None \<Rightarrow> get s k)"
proof (induction kvs arbitrary: s)
  case (Cons kv kvs)
  then show ?case
    by (cases kv) (auto simp: get_put map_add_def split: option.splits)
qed simp

text \<open>Writes of distinct keys may be done in any order.\<close>

lemma get_put_all_perm:
  assumes "distinct (map fst kvs)" and "mset kvs = mset kvs'"
  shows "get (put_all s kvs) k = get (put_all s kvs') k"
proof -
  have set: "set kvs = set kvs'"
    using assms(2) by (metis set_mset_mset)
  have "mset (map fst kvs) = mset (map fst kvs')"
    using assms(2) by simp
  then have "distinct (map fst kvs')"
    using assms(1) mset_eq_imp_distinct_iff by blast
  then have d: "distinct (map fst (rev kvs))" "distinct (map fst (rev kvs'))"
    using assms(1) by (simp_all flip: rev_map)
  have "map_of (rev kvs) = map_of (rev kvs')"
    using map_of_eqI [of "rev kvs" "rev kvs'"] d set
    by (metis (no_types, lifting) ext map_of_eq_None_iff map_of_is_SomeI map_of_SomeD
        option.exhaust set_rev image_set set_map)
  then show ?thesis by (simp add: get_put_all)
qed

end

text \<open>\<^verbatim>\<open>Iterator::position\<close>.\<close>

fun position :: "('a \<Rightarrow> bool) \<Rightarrow> 'a list \<Rightarrow> nat option" where
  "position P [] = None"
| "position P (x # xs) = (if P x then Some 0 else map_option Suc (position P xs))"

lemma position_Some: "position P xs = Some i \<Longrightarrow> i < length xs \<and> P (xs ! i)"
  by (induction xs arbitrary: i) (auto split: if_splits)

end
