(* ===== verification/Flow_Json.thy ===== *)
theory Flow_Json
  imports Wafer_Prelude "HOL-Library.Log_Nat"
begin

text \<open>
  The JSON values the flow engine computes with (\<^verbatim>\<open>serde_json::Value\<close>) and the binary64
  arithmetic its comparisons use.

  A number is, as in \<^verbatim>\<open>serde_json\<close>, a \<^verbatim>\<open>u64\<close>, a negative \<^verbatim>\<open>i64\<close> or a finite \<^verbatim>\<open>f64\<close>.
  A finite \<^verbatim>\<open>f64\<close> is its exact value, a rational: IEEE comparison and equality of finite
  doubles are comparison and equality of their values (\<^verbatim>\<open>-0.0 == 0.0\<close> included).  An object
  is the entry list of a \<^verbatim>\<open>BTreeMap\<close>: keys distinct and in ascending byte order
  (\<open>json_wf\<close>), so equality of values is equality of the lists.
\<close>

section \<open>Values\<close>

datatype number = PosInt nat | NegInt int | Float rat

datatype json =
    Null
  | Bool bool
  | Number number
  | String string
  | Array "json list"
  | Object "(string \<times> json) list"

text \<open>\<^verbatim>\<open>BTreeMap::insert\<close> and \<^verbatim>\<open>BTreeMap::get\<close> on the ascending entry list.\<close>

fun obj_insert :: "string \<Rightarrow> 'v \<Rightarrow> (string \<times> 'v) list \<Rightarrow> (string \<times> 'v) list" where
  "obj_insert k v [] = [(k, v)]"
| "obj_insert k v ((k', v') # m) =
     (if k = k' then (k, v) # m
      else if k < k' then (k, v) # (k', v') # m
      else (k', v') # obj_insert k v m)"

definition obj_keys_ok :: "(string \<times> 'v) list \<Rightarrow> bool" where
  "obj_keys_ok m \<longleftrightarrow> sorted_wrt (<) (map fst m)"

fun json_wf :: "json \<Rightarrow> bool" where
  "json_wf (Array xs) = list_all json_wf xs"
| "json_wf (Object m) = (obj_keys_ok m \<and> list_all (\<lambda>kv. json_wf (snd kv)) m)"
| "json_wf _ = True"

lemma map_of_obj_insert: "map_of (obj_insert k v m) = (map_of m)(k \<mapsto> v)"
  by (induction k v m rule: obj_insert.induct) auto

lemma set_keys_obj_insert: "fst ` set (obj_insert k v m) = insert k (fst ` set m)"
  by (induction k v m rule: obj_insert.induct) auto

lemma obj_keys_ok_insert: "obj_keys_ok m \<Longrightarrow> obj_keys_ok (obj_insert k v m)"
proof (induction k v m rule: obj_insert.induct)
  case (2 k v k' v' m)
  then show ?case
    using set_keys_obj_insert [of k v m]
    by (auto simp: obj_keys_ok_def not_less_iff_gr_or_eq)
qed (simp add: obj_keys_ok_def)

lemma obj_insert_last:
  assumes "\<And>k'. k' \<in> fst ` set m \<Longrightarrow> k' < k"
  shows "obj_insert k v m = m @ [(k, v)]"
  using assms
proof (induction k v m rule: obj_insert.induct)
  case (2 k v k' v' m)
  then have "k' < k" by simp
  then have "k \<noteq> k'" "\<not> k < k'" by auto
  with 2 show ?case by auto
qed simp

text \<open>Inserting the entries of an ascending list one by one rebuilds the list.\<close>

lemma fold_obj_insert_id:
  assumes "obj_keys_ok (m @ es)"
  shows "fold (\<lambda>(k, v). obj_insert k v) es m = m @ es"
  using assms
proof (induction es arbitrary: m)
  case (Cons e es)
  obtain k v where e: "e = (k, v)" by (cases e)
  with Cons.prems have "obj_insert k v m = m @ [e]"
    by (intro obj_insert_last [of m k v, folded e]) (auto simp: obj_keys_ok_def sorted_wrt_append)
  with Cons e show ?case by simp
qed simp

section \<open>Finite binary64 values\<close>

text \<open>
  \<open>f64_round q\<close> is the binary64 value nearest to \<open>q\<close>, ties to even.  With
  \<open>2 ^ E \<le> \<bar>q\<bar> < 2 ^ (E + 1)\<close> the spacing of doubles around \<open>q\<close> is
  \<open>2 ^ max (E - 52) (- 1074)\<close>.
\<close>

definition two_powi :: "int \<Rightarrow> rat" where
  "two_powi e = (if 0 \<le> e then 2 ^ nat e else 1 / 2 ^ nat (- e))"

definition f64_exponent :: "rat \<Rightarrow> int" where
  "f64_exponent q =
     (let (n, d) = quotient_of \<bar>q\<bar>;
          k = int (floorlog 2 (nat n)) - int (floorlog 2 (nat d))
      in if two_powi k \<le> \<bar>q\<bar> then k else k - 1)"

definition round_half_even :: "rat \<Rightarrow> int" where
  "round_half_even r =
     (let f = \<lfloor>r\<rfloor>; d = r - of_int f
      in if d < 1 / 2 then f else if 1 / 2 < d then f + 1 else if even f then f else f + 1)"

definition f64_round :: "rat \<Rightarrow> rat" where
  "f64_round q =
     (if q = 0 then 0
      else (let u = two_powi (max (f64_exponent q - 52) (- 1074))
            in of_int (round_half_even (q / u)) * u))"

definition f64_overflows :: "rat \<Rightarrow> bool" where
  "f64_overflows q \<longleftrightarrow> 2 ^ 1024 \<le> \<bar>q\<bar>"

text \<open>\<^verbatim>\<open>Number::as_f64\<close>: always present; integers are rounded to the nearest double.\<close>

definition as_f64 :: "number \<Rightarrow> rat" where
  "as_f64 n = (case n of PosInt u \<Rightarrow> f64_round (of_nat u)
                        | NegInt i \<Rightarrow> f64_round (of_int i)
                        | Float f \<Rightarrow> f)"

lemma two_powi_pos: "0 < two_powi e"
  by (simp add: two_powi_def)

lemma round_half_even_int [simp]: "round_half_even (of_int i) = i"
  by (simp add: round_half_even_def)

lemma round_half_even_close: "\<bar>of_int (round_half_even r) - r\<bar> \<le> 1 / 2"
proof -
  have "of_int \<lfloor>r\<rfloor> \<le> r" by (rule of_int_floor_le)
  moreover have "r < of_int \<lfloor>r\<rfloor> + 1" by linarith
  ultimately show ?thesis
    unfolding round_half_even_def Let_def abs_le_iff by (simp split: if_splits del: of_int_floor_le)
qed

lemma f64_round_0 [simp]: "f64_round 0 = 0"
  by (simp add: f64_round_def)

lemma quotient_of_of_int: "quotient_of (of_int a) = (a, 1)"
proof -
  have "quotient_of (Fract a 1) = (a, 1)"
    by (simp add: quotient_of_Fract Rat.normalize_def)
  then show ?thesis by (simp add: Fract_of_int_eq)
qed

lemma f64_exponent_int:
  assumes "i \<noteq> 0"
  shows "f64_exponent (of_int i) = int (floorlog 2 (nat \<bar>i\<bar>)) - 1"
    and "two_powi (f64_exponent (of_int i)) \<le> \<bar>of_int i\<bar>"
proof -
  let ?l = "floorlog 2 (nat \<bar>i\<bar>)"
  have pos: "0 < nat \<bar>i\<bar>" using assms by simp
  then have l: "0 < ?l" by (simp add: floorlog_def)
  have "2 ^ (?l - 1) \<le> nat \<bar>i\<bar>" using floorlog_bounds [OF pos, of 2] by simp
  then have "(2 ^ (?l - 1) :: int) \<le> \<bar>i\<bar>" using pos by (simp add: le_nat_iff)
  then have "(of_int (2 ^ (?l - 1)) :: rat) \<le> of_int \<bar>i\<bar>" by (simp only: of_int_le_iff)
  then have le: "two_powi (int ?l - 1) \<le> \<bar>of_int i\<bar>"
    using l by (simp add: two_powi_def nat_diff_distrib)
  have q: "quotient_of \<bar>of_int i\<bar> = (\<bar>i\<bar>, 1)"
    unfolding of_int_abs [symmetric] by (rule quotient_of_of_int)
  have one: "floorlog 2 1 = 1" by (simp add: floorlog_def)
  show *: "f64_exponent (of_int i) = int ?l - 1"
    unfolding f64_exponent_def q using le one by (simp add: Let_def)
  show "two_powi (f64_exponent (of_int i)) \<le> \<bar>of_int i\<bar>"
    unfolding * by (rule le)
qed

lemma f64_exponent_small_int:
  assumes "i \<noteq> 0" and "\<bar>i\<bar> < 2 ^ 53"
  shows "f64_exponent (of_int i) \<le> 52"
proof -
  have "nat \<bar>i\<bar> < 2 ^ 53" using assms(2) by (simp add: nat_less_iff)
  then have "floorlog 2 (nat \<bar>i\<bar>) \<le> 53"
    using assms(1) by (intro floorlog_leI) simp_all
  then show ?thesis by (simp add: f64_exponent_int [OF assms(1)])
qed

text \<open>Integers below \<open>2 ^ 53\<close> are represented exactly.\<close>

lemma f64_round_small_int:
  assumes "\<bar>i\<bar> < 2 ^ 53"
  shows "f64_round (of_int i) = of_int i"
proof (cases "i = 0")
  case False
  define e where "e = max (f64_exponent (of_int i) - 52) (- 1074)"
  have "e \<le> 0" using f64_exponent_small_int [OF False assms] by (simp add: e_def)
  then have "of_int i / two_powi e = of_int (i * 2 ^ nat (- e))"
    by (cases "e = 0") (simp_all add: two_powi_def)
  then have "of_int (round_half_even (of_int i / two_powi e)) = of_int i / two_powi e"
    by (metis round_half_even_int)
  then show ?thesis
    using False two_powi_pos [of e] by (simp add: f64_round_def Let_def e_def)
qed simp

text \<open>A magnitude of at least one never rounds to zero, so a non-zero integer is a
  non-zero double.\<close>

lemma f64_round_int_nonzero:
  assumes "i \<noteq> 0"
  shows "f64_round (of_int i) \<noteq> 0"
proof -
  define q :: rat where "q = of_int i"
  define e where "e = max (f64_exponent q - 52) (- 1074)"
  have E: "0 \<le> f64_exponent q"
    using assms by (simp add: q_def f64_exponent_int(1) floorlog_def)
  then have "two_powi e \<le> two_powi (f64_exponent q)"
    by (auto simp: e_def two_powi_def divide_le_eq_1 intro: power_increasing order_trans [of _ 1])
  also have "\<dots> \<le> \<bar>q\<bar>" unfolding q_def by (rule f64_exponent_int(2) [OF assms])
  finally have ge: "1 \<le> \<bar>q / two_powi e\<bar>"
    using two_powi_pos [of e] by (simp add: abs_divide)
  have "round_half_even (q / two_powi e) \<noteq> 0"
  proof
    assume "round_half_even (q / two_powi e) = 0"
    then have "\<bar>q / two_powi e\<bar> \<le> 1 / 2"
      using round_half_even_close [of "q / two_powi e"] by (metis abs_minus diff_0 of_int_0)
    with ge show False by linarith
  qed
  then show ?thesis using assms two_powi_pos [of e]
    by (simp add: f64_round_def Let_def q_def e_def)
qed

section \<open>Decimal literals\<close>

text \<open>
  \<^verbatim>\<open>str::parse::<f64>\<close>: an optional sign, digits with an optional point (at least one digit),
  an optional exponent.  The model returns the finite double nearest to the literal;
  \<^verbatim>\<open>inf\<close>, \<^verbatim>\<open>nan\<close> and literals that overflow are \<^const>\<open>None\<close> with the malformed ones, since
  the only caller passes the result to \<^verbatim>\<open>Number::from_f64\<close>, which refuses non-finite values.
\<close>

definition split_exp :: "string \<Rightarrow> string \<times> string option" where
  "split_exp s =
     (let m = takeWhile (\<lambda>c. c \<noteq> CHR ''e'' \<and> c \<noteq> CHR ''E'') s; r = drop (length m) s
      in (m, case r of [] \<Rightarrow> None | _ # e \<Rightarrow> Some e))"

definition parse_exp :: "string option \<Rightarrow> int option" where
  "parse_exp e =
     (case e of None \<Rightarrow> Some 0
      | Some t \<Rightarrow>
          (let neg = (t \<noteq> [] \<and> hd t = CHR ''-'');
               d = (if t \<noteq> [] \<and> (hd t = CHR ''+'' \<or> hd t = CHR ''-'') then tl t else t)
           in if all_digits d then Some (if neg then - int (nat_of_digits d) else int (nat_of_digits d))
              else None))"

definition ten_powi :: "int \<Rightarrow> rat" where
  "ten_powi e = (if 0 \<le> e then 10 ^ nat e else 1 / 10 ^ nat (- e))"

definition parse_decimal :: "string \<Rightarrow> rat option" where
  "parse_decimal s =
     (let neg = (s \<noteq> [] \<and> hd s = CHR ''-'');
          b = (if s \<noteq> [] \<and> (hd s = CHR ''+'' \<or> hd s = CHR ''-'') then tl s else s);
          (m, e) = split_exp b;
          i = takeWhile (\<lambda>c. c \<noteq> dot) m;
          f = (case drop (length i) m of [] \<Rightarrow> [] | _ # r \<Rightarrow> r)
      in if list_all is_ascii_digit i \<and> list_all is_ascii_digit f \<and> i @ f \<noteq> []
         then map_option (\<lambda>x. (if neg then - 1 else 1) * of_nat (nat_of_digits (i @ f))
                               * ten_powi (x - int (length f))) (parse_exp e)
         else None)"

definition parse_f64 :: "string \<Rightarrow> rat option" where
  "parse_f64 s =
     (case parse_decimal s of None \<Rightarrow> None
      | Some q \<Rightarrow> (if f64_overflows (f64_round q) then None else Some (f64_round q)))"

end
