(* ===== verification/Flow_Types.thy ===== *)
theory Flow_Types
  imports Flow_Json
begin

text \<open>
  \<^verbatim>\<open>crates/wafer-flow/src/types.rs\<close>: the data model of a parsed flow document, and the flow
  timeouts with their range check.  A \<^verbatim>\<open>Duration\<close> is a number of milliseconds; maps of the
  document are association lists.
\<close>

section \<open>Timeouts\<close>

type_synonym duration = nat

definition MAX_FLOW_TIMEOUT :: duration where
  "MAX_FLOW_TIMEOUT = 24 * 60 * 60 * 1000"

datatype timeout_reason = ExpectedNumber | MustBePositive | AtMost24h

record invalid_timeout =
  it_value :: string
  it_reason :: timeout_reason

definition check_timeout_range :: "duration \<Rightarrow> timeout_reason + duration" where
  "check_timeout_range d =
     (if d = 0 then Inl MustBePositive
      else if d > MAX_FLOW_TIMEOUT then Inl AtMost24h
      else Inr d)"

record flow_timeout =
  ft_text :: string
  ft_duration :: duration

text \<open>The digits, the unit in seconds and whether the unit is milliseconds.\<close>

definition split_unit :: "string \<Rightarrow> string \<times> nat \<times> bool" where
  "split_unit txt =
     (case strip_suffix ''ms'' txt of Some n \<Rightarrow> (n, 1, True) | None \<Rightarrow>
      (case strip_suffix ''s'' txt of Some n \<Rightarrow> (n, 1, False) | None \<Rightarrow>
       (case strip_suffix ''m'' txt of Some n \<Rightarrow> (n, 60, False) | None \<Rightarrow>
        (case strip_suffix ''h'' txt of Some n \<Rightarrow> (n, 3600, False) | None \<Rightarrow>
         (txt, 1, False)))))"

text \<open>\<^verbatim>\<open>u64::checked_mul\<close>.\<close>

definition checked_mul_u64 :: "nat \<Rightarrow> nat \<Rightarrow> nat option" where
  "checked_mul_u64 a b = (if a * b \<le> u64_max then Some (a * b) else None)"

definition flow_timeout_from_str :: "string \<Rightarrow> invalid_timeout + flow_timeout" where
  "flow_timeout_from_str txt =
     (let invalid = (\<lambda>reason. \<lparr>it_value = txt, it_reason = reason\<rparr>);
          (digits, unit_secs, is_millis) = split_unit txt
      in if \<not> all_digits digits then Inl (invalid ExpectedNumber)
         else (case parse_unsigned u64_max digits of
                 None \<Rightarrow> Inl (invalid AtMost24h)
               | Some n \<Rightarrow>
                   and_then (if is_millis then Inr n
                             else (case checked_mul_u64 n unit_secs of
                                     None \<Rightarrow> Inl (invalid AtMost24h)
                                   | Some secs \<Rightarrow> Inr (1000 * secs)))
                     (\<lambda>d. case check_timeout_range d of
                            Inl reason \<Rightarrow> Inl (invalid reason)
                          | Inr d' \<Rightarrow> Inr \<lparr>ft_text = txt, ft_duration = d'\<rparr>)))"

definition flow_timeout_into_string :: "flow_timeout \<Rightarrow> string" where
  "flow_timeout_into_string t = ft_text t"

datatype flow_timeout_millis = FlowTimeoutMillis nat

fun millis_duration :: "flow_timeout_millis \<Rightarrow> duration" where
  "millis_duration (FlowTimeoutMillis n) = n"

definition flow_timeout_millis_try_from :: "nat \<Rightarrow> invalid_timeout + flow_timeout_millis" where
  "flow_timeout_millis_try_from millis =
     (case check_timeout_range millis of
        Inr _ \<Rightarrow> Inr (FlowTimeoutMillis millis)
      | Inl reason \<Rightarrow> Inl \<lparr>it_value = show_nat millis @ ''ms'', it_reason = reason\<rparr>)"

section \<open>Flow documents\<close>

datatype on_error = Stop | Continue

record flow_config =
  fc_timeout_ms :: "flow_timeout_millis option"
  fc_timeout :: "flow_timeout option"
  fc_max_steps :: "nat option"
  fc_on_error :: "on_error option"

definition config_timeout :: "flow_config \<Rightarrow> duration option" where
  "config_timeout c =
     (case fc_timeout c of
        Some t \<Rightarrow> Some (ft_duration t)
      | None \<Rightarrow> map_option millis_duration (fc_timeout_ms c))"

definition config_on_error :: "flow_config \<Rightarrow> on_error" where
  "config_on_error c = (case fc_on_error c of Some e \<Rightarrow> e | None \<Rightarrow> Stop)"

definition default_config :: flow_config where
  "default_config = \<lparr>fc_timeout_ms = None, fc_timeout = None, fc_max_steps = None, fc_on_error = None\<rparr>"

record next_entry =
  ne_when :: "string option"
  ne_step :: "string option"
  ne_flow :: "string option"

datatype step =
    Step (s_id: string) (s_block: string) (s_input: "json option")
      (s_next: "next_entry list option") (s_each: "string option")
      (s_parallel: "parallel_branch list option") (s_description: "string option")
      (s_config: "json option")
and parallel_branch = ParallelBranch (pb_steps: "step list")

datatype port_schema =
    PortSchema (schema_type: "string option") (properties: "(string \<times> port_schema) list option")
      (items: "port_schema option") (required: "string list option")
      (schema_description: "string option") (default_value: "json option")

record config_map_entry =
  cm_target :: string
  cm_key :: string

record wafer_flow =
  wf_id :: string
  wf_name :: string
  wf_version :: string
  wf_description :: "string option"
  wf_input :: "port_schema option"
  wf_output :: "port_schema option"
  wf_steps :: "step list"
  wf_config :: "flow_config option"
  wf_blocks :: "string list option"
  wf_config_map :: "(string \<times> config_map_entry) list option"
  wf_config_defaults :: "(string \<times> json) list option"

section \<open>Timeouts are parsed exactly\<close>

text \<open>The units a timeout may carry, each with its length in milliseconds.\<close>

definition timeout_units :: "(string \<times> nat) list" where
  "timeout_units = [(''ms'', 1), (''s'', 1000), (''m'', 60000), (''h'', 3600000), ([], 1000)]"

lemma all_digits_last: "all_digits d \<Longrightarrow> is_ascii_digit (last d)"
  by (auto simp: all_digits_def list_all_iff)

lemma ends_with_single: "ends_with [c] s \<longleftrightarrow> s \<noteq> [] \<and> last s = c"
  by (auto simp: ends_with_iff) (metis append_butlast_last_id)

lemma ends_with_ms: "ends_with ''ms'' s \<Longrightarrow> s \<noteq> [] \<and> last s = CHR ''s''"
  by (auto simp: ends_with_iff)

lemma not_digit_unit: "\<not> is_ascii_digit CHR ''m''" "\<not> is_ascii_digit CHR ''s''" "\<not> is_ascii_digit CHR ''h''"
  by (simp_all add: is_ascii_digit_def less_eq_char_def)

lemma digits_no_unit:
  assumes "all_digits d"
  shows "\<not> ends_with ''ms'' d" "\<not> ends_with ''s'' d" "\<not> ends_with ''m'' d" "\<not> ends_with ''h'' d"
    "\<not> ends_with ''ms'' (d @ ''s'')"
  using all_digits_last [OF assms] not_digit_unit ends_with_ms [of d]
  by (auto simp: ends_with_single ends_with_iff dest: arg_cong [of _ _ last])

lemma split_unit_digits:
  assumes "all_digits d"
  shows "split_unit (d @ ''ms'') = (d, 1, True)" "split_unit (d @ ''s'') = (d, 1, False)"
    "split_unit (d @ ''m'') = (d, 60, False)" "split_unit (d @ ''h'') = (d, 3600, False)"
    "split_unit d = (d, 1, False)"
  using digits_no_unit [OF assms] ends_with_ms [of "d @ ''m''"] ends_with_ms [of "d @ ''h''"]
  by (auto simp: split_unit_def strip_suffix_def ends_with_single)

lemma parse_unsigned_digits:
  "all_digits d \<Longrightarrow>
     parse_unsigned mx d = (if nat_of_digits d \<le> mx then Some (nat_of_digits d) else None)"
proof -
  assume d: "all_digits d"
  then obtain c r where "d = c # r" by (cases d) (auto simp: all_digits_def)
  moreover from this d have "c \<noteq> CHR ''+''"
    by (auto simp: all_digits_def is_ascii_digit_def less_eq_char_def)
  ultimately show ?thesis using d by (simp add: parse_unsigned_def)
qed

lemma flow_timeout_digits:
  assumes "all_digits d" and "(u, ms) \<in> set timeout_units"
  shows "flow_timeout_from_str (d @ u) =
    (let v = nat_of_digits d * ms in
     if v = 0 then Inl \<lparr>it_value = d @ u, it_reason = MustBePositive\<rparr>
     else if v > MAX_FLOW_TIMEOUT then Inl \<lparr>it_value = d @ u, it_reason = AtMost24h\<rparr>
     else Inr \<lparr>ft_text = d @ u, ft_duration = v\<rparr>)"
  using assms
  by (auto simp: timeout_units_def flow_timeout_from_str_def split_unit_digits parse_unsigned_digits
      checked_mul_u64_def check_timeout_range_def MAX_FLOW_TIMEOUT_def u64_max_def Let_def)

lemma split_unit_units:
  assumes "split_unit txt = (d, secs, millis)"
  shows "\<exists>u ms. (u, ms) \<in> set timeout_units \<and> txt = d @ u"
  using assms
  by (auto simp: split_unit_def timeout_units_def strip_suffix_Some split: option.splits)

lemma flow_timeout_Inr:
  assumes "flow_timeout_from_str txt = Inr t"
  shows "\<exists>d u ms. all_digits d \<and> (u, ms) \<in> set timeout_units \<and> txt = d @ u"
proof -
  obtain d secs millis where sp: "split_unit txt = (d, secs, millis)"
    by (metis prod_cases3)
  with assms have "all_digits d"
    by (auto simp: flow_timeout_from_str_def split: if_splits)
  with split_unit_units [OF sp] show ?thesis by blast
qed

text \<open>A timeout text is accepted exactly when it is a decimal number followed by one of the
  units \<^verbatim>\<open>ms\<close>, \<^verbatim>\<open>s\<close>, \<^verbatim>\<open>m\<close>, \<^verbatim>\<open>h\<close> or no unit (seconds), and its value lies strictly above zero and
  at most at 24 hours; the result keeps the text and carries exactly that value, however
  many digits the number has (no \<^verbatim>\<open>u64\<close> overflow is ever accepted).\<close>

theorem flow_timeout_exact:
  "flow_timeout_from_str txt = Inr t \<longleftrightarrow>
     (\<exists>d u ms. all_digits d \<and> (u, ms) \<in> set timeout_units \<and> txt = d @ u
        \<and> 0 < nat_of_digits d * ms \<and> nat_of_digits d * ms \<le> MAX_FLOW_TIMEOUT
        \<and> t = \<lparr>ft_text = txt, ft_duration = nat_of_digits d * ms\<rparr>)"
  (is "_ \<longleftrightarrow> ?spec")
proof
  assume ok: "flow_timeout_from_str txt = Inr t"
  then obtain d u ms where d: "all_digits d" "(u, ms) \<in> set timeout_units" "txt = d @ u"
    using flow_timeout_Inr by blast
  with ok flow_timeout_digits [OF d(1,2)] show ?spec
    by (auto simp: Let_def split: if_splits)
next
  assume ?spec
  then show "flow_timeout_from_str txt = Inr t"
    by (auto simp: flow_timeout_digits)
qed

end
