(* ===== verification/Flow_Expr.thy ===== *)
theory Flow_Expr
  imports Flow_Json
begin

text \<open>
  \<^verbatim>\<open>crates/wafer-flow/src/expr.rs\<close>: the parser and the evaluator of \<^verbatim>\<open>when\<close> conditions and
  \<^verbatim>\<open>$.\<close> paths, with the error type of \<^verbatim>\<open>error.rs\<close>.

  An error carries its message as a constructor with the values the message is formatted
  from (\<open>expr_msg\<close>), so two different texts are two different values.  Array literals
  are read by \<^verbatim>\<open>serde_json::from_str\<close>, which is not part of the repository: it is the
  argument \<open>js\<close> of the parser (\<open>None\<close> is a parse failure).
\<close>

section \<open>Errors\<close>

datatype expr_msg =
    PathPrefix string                \<comment> \<open>path must start with \<^verbatim>\<open>$.\<close> but got\<close>
  | PathNoSegment
  | PathEmptySegment string
  | EmptyPath
  | MissingReference "string list"   \<comment> \<open>\<^verbatim>\<open>$.\<close> followed by the joined segments\<close>
  | IndexOutOfBounds nat
  | NonNumericIndex string
  | CannotTraverse json string
  | EmptyExpression
  | MissingLogicalOperand string
  | MissingOperand string string
  | EmptyGroup string
  | UnrecognizedToken string
  | TrailingBackslash
  | IncompleteUnicodeEscape
  | InvalidHexDigit string
  | InvalidCodePoint nat
  | UnknownEscape string
  | MembershipNeedsArray
  | OrderedNeedsNumbers string string string

datatype expr_error =
    InvalidPath expr_msg
  | UnresolvedReference expr_msg
  | TypeError expr_msg
  | Parse expr_msg

section \<open>Expressions\<close>

datatype compare_op = Eq | Ne | Gt | Lt | Ge | Le
datatype logical_op = And | Or
datatype membership_op = In | NotIn

datatype expr =
    Path "string list"
  | Literal json
  | Compare expr compare_op expr
  | Logical expr logical_op expr
  | Membership expr membership_op expr

fun compare_op_str :: "compare_op \<Rightarrow> string" where
  "compare_op_str Eq = ''==''"
| "compare_op_str Ne = ''!=''"
| "compare_op_str Gt = ''>''"
| "compare_op_str Lt = ''<''"
| "compare_op_str Ge = ''>=''"
| "compare_op_str Le = ''<=''"

section \<open>Paths\<close>

definition parse_path :: "string \<Rightarrow> expr_error + string list" where
  "parse_path s =
     (if \<not> starts_with ''$.'' s then Inl (InvalidPath (PathPrefix s))
      else (let rest = drop 2 s in
            if rest = [] then Inl (InvalidPath PathNoSegment)
            else (let segments = split_on dot rest in
                  if list_ex (\<lambda>seg. seg = []) segments then Inl (InvalidPath (PathEmptySegment s))
                  else Inr segments)))"

section \<open>Scanning outside strings and parentheses\<close>

text \<open>The run of backslashes that ends right before position \<open>j\<close>.\<close>

fun backslash_run :: "string \<Rightarrow> nat \<Rightarrow> nat" where
  "backslash_run bytes 0 = 0"
| "backslash_run bytes (Suc j) = (if bytes ! j = backslash then Suc (backslash_run bytes j) else 0)"

definition is_escaped :: "string \<Rightarrow> nat \<Rightarrow> bool" where
  "is_escaped bytes i \<longleftrightarrow> backslash_run bytes i mod 2 = 1"

text \<open>\<open>unquoted_from s i in_string string_char depth\<close> lists the positions from \<open>i\<close> on at
  which \<^verbatim>\<open>for_each_unquoted\<close> calls its closure.\<close>

function unquoted_from :: "string \<Rightarrow> nat \<Rightarrow> bool \<Rightarrow> char \<Rightarrow> int \<Rightarrow> nat list" where
  "unquoted_from s i in_string string_char paren_depth =
     (if i < length s then
        (let b = s ! i in
         if in_string then
           unquoted_from s (Suc i) (\<not> (b = string_char \<and> \<not> is_escaped s i)) string_char paren_depth
         else if b = dquote \<or> b = squote then unquoted_from s (Suc i) True b paren_depth
         else if b = CHR ''('' then unquoted_from s (Suc i) False string_char (paren_depth + 1)
         else if b = CHR '')'' then unquoted_from s (Suc i) False string_char (max (paren_depth - 1) 0)
         else if paren_depth > 0 then unquoted_from s (Suc i) False string_char paren_depth
         else i # unquoted_from s (Suc i) False string_char paren_depth)
      else [])"
  by pat_completeness auto
termination
  by (relation "measure (\<lambda>(s, i, _). length s - i)") auto

definition for_each_unquoted :: "string \<Rightarrow> nat list" where
  "for_each_unquoted s = unquoted_from s 0 False dquote 0"

text \<open>The scan of \<^verbatim>\<open>strip_outer_parens\<close>: \<open>None\<close> when the outer parenthesis closes before the
  end, otherwise the depth at the end.\<close>

function strip_scan :: "string \<Rightarrow> nat \<Rightarrow> bool \<Rightarrow> char \<Rightarrow> int \<Rightarrow> int option" where
  "strip_scan s idx in_string string_char depth =
     (if idx < length s then
        (let b = s ! idx in
         if in_string then
           strip_scan s (Suc idx) (\<not> (b = string_char \<and> \<not> is_escaped s idx)) string_char depth
         else if b = dquote \<or> b = squote then strip_scan s (Suc idx) True b depth
         else if b = CHR ''('' then strip_scan s (Suc idx) False string_char (depth + 1)
         else if b = CHR '')'' then
           (if depth - 1 = 0 \<and> idx \<noteq> length s - 1 then None
            else strip_scan s (Suc idx) False string_char (depth - 1))
         else strip_scan s (Suc idx) False string_char depth)
      else Some depth)"
  by pat_completeness auto
termination
  by (relation "measure (\<lambda>(s, i, _). length s - i)") auto

declare unquoted_from.simps [simp del] strip_scan.simps [simp del]

definition strip_outer_parens :: "string \<Rightarrow> string option" where
  "strip_outer_parens s =
     (if s = [] \<or> hd s \<noteq> CHR ''('' \<or> last s \<noteq> CHR '')'' then None
      else (case strip_scan s 0 False dquote 0 of
              None \<Rightarrow> None
            | Some depth \<Rightarrow>
                (if depth \<noteq> 0 then None
                 else Some (str_trim (take (length s - 2) (drop 1 s))))))"

text \<open>The slice \<open>s[i..i + n]\<close> equals \<open>t\<close>.\<close>

definition slice_is :: "string \<Rightarrow> nat \<Rightarrow> string \<Rightarrow> bool" where
  "slice_is s i t \<longleftrightarrow> i + length t \<le> length s \<and> take (length t) (drop i s) = t"

text \<open>The closure of \<^verbatim>\<open>try_parse_logical\<close>: the state is \<open>(best_or_pos, best_and_pos)\<close>.\<close>

definition logical_step :: "string \<Rightarrow> nat \<Rightarrow> nat option \<times> nat option \<Rightarrow> nat option \<times> nat option" where
  "logical_step s i st =
     (if slice_is s i ''&&'' then (fst st, Some i)
      else if slice_is s i ''||'' then (Some i, snd st)
      else st)"

definition find_logical :: "string \<Rightarrow> nat option \<times> nat option" where
  "find_logical s = fold (logical_step s) (for_each_unquoted s) (None, None)"

definition logical_split :: "string \<Rightarrow> (nat \<times> logical_op) option" where
  "logical_split s =
     (case find_logical s of
        (Some pos, _) \<Rightarrow> Some (pos, Or)
      | (None, Some pos) \<Rightarrow> Some (pos, And)
      | (None, None) \<Rightarrow> None)"

definition find_keyword :: "string \<Rightarrow> string \<Rightarrow> nat option" where
  "find_keyword s keyword =
     List.find (\<lambda>i. slice_is s i keyword
                 \<and> (i = 0 \<or> is_ascii_whitespace (s ! (i - 1)))
                 \<and> (i + length keyword \<ge> length s \<or> is_ascii_whitespace (s ! (i + length keyword))))
       (for_each_unquoted s)"

definition operator_at :: "string \<Rightarrow> string \<Rightarrow> nat \<Rightarrow> bool" where
  "operator_at s op i \<longleftrightarrow>
     slice_is s i op
     \<and> \<not> (length op = 1 \<and> (hd op = CHR ''>'' \<or> hd op = CHR ''<'')
          \<and> i + 1 < length s \<and> s ! (i + 1) = CHR ''='')
     \<and> \<not> (length op = 1 \<and> hd op = CHR ''='' \<and> i > 0
          \<and> s ! (i - 1) \<in> {CHR ''!'', CHR ''='', CHR ''>'', CHR ''<''})"

definition find_operator :: "string \<Rightarrow> string \<Rightarrow> nat option" where
  "find_operator s op = List.find (operator_at s op) (for_each_unquoted s)"

definition compare_tokens :: "compare_op list" where
  "compare_tokens = [Eq, Ne, Ge, Le, Gt, Lt]"

text \<open>The first operator of the list that occurs, with its position.\<close>

fun find_comparison :: "string \<Rightarrow> compare_op list \<Rightarrow> (nat \<times> compare_op) option" where
  "find_comparison s [] = None"
| "find_comparison s (op # ops) =
     (case find_operator s (compare_op_str op) of
        Some pos \<Rightarrow> Some (pos, op)
      | None \<Rightarrow> find_comparison s ops)"

definition find_membership :: "string \<Rightarrow> (nat \<times> membership_op) option" where
  "find_membership s =
     (case find_keyword s ''not in'' of
        Some pos \<Rightarrow> Some (pos, NotIn)
      | None \<Rightarrow> map_option (\<lambda>pos. (pos, In)) (find_keyword s ''in''))"

fun membership_str :: "membership_op \<Rightarrow> string" where
  "membership_str NotIn = ''not in''"
| "membership_str In = ''in''"

section \<open>String literals\<close>

text \<open>The first character of a UTF-8 string, and the encoding of a scalar value below
  \<open>0x10000\<close>.\<close>

definition utf8_width :: "char \<Rightarrow> nat" where
  "utf8_width c = (if c < CHR 0x80 then 1 else if c < CHR 0xE0 then 2
                   else if c < CHR 0xF0 then 3 else 4)"

definition first_char :: "string \<Rightarrow> string" where
  "first_char s = (case s of [] \<Rightarrow> [] | c # _ \<Rightarrow> take (utf8_width c) s)"

definition utf8_encode :: "nat \<Rightarrow> string" where
  "utf8_encode n =
     (if n < 0x80 then [char_of n]
      else if n < 0x800 then [char_of (0xC0 + n div 64), char_of (0x80 + n mod 64)]
      else [char_of (0xE0 + n div 4096), char_of (0x80 + n div 64 mod 64), char_of (0x80 + n mod 64)])"

definition hex_val :: "char \<Rightarrow> nat option" where
  "hex_val c =
     (if is_ascii_digit c then Some (digit_val c)
      else if CHR ''a'' \<le> c \<and> c \<le> CHR ''f'' then Some ((of_char c :: nat) - 87)
      else if CHR ''A'' \<le> c \<and> c \<le> CHR ''F'' then Some ((of_char c :: nat) - 55)
      else None)"

text \<open>\<open>hex_digits n code s\<close> reads \<open>n\<close> more hexadecimal digits.\<close>

fun hex_digits :: "nat \<Rightarrow> nat \<Rightarrow> string \<Rightarrow> expr_error + nat \<times> string" where
  "hex_digits 0 code s = Inr (code, s)"
| "hex_digits (Suc n) code s =
     (case s of [] \<Rightarrow> Inl (Parse IncompleteUnicodeEscape)
      | h # r \<Rightarrow> (case hex_val h of None \<Rightarrow> Inl (Parse (InvalidHexDigit (first_char s)))
                  | Some d \<Rightarrow> hex_digits n (code * 16 + d) r))"

lemma hex_digits_length: "hex_digits n code s = Inr (c, r) \<Longrightarrow> length r \<le> length s"
  by (induction n code s arbitrary: c r rule: hex_digits.induct)
     (fastforce split: list.splits option.splits)+

definition simple_escape :: "char \<Rightarrow> char option" where
  "simple_escape esc =
     (if esc = CHR ''n'' then Some (CHR 0x0A)
      else if esc = CHR ''t'' then Some (CHR 0x09)
      else if esc = CHR ''r'' then Some (CHR 0x0D)
      else if esc = CHR ''b'' then Some (CHR 0x08)
      else if esc = CHR ''f'' then Some (CHR 0x0C)
      else if esc = dquote then Some dquote
      else if esc = squote then Some squote
      else if esc = backslash then Some backslash
      else if esc = slash then Some slash
      else None)"

function unescape :: "string \<Rightarrow> expr_error + string" where
  "unescape [] = Inr []"
| "unescape (c # s) =
     (if c \<noteq> backslash then and_then (unescape s) (\<lambda>out. Inr (c # out))
      else (case s of [] \<Rightarrow> Inl (Parse TrailingBackslash)
            | esc # r \<Rightarrow>
                (case simple_escape esc of
                   Some ch \<Rightarrow> and_then (unescape r) (\<lambda>out. Inr (ch # out))
                 | None \<Rightarrow>
                     (if esc = CHR ''u'' then
                        (case hex_digits 4 0 r of Inl e \<Rightarrow> Inl e
                         | Inr (code, r') \<Rightarrow>
                             (if 0xD800 \<le> code \<and> code \<le> 0xDFFF
                              then Inl (Parse (InvalidCodePoint code))
                              else and_then (unescape r') (\<lambda>out. Inr (utf8_encode code @ out))))
                      else Inl (Parse (UnknownEscape (first_char s)))))))"
  by pat_completeness auto
termination
  by (relation "measure length") (auto dest!: hex_digits_length)

definition unescape_string_literal :: "string \<Rightarrow> expr_error + string" where
  "unescape_string_literal inner =
     (if backslash \<notin> set inner then Inr inner else unescape inner)"

section \<open>The parser\<close>

definition number_of_i64 :: "int \<Rightarrow> number" where
  "number_of_i64 n = (if 0 \<le> n then PosInt (nat n) else NegInt n)"

text \<open>\<^verbatim>\<open>parse_atom\<close> once the parenthesised group is ruled out.\<close>

definition parse_plain_atom :: "(string \<Rightarrow> json option) \<Rightarrow> string \<Rightarrow> expr_error + expr" where
  "parse_plain_atom js s =
     (if starts_with ''$.'' s then and_then (parse_path s) (\<lambda>p. Inr (Path p))
      else if length s \<ge> 2 \<and> ((hd s = dquote \<and> last s = dquote) \<or> (hd s = squote \<and> last s = squote))
      then and_then (unescape_string_literal (take (length s - 2) (drop 1 s)))
             (\<lambda>t. Inr (Literal (String t)))
      else if s = ''true'' then Inr (Literal (Bool True))
      else if s = ''false'' then Inr (Literal (Bool False))
      else if s = ''null'' then Inr (Literal Null)
      else (case parse_i64 s of
              Some n \<Rightarrow> Inr (Literal (Number (number_of_i64 n)))
            | None \<Rightarrow>
                (case parse_f64 s of
                   Some f \<Rightarrow> Inr (Literal (Number (Float f)))
                 | None \<Rightarrow>
                     (if s \<noteq> [] \<and> hd s = CHR ''['' \<and> last s = CHR '']'' then
                        (case js s of Some v \<Rightarrow> Inr (Literal v)
                                    | None \<Rightarrow> Inl (Parse (UnrecognizedToken s)))
                      else Inl (Parse (UnrecognizedToken s))))))"

lemma unquoted_from_bound: "p \<in> set (unquoted_from s i b c d) \<Longrightarrow> i \<le> p \<and> p < length s"
proof (induction s i b c d rule: unquoted_from.induct)
  case (1 s i b c d)
  show ?case
  proof (cases "i < length s")
    case True
    then show ?thesis
      using 1 by (subst (asm) (2) unquoted_from.simps) (auto simp: Let_def split: if_splits)
  next
    case False
    with 1 show ?thesis by (simp add: unquoted_from.simps)
  qed
qed

lemma for_each_unquoted_bound: "p \<in> set (for_each_unquoted s) \<Longrightarrow> p < length s"
  unfolding for_each_unquoted_def by (drule unquoted_from_bound) simp

lemma find_Some_in: "List.find P xs = Some x \<Longrightarrow> x \<in> set xs \<and> P x"
  by (auto simp: find_Some_iff)

lemma find_logical_bound:
  assumes "find_logical s = (o1, a1)"
  shows "(\<forall>p. o1 = Some p \<longrightarrow> slice_is s p ''||'') \<and> (\<forall>p. a1 = Some p \<longrightarrow> slice_is s p ''&&'')"
proof -
  let ?ok = "\<lambda>st. (\<forall>p. fst st = Some p \<longrightarrow> slice_is s p ''||'')
                 \<and> (\<forall>p. snd st = Some p \<longrightarrow> slice_is s p ''&&'')"
  have "?ok (find_logical s)"
    unfolding find_logical_def
    by (rule fold_invariant [where Q = "\<lambda>_. True"]) (auto simp: logical_step_def)
  with assms show ?thesis by simp
qed

lemma logical_split_bound: "logical_split s = Some (pos, op) \<Longrightarrow> pos + 2 \<le> length s"
  by (auto simp: logical_split_def slice_is_def split: prod.splits option.splits
      dest!: find_logical_bound)

lemma find_comparison_bound:
  "find_comparison s ops = Some (pos, op) \<Longrightarrow> pos + length (compare_op_str op) \<le> length s"
  by (induction s ops rule: find_comparison.induct)
     (auto simp: find_operator_def operator_at_def slice_is_def split: option.splits
       dest!: find_Some_in)

lemma compare_op_str_pos [simp]: "0 < length (compare_op_str op)"
  by (cases op) simp_all

lemma find_membership_bound:
  "find_membership s = Some (pos, op) \<Longrightarrow> pos + length (membership_str op) \<le> length s"
  by (auto simp: find_membership_def find_keyword_def slice_is_def split: option.splits
       dest!: find_Some_in)

lemma membership_str_pos [simp]: "0 < length (membership_str op)"
  by (cases op) simp_all

lemma strip_outer_parens_shorter: "strip_outer_parens s = Some t \<Longrightarrow> length t < length s"
proof -
  assume "strip_outer_parens s = Some t"
  then have "s \<noteq> []" and "t = str_trim (take (length s - 2) (drop 1 s))"
    by (auto simp: strip_outer_parens_def split: if_splits option.splits)
  moreover have "length (take (length s - 2) (drop 1 s)) < length s"
    using \<open>s \<noteq> []\<close> by (cases s) simp_all
  ultimately show "length t < length s"
    using length_str_trim le_less_trans by blast
qed

lemma trim_cut_shorter:
  assumes "pos + n \<le> length s" and "0 < n"
  shows "length (str_trim (take pos s)) < length s" and "length (str_trim (drop (pos + n) s)) < length s"
  using assms length_str_trim [of "take pos s"] length_str_trim [of "drop (pos + n) s"]
  by simp_all

lemma logical_split_shorter:
  "logical_split s = Some (pos, op) \<Longrightarrow>
     length (str_trim (take pos s)) < length s \<and> length (str_trim (drop (pos + 2) s)) < length s"
  by (intro conjI; rule trim_cut_shorter [OF logical_split_bound], assumption, simp)

lemma find_comparison_shorter:
  "find_comparison s ops = Some (pos, op) \<Longrightarrow>
     length (str_trim (take pos s)) < length s
     \<and> length (str_trim (drop (pos + length (compare_op_str op)) s)) < length s"
  by (intro conjI; rule trim_cut_shorter [OF find_comparison_bound compare_op_str_pos], assumption)

lemma find_membership_shorter:
  "find_membership s = Some (pos, op) \<Longrightarrow>
     length (str_trim (take pos s)) < length s
     \<and> length (str_trim (drop (pos + length (membership_str op)) s)) < length s"
  by (intro conjI; rule trim_cut_shorter [OF find_membership_bound membership_str_pos], assumption)

lemma strip_trim_shorter: "strip_outer_parens (str_trim s) = Some t \<Longrightarrow> length t < length s"
  by (drule strip_outer_parens_shorter) (rule less_le_trans [OF _ length_str_trim])

lemma str_trim_cases: "length (str_trim s) < length s \<or> length (str_trim s) = length s"
  using length_str_trim [of s] by auto

text \<open>
  The five mutually recursive functions.  Each recursive call is on a shorter string, or
  on the same string by a function of lower rank in the order \<^verbatim>\<open>parse_expr\<close>, the three
  \<^verbatim>\<open>try_parse_*\<close>, \<^verbatim>\<open>parse_atom\<close>.
\<close>

function (sequential)
  parse_expr :: "(string \<Rightarrow> json option) \<Rightarrow> string \<Rightarrow> expr_error + expr" and
  try_parse_logical :: "(string \<Rightarrow> json option) \<Rightarrow> string \<Rightarrow> expr_error + expr option" and
  try_parse_comparison :: "(string \<Rightarrow> json option) \<Rightarrow> string \<Rightarrow> expr_error + expr option" and
  try_parse_membership :: "(string \<Rightarrow> json option) \<Rightarrow> string \<Rightarrow> expr_error + expr option" and
  parse_atom :: "(string \<Rightarrow> json option) \<Rightarrow> string \<Rightarrow> expr_error + expr"
where
  "parse_expr js s0 =
     (let s = str_trim s0 in
      if s = [] then Inl (Parse EmptyExpression)
      else and_then (try_parse_logical js s) (\<lambda>l.
           case l of Some e \<Rightarrow> Inr e
           | None \<Rightarrow> and_then (try_parse_comparison js s) (\<lambda>c.
             case c of Some e \<Rightarrow> Inr e
             | None \<Rightarrow> and_then (try_parse_membership js s) (\<lambda>m.
               case m of Some e \<Rightarrow> Inr e
               | None \<Rightarrow> parse_atom js s))))"
| "try_parse_logical js s =
     (case logical_split s of
        None \<Rightarrow> Inr None
      | Some (pos, op) \<Rightarrow>
          (let left = str_trim (take pos s); right = str_trim (drop (pos + 2) s) in
           if left = [] \<or> right = [] then Inl (Parse (MissingLogicalOperand s))
           else and_then (parse_expr js left) (\<lambda>l.
                and_then (parse_expr js right) (\<lambda>r. Inr (Some (Logical l op r))))))"
| "try_parse_comparison js s =
     (case find_comparison s compare_tokens of
        None \<Rightarrow> Inr None
      | Some (pos, op) \<Rightarrow>
          (let left = str_trim (take pos s);
               right = str_trim (drop (pos + length (compare_op_str op)) s) in
           if left = [] \<or> right = [] then Inl (Parse (MissingOperand (compare_op_str op) s))
           else and_then (parse_atom js left) (\<lambda>l.
                and_then (parse_atom js right) (\<lambda>r. Inr (Some (Compare l op r))))))"
| "try_parse_membership js s =
     (case find_membership s of
        None \<Rightarrow> Inr None
      | Some (pos, op) \<Rightarrow>
          (let left = str_trim (take pos s);
               right = str_trim (drop (pos + length (membership_str op)) s) in
           if left = [] \<or> right = [] then Inl (Parse (MissingOperand (membership_str op) s))
           else and_then (parse_atom js left) (\<lambda>l.
                and_then (parse_atom js right) (\<lambda>r. Inr (Some (Membership l op r))))))"
| "parse_atom js s0 =
     (let s = str_trim s0 in
      case strip_outer_parens s of
        Some inner \<Rightarrow>
          (if inner = [] then Inl (Parse (EmptyGroup s)) else parse_expr js inner)
      | None \<Rightarrow> parse_plain_atom js s)"
  by pat_completeness auto
termination
  by (relation "measures [
      case_sum (case_sum (length \<circ> snd) (length \<circ> snd))
        (case_sum (length \<circ> snd) (case_sum (length \<circ> snd) (length \<circ> snd))),
      case_sum (case_sum (\<lambda>_. 2) (\<lambda>_. 1)) (case_sum (\<lambda>_. 1) (case_sum (\<lambda>_. 1) (\<lambda>_. 0)))]")
     (auto simp: str_trim_cases Let_def dest!: logical_split_shorter find_comparison_shorter
        find_membership_shorter strip_trim_shorter)

section \<open>Evaluation\<close>

fun type_name :: "json \<Rightarrow> string" where
  "type_name Null = ''null''"
| "type_name (Bool _) = ''boolean''"
| "type_name (Number _) = ''number''"
| "type_name (String _) = ''string''"
| "type_name (Array _) = ''array''"
| "type_name (Object _) = ''object''"

fun as_bool :: "json \<Rightarrow> bool" where
  "as_bool (Bool b) = b"
| "as_bool Null = False"
| "as_bool (Number n) = (Flow_Json.as_f64 n \<noteq> 0)"
| "as_bool (String s) = (s \<noteq> [])"
| "as_bool (Array a) = (a \<noteq> [])"
| "as_bool (Object m) = (m \<noteq> [])"

text \<open>\<^verbatim>\<open>v.as_f64().or_else(|| v.as_i64() ..)\<close>: every JSON number has an \<^verbatim>\<open>f64\<close> value, so the
  second alternative is never reached.\<close>

definition value_as_f64 :: "json \<Rightarrow> rat option" where
  "value_as_f64 v = (case v of Number n \<Rightarrow> Some (Flow_Json.as_f64 n) | _ \<Rightarrow> None)"

fun ordered :: "compare_op \<Rightarrow> rat \<Rightarrow> rat \<Rightarrow> bool" where
  "ordered Gt l r = (l > r)"
| "ordered Lt l r = (l < r)"
| "ordered Ge l r = (l \<ge> r)"
| "ordered Le l r = (l \<le> r)"
| "ordered _ l r = False"  \<comment> \<open>\<^verbatim>\<open>unreachable!()\<close>: \<^verbatim>\<open>Eq\<close> and \<^verbatim>\<open>Ne\<close> do not get here\<close>

definition compare_values :: "json \<Rightarrow> compare_op \<Rightarrow> json \<Rightarrow> expr_error + bool" where
  "compare_values left op right =
     (case op of Eq \<Rightarrow> Inr (left = right)
      | Ne \<Rightarrow> Inr (left \<noteq> right)
      | _ \<Rightarrow>
         (case (value_as_f64 left, value_as_f64 right) of
            (Some l, Some r) \<Rightarrow> Inr (ordered op l r)
          | _ \<Rightarrow> Inl (TypeError (OrderedNeedsNumbers (compare_op_str op)
                              (type_name left) (type_name right)))))"

fun eval :: "expr \<Rightarrow> (string list \<Rightarrow> expr_error + json) \<Rightarrow> expr_error + json" where
  "eval (Path segments) resolve = resolve segments"
| "eval (Literal v) resolve = Inr v"
| "eval (Compare left op right) resolve =
     and_then (eval left resolve) (\<lambda>lv.
     and_then (eval right resolve) (\<lambda>rv.
     and_then (compare_values lv op rv) (\<lambda>b. Inr (Bool b))))"
| "eval (Logical left op right) resolve =
     and_then (eval left resolve) (\<lambda>lv.
       (case op of
          And \<Rightarrow> (if \<not> as_bool lv then Inr (Bool False)
                  else and_then (eval right resolve) (\<lambda>rv. Inr (Bool (as_bool rv))))
        | Or \<Rightarrow> (if as_bool lv then Inr (Bool True)
                 else and_then (eval right resolve) (\<lambda>rv. Inr (Bool (as_bool rv))))))"
| "eval (Membership val op lst) resolve =
     and_then (eval val resolve) (\<lambda>v.
     and_then (eval lst resolve) (\<lambda>l.
       (case l of
          Array arr \<Rightarrow> Inr (Bool (case op of In \<Rightarrow> v \<in> set arr | NotIn \<Rightarrow> v \<notin> set arr))
        | _ \<Rightarrow> Inl (TypeError MembershipNeedsArray))))"

end
