(* ===== verification/Flow_Validate.thy ===== *)
theory Flow_Validate
  imports Flow_Types Flow_Expr
begin

text \<open>
  \<^verbatim>\<open>crates/wafer-flow/src/validate.rs\<close> with the error type of \<^verbatim>\<open>error.rs\<close>: the checks a flow
  must pass before the runtime takes it.  The vector of errors a function of the source
  appends to is the list the model returns; the set of ids it threads through is returned
  with it.  \<open>flow_ok\<close> states the conditions declaratively, over the flattened steps;
  \<open>validate_Inr_iff\<close> shows that the checks accept exactly the flows that satisfy it.
\<close>

section \<open>Errors\<close>

datatype validation_error =
    DuplicateStepId string
  | ReservedStepId string
  | UnknownNextTarget string string          \<comment> \<open>from, target\<close>
  | NextEntryWithTwoTargets string
  | NextInParallelBranch string
  | TransferToSelf string string             \<comment> \<open>step, flow\<close>
  | NextEntryMissingTarget string
  | MissingDefaultNext string
  | InvalidExpression string expr_error      \<comment> \<open>step, the error whose text is the reason\<close>
  | ConflictingTimeouts
  | EmptyFlow

section \<open>The checks\<close>

definition reserved_ids :: "string list" where
  "reserved_ids = [''input'', ''each'']"

fun collect_step_ids :: "step list \<Rightarrow> string set \<Rightarrow> string set \<times> validation_error list"
and collect_branch_ids :: "parallel_branch list \<Rightarrow> string set \<Rightarrow> string set \<times> validation_error list"
where
  "collect_step_ids [] ids = (ids, [])"
| "collect_step_ids (Step i b inp nx ea par ds cf # steps) ids =
     (let reserved = (if i \<in> set reserved_ids then [ReservedStepId i] else []);
          duplicate = (if i \<in> ids then [DuplicateStepId i] else []);
          (ids1, errs1) = (case par of None \<Rightarrow> (insert i ids, [])
                           | Some branches \<Rightarrow> collect_branch_ids branches (insert i ids));
          (ids2, errs2) = collect_step_ids steps ids1
      in (ids2, reserved @ duplicate @ errs1 @ errs2))"
| "collect_branch_ids [] ids = (ids, [])"
| "collect_branch_ids (ParallelBranch steps # branches) ids =
     (let (ids1, errs1) = collect_step_ids steps ids;
          (ids2, errs2) = collect_branch_ids branches ids1
      in (ids2, errs1 @ errs2))"

fun validate_input_expressions :: "string \<Rightarrow> json \<Rightarrow> validation_error list" where
  "validate_input_expressions sid (String s) =
     (if starts_with ''$.'' s then
        (case parse_path s of Inl e \<Rightarrow> [InvalidExpression sid e] | Inr _ \<Rightarrow> [])
      else [])"
| "validate_input_expressions sid (Object m) =
     concat (map (\<lambda>kv. validate_input_expressions sid (snd kv)) m)"
| "validate_input_expressions sid (Array arr) = concat (map (validate_input_expressions sid) arr)"
| "validate_input_expressions sid _ = []"

text \<open>One \<^verbatim>\<open>next\<close> entry: its target, then its condition.\<close>

definition validate_entry ::
  "(string \<Rightarrow> json option) \<Rightarrow> string \<Rightarrow> string \<Rightarrow> string set \<Rightarrow> next_entry \<Rightarrow> validation_error list" where
  "validate_entry js flow_id sid jump_targets entry =
     (case (ne_step entry, ne_flow entry) of
        (None, None) \<Rightarrow> [NextEntryMissingTarget sid]
      | (Some _, Some _) \<Rightarrow> [NextEntryWithTwoTargets sid]
      | (Some target, None) \<Rightarrow>
          (if target \<notin> jump_targets then [UnknownNextTarget sid target] else [])
      | (None, Some target_flow) \<Rightarrow>
          (if target_flow = flow_id then [TransferToSelf sid flow_id] else []))
     @ (case ne_when entry of
          None \<Rightarrow> []
        | Some w \<Rightarrow> (case parse_expr js w of Inl e \<Rightarrow> [InvalidExpression sid e] | Inr _ \<Rightarrow> []))"

definition validate_next ::
  "(string \<Rightarrow> json option) \<Rightarrow> string \<Rightarrow> string \<Rightarrow> string set \<Rightarrow> bool \<Rightarrow> next_entry list
    \<Rightarrow> validation_error list" where
  "validate_next js flow_id sid jump_targets in_branch entries =
     (if in_branch then [NextInParallelBranch sid] else [])
     @ concat (map (validate_entry js flow_id sid jump_targets) entries)
     @ (if list_ex (\<lambda>e. ne_when e = None) entries then [] else [MissingDefaultNext sid])"

fun validate_steps ::
  "(string \<Rightarrow> json option) \<Rightarrow> string \<Rightarrow> step list \<Rightarrow> string set \<Rightarrow> bool \<Rightarrow> validation_error list"
and validate_branches ::
  "(string \<Rightarrow> json option) \<Rightarrow> string \<Rightarrow> parallel_branch list \<Rightarrow> string set \<Rightarrow> validation_error list"
where
  "validate_steps js flow_id [] jump_targets in_branch = []"
| "validate_steps js flow_id (Step i b inp nx ea par ds cf # steps) jump_targets in_branch =
     (case nx of None \<Rightarrow> []
      | Some entries \<Rightarrow> validate_next js flow_id i jump_targets in_branch entries)
     @ (case ea of None \<Rightarrow> []
        | Some each_expr \<Rightarrow>
            (case parse_path each_expr of Inl e \<Rightarrow> [InvalidExpression i e] | Inr _ \<Rightarrow> []))
     @ (case inp of None \<Rightarrow> [] | Some v \<Rightarrow> validate_input_expressions i v)
     @ (case par of None \<Rightarrow> [] | Some branches \<Rightarrow> validate_branches js flow_id branches jump_targets)
     @ validate_steps js flow_id steps jump_targets in_branch"
| "validate_branches js flow_id [] jump_targets = []"
| "validate_branches js flow_id (ParallelBranch steps # branches) jump_targets =
     validate_steps js flow_id steps jump_targets True
     @ validate_branches js flow_id branches jump_targets"

definition validate :: "(string \<Rightarrow> json option) \<Rightarrow> wafer_flow \<Rightarrow> validation_error list + unit" where
  "validate js flow =
     (if wf_steps flow = [] then Inl [EmptyFlow]
      else
        (let conflicting = (case wf_config flow of
                 Some c \<Rightarrow> (if fc_timeout c \<noteq> None \<and> fc_timeout_ms c \<noteq> None
                            then [ConflictingTimeouts] else [])
               | None \<Rightarrow> []);
             ids = snd (collect_step_ids (wf_steps flow) {});
             jump_targets = set (map s_id (wf_steps flow));
             errors = conflicting @ ids
               @ validate_steps js (wf_id flow) (wf_steps flow) jump_targets False
         in if errors = [] then Inr () else Inl errors))"

section \<open>What a valid flow is\<close>

text \<open>The steps of a list with those of their branches, in document order; the flag says
  whether a step is inside a branch.\<close>

fun all_steps :: "bool \<Rightarrow> step list \<Rightarrow> (bool \<times> step) list"
and all_branch_steps :: "parallel_branch list \<Rightarrow> (bool \<times> step) list" where
  "all_steps inb [] = []"
| "all_steps inb (Step i b inp nx ea par ds cf # steps) =
     (inb, Step i b inp nx ea par ds cf)
     # (case par of None \<Rightarrow> [] | Some branches \<Rightarrow> all_branch_steps branches)
     @ all_steps inb steps"
| "all_branch_steps [] = []"
| "all_branch_steps (ParallelBranch steps # branches) = all_steps True steps @ all_branch_steps branches"

definition entry_ok :: "(string \<Rightarrow> json option) \<Rightarrow> string \<Rightarrow> string set \<Rightarrow> next_entry \<Rightarrow> bool" where
  "entry_ok js flow_id targets e \<longleftrightarrow>
     ((\<exists>t. ne_step e = Some t \<and> ne_flow e = None \<and> t \<in> targets)
      \<or> (\<exists>f. ne_step e = None \<and> ne_flow e = Some f \<and> f \<noteq> flow_id))
     \<and> (\<forall>w. ne_when e = Some w \<longrightarrow> (\<exists>x. parse_expr js w = Inr x))"

fun template_ok :: "json \<Rightarrow> bool" where
  "template_ok (String s) = (starts_with ''$.'' s \<longrightarrow> (\<exists>p. parse_path s = Inr p))"
| "template_ok (Object m) = (\<forall>kv \<in> set m. template_ok (snd kv))"
| "template_ok (Array arr) = (\<forall>v \<in> set arr. template_ok v)"
| "template_ok _ = True"

definition step_ok :: "(string \<Rightarrow> json option) \<Rightarrow> string \<Rightarrow> string set \<Rightarrow> bool \<times> step \<Rightarrow> bool" where
  "step_ok js flow_id targets bs \<longleftrightarrow>
     (\<forall>entries. s_next (snd bs) = Some entries \<longrightarrow>
        \<not> fst bs \<and> (\<forall>e \<in> set entries. entry_ok js flow_id targets e)
        \<and> (\<exists>e \<in> set entries. ne_when e = None))
     \<and> (\<forall>p. s_each (snd bs) = Some p \<longrightarrow> (\<exists>segs. parse_path p = Inr segs))
     \<and> (\<forall>v. s_input (snd bs) = Some v \<longrightarrow> template_ok v)"

definition flow_ok :: "(string \<Rightarrow> json option) \<Rightarrow> wafer_flow \<Rightarrow> bool" where
  "flow_ok js flow \<longleftrightarrow>
     wf_steps flow \<noteq> []
     \<and> (\<forall>c. wf_config flow = Some c \<longrightarrow> fc_timeout c = None \<or> fc_timeout_ms c = None)
     \<and> distinct (map (s_id \<circ> snd) (all_steps False (wf_steps flow)))
     \<and> (\<forall>bs \<in> set (all_steps False (wf_steps flow)).
          s_id (snd bs) \<notin> set reserved_ids
          \<and> step_ok js (wf_id flow) (s_id ` set (wf_steps flow)) bs)"

section \<open>The checks decide it\<close>

lemma validate_input_Nil: "validate_input_expressions sid v = [] \<longleftrightarrow> template_ok v"
  by (induction v rule: template_ok.induct) (auto split: sum.splits)

lemma validate_entry_Nil:
  "validate_entry js flow_id sid targets e = [] \<longleftrightarrow> entry_ok js flow_id targets e"
  by (auto simp: validate_entry_def entry_ok_def split: option.splits sum.splits if_splits)

lemma validate_next_Nil:
  "validate_next js flow_id sid targets inb entries = [] \<longleftrightarrow>
     \<not> inb \<and> (\<forall>e \<in> set entries. entry_ok js flow_id targets e)
     \<and> (\<exists>e \<in> set entries. ne_when e = None)"
  by (auto simp: validate_next_def validate_entry_Nil list_ex_iff)

lemma step_ok_Step:
  "step_ok js flow_id targets (inb, Step i b inp nx ea par ds cf) \<longleftrightarrow>
     (case nx of None \<Rightarrow> [] | Some entries \<Rightarrow> validate_next js flow_id i targets inb entries) = []
     \<and> (case ea of None \<Rightarrow> []
        | Some p \<Rightarrow> (case parse_path p of Inl e \<Rightarrow> [InvalidExpression i e] | Inr _ \<Rightarrow> [])) = []
     \<and> (case inp of None \<Rightarrow> [] | Some v \<Rightarrow> validate_input_expressions i v) = []"
  by (auto simp: step_ok_def validate_next_Nil validate_input_Nil split: option.splits sum.splits)

lemma validate_steps_Nil:
  "validate_steps js flow_id steps targets inb = [] \<longleftrightarrow>
     (\<forall>bs \<in> set (all_steps inb steps). step_ok js flow_id targets bs)"
  "validate_branches js flow_id branches targets = [] \<longleftrightarrow>
     (\<forall>bs \<in> set (all_branch_steps branches). step_ok js flow_id targets bs)"
proof (induction inb steps and branches rule: all_steps_all_branch_steps.induct)
  case (2 inb i b inp nx ea par ds cf steps)
  then show ?case by (cases par) (simp_all add: step_ok_Step ball_Un)
qed (simp_all add: ball_Un)

text \<open>The check of the ids, over the flattened list of ids.\<close>

fun id_errors :: "string list \<Rightarrow> string set \<Rightarrow> validation_error list" where
  "id_errors [] ids = []"
| "id_errors (i # is) ids =
     (if i \<in> set reserved_ids then [ReservedStepId i] else [])
     @ (if i \<in> ids then [DuplicateStepId i] else [])
     @ id_errors is (insert i ids)"

abbreviation flat_ids :: "(bool \<times> step) list \<Rightarrow> string list" where
  "flat_ids \<equiv> map (s_id \<circ> snd)"

lemma id_errors_append: "id_errors (xs @ ys) ids = id_errors xs ids @ id_errors ys (ids \<union> set xs)"
  by (induction xs arbitrary: ids) simp_all

lemma collect_step_ids_flat:
  "collect_step_ids steps ids =
     (ids \<union> set (flat_ids (all_steps inb steps)), id_errors (flat_ids (all_steps inb steps)) ids)"
  "collect_branch_ids branches ids =
     (ids \<union> set (flat_ids (all_branch_steps branches)), id_errors (flat_ids (all_branch_steps branches)) ids)"
proof (induction inb steps and branches arbitrary: ids and ids
    rule: all_steps_all_branch_steps.induct)
  case (2 inb i b inp nx ea par ds cf steps)
  then show ?case by (cases par) (simp_all add: id_errors_append Un_assoc)
qed (simp_all add: id_errors_append Un_assoc)

lemma id_errors_Nil:
  "id_errors is ids = [] \<longleftrightarrow>
     distinct is \<and> set is \<inter> ids = {} \<and> (\<forall>i \<in> set is. i \<notin> set reserved_ids)"
  by (induction "is" arbitrary: ids) auto

lemma validate_flow_ok: "validate js flow = Inr () \<longleftrightarrow> flow_ok js flow"
  by (auto simp: validate_def flow_ok_def Let_def validate_steps_Nil
      collect_step_ids_flat(1) [where inb = False] id_errors_Nil split: option.splits)

text \<open>C3: Validation accepts a flow exactly when it is well formed: it has a step; it does not
  set both timeouts; the ids of all its steps, those inside parallel branches included, are
  distinct and not reserved; every \<^verbatim>\<open>next\<close> list stands outside branches, has a default
  entry, and each entry names exactly one target, a top-level step or another flow; and
  every condition, \<^verbatim>\<open>each\<close> path and input reference parses.\<close>

theorem validate_Inr_iff: "validate js flow = Inr () \<longleftrightarrow> flow_ok js flow"
  by (rule validate_flow_ok)

end
