(* ===== verification/Flow_Accumulator.thy ===== *)
theory Flow_Accumulator
  imports Flow_Expr
begin

text \<open>
  \<^verbatim>\<open>crates/wafer-flow/src/accumulator.rs\<close> and \<^verbatim>\<open>compiled.rs\<close>: the layered store of step
  outputs, the resolution of \<^verbatim>\<open>$.\<close> references against it, and the compile-once forms of
  paths, conditions and input templates.

  The \<^verbatim>\<open>HashMap\<close> of a layer is a map; the order in which \<^verbatim>\<open>keys()\<close> enumerates it is
  unspecified, so the model returns the set of keys.
\<close>

section \<open>The accumulator\<close>

datatype accumulator = Accumulator "accumulator option" "string \<Rightarrow> json option"

fun acc_data :: "accumulator \<Rightarrow> string \<Rightarrow> json option" where
  "acc_data (Accumulator parent data) = data"

definition acc_new :: accumulator where
  "acc_new = Accumulator None Map.empty"

definition branch_from :: "accumulator \<Rightarrow> accumulator" where
  "branch_from parent = Accumulator (Some parent) Map.empty"

fun acc_set :: "accumulator \<Rightarrow> string \<Rightarrow> json \<Rightarrow> accumulator" where
  "acc_set (Accumulator parent data) step_id v = Accumulator parent (data(step_id \<mapsto> v))"

fun acc_get :: "accumulator \<Rightarrow> string \<Rightarrow> json option" where
  "acc_get (Accumulator parent data) step_id =
     (case data step_id of
        Some v \<Rightarrow> Some v
      | None \<Rightarrow> (case parent of None \<Rightarrow> None | Some acc \<Rightarrow> acc_get acc step_id))"

fun acc_remove :: "accumulator \<Rightarrow> string \<Rightarrow> accumulator" where
  "acc_remove (Accumulator parent data) step_id = Accumulator parent (data(step_id := None))"

fun acc_keys :: "accumulator \<Rightarrow> string set" where
  "acc_keys (Accumulator parent data) =
     dom data \<union> (case parent of None \<Rightarrow> {} | Some acc \<Rightarrow> acc_keys acc)"

definition into_data :: "accumulator \<Rightarrow> string \<Rightarrow> json option" where
  "into_data acc = acc_data acc"

interpretation acc: keyed_store acc_get acc_set
proof
  fix s k v k'
  show "acc_get (acc_set s k v) k' = (if k' = k then Some v else acc_get s k')"
    by (cases s) simp
qed

section \<open>Resolving references\<close>

text \<open>\<open>walk all idx current segs\<close> is the loop of \<^verbatim>\<open>resolve_segments\<close>: \<open>all\<close> is the whole
  path, \<open>segs\<close> what is left of it, \<open>idx\<close> the position of its head in \<open>all\<close>.\<close>

fun walk :: "string list \<Rightarrow> nat \<Rightarrow> json \<Rightarrow> string list \<Rightarrow> expr_error + json" where
  "walk all idx current [] = Inr current"
| "walk all idx current (seg # segs) =
     (case current of
        Object m \<Rightarrow>
          (case map_of m seg of
             None \<Rightarrow> Inl (UnresolvedReference (MissingReference (take (Suc idx) all)))
           | Some v \<Rightarrow> walk all (Suc idx) v segs)
      | Array arr \<Rightarrow>
          (case parse_unsigned u64_max seg of
             None \<Rightarrow> Inl (TypeError (NonNumericIndex seg))
           | Some i \<Rightarrow>
               (if i < length arr then walk all (Suc idx) (arr ! i) segs
                else Inl (UnresolvedReference (IndexOutOfBounds i))))
      | _ \<Rightarrow> Inl (TypeError (CannotTraverse current seg)))"

definition resolve_segments :: "accumulator \<Rightarrow> string list \<Rightarrow> expr_error + json" where
  "resolve_segments acc segments =
     (case segments of
        [] \<Rightarrow> Inl (InvalidPath EmptyPath)
      | root_key # rest \<Rightarrow>
          (case acc_get acc root_key of
             None \<Rightarrow> Inl (UnresolvedReference (MissingReference [root_key]))
           | Some root_val \<Rightarrow> walk segments 1 root_val rest))"

definition resolve :: "accumulator \<Rightarrow> string \<Rightarrow> expr_error + json" where
  "resolve acc path = and_then (parse_path path) (resolve_segments acc)"

section \<open>Compiled forms\<close>

datatype compiled_path = CompiledPath "expr_error + string list"

definition compile_path :: "string \<Rightarrow> compiled_path" where
  "compile_path path = CompiledPath (parse_path path)"

fun path_resolve :: "compiled_path \<Rightarrow> accumulator \<Rightarrow> expr_error + json" where
  "path_resolve (CompiledPath inner) acc =
     (case inner of Inr segments \<Rightarrow> resolve_segments acc segments | Inl e \<Rightarrow> Inl e)"

datatype compiled_condition = CompiledCondition "expr_error + expr"

definition compile_condition :: "(string \<Rightarrow> json option) \<Rightarrow> string \<Rightarrow> compiled_condition" where
  "compile_condition js condition = CompiledCondition (parse_expr js condition)"

fun condition_eval :: "compiled_condition \<Rightarrow> accumulator \<Rightarrow> expr_error + bool" where
  "condition_eval (CompiledCondition inner) acc =
     (case inner of
        Inr parsed \<Rightarrow>
          and_then (eval parsed (resolve_segments acc)) (\<lambda>result.
            Inr (case result of Bool b \<Rightarrow> b | Null \<Rightarrow> False | _ \<Rightarrow> True))
      | Inl e \<Rightarrow> Inl e)"

datatype template_node =
    TPath "string list"
  | TInvalidPath expr_error
  | TLiteral json
  | TObject "(string \<times> template_node) list"
  | TArray "template_node list"

fun has_refs :: "json \<Rightarrow> bool" where
  "has_refs (String s) = starts_with ''$.'' s"
| "has_refs (Object m) = list_ex (\<lambda>kv. has_refs (snd kv)) m"
| "has_refs (Array arr) = list_ex has_refs arr"
| "has_refs _ = False"

fun compile_node :: "json \<Rightarrow> template_node" where
  "compile_node (String s) =
     (if starts_with ''$.'' s then
        (case parse_path s of Inr segments \<Rightarrow> TPath segments | Inl e \<Rightarrow> TInvalidPath e)
      else TLiteral (String s))"
| "compile_node (Object m) =
     (if has_refs (Object m) then TObject (map (\<lambda>kv. (fst kv, compile_node (snd kv))) m)
      else TLiteral (Object m))"
| "compile_node (Array arr) =
     (if has_refs (Array arr) then TArray (map compile_node arr) else TLiteral (Array arr))"
| "compile_node v = TLiteral v"

text \<open>Collecting entries into a \<^verbatim>\<open>serde_json::Map\<close>.\<close>

definition obj_collect :: "(string \<times> json) list \<Rightarrow> json" where
  "obj_collect kvs = Object (fold (\<lambda>(k, v). obj_insert k v) kvs [])"

fun resolve_node :: "template_node \<Rightarrow> accumulator \<Rightarrow> expr_error + json" where
  "resolve_node (TPath segments) acc = resolve_segments acc segments"
| "resolve_node (TInvalidPath e) acc = Inl e"
| "resolve_node (TLiteral v) acc = Inr v"
| "resolve_node (TObject entries) acc =
     and_then (traverse (\<lambda>kn. and_then (resolve_node (snd kn) acc) (\<lambda>v. Inr (fst kn, v))) entries)
       (\<lambda>kvs. Inr (obj_collect kvs))"
| "resolve_node (TArray items) acc =
     and_then (traverse (\<lambda>n. resolve_node n acc) items) (\<lambda>out. Inr (Array out))"

datatype compiled_template = CompiledTemplate template_node

definition compile_template :: "json \<Rightarrow> compiled_template" where
  "compile_template template = CompiledTemplate (compile_node template)"

fun template_resolve :: "compiled_template \<Rightarrow> accumulator \<Rightarrow> expr_error + json" where
  "template_resolve (CompiledTemplate inner) acc = resolve_node inner acc"

definition resolve_input :: "accumulator \<Rightarrow> json \<Rightarrow> expr_error + json" where
  "resolve_input acc input = template_resolve (compile_template input) acc"

definition eval_condition :: "(string \<Rightarrow> json option) \<Rightarrow> accumulator \<Rightarrow> string \<Rightarrow> expr_error + bool" where
  "eval_condition js acc condition = condition_eval (compile_condition js condition) acc"

section \<open>Laws of the layered store\<close>

lemma acc_get_branch [simp]: "acc_get (branch_from parent) k = acc_get parent k"
  by (simp add: branch_from_def)

lemma acc_get_new [simp]: "acc_get acc_new k = None"
  by (simp add: acc_new_def)

lemma acc_get_cases:
  "acc_get (Accumulator p d) k = (case d k of Some v \<Rightarrow> Some v
     | None \<Rightarrow> (case p of None \<Rightarrow> None | Some a \<Rightarrow> acc_get a k))"
  by simp

lemma acc_keys_dom: "acc_keys acc = dom (acc_get acc)"
proof (induction acc)
  case (Accumulator parent data)
  then show ?case
    by (cases parent) (auto simp: dom_def split: option.splits)
qed

text \<open>The writes made to a branch are its delta: reading through the branch is reading the
  delta over the parent.\<close>

fun acc_parent :: "accumulator \<Rightarrow> accumulator option" where
  "acc_parent (Accumulator parent data) = parent"

lemma acc_parent_set [simp]: "acc_parent (acc_set a k v) = acc_parent a"
  by (cases a) simp

lemma acc_parent_remove [simp]: "acc_parent (acc_remove a k) = acc_parent a"
  by (cases a) simp

lemma acc_get_layer:
  "acc_parent a = Some parent \<Longrightarrow> acc_get a = acc_get parent ++ acc_data a"
  by (cases a) (auto simp: fun_eq_iff map_add_def split: option.splits)

lemma acc_data_set [simp]: "acc_data (acc_set a k v) = (acc_data a)(k \<mapsto> v)"
  by (cases a) simp

lemma acc_data_remove [simp]: "acc_data (acc_remove a k) = (acc_data a)(k := None)"
  by (cases a) simp

lemma acc_data_branch [simp]: "acc_data (branch_from p) = Map.empty"
  by (simp add: branch_from_def)

lemma acc_parent_branch [simp]: "acc_parent (branch_from p) = Some p"
  by (simp add: branch_from_def)

section \<open>Compiling is transparent\<close>

text \<open>The walk the documentation of \<^verbatim>\<open>resolve_input\<close> describes: every \<^verbatim>\<open>$.\<close> string is replaced
  by the value it refers to, everything else is kept.\<close>

fun resolve_walk :: "accumulator \<Rightarrow> json \<Rightarrow> expr_error + json" where
  "resolve_walk acc (String s) =
     (if starts_with ''$.'' s then resolve acc s else Inr (String s))"
| "resolve_walk acc (Object m) =
     and_then (traverse (\<lambda>kv. and_then (resolve_walk acc (snd kv)) (\<lambda>v. Inr (fst kv, v))) m)
       (\<lambda>kvs. Inr (Object kvs))"
| "resolve_walk acc (Array arr) =
     and_then (traverse (resolve_walk acc) arr) (\<lambda>out. Inr (Array out))"
| "resolve_walk acc v = Inr v"

lemma resolve_walk_no_refs: "\<not> has_refs v \<Longrightarrow> resolve_walk acc v = Inr v"
proof (induction v rule: has_refs.induct)
  case (2 m)
  have "traverse (\<lambda>kv. and_then (resolve_walk acc (snd kv)) (\<lambda>v. Inr (fst kv, v))) m = Inr (map id m)"
    using 2 by (intro traverse_Inr_map) (auto simp: list_ex_iff)
  then show ?case by simp
next
  case (3 arr)
  have "traverse (resolve_walk acc) arr = Inr (map id arr)"
    using 3 by (intro traverse_Inr_map) (auto simp: list_ex_iff)
  then show ?case by simp
qed auto

lemma traverse_keys:
  "traverse (\<lambda>kv. and_then (f (snd kv)) (\<lambda>v. Inr (fst kv, v))) m = Inr kvs
    \<Longrightarrow> map fst kvs = map fst m"
  by (induction m arbitrary: kvs) (auto simp: result_simps)

lemma obj_collect_id: "obj_keys_ok kvs \<Longrightarrow> obj_collect kvs = Object kvs"
  using fold_obj_insert_id [of "[]" kvs] by (simp add: obj_collect_def)

lemma resolve_compile_node:
  "json_wf v \<Longrightarrow> resolve_node (compile_node v) acc = resolve_walk acc v"
proof (induction v rule: compile_node.induct)
  case (1 s)
  then show ?case
    by (auto simp: resolve_def split: sum.splits)
next
  case (2 m)
  show ?case
  proof (cases "has_refs (Object m)")
    case True
    have t: "traverse (\<lambda>kn. and_then (resolve_node (snd kn) acc) (\<lambda>v. Inr (fst kn, v)))
               (map (\<lambda>kv. (fst kv, compile_node (snd kv))) m)
           = traverse (\<lambda>kv. and_then (resolve_walk acc (snd kv)) (\<lambda>v. Inr (fst kv, v))) m"
      unfolding traverse_map using 2 True by (intro traverse_cong) (auto simp: list_all_iff)
    show ?thesis
    proof (cases "traverse (\<lambda>kv. and_then (resolve_walk acc (snd kv)) (\<lambda>v. Inr (fst kv, v))) m")
      case (Inr kvs)
      then have "obj_keys_ok kvs"
        using traverse_keys [OF Inr] 2(2) by (simp add: obj_keys_ok_def)
      then show ?thesis using True t Inr by (simp add: obj_collect_id)
    qed (use True t in simp)
  qed (use resolve_walk_no_refs [of "Object m" acc] in simp)
next
  case (3 arr)
  show ?case
  proof (cases "has_refs (Array arr)")
    case True
    have "traverse (\<lambda>n. resolve_node n acc) (map compile_node arr) = traverse (resolve_walk acc) arr"
      unfolding traverse_map using 3 True by (intro traverse_cong) (auto simp: list_all_iff)
    with True show ?thesis by simp
  qed (use resolve_walk_no_refs [of "Array arr" acc] in simp)
qed auto

section \<open>Resolved values are well formed\<close>

definition acc_wf :: "accumulator \<Rightarrow> bool" where
  "acc_wf acc \<longleftrightarrow> (\<forall>k v. acc_get acc k = Some v \<longrightarrow> json_wf v)"

lemma acc_wf_operations:
  "acc_wf acc_new" "acc_wf acc \<Longrightarrow> acc_wf (branch_from acc)" "acc_wf acc \<Longrightarrow> json_wf v \<Longrightarrow> acc_wf (acc_set acc k v)"
  by (simp_all add: acc_wf_def acc.get_put)

lemma walk_wf: "walk all idx current segs = Inr v \<Longrightarrow> json_wf current \<Longrightarrow> json_wf v"
proof (induction all idx current segs rule: walk.induct)
  case (2 all idx current seg segs)
  show ?case
  proof (cases current)
    case (Array arr)
    with 2 show ?thesis by (auto simp: list_all_iff split: option.splits if_splits)
  next
    case (Object m)
    with "2.prems" obtain x where x: "map_of m seg = Some x" "walk all (Suc idx) x segs = Inr v" by (auto split: option.splits)
    have "json_wf x" using map_of_SomeD [OF x(1)] "2.prems"(2) Object by (auto simp: list_all_iff)
    with "2.IH"(2) [OF Object x] show ?thesis .
  qed (use 2 in auto)
qed simp

lemma resolve_segments_wf: "acc_wf acc \<Longrightarrow> resolve_segments acc segs = Inr v \<Longrightarrow> json_wf v"
  using walk_wf by (auto simp: resolve_segments_def acc_wf_def split: list.splits option.splits)

lemma resolve_walk_wf: "acc_wf acc \<Longrightarrow> json_wf v \<Longrightarrow> resolve_walk acc v = Inr r \<Longrightarrow> json_wf r"
proof (induction v arbitrary: r rule: has_refs.induct)
  case (1 s)
  then show ?case using resolve_segments_wf by (auto simp: resolve_def result_simps split: if_splits)
next
  case (2 m)
  obtain kvs where kvs: "traverse (\<lambda>kv. and_then (resolve_walk acc (snd kv)) (\<lambda>v. Inr (fst kv, v))) m = Inr kvs"
    and r: "r = Object kvs" using "2.prems"(3) by (auto simp: result_simps)
  have entry: "json_wf x" if "kv \<in> set m" "resolve_walk acc (snd kv) = Inr x" for kv x
    using "2.IH" [OF that(1) "2.prems"(1) _ that(2)] "2.prems"(2) that(1) by (simp add: list_all_iff)
  have "list_all (\<lambda>kv. json_wf (snd kv)) kvs"
    using traverse_result [OF kvs] entry by (fastforce simp: list_all_iff result_simps)
  moreover have "obj_keys_ok kvs" using traverse_keys [OF kvs] "2.prems"(2) by (simp add: obj_keys_ok_def)
  ultimately show ?case by (simp add: r)
next
  case (3 arr)
  obtain out where out: "traverse (resolve_walk acc) arr = Inr out" and r: "r = Array out"
    using "3.prems"(3) by (auto simp: result_simps)
  have "json_wf x" if "a \<in> set arr" "resolve_walk acc a = Inr x" for a x
    using "3.IH" [OF that(1) "3.prems"(1) _ that(2)] "3.prems"(2) that(1) by (simp add: list_all_iff)
  then have "list_all json_wf out" using traverse_result [OF out] by (metis list_all_iff)
  then show ?case by (simp add: r)
qed auto



end
