(* ===== verification/Core_Types.thy ===== *)
theory Core_Types
  imports Flow_Expr
begin

text \<open>
  \<^verbatim>\<open>crates/wafer-block/src/core_types.rs\<close>: messages, meta entries and the structured error
  every block and every runtime check answers with.

  The text of an error is kept as its format string with the values it is formatted from
  (\<open>Text\<close>); rendering it is not modelled, so two errors are equal exactly when the calls
  that built them are.
\<close>

record meta_entry =
  me_key :: string
  me_value :: string

record message =
  msg_kind :: string
  msg_meta :: "meta_entry list"

text \<open>\<^verbatim>\<open>MetaGet\<close> and \<^verbatim>\<open>MetaSet\<close> of \<^verbatim>\<open>types/message_ext.rs\<close>: the first entry of a key counts.\<close>

definition meta_get :: "meta_entry list \<Rightarrow> string \<Rightarrow> string option" where
  "meta_get meta key = map_option me_value (List.find (\<lambda>e. me_key e = key) meta)"

definition meta_contains_key :: "meta_entry list \<Rightarrow> string \<Rightarrow> bool" where
  "meta_contains_key meta key \<longleftrightarrow> list_ex (\<lambda>e. me_key e = key) meta"

fun meta_set :: "meta_entry list \<Rightarrow> string \<Rightarrow> string \<Rightarrow> meta_entry list" where
  "meta_set [] key v = [\<lparr>me_key = key, me_value = v\<rparr>]"
| "meta_set (e # meta) key v =
     (if me_key e = key then e\<lparr>me_value := v\<rparr> # meta else e # meta_set meta key v)"

interpretation meta: keyed_store meta_get meta_set
proof
  fix s k v k'
  show "meta_get (meta_set s k v) k' = (if k' = k then Some v else meta_get s k')"
    by (induction s) (auto simp: meta_get_def)
qed

datatype error_code =
    Ok | Cancelled | Unknown | InvalidArgument | DeadlineExceeded | NotFound | AlreadyExists
  | PermissionDenied | ResourceExhausted | FailedPrecondition | Aborted | OutOfRange
  | Unimplemented | Internal | Unavailable | DataLoss | Unauthenticated

fun to_ordinal :: "error_code \<Rightarrow> nat" where
  "to_ordinal Ok = 0"
| "to_ordinal Cancelled = 1"
| "to_ordinal Unknown = 2"
| "to_ordinal InvalidArgument = 3"
| "to_ordinal DeadlineExceeded = 4"
| "to_ordinal NotFound = 5"
| "to_ordinal AlreadyExists = 6"
| "to_ordinal PermissionDenied = 7"
| "to_ordinal ResourceExhausted = 8"
| "to_ordinal FailedPrecondition = 9"
| "to_ordinal Aborted = 10"
| "to_ordinal OutOfRange = 11"
| "to_ordinal Unimplemented = 12"
| "to_ordinal Internal = 13"
| "to_ordinal Unavailable = 14"
| "to_ordinal DataLoss = 15"
| "to_ordinal Unauthenticated = 16"

definition error_codes :: "error_code list" where
  "error_codes = [Ok, Cancelled, Unknown, InvalidArgument, DeadlineExceeded, NotFound,
     AlreadyExists, PermissionDenied, ResourceExhausted, FailedPrecondition, Aborted, OutOfRange,
     Unimplemented, Internal, Unavailable, DataLoss, Unauthenticated]"

definition from_ordinal :: "nat \<Rightarrow> error_code" where
  "from_ordinal n = (if n < length error_codes then error_codes ! n else Internal)"

definition error_code_parse :: "string \<Rightarrow> error_code option" where
  "error_code_parse s =
     (if s = ''ok'' then Some Ok
      else if s = ''cancelled'' then Some Cancelled
      else if s = ''unknown'' then Some Unknown
      else if s = ''invalid_argument'' \<or> s = ''invalid-argument'' \<or> s = ''bad_request''
      then Some InvalidArgument
      else if s = ''deadline_exceeded'' \<or> s = ''deadline-exceeded'' then Some DeadlineExceeded
      else if s = ''not_found'' \<or> s = ''not-found'' then Some NotFound
      else if s = ''already_exists'' \<or> s = ''already-exists'' then Some AlreadyExists
      else if s = ''permission_denied'' \<or> s = ''permission-denied'' then Some PermissionDenied
      else if s = ''resource_exhausted'' \<or> s = ''resource-exhausted'' then Some ResourceExhausted
      else if s = ''failed_precondition'' \<or> s = ''failed-precondition'' then Some FailedPrecondition
      else if s = ''aborted'' then Some Aborted
      else if s = ''out_of_range'' \<or> s = ''out-of-range'' then Some OutOfRange
      else if s = ''unimplemented'' \<or> s = ''not_implemented'' then Some Unimplemented
      else if s = ''internal'' then Some Internal
      else if s = ''unavailable'' then Some Unavailable
      else if s = ''data_loss'' \<or> s = ''data-loss'' then Some DataLoss
      else if s = ''unauthenticated'' then Some Unauthenticated
      else None)"

datatype text_arg =
    A_str string | A_opt "string option" | A_nat nat | A_json json | A_expr expr_error

datatype msg_text = Text string "text_arg list"

record wafer_error =
  we_code :: error_code
  we_message :: msg_text
  we_meta :: "meta_entry list"

text \<open>\<^verbatim>\<open>WaferError::new\<close>: no meta.\<close>

definition wafer_error_new :: "error_code \<Rightarrow> msg_text \<Rightarrow> wafer_error" where
  "wafer_error_new code msg = \<lparr>we_code = code, we_message = msg, we_meta = []\<rparr>"

definition with_detail_code :: "wafer_error \<Rightarrow> string \<Rightarrow> wafer_error" where
  "with_detail_code e code = e\<lparr>we_meta := meta_set (we_meta e) ''error.code'' code\<rparr>"

definition detail_code :: "wafer_error \<Rightarrow> string option" where
  "detail_code e = meta_get (we_meta e) ''error.code''"

lemma detail_code_with: "detail_code (with_detail_code e c) = Some c"
  by (simp add: detail_code_def with_detail_code_def)

lemma wafer_error_new_simps [simp]:
  "we_code (wafer_error_new c t) = c" "we_message (wafer_error_new c t) = t"
  "we_meta (wafer_error_new c t) = []"
  by (simp_all add: wafer_error_new_def)

lemma from_to_ordinal: "from_ordinal (to_ordinal c) = c"
  by (cases c) (simp_all add: from_ordinal_def error_codes_def)

lemma to_ordinal_bound: "to_ordinal c \<le> 16"
  by (cases c) simp_all

text \<open>The numeric tags of the streaming ABI identify the error code: encoding and decoding is
  the identity, tags run from 0 to 16, every tag outside that range decodes to
  \<^verbatim>\<open>Internal\<close>, and only \<^verbatim>\<open>Ok\<close> has the tag 0 that means no error.\<close>

theorem error_ordinal_roundtrip:
  "from_ordinal (to_ordinal c) = c \<and> to_ordinal c \<le> 16
   \<and> (\<forall>n. n > 16 \<longrightarrow> from_ordinal n = Internal) \<and> (to_ordinal c = 0 \<longleftrightarrow> c = Ok)"
  using from_to_ordinal to_ordinal_bound
  by (cases c) (simp_all add: from_ordinal_def error_codes_def)

text \<open>The codec at a concrete code, and a tag no code has.\<close>

theorem error_ordinal_roundtrip_witness:
  "from_ordinal (to_ordinal ResourceExhausted) = ResourceExhausted \<and> from_ordinal 17 = Internal"
  using error_ordinal_roundtrip [of ResourceExhausted] by simp

end
