(* ===== verification/Wrap.thy ===== *)
theory Wrap
  imports Core_Types
begin

text \<open>
  \<^verbatim>\<open>crates/wafer-block/src/wrap.rs\<close>, \<^verbatim>\<open>types/grants.rs\<close> and the block-name rule of
  \<^verbatim>\<open>crates/wafer-run/src/runtime.rs\<close>: WRAP, the resource access policy checked on every
  dispatch.

  Two things the policy calls are not in the repository and are fields of the argument
  \<open>wrap_env\<close>: the URL parser of the \<^verbatim>\<open>url\<close> crate (\<open>url_parse\<close>) and the Unicode table
  behind \<^verbatim>\<open>str::to_lowercase\<close> (\<open>lower\<close>).  What a theorem needs of them it states.
\<close>

section \<open>Grants\<close>

datatype resource_type =
    Db | Config | Storage | Crypto | Network | Vector | Auth | Llm | Image | Embedding

fun resource_type_str :: "resource_type \<Rightarrow> string" where
  "resource_type_str Db = ''db''"
| "resource_type_str Config = ''config''"
| "resource_type_str Storage = ''storage''"
| "resource_type_str Crypto = ''crypto''"
| "resource_type_str Network = ''network''"
| "resource_type_str Vector = ''vector''"
| "resource_type_str Auth = ''auth''"
| "resource_type_str Llm = ''llm''"
| "resource_type_str Image = ''image''"
| "resource_type_str Embedding = ''embedding''"

definition resource_type_parse :: "string \<Rightarrow> resource_type option" where
  "resource_type_parse s =
     (if s = ''db'' then Some Db else if s = ''config'' then Some Config
      else if s = ''storage'' then Some Storage else if s = ''crypto'' then Some Crypto
      else if s = ''network'' then Some Network else if s = ''vector'' then Some Vector
      else if s = ''auth'' then Some Auth else if s = ''llm'' then Some Llm
      else if s = ''image'' then Some Image else if s = ''embedding'' then Some Embedding
      else None)"

datatype unknown_resource_type = UnknownResourceType string

definition parse_stored :: "string option \<Rightarrow> unknown_resource_type + resource_type option" where
  "parse_stored v =
     (case v of None \<Rightarrow> Inr None
      | Some s \<Rightarrow> (if s = [] then Inr None
                  else (case resource_type_parse s of
                          Some t \<Rightarrow> Inr (Some t) | None \<Rightarrow> Inl (UnknownResourceType s))))"

datatype resource_access = Read | Append | Write

datatype grant_write = GNone | GFull | GAppend

text \<open>The wire form of \<^verbatim>\<open>GrantWrite\<close>: a boolean or the string \<^verbatim>\<open>append\<close>.\<close>

fun grant_write_serialize :: "grant_write \<Rightarrow> json" where
  "grant_write_serialize GNone = Bool False"
| "grant_write_serialize GFull = Bool True"
| "grant_write_serialize GAppend = String ''append''"

fun grant_write_deserialize :: "json \<Rightarrow> grant_write option" where
  "grant_write_deserialize (Bool v) = Some (if v then GFull else GNone)"
| "grant_write_deserialize (String s) = (if s = ''append'' then Some GAppend else None)"
| "grant_write_deserialize _ = None"

record resource_grant =
  g_grantee :: string
  g_resource :: string
  g_write :: grant_write
  g_type :: "resource_type option"

definition grant_read :: "string \<Rightarrow> string \<Rightarrow> resource_grant" where
  "grant_read grantee resource =
     \<lparr>g_grantee = grantee, g_resource = resource, g_write = GNone, g_type = None\<rparr>"

definition grant_read_write :: "string \<Rightarrow> string \<Rightarrow> resource_grant" where
  "grant_read_write grantee resource =
     \<lparr>g_grantee = grantee, g_resource = resource, g_write = GFull, g_type = None\<rparr>"

definition grant_append :: "string \<Rightarrow> string \<Rightarrow> resource_grant" where
  "grant_append grantee resource =
     \<lparr>g_grantee = grantee, g_resource = resource, g_write = GAppend, g_type = Some Db\<rparr>"

definition typed :: "resource_grant \<Rightarrow> resource_type \<Rightarrow> resource_grant" where
  "typed g rt = g\<lparr>g_type := Some rt\<rparr>"

definition admits :: "resource_grant \<Rightarrow> resource_access \<Rightarrow> bool" where
  "admits g access =
     (case g_write g of
        GNone \<Rightarrow> access = Read
      | GFull \<Rightarrow> True
      | GAppend \<Rightarrow> access = Append \<and> g_type g = Some Db)"

datatype invalid_grant_shape = AppendNotDb

definition check_shape :: "resource_grant \<Rightarrow> invalid_grant_shape + unit" where
  "check_shape g =
     (if g_write g = GAppend \<and> g_type g \<noteq> Some Db then Inl AppendNotDb else Inr ())"

section \<open>Reserved resources\<close>

definition RAW_SQL_RESOURCE :: string where "RAW_SQL_RESOURCE = ''__raw_sql__''"
definition DDL_RESOURCE :: string where "DDL_RESOURCE = ''__ddl__''"
definition SCHEMA_RESOURCE :: string where "SCHEMA_RESOURCE = ''__schema__''"
definition STORAGE_LIST_ALL_RESOURCE :: string where
  "STORAGE_LIST_ALL_RESOURCE = ''__storage_list_all__''"
definition AUTH_USER_PROFILE_RESOURCE :: string where
  "AUTH_USER_PROFILE_RESOURCE = ''wafer_run__auth__user_profile''"
definition AUTH_REQUIRE_USER_RESOURCE :: string where
  "AUTH_REQUIRE_USER_RESOURCE = ''wafer_run__auth__require_user''"
definition AUTH_REQUIRE_TOKEN_RESOURCE :: string where
  "AUTH_REQUIRE_TOKEN_RESOURCE = ''wafer_run__auth__require_token''"
definition AUTH_REQUIRE_ROLE_RESOURCE :: string where
  "AUTH_REQUIRE_ROLE_RESOURCE = ''wafer_run__auth__require_role''"
definition WAFER_RUN_SHARED_PREFIX :: string where
  "WAFER_RUN_SHARED_PREFIX = ''WAFER_RUN_SHARED__''"

lemmas reserved_defs =
  RAW_SQL_RESOURCE_def DDL_RESOURCE_def SCHEMA_RESOURCE_def STORAGE_LIST_ALL_RESOURCE_def
  AUTH_USER_PROFILE_RESOURCE_def AUTH_REQUIRE_USER_RESOURCE_def AUTH_REQUIRE_TOKEN_RESOURCE_def
  AUTH_REQUIRE_ROLE_RESOURCE_def WAFER_RUN_SHARED_PREFIX_def

definition is_auth_credential_resource :: "string \<Rightarrow> bool" where
  "is_auth_credential_resource resource \<longleftrightarrow>
     resource \<in> {AUTH_REQUIRE_USER_RESOURCE, AUTH_REQUIRE_TOKEN_RESOURCE, AUTH_REQUIRE_ROLE_RESOURCE}"

section \<open>Names and owners\<close>

record url =
  u_scheme :: string
  u_host :: "string option"
  u_path :: string

record wrap_env =
  lower :: "string \<Rightarrow> string"
  url_parse :: "string \<Rightarrow> url option"

definition resource_prefix :: "string \<Rightarrow> string" where
  "resource_prefix block_id = replace_char (CHR ''-'') ''_'' (replace_char slash ''__'' block_id) @ ''__''"

definition resource_owner :: "wrap_env \<Rightarrow> string \<Rightarrow> string option" where
  "resource_owner env name =
     (let low = lower env name in
      case str_find ''__'' low of None \<Rightarrow> None
      | Some first \<Rightarrow>
          (case str_find ''__'' (drop (first + 2) low) of None \<Rightarrow> None
           | Some second \<Rightarrow>
               Some (replace_char (CHR ''_'') ''-''
                       (replace_str ''__'' ''/'' (take (first + 2 + second) low)))))"

definition storage_resource_owner :: "string \<Rightarrow> string option" where
  "storage_resource_owner path =
     (case split_on slash path of
        org # block # _ \<Rightarrow>
          (if org = [] \<or> block = [] then None else Some (org @ ''/'' @ block))
      | _ \<Rightarrow> None)"

definition is_traversal_safe_path :: "string \<Rightarrow> bool" where
  "is_traversal_safe_path path \<longleftrightarrow>
     \<not> list_ex (\<lambda>segment. segment = [] \<or> segment = ''.'' \<or> segment = ''..'' \<or> backslash \<in> set segment)
         (split_on slash path)"

definition typed_resource_owner :: "wrap_env \<Rightarrow> string \<Rightarrow> resource_type option \<Rightarrow> string option" where
  "typed_resource_owner env resource rt =
     (if rt = Some Storage then storage_resource_owner resource else resource_owner env resource)"

definition model_resource :: "string \<Rightarrow> string \<Rightarrow> string \<Rightarrow> wafer_error + string" where
  "model_resource block backend_id model_id =
     (if slash \<in> set backend_id
      then Inl (wafer_error_new InvalidArgument
                  (Text ''backend_id `{}` must not contain `/`'' [A_str backend_id]))
      else Inr (resource_prefix block @ backend_id @ ''/'' @ model_id))"

definition op_resource :: "string \<Rightarrow> string \<Rightarrow> string" where
  "op_resource block op =
     resource_prefix block
     @ (case str_find ''.'' op of None \<Rightarrow> op | Some i \<Rightarrow> drop (i + 1) op)"

text \<open>\<^verbatim>\<open>validate_block_name\<close>: two segments of lower-case letters, digits and single inner
  hyphens; \<^verbatim>\<open>MAX_IDENT_LEN\<close> is 63.\<close>

datatype block_name_fault =
    NameTooLong | NotOrgBlock | NotOneSlash | EmptySegment string | UnderscoreInSegment string
  | DoubleHyphen string | HyphenAtEdge string | BadCharacter string

definition MAX_BLOCK_NAME_LEN :: nat where "MAX_BLOCK_NAME_LEN = 63 - 4"

definition is_name_char :: "char \<Rightarrow> bool" where
  "is_name_char c \<longleftrightarrow> (CHR ''a'' \<le> c \<and> c \<le> CHR ''z'') \<or> is_ascii_digit c \<or> c = CHR ''-''"

definition validate_segment :: "string \<Rightarrow> string \<Rightarrow> block_name_fault + unit" where
  "validate_segment label segment =
     (if segment = [] then Inl (EmptySegment label)
      else if CHR ''_'' \<in> set segment then Inl (UnderscoreInSegment label)
      else if str_find ''--'' segment \<noteq> None then Inl (DoubleHyphen label)
      else if hd segment = CHR ''-'' \<or> last segment = CHR ''-'' then Inl (HyphenAtEdge label)
      else if \<not> list_all is_name_char segment then Inl (BadCharacter label)
      else Inr ())"

definition validate_block_name :: "string \<Rightarrow> block_name_fault + unit" where
  "validate_block_name name =
     (if length name > MAX_BLOCK_NAME_LEN then Inl NameTooLong
      else (case str_find ''/'' name of None \<Rightarrow> Inl NotOrgBlock
            | Some i \<Rightarrow>
                (if count_list name slash \<noteq> 1 then Inl NotOneSlash
                 else and_then (validate_segment ''org'' (take i name)) (\<lambda>_.
                        validate_segment ''block'' (drop (i + 1) name)))))"

section \<open>Matching grants\<close>

definition grant_matches_grantee :: "string \<Rightarrow> string \<Rightarrow> bool" where
  "grant_matches_grantee grantee caller \<longleftrightarrow> grantee = ''*'' \<or> grantee = caller"

definition is_url_pattern :: "string \<Rightarrow> bool" where
  "is_url_pattern s \<longleftrightarrow> starts_with ''http://'' s \<or> starts_with ''https://'' s"

text \<open>The loop of \<^verbatim>\<open>glob_matches\<close>: \<open>None\<close> is the early \<^verbatim>\<open>return false\<close>, otherwise the final
  position.\<close>

fun glob_loop :: "string \<Rightarrow> nat \<Rightarrow> string list \<Rightarrow> nat \<Rightarrow> nat option" where
  "glob_loop resource i [] pos = Some pos"
| "glob_loop resource i (part # parts) pos =
     (if part = [] then glob_loop resource (Suc i) parts pos
      else (case str_find part (drop pos resource) of
              Some found \<Rightarrow>
                (if i = 0 \<and> found \<noteq> 0 then None
                 else glob_loop resource (Suc i) parts (pos + found + length part))
            | None \<Rightarrow> None))"

definition glob_matches :: "string \<Rightarrow> string \<Rightarrow> bool" where
  "glob_matches pattern resource =
     (let parts = split_on star pattern in
      if length parts = 1 then resource = pattern
      else (case glob_loop resource 0 parts 0 of
              None \<Rightarrow> False
            | Some pos \<Rightarrow> (if \<not> ends_with ''*'' pattern then pos = length resource else True)))"

definition host_pattern_matches :: "string \<Rightarrow> string \<Rightarrow> bool" where
  "host_pattern_matches pattern0 host0 =
     (let pattern = to_ascii_lowercase pattern0; host = to_ascii_lowercase host0 in
      if pattern = ''*'' then True
      else (case strip_prefix ''**.'' pattern of
              Some sfx \<Rightarrow> host = sfx \<or> ends_with (''.'' @ sfx) host
            | None \<Rightarrow>
                (case strip_prefix ''*.'' pattern of
                   Some sfx \<Rightarrow>
                     (case strip_suffix (''.'' @ sfx) host of
                        None \<Rightarrow> False
                      | Some rest \<Rightarrow> rest \<noteq> [] \<and> dot \<notin> set rest)
                 | None \<Rightarrow> pattern = host)))"

definition host_matches :: "string option \<Rightarrow> string option \<Rightarrow> bool" where
  "host_matches pattern resource =
     (case (pattern, resource) of
        (Some p, Some r) \<Rightarrow> host_pattern_matches p r
      | (None, None) \<Rightarrow> True
      | _ \<Rightarrow> False)"

definition path_matches :: "string \<Rightarrow> string \<Rightarrow> bool" where
  "path_matches pattern path =
     (case strip_suffix ''/*'' pattern of
        Some prfx \<Rightarrow> path = prfx \<or> starts_with (prfx @ ''/'') path
      | None \<Rightarrow> (if pattern = ''*'' then True else pattern = path))"

definition STAR_SENTINEL :: string where "STAR_SENTINEL = ''wafer-star-placeholder''"

definition url_pattern_matches :: "wrap_env \<Rightarrow> string \<Rightarrow> string \<Rightarrow> bool" where
  "url_pattern_matches env pattern resource =
     (case url_parse env (replace_char star STAR_SENTINEL pattern) of None \<Rightarrow> False
      | Some parsed_pattern \<Rightarrow>
          (case url_parse env resource of None \<Rightarrow> False
           | Some parsed_resource \<Rightarrow>
               (if u_scheme parsed_pattern \<noteq> u_scheme parsed_resource then False
                else if \<not> host_matches
                            (map_option (replace_str STAR_SENTINEL ''*'') (u_host parsed_pattern))
                            (u_host parsed_resource) then False
                else path_matches (replace_str STAR_SENTINEL ''*'' (u_path parsed_pattern))
                       (u_path parsed_resource))))"

definition grant_matches_resource :: "wrap_env \<Rightarrow> string \<Rightarrow> string \<Rightarrow> bool" where
  "grant_matches_resource env pattern resource =
     (if pattern = ''*'' then True
      else if is_url_pattern pattern then url_pattern_matches env pattern resource
      else glob_matches pattern resource)"

definition grant_allows ::
  "wrap_env \<Rightarrow> resource_grant \<Rightarrow> string \<Rightarrow> string \<Rightarrow> resource_access \<Rightarrow> resource_type option \<Rightarrow> bool" where
  "grant_allows env g caller resource access rt =
     (if \<not> grant_matches_grantee (g_grantee g) caller then False
      else if \<not> grant_matches_resource env (g_resource g) resource then False
      else if \<not> admits g access then False
      else (case g_type g of None \<Rightarrow> True | Some grant_type \<Rightarrow> rt = Some grant_type))"

section \<open>The check\<close>

definition deny :: "string \<Rightarrow> text_arg list \<Rightarrow> wafer_error + unit" where
  "deny fmt args = Inl (wafer_error_new PermissionDenied (Text fmt args))"

definition is_shared_resource :: "string \<Rightarrow> bool" where
  "is_shared_resource resource \<longleftrightarrow>
     length WAFER_RUN_SHARED_PREFIX \<le> length resource
     \<and> eq_ignore_ascii_case (take (length WAFER_RUN_SHARED_PREFIX) resource) WAFER_RUN_SHARED_PREFIX"

text \<open>The rules for namespaced resources (database, configuration, vector, auth, models,
  untyped).\<close>

definition check_namespaced ::
  "wrap_env \<Rightarrow> string option \<Rightarrow> string \<Rightarrow> resource_access \<Rightarrow> resource_type option
    \<Rightarrow> resource_grant list \<Rightarrow> string \<Rightarrow> wafer_error + unit" where
  "check_namespaced env caller_id resource access rt grants admin_block =
     (if resource = RAW_SQL_RESOURCE then
        (if caller_id = Some admin_block then Inr ()
         else deny ''WRAP: raw SQL access denied (caller: {:?}, admin: {})''
                [A_opt caller_id, A_str admin_block])
      else if resource = DDL_RESOURCE \<or> resource = SCHEMA_RESOURCE then
        (case caller_id of Some _ \<Rightarrow> Inr ()
         | None \<Rightarrow> deny ''WRAP: {} requires an attributable caller (caller: None)''
                     [A_str (if resource = DDL_RESOURCE then ''DDL'' else ''schema ops'')])
      else if rt = Some Auth \<and> is_auth_credential_resource resource then
        (case caller_id of Some _ \<Rightarrow> Inr ()
         | None \<Rightarrow> deny ''WRAP: auth credential op '{}' requires an attributable caller (caller: None)''
                     [A_str resource])
      else if is_shared_resource resource then
        (if access \<noteq> Read then
           (if caller_id = Some admin_block then Inr ()
            else deny ''WRAP: only admin can write WAFER_RUN_SHARED__ resources (caller: {:?})''
                   [A_opt caller_id])
         else (case caller_id of Some _ \<Rightarrow> Inr ()
               | None \<Rightarrow> deny ''WRAP: WAFER_RUN_SHARED__ read denied for anonymous caller (resource: {})''
                           [A_str resource]))
      else
        (let owner = resource_owner env resource in
         if owner \<noteq> None \<and> caller_id = owner then Inr ()
         else if caller_id = Some admin_block then Inr ()
         else if (case caller_id of None \<Rightarrow> False
                  | Some caller \<Rightarrow> list_ex (\<lambda>g. grant_allows env g caller resource access rt) grants)
         then Inr ()
         else if owner = None
         then deny ''WRAP: unnamespaced resource '{}' denied (caller: {:?})''
                [A_str resource, A_opt caller_id]
         else deny ''WRAP: access denied on '{}' (caller: {:?})'' [A_str resource, A_opt caller_id]))"

text \<open>The rules for network, storage and crypto resources.\<close>

definition check_plain ::
  "wrap_env \<Rightarrow> string option \<Rightarrow> string \<Rightarrow> resource_access \<Rightarrow> resource_type option
    \<Rightarrow> resource_grant list \<Rightarrow> string \<Rightarrow> wafer_error + unit" where
  "check_plain env caller_id resource access rt grants admin_block =
     (let is_storage = (rt = Some Storage) in
      if is_storage \<and> resource = STORAGE_LIST_ALL_RESOURCE then
        (if caller_id = Some admin_block then Inr ()
         else deny ''WRAP: storage.list_folders (list-all) is admin-only (caller: {:?}, admin: {})''
                [A_opt caller_id, A_str admin_block])
      else if is_storage \<and> \<not> is_traversal_safe_path resource then
        deny ''WRAP: storage path '{}' has an empty, `.` or `..` segment or a backslash (caller: {:?})''
          [A_str resource, A_opt caller_id]
      else if is_storage \<and> caller_id \<noteq> None \<and> storage_resource_owner resource = caller_id then Inr ()
      else if caller_id = Some admin_block then Inr ()
      else if (case caller_id of None \<Rightarrow> False
               | Some caller \<Rightarrow> list_ex (\<lambda>g. grant_allows env g caller resource access rt) grants)
      then Inr ()
      else deny ''WRAP: access denied on '{}' (caller: {:?}, type: {:?})''
             [A_str resource, A_opt caller_id, A_opt (map_option resource_type_str rt)])"

definition check_access ::
  "wrap_env \<Rightarrow> string option \<Rightarrow> string \<Rightarrow> resource_access \<Rightarrow> resource_type option
    \<Rightarrow> resource_grant list \<Rightarrow> string \<Rightarrow> wafer_error + unit" where
  "check_access env caller_id resource access rt grants admin_block =
     (if rt \<notin> {Some Network, Some Storage, Some Crypto}
      then check_namespaced env caller_id resource access rt grants admin_block
      else check_plain env caller_id resource access rt grants admin_block)"

section \<open>Database operations\<close>

datatype db_op_access = On "resource_access list" | PerWrite

definition DATABASE_OP_ACCESS :: "(string \<times> db_op_access) list" where
  "DATABASE_OP_ACCESS =
     [(''database.get'', On [Read]), (''database.list'', On [Read]),
      (''database.create'', On [Append]), (''database.create_many'', On [Append]),
      (''database.batch'', PerWrite), (''database.insert_guarded'', On [Append, Read]),
      (''database.update_guarded'', On [Write]), (''database.update'', On [Write]),
      (''database.update_where'', On [Write]), (''database.update_where_count'', On [Write]),
      (''database.delete'', On [Write]), (''database.delete_where'', On [Write]),
      (''database.delete_where_count'', On [Write]), (''database.take_where'', On [Write]),
      (''database.count'', On [Read]), (''database.sum'', On [Read]),
      (''database.aggregate'', On [Read]), (''database.increment_field_where'', On [Write]),
      (''database.upsert'', On [Write]), (''database.query_raw'', On [Read]),
      (''database.exec_raw'', On [Write]), (''database.ddl'', On [Write]),
      (''database.ddl_transaction'', On [Write]), (''database.ensure_table'', On [Write]),
      (''database.add_column'', On [Write]), (''database.drop_table'', On [Write]),
      (''database.table_exists'', On [Read]), (''database.catalog_tables'', On [Read]),
      (''database.catalog_columns'', On [Read]), (''database.catalog_row_count'', On [Read])]"

text \<open>The operations \<^verbatim>\<open>ServiceOp::DATABASE_OPS\<close> lists.\<close>

definition DATABASE_OPS :: "string list" where
  "DATABASE_OPS =
     [''database.get'', ''database.list'', ''database.create'', ''database.create_many'',
      ''database.batch'', ''database.insert_guarded'', ''database.update_guarded'',
      ''database.update'', ''database.update_where'', ''database.update_where_count'',
      ''database.delete'', ''database.delete_where'', ''database.delete_where_count'',
      ''database.take_where'', ''database.count'', ''database.sum'', ''database.aggregate'',
      ''database.increment_field_where'', ''database.upsert'', ''database.query_raw'',
      ''database.exec_raw'', ''database.ddl'', ''database.ddl_transaction'',
      ''database.ensure_table'', ''database.add_column'', ''database.drop_table'',
      ''database.table_exists'', ''database.catalog_tables'', ''database.catalog_columns'',
      ''database.catalog_row_count'']"

definition database_op_access :: "string \<Rightarrow> db_op_access option" where
  "database_op_access op =
     map_option snd (List.find (\<lambda>(name, _). name = op) DATABASE_OP_ACCESS)"

end
