(* ===== verification/Wrap_Names.thy ===== *)
theory Wrap_Names
  imports Wrap
begin

text \<open>
  The naming scheme WRAP rests on: a valid block name and the prefix of its resources
  determine each other, so every resource lies in at most one block's namespace.
\<close>

section \<open>Finding and replacing the separator\<close>

lemma str_find_eqI:
  assumes "starts_with p (drop i s)" and "i \<le> length s"
    and "\<And>j. j < i \<Longrightarrow> \<not> starts_with p (drop j s)"
  shows "str_find p s = Some i"
proof (cases "str_find p s")
  case None
  with assms(1,2) show ?thesis by (simp add: str_find_None)
next
  case (Some k)
  have "\<not> k < i" using str_find_Some_match [OF Some] assms(3) by blast
  moreover have "\<not> i < k" using str_find_Some_least [OF Some] assms(1) by blast
  ultimately show ?thesis using Some by simp
qed

lemma starts_with_two:
  "starts_with [a, b] (drop j s) \<longleftrightarrow> Suc j < length s \<and> s ! j = a \<and> s ! Suc j = b"
proof (induction s arbitrary: j)
  case (Cons c s)
  then show ?case by (cases j; cases s) auto
qed simp

lemma replace_fuel_skip:
  assumes "\<And>j. j < length x \<Longrightarrow> \<not> starts_with p (drop j (x @ y))" and "length x \<le> n"
  shows "replace_fuel n p r (x @ y) = x @ replace_fuel (n - length x) p r y"
  using assms
proof (induction x arbitrary: n)
  case (Cons c x)
  obtain m where n: "n = Suc m" using Cons.prems(2) by (cases n) auto
  have "\<not> starts_with p (c # x @ y)" using Cons.prems(1) [of 0] by simp
  moreover have "replace_fuel m p r (x @ y) = x @ replace_fuel (m - length x) p r y"
  proof (rule Cons.IH)
    show "\<not> starts_with p (drop j (x @ y))" if "j < length x" for j
      using Cons.prems(1) [of "Suc j"] that by simp
    show "length x \<le> m" using Cons.prems(2) n by simp
  qed
  ultimately show ?case using n by simp
qed simp

section \<open>Segments of a block name\<close>

definition segment_ok :: "string \<Rightarrow> bool" where
  "segment_ok seg \<longleftrightarrow> seg \<noteq> [] \<and> list_all is_name_char seg
     \<and> hd seg \<noteq> CHR ''-'' \<and> last seg \<noteq> CHR ''-''
     \<and> (\<forall>j. Suc j < length seg \<longrightarrow> \<not> (seg ! j = CHR ''-'' \<and> seg ! Suc j = CHR ''-''))"

definition underscore :: "char \<Rightarrow> char" where
  "underscore c = (if c = CHR ''-'' then CHR ''_'' else c)"

lemma is_name_char_facts:
  assumes "is_name_char c"
  shows "c \<noteq> CHR ''_''" "c \<noteq> slash" "ascii_lower (underscore c) = underscore c"
    "underscore c \<noteq> slash" "underscore c = CHR ''_'' \<longleftrightarrow> c = CHR ''-''"
  using assms
  by (auto simp: is_name_char_def is_ascii_digit_def less_eq_char_def ascii_lower_def underscore_def)

lemma validate_segment_ok: "validate_segment label seg = Inr () \<Longrightarrow> segment_ok seg"
proof -
  assume "validate_segment label seg = Inr ()"
  then have *: "seg \<noteq> []" "str_find ''--'' seg = None" "hd seg \<noteq> CHR ''-''" "last seg \<noteq> CHR ''-''"
    "list_all is_name_char seg"
    by (auto simp: validate_segment_def split: if_splits)
  have "\<not> (seg ! j = CHR ''-'' \<and> seg ! Suc j = CHR ''-'')" if "Suc j < length seg" for j
    using *(2) that by (auto simp: str_find_None starts_with_two)
  with * show "segment_ok seg" by (simp add: segment_ok_def)
qed

lemma str_find_single: "str_find [c] s = Some i \<Longrightarrow> s = take i s @ c # drop (Suc i) s"
  using str_find_Some_match [of "[c]" s i] str_find_Some_bound [of "[c]" s i]
  by (auto simp: starts_with_def take_Suc hd_drop_conv_nth id_take_nth_drop)

lemma validate_block_name_split:
  assumes "validate_block_name name = Inr ()"
  obtains org block where "name = org @ slash # block" "segment_ok org" "segment_ok block"
proof -
  from assms obtain i where i: "str_find ''/'' name = Some i"
    and "validate_segment ''org'' (take i name) = Inr ()"
    and "validate_segment ''block'' (drop (i + 1) name) = Inr ()"
    by (auto simp: validate_block_name_def result_simps split: if_splits option.splits)
  then show thesis
    using str_find_single [OF i] validate_segment_ok that by (metis Suc_eq_plus1)
qed

lemma segment_name_char: "segment_ok seg \<Longrightarrow> c \<in> set seg \<Longrightarrow> is_name_char c"
  by (auto simp: segment_ok_def list_all_iff)

lemma replace_char_map:
  "(\<And>c. c \<in> set s \<Longrightarrow> (if c = d then r else [c]) = [f c]) \<Longrightarrow> replace_char d r s = map f s"
  by (induction s) (auto simp: replace_char_def)

lemma replace_char_simps [simp]:
  "replace_char d r [] = []"
  "replace_char d r (c # s) = (if c = d then r else [c]) @ replace_char d r s"
  by (simp_all add: replace_char_def)

lemma replace_char_append [simp]: "replace_char d r (s @ t) = replace_char d r s @ replace_char d r t"
  by (simp add: replace_char_def)

lemma replace_char_id: "d \<notin> set s \<Longrightarrow> replace_char d r s = s"
  by (induction s) (auto simp: replace_char_def)

lemma resource_prefix_segments:
  assumes "segment_ok org" and "segment_ok block"
  shows "resource_prefix (org @ slash # block) =
           map underscore org @ ''__'' @ map underscore block @ ''__''"
proof -
  have *: "replace_char (CHR ''-'') ''_'' seg = map underscore seg" for seg
    by (rule replace_char_map) (simp add: underscore_def)
  have "slash \<notin> set org" "slash \<notin> set block"
    using assms segment_name_char is_name_char_facts(2) by blast+
  then have "replace_char slash ''__'' (org @ slash # block) = org @ ''__'' @ block"
    by (simp add: replace_char_id)
  then show ?thesis by (simp add: resource_prefix_def * underscore_def)
qed

lemma no_separator_inside:
  assumes "segment_ok seg" and "j < length seg"
  shows "\<not> starts_with ''__'' (drop j (map underscore seg @ rest))"
proof (cases "Suc j < length seg")
  case True
  then have "\<not> (seg ! j = CHR ''-'' \<and> seg ! Suc j = CHR ''-'')"
    using assms(1) by (simp add: segment_ok_def)
  moreover have "underscore (seg ! j) = CHR ''_'' \<longleftrightarrow> seg ! j = CHR ''-''"
    and "underscore (seg ! Suc j) = CHR ''_'' \<longleftrightarrow> seg ! Suc j = CHR ''-''"
    using True segment_name_char [OF assms(1)] is_name_char_facts(5) by simp_all
  ultimately show ?thesis unfolding starts_with_two using True by (simp add: nth_append)
next
  case False
  then have j: "j = length seg - 1" using assms(2) by simp
  have "last seg \<noteq> CHR ''-''" "seg \<noteq> []" using assms(1) by (auto simp: segment_ok_def)
  then have "underscore (seg ! j) \<noteq> CHR ''_''"
    using j segment_name_char [OF assms(1)] is_name_char_facts(5)
    by (metis last_conv_nth last_in_set)
  then show ?thesis unfolding starts_with_two using assms(2) by (simp add: nth_append)
qed

lemma find_separator:
  assumes "segment_ok seg"
  shows "str_find ''__'' (map underscore seg @ ''__'' @ rest) = Some (length seg)"
  by (rule str_find_eqI) (use no_separator_inside [OF assms, of _ "''__'' @ rest"] in auto)

lemma replace_fuel_sep: "replace_fuel (Suc n) ''__'' r (''__'' @ t) = r @ replace_fuel n ''__'' r t"
  by simp

lemma replace_fuel_segment:
  assumes "segment_ok seg" and "length seg \<le> n"
  shows "replace_fuel n ''__'' r (map underscore seg @ rest) =
           map underscore seg @ replace_fuel (n - length seg) ''__'' r rest"
  using replace_fuel_skip [of "map underscore seg" "''__''" rest n r]
    no_separator_inside [OF assms(1)] assms(2) by (simp del: drop_append replace_fuel.simps)

lemma replace_separator:
  assumes "segment_ok org" and "segment_ok block"
  shows "replace_str ''__'' ''/'' (map underscore org @ ''__'' @ map underscore block)
       = map underscore org @ slash # map underscore block"
proof -
  let ?n = "Suc (length block)"
  have "replace_fuel ?n ''__'' ''/'' (map underscore block @ []) = map underscore block @ []"
    using replace_fuel_segment [OF assms(2), of ?n "''/''" "[]"] by simp
  then have "replace_fuel (Suc ?n) ''__'' ''/'' (''__'' @ map underscore block)
      = slash # map underscore block"
    unfolding replace_fuel_sep by simp
  moreover have "replace_fuel (length org + Suc ?n) ''__'' ''/''
      (map underscore org @ ''__'' @ map underscore block)
    = map underscore org @ replace_fuel (Suc ?n) ''__'' ''/'' (''__'' @ map underscore block)"
    by (simp only: replace_fuel_segment [OF assms(1), of "length org + Suc ?n"] le_add1 add_diff_cancel_left')
  ultimately show ?thesis by (simp add: replace_str_def del: replace_fuel.simps)
qed

lemma hyphen_back:
  assumes "segment_ok seg"
  shows "replace_char (CHR ''_'') ''-'' (map underscore seg) = seg"
proof -
  have "replace_char (CHR ''_'') ''-'' (map underscore seg)
      = concat (map (\<lambda>c. if underscore c = CHR ''_'' then ''-'' else [underscore c]) seg)"
    by (simp add: replace_char_def comp_def)
  also have "\<dots> = concat (map (\<lambda>c. [c]) seg)"
    using segment_name_char [OF assms] is_name_char_facts(5)
    by (intro arg_cong [of _ _ concat] map_cong) (auto simp: underscore_def)
  finally show ?thesis by simp
qed

lemma lower_segment:
  "segment_ok seg \<Longrightarrow> to_ascii_lowercase (map underscore seg) = map underscore seg"
  by (auto simp: to_ascii_lowercase_def dest: segment_name_char intro: is_name_char_facts(3))

lemma to_ascii_lowercase_Cons [simp]:
  "to_ascii_lowercase (c # s) = ascii_lower c # to_ascii_lowercase s"
  by (simp add: to_ascii_lowercase_def)

lemma ascii_lower_underscore [simp]: "ascii_lower (CHR ''_'') = CHR ''_''"
  by (simp add: ascii_lower_def less_eq_char_def)

section \<open>Owner of a prefixed resource\<close>

lemma resource_owner_prefixed:
  assumes "validate_block_name name = Inr ()"
    and "lower env (resource_prefix name @ rest) = to_ascii_lowercase (resource_prefix name @ rest)"
  shows "resource_owner env (resource_prefix name @ rest) = Some name"
proof -
  obtain org block where n: "name = org @ slash # block" and ok: "segment_ok org" "segment_ok block"
    using validate_block_name_split [OF assms(1)] by blast
  let ?o = "map underscore org" and ?b = "map underscore block" and ?r = "to_ascii_lowercase rest"
  have low: "lower env (resource_prefix name @ rest) = ?o @ ''__'' @ ?b @ ''__'' @ ?r"
    using assms(2) n ok by (simp add: resource_prefix_segments lower_segment)
  have f1: "str_find ''__'' (?o @ ''__'' @ ?b @ ''__'' @ ?r) = Some (length org)"
    by (rule find_separator [OF ok(1)])
  have f2: "str_find ''__'' (?b @ ''__'' @ ?r) = Some (length block)"
    by (rule find_separator [OF ok(2)])
  have t: "take (length org + 2 + length block) (?o @ ''__'' @ ?b @ ''__'' @ ?r) = ?o @ ''__'' @ ?b"
    by simp
  have d: "drop (length org + 2) (?o @ ''__'' @ ?b @ ''__'' @ ?r) = ?b @ ''__'' @ ?r"
    by simp
  have "resource_owner env (resource_prefix name @ rest)
      = Some (replace_char (CHR ''_'') ''-'' (replace_str ''__'' ''/'' (?o @ ''__'' @ ?b)))"
    unfolding resource_owner_def Let_def low f1 option.case d f2 t by (rule refl)
  also have "\<dots> = Some name"
    unfolding replace_separator [OF ok] n
    using hyphen_back [OF ok(1)] hyphen_back [OF ok(2)] by (simp add: replace_char_def)
  finally show ?thesis .
qed

text \<open>A resource named with a registered block's prefix is owned by that block and by no
  other: for a valid block name, every resource that starts with the block's prefix (read
  as ASCII) has that block as its owner, whatever follows the prefix.\<close>

theorem resource_owner_of_prefix:
  assumes "validate_block_name name = Inr ()"
    and "starts_with (resource_prefix name) resource"
    and "lower env resource = to_ascii_lowercase resource"
  shows "resource_owner env resource = Some name"
proof -
  obtain rest where r: "resource = resource_prefix name @ rest"
    using assms(2) by (auto simp: starts_with_prefix prefix_def)
  show ?thesis unfolding r by (rule resource_owner_prefixed [OF assms(1)]) (use assms(3) r in simp)
qed

text \<open>The owner of a table of the block \<^verbatim>\<open>my-org/auth\<close>.\<close>

theorem resource_owner_of_prefix_witness:
  "validate_block_name ''my-org/auth'' = Inr ()
   \<and> resource_owner \<lparr>lower = to_ascii_lowercase, url_parse = \<lambda>_. None\<rparr> ''my_org__auth__users''
       = Some ''my-org/auth''"
proof -
  have v: "validate_block_name ''my-org/auth'' = Inr ()" by code_simp
  moreover have p: "starts_with (resource_prefix ''my-org/auth'') ''my_org__auth__users''" by code_simp
  moreover have "lower \<lparr>lower = to_ascii_lowercase, url_parse = \<lambda>_. None\<rparr> ''my_org__auth__users''
      = to_ascii_lowercase ''my_org__auth__users''" by simp
  ultimately show ?thesis using resource_owner_of_prefix by blast
qed

end
