(* ===== verification/Wrap_Policy.thy ===== *)
theory Wrap_Policy
  imports Wrap_Names
begin

text \<open>
  What the WRAP check guarantees: nobody anonymous gets in, a block without a grant stays
  in its own namespace, grants only ever add access, an append-only grant confers nothing
  but appending, storage paths cannot climb, and grant patterns match no more than their
  glob or host says.
\<close>

section \<open>Decisions\<close>

lemma deny_not_Inr [simp]: "deny f a = Inr u \<longleftrightarrow> False"
  by (simp add: deny_def)

lemma deny_Inl: "deny f a = Inl e \<Longrightarrow> we_code e = PermissionDenied"
  by (auto simp: deny_def)

text \<open>Some grant of the list admits the caller.\<close>

definition some_grant ::
  "wrap_env \<Rightarrow> resource_grant list \<Rightarrow> string option \<Rightarrow> string \<Rightarrow> resource_access \<Rightarrow> resource_type option \<Rightarrow> bool" where
  "some_grant env grants caller_id resource access rt \<longleftrightarrow>
     (\<exists>caller. caller_id = Some caller \<and> (\<exists>g \<in> set grants. grant_allows env g caller resource access rt))"

lemma some_grant_case:
  "(case caller_id of None \<Rightarrow> False
    | Some caller \<Rightarrow> list_ex (\<lambda>g. grant_allows env g caller resource access rt) grants)
   \<longleftrightarrow> some_grant env grants caller_id resource access rt"
  by (auto simp: some_grant_def list_ex_iff split: option.split)

lemma if_deny_Inr [simp]:
  "(if b then Inr () else deny f a) = Inr () \<longleftrightarrow> b"
  "(case x of None \<Rightarrow> deny f a | Some _ \<Rightarrow> Inr ()) = Inr () \<longleftrightarrow> x \<noteq> None"
  by (simp_all split: option.split)

lemma check_namespaced_Inr:
  "check_namespaced env caller_id resource access rt grants admin = Inr () \<longleftrightarrow>
     (if resource = RAW_SQL_RESOURCE then caller_id = Some admin
      else if resource = DDL_RESOURCE \<or> resource = SCHEMA_RESOURCE then caller_id \<noteq> None
      else if rt = Some Auth \<and> is_auth_credential_resource resource then caller_id \<noteq> None
      else if is_shared_resource resource then
        (if access \<noteq> Read then caller_id = Some admin else caller_id \<noteq> None)
      else (caller_id \<noteq> None \<and> resource_owner env resource = caller_id)
           \<or> caller_id = Some admin \<or> some_grant env grants caller_id resource access rt)"
  unfolding check_namespaced_def some_grant_case Let_def
  by (cases "resource = RAW_SQL_RESOURCE"; cases "resource = DDL_RESOURCE \<or> resource = SCHEMA_RESOURCE";
      cases "rt = Some Auth \<and> is_auth_credential_resource resource";
      cases "is_shared_resource resource"; cases "resource_owner env resource"; cases caller_id)
     auto

lemma check_plain_Inr:
  "check_plain env caller_id resource access rt grants admin = Inr () \<longleftrightarrow>
     (if rt = Some Storage \<and> resource = STORAGE_LIST_ALL_RESOURCE then caller_id = Some admin
      else (rt = Some Storage \<longrightarrow> is_traversal_safe_path resource)
           \<and> ((rt = Some Storage \<and> caller_id \<noteq> None \<and> storage_resource_owner resource = caller_id)
              \<or> caller_id = Some admin \<or> some_grant env grants caller_id resource access rt))"
  unfolding check_plain_def some_grant_case Let_def
  by (cases "rt = Some Storage"; cases "resource = STORAGE_LIST_ALL_RESOURCE";
      cases "is_traversal_safe_path resource"; cases caller_id)
     simp_all

lemma check_access_Inr:
  "check_access env caller_id resource access rt grants admin = Inr () \<longleftrightarrow>
     (if rt \<in> {Some Network, Some Storage, Some Crypto}
      then check_plain env caller_id resource access rt grants admin = Inr ()
      else check_namespaced env caller_id resource access rt grants admin = Inr ())"
  by (simp add: check_access_def)

lemmas check_Inr = check_access_Inr check_namespaced_Inr check_plain_Inr

lemma not_Inr_unit: "x \<noteq> Inr () \<Longrightarrow> \<exists>e. x = Inl e"
  by (cases x) simp_all

text \<open>Every refusal comes from \<^const>\<open>deny\<close>.\<close>

definition denies :: "wafer_error + unit \<Rightarrow> bool" where
  "denies r \<longleftrightarrow> r = Inr () \<or> (\<exists>f a. r = deny f a)"

lemma denies_simps [simp]: "denies (Inr ())" "denies (deny f a)"
  by (auto simp: denies_def)

lemma denies_if: "denies x \<Longrightarrow> denies y \<Longrightarrow> denies (if b then x else y)"
  by simp

lemma denies_case: "denies x \<Longrightarrow> denies y \<Longrightarrow> denies (case o' of None \<Rightarrow> x | Some _ \<Rightarrow> y)"
  by (simp split: option.split)

lemma check_access_denies: "denies (check_access env caller_id resource access rt grants admin)"
  unfolding check_access_def check_namespaced_def check_plain_def Let_def
  by (intro denies_if denies_case denies_simps)

lemma check_access_denial:
  "check_access env caller_id resource access rt grants admin = Inl e \<Longrightarrow> we_code e = PermissionDenied"
  using check_access_denies [of env caller_id resource access rt grants admin]
  unfolding denies_def by (metis Inr_Inl_False deny_Inl)

text \<open>A request without a calling block is refused with \<^verbatim>\<open>PermissionDenied\<close>, whatever the
  resource, its type, the access and the grants (a grant to \<^verbatim>\<open>*\<close> included).\<close>

theorem anonymous_denied:
  "\<exists>e. check_access env None resource access rt grants admin = Inl e \<and> we_code e = PermissionDenied"
proof -
  have "check_access env None resource access rt grants admin \<noteq> Inr ()"
    unfolding check_Inr some_grant_def by simp
  then show ?thesis using not_Inr_unit check_access_denial by blast
qed

text \<open>C1: Isolation.  A block that is not the admin block and that no grant admits reaches only
  resources it owns, the schema sentinels, the auth service's credential operations, and
  reads of the shared configuration; in particular it never runs raw SQL and never lists
  all storage folders.\<close>

theorem ungranted_block_is_confined:
  assumes "check_access env (Some caller) resource access rt grants admin = Inr ()"
    and "caller \<noteq> admin"
    and "\<forall>g \<in> set grants. \<not> grant_allows env g caller resource access rt"
  shows "typed_resource_owner env resource rt = Some caller
         \<or> resource \<in> {DDL_RESOURCE, SCHEMA_RESOURCE}
         \<or> (rt = Some Auth \<and> is_auth_credential_resource resource)
         \<or> (is_shared_resource resource \<and> access = Read)"
proof -
  have "\<not> some_grant env grants (Some caller) resource access rt"
    using assms(3) by (simp add: some_grant_def)
  with assms(1,2) show ?thesis
    unfolding check_Inr typed_resource_owner_def by (auto split: if_splits)
qed

text \<open>A block reading its own table.\<close>

theorem ungranted_block_is_confined_witness:
  "let env = \<lparr>lower = to_ascii_lowercase, url_parse = \<lambda>_. None\<rparr> in
   check_access env (Some ''my-org/auth'') ''my_org__auth__users'' Write (Some Db) [] ''my-org/admin'' = Inr ()
   \<and> typed_resource_owner env ''my_org__auth__users'' (Some Db) = Some ''my-org/auth''"
proof -
  let ?env = "\<lparr>lower = to_ascii_lowercase, url_parse = \<lambda>_. None\<rparr>"
  have ok: "check_access ?env (Some ''my-org/auth'') ''my_org__auth__users'' Write (Some Db) []
      ''my-org/admin'' = Inr ()"
    by code_simp
  have "typed_resource_owner ?env ''my_org__auth__users'' (Some Db) = Some ''my-org/auth''"
    using ungranted_block_is_confined [OF ok]
    by (simp add: reserved_defs)
  with ok show ?thesis by (simp add: Let_def)
qed

text \<open>The grants enter the decision at one place.\<close>

lemma check_access_cong:
  assumes "some_grant env grants caller_id resource access rt = some_grant env grants' caller_id resource access rt"
  shows "check_access env caller_id resource access rt grants admin
       = check_access env caller_id resource access rt grants' admin"
  unfolding check_access_def check_namespaced_def check_plain_def some_grant_case assms by (rule refl)

lemma check_access_mono_grant:
  assumes "check_access env caller_id resource access rt grants admin = Inr ()"
    and "\<not> some_grant env grants caller_id resource access rt"
    and "some_grant env grants' caller_id resource access rt"
  shows "check_access env caller_id resource access rt grants' admin = Inr ()"
proof (cases "rt \<in> {Some Network, Some Storage, Some Crypto}")
  case True
  with assms show ?thesis unfolding check_access_Inr check_plain_Inr
    by (cases "rt = Some Storage \<and> resource = STORAGE_LIST_ALL_RESOURCE") simp_all
next
  case False
  with assms show ?thesis unfolding check_access_Inr check_namespaced_Inr by (simp split: if_splits)
qed

lemma check_access_grants_only:
  assumes "check_access env caller_id resource access rt grants admin = Inr ()"
  shows "check_access env caller_id resource access rt [] admin = Inr ()
         \<or> some_grant env grants caller_id resource access rt"
  using assms check_access_cong [of env grants caller_id resource access rt "[]" admin]
  by (auto simp: some_grant_def)

lemma check_access_mono:
  assumes "check_access env caller_id resource access rt grants admin = Inr ()"
    and "set grants \<subseteq> set grants'"
  shows "check_access env caller_id resource access rt grants' admin = Inr ()"
proof (cases "some_grant env grants caller_id resource access rt = some_grant env grants' caller_id resource access rt")
  case True
  then show ?thesis using assms(1) check_access_cong by metis
next
  case False
  then show ?thesis
    using assms check_access_mono_grant by (metis (full_types) some_grant_def subset_iff)
qed

text \<open>C2: Grants are additive: the decision depends on the set of grants only, a larger set
  never refuses what a smaller one admits, and whatever a set of grants admits beyond the
  empty set is admitted by a single grant of it that names the caller (or everybody),
  matches the resource, admits the access and has no other resource type.\<close>

theorem grants_are_additive:
  assumes "check_access env (Some caller) resource access rt grants admin = Inr ()"
  shows "(\<forall>grants'. set grants \<subseteq> set grants' \<longrightarrow>
            check_access env (Some caller) resource access rt grants' admin = Inr ())
         \<and> (check_access env (Some caller) resource access rt [] admin = Inr ()
            \<or> (\<exists>g \<in> set grants.
                 (g_grantee g = ''*'' \<or> g_grantee g = caller)
                 \<and> grant_matches_resource env (g_resource g) resource
                 \<and> admits g access \<and> (g_type g = None \<or> g_type g = rt)))"
proof -
  have "(g_grantee g = ''*'' \<or> g_grantee g = caller)
      \<and> grant_matches_resource env (g_resource g) resource
      \<and> admits g access \<and> (g_type g = None \<or> g_type g = rt)"
    if "grant_allows env g caller resource access rt" for g
    using that by (auto simp: grant_allows_def grant_matches_grantee_def split: if_splits option.splits)
  then show ?thesis
    using check_access_mono [OF assms] check_access_grants_only [OF assms]
    unfolding some_grant_def by blast
qed

text \<open>A grant that admits a foreign read.\<close>

theorem grants_are_additive_witness:
  "let env = \<lparr>lower = to_ascii_lowercase, url_parse = \<lambda>_. None\<rparr>;
       g = grant_read ''my-org/web'' ''my_org__auth__*'' in
   check_access env (Some ''my-org/web'') ''my_org__auth__users'' Read (Some Db) [g] ''my-org/admin'' = Inr ()
   \<and> check_access env (Some ''my-org/web'') ''my_org__auth__users'' Read (Some Db)
       [grant_append ''x/y'' ''z'', g] ''my-org/admin'' = Inr ()"
proof -
  let ?env = "\<lparr>lower = to_ascii_lowercase, url_parse = \<lambda>_. None\<rparr>"
  let ?g = "grant_read ''my-org/web'' ''my_org__auth__*''"
  have ok: "check_access ?env (Some ''my-org/web'') ''my_org__auth__users'' Read (Some Db) [?g]
      ''my-org/admin'' = Inr ()"
    by code_simp
  have "check_access ?env (Some ''my-org/web'') ''my_org__auth__users'' Read (Some Db)
      [grant_append ''x/y'' ''z'', ?g] ''my-org/admin'' = Inr ()"
    using grants_are_additive [OF ok] by simp
  with ok show ?thesis by (simp add: Let_def)
qed

text \<open>An append-only grant confers appending to a database collection and nothing else: if
  every grant that names the caller is append-only, then any access other than an append
  on a \<^verbatim>\<open>Db\<close> resource is decided as if there were no grants.\<close>

theorem append_grants_only_append:
  assumes "\<forall>g \<in> set grants. (g_grantee g = ''*'' \<or> g_grantee g = caller) \<longrightarrow> g_write g = GAppend"
    and "access \<noteq> Append \<or> rt \<noteq> Some Db"
  shows "check_access env (Some caller) resource access rt grants admin
       = check_access env (Some caller) resource access rt [] admin"
proof -
  have "\<not> grant_allows env g caller resource access rt" if "g \<in> set grants" for g
    using assms that
    by (auto simp: grant_allows_def grant_matches_grantee_def admits_def split: if_splits option.splits)
  then show ?thesis by (intro check_access_cong) (auto simp: some_grant_def)
qed

text \<open>A read is refused to the holder of an append-only grant on the collection.\<close>

theorem append_grants_only_append_witness:
  "let env = \<lparr>lower = to_ascii_lowercase, url_parse = \<lambda>_. None\<rparr>;
       g = grant_append ''my-org/log'' ''my_org__auth__audit'' in
   check_access env (Some ''my-org/log'') ''my_org__auth__audit'' Append (Some Db) [g] ''my-org/admin'' = Inr ()
   \<and> check_access env (Some ''my-org/log'') ''my_org__auth__audit'' Read (Some Db) [g] ''my-org/admin''
     = check_access env (Some ''my-org/log'') ''my_org__auth__audit'' Read (Some Db) [] ''my-org/admin''"
proof -
  let ?env = "\<lparr>lower = to_ascii_lowercase, url_parse = \<lambda>_. None\<rparr>"
  let ?g = "grant_append ''my-org/log'' ''my_org__auth__audit''"
  have "check_access ?env (Some ''my-org/log'') ''my_org__auth__audit'' Append (Some Db) [?g]
      ''my-org/admin'' = Inr ()"
    by code_simp
  moreover have "check_access ?env (Some ''my-org/log'') ''my_org__auth__audit'' Read (Some Db) [?g]
        ''my-org/admin''
      = check_access ?env (Some ''my-org/log'') ''my_org__auth__audit'' Read (Some Db) [] ''my-org/admin''"
    by (rule append_grants_only_append) (simp_all add: grant_append_def)
  ultimately show ?thesis by (simp add: Let_def)
qed

section \<open>Storage paths\<close>

lemma storage_owner_prefix:
  assumes "storage_resource_owner path = Some owner"
  shows "path = owner \<or> starts_with (owner @ ''/'') path"
proof -
  obtain org block rest where sp: "split_on slash path = org # block # rest"
    and owner: "owner = org @ ''/'' @ block"
    using assms by (auto simp: storage_resource_owner_def split: list.splits if_splits)
  have "path = join_with [slash] (org # block # rest)"
    using split_on_join [of slash path] sp by simp
  then show ?thesis
    using owner by (cases rest) (auto simp: starts_with_prefix prefix_def)
qed

text \<open>Storage confinement.  Whatever the grants, an admitted storage path other than the
  list-all sentinel has no empty, \<^verbatim>\<open>.\<close> or \<^verbatim>\<open>..\<close> segment and no backslash, so it cannot climb
  out of the folder it textually names; and a block that is neither admin nor granted the
  path is admitted only to its own folder or below it.\<close>

theorem storage_access_confined:
  assumes "check_access env (Some caller) path access (Some Storage) grants admin = Inr ()"
    and "path \<noteq> STORAGE_LIST_ALL_RESOURCE"
  shows "(\<forall>seg \<in> set (split_on slash path). seg \<noteq> [] \<and> seg \<noteq> ''.'' \<and> seg \<noteq> ''..'' \<and> backslash \<notin> set seg)
         \<and> (caller = admin \<or> path = caller \<or> starts_with (caller @ ''/'') path
            \<or> (\<exists>g \<in> set grants. grant_allows env g caller path access (Some Storage)))"
proof -
  have "is_traversal_safe_path path"
    using assms by (simp add: check_access_Inr check_plain_Inr)
  moreover have "caller = admin \<or> storage_resource_owner path = Some caller
      \<or> (\<exists>g \<in> set grants. grant_allows env g caller path access (Some Storage))"
    using assms by (auto simp: check_access_Inr check_plain_Inr some_grant_def)
  ultimately show ?thesis
    using storage_owner_prefix [of path caller]
    unfolding is_traversal_safe_path_def list_ex_iff by blast
qed

text \<open>A block writing below its own folder.\<close>

theorem storage_access_confined_witness:
  "let env = \<lparr>lower = to_ascii_lowercase, url_parse = \<lambda>_. None\<rparr> in
   check_access env (Some ''my-org/files'') ''my-org/files/a.png'' Write (Some Storage) [] ''my-org/admin''
     = Inr ()
   \<and> starts_with (''my-org/files'' @ ''/'') ''my-org/files/a.png''"
proof -
  let ?env = "\<lparr>lower = to_ascii_lowercase, url_parse = \<lambda>_. None\<rparr>"
  have ok: "check_access ?env (Some ''my-org/files'') ''my-org/files/a.png'' Write (Some Storage) []
      ''my-org/admin'' = Inr ()"
    by code_simp
  have "starts_with (''my-org/files'' @ ''/'') ''my-org/files/a.png''"
    using storage_access_confined [OF ok] by (simp add: reserved_defs)
  with ok show ?thesis by (simp add: Let_def)
qed

end
