(* ===== verification/Wrap_Patterns.thy ===== *)
theory Wrap_Patterns
  imports Wrap
begin

text \<open>
  What the patterns of a grant mean.  Resource patterns are compared with a reference
  semantics in which \<^verbatim>\<open>*\<close> stands for any run of characters, host patterns with a semantics over
  the labels of a domain name.
\<close>

section \<open>Glob patterns\<close>

text \<open>What a pattern means: \<^verbatim>\<open>*\<close> stands for any run of characters.\<close>

fun glob :: "string \<Rightarrow> string \<Rightarrow> bool" where
  "glob [] r = (r = [])"
| "glob (c # p) r =
     (if c = star then (\<exists>k \<le> length r. glob p (drop k r))
      else (case r of [] \<Rightarrow> False | d # r' \<Rightarrow> c = d \<and> glob p r'))"

text \<open>The same over the parts between the stars.\<close>

fun gaps :: "string list \<Rightarrow> string \<Rightarrow> bool" where
  "gaps [] r = (r = [])"
| "gaps (q # qs) r = (\<exists>k \<le> length r. starts_with q (drop k r) \<and> gaps qs (drop (k + length q) r))"

fun parts_match :: "string list \<Rightarrow> string \<Rightarrow> bool" where
  "parts_match [] r = False"
| "parts_match (q # qs) r = (starts_with q r \<and> gaps qs (drop (length q) r))"

lemma glob_parts: "glob p r \<longleftrightarrow> parts_match (split_on star p) r"
proof (induction p arbitrary: r)
  case (Cons c p)
  obtain q qs where q: "split_on star p = q # qs" by (cases "split_on star p") auto
  show ?case
  proof (cases "c = star")
    case True
    have "glob (c # p) r \<longleftrightarrow> (\<exists>k \<le> length r. parts_match (q # qs) (drop k r))"
      using True Cons.IH q by simp
    also have "\<dots> \<longleftrightarrow> gaps (q # qs) r" by (simp add: add.commute)
    finally show ?thesis using True q by simp
  next
    case False
    then show ?thesis using Cons.IH q by (cases r) auto
  qed
qed simp

lemma gaps_Nil_last: "gaps [[]] r"
  by (auto intro: exI [of _ "length r"])

lemma glob_loop_sound:
  assumes "glob_loop r (Suc i) parts pos = Some e" and "pos \<le> length r"
    and "e = length r \<or> (parts \<noteq> [] \<and> last parts = [])"
  shows "gaps parts (drop pos r)"
  using assms
proof (induction parts arbitrary: i pos)
  case Nil
  then show ?case by simp
next
  case (Cons part parts)
  show ?case
  proof (cases "part = []")
    case empty: True
    show ?thesis
    proof (cases "parts = []")
      case True
      then show ?thesis using empty gaps_Nil_last [of "drop pos r"] by (simp only:)
    next
      case False
      then have "gaps parts (drop pos r)" using Cons empty by simp
      then show ?thesis using empty by (auto intro: exI [of _ 0])
    qed
  next
    case False
    with Cons.prems(1) obtain k where k: "str_find part (drop pos r) = Some k"
      and rest: "glob_loop r (Suc (Suc i)) parts (pos + k + length part) = Some e"
      by (auto split: option.splits)
    have bound: "k + length part \<le> length r - pos"
      using str_find_Some_bound [OF k] by simp
    have inr: "pos + k + length part \<le> length r"
      using bound Cons.prems(2) by simp
    have "gaps parts (drop (pos + k + length part) r)"
      using Cons.IH [OF rest inr] Cons.prems(3) False by (cases "parts = []") auto
    then show ?thesis
      using str_find_Some_match [OF k] bound by (auto simp: add.commute add.left_commute intro!: exI [of _ k])
  qed
qed

lemma str_find_before:
  assumes "starts_with q (drop j s)" and "j \<le> length s"
  obtains f where "str_find q s = Some f" and "f \<le> j"
proof (cases "str_find q s")
  case None
  then show ?thesis using assms by (simp add: str_find_None)
next
  case (Some f)
  then show ?thesis using that assms str_find_Some_least by (meson not_le_imp_less)
qed

lemma glob_loop_complete:
  assumes "gaps parts (drop pos' r)" and "pos \<le> pos'" and "pos' \<le> length r"
  shows "\<exists>e. glob_loop r (Suc i) parts pos = Some e"
  using assms
proof (induction parts arbitrary: i pos pos')
  case (Cons part parts)
  then obtain k where k: "k \<le> length r - pos'" "starts_with part (drop (pos' + k) r)"
    "gaps parts (drop (pos' + k + length part) r)"
    by (auto simp: add.commute add.left_commute)
  have inr: "pos' + k + length part \<le> length r"
    using starts_with_length [OF k(2)] k(1) Cons.prems(3) by simp
  show ?case
  proof (cases "part = []")
    case True
    then show ?thesis using Cons.IH [OF k(3), of pos "Suc i"] Cons.prems inr by simp
  next
    case False
    have "starts_with part (drop (pos' + k - pos) (drop pos r))"
      using k(2) Cons.prems(2) by simp
    then obtain f where f: "str_find part (drop pos r) = Some f" "f \<le> pos' + k - pos"
      using inr by (elim str_find_before) auto
    then have "pos + f + length part \<le> pos' + k + length part"
      using Cons.prems(2) by simp
    then show ?thesis using Cons.IH [OF k(3) _ inr, of "pos + f + length part" "Suc i"] f False by simp
  qed
qed simp

lemma split_on_last_Nil: "ends_with [d] p \<longleftrightarrow> length (split_on d p) \<noteq> 1 \<and> last (split_on d p) = []"
proof (induction p)
  case (Cons c p)
  obtain q qs where q: "split_on d p = q # qs" by (cases "split_on d p") auto
  show ?case
    using Cons q by (cases p) (auto simp: ends_with_iff Cons_eq_append_conv split: if_splits list.splits)
qed (simp add: ends_with_def)

lemma glob_loop_first:
  assumes "part \<noteq> []"
  shows "glob_loop r 0 (part # parts) 0 =
    (if starts_with part r then glob_loop r 1 parts (length part) else None)"
proof (cases "starts_with part r")
  case True
  then have "str_find part r = Some 0"
    using str_find_before [of part 0 r] by auto
  then show ?thesis using assms True by simp
next
  case False
  then have "str_find part r \<noteq> Some 0" using str_find_Some_match [of part r 0] by auto
  then show ?thesis using assms False by (auto split: option.split)
qed

lemma glob_loop_parts:
  assumes "parts \<noteq> []"
  shows "glob_loop r 0 (part # parts) 0 =
    (if starts_with part r then glob_loop r 1 parts (length part) else None)"
  using assms glob_loop_first by (cases "part = []") auto

text \<open>A resource pattern never admits more than its reading as a glob, where \<^verbatim>\<open>*\<close> stands
  for any run of characters; a pattern without \<^verbatim>\<open>*\<close> and a pattern that ends with \<^verbatim>\<open>*\<close> (the forms
  the grants of the repository use) admit exactly that.\<close>

theorem glob_matches_is_glob:
  "(glob_matches pattern resource \<longrightarrow> glob pattern resource)
   \<and> (star \<notin> set pattern \<or> ends_with ''*'' pattern \<longrightarrow>
        (glob_matches pattern resource \<longleftrightarrow> glob pattern resource))"
proof -
  obtain q qs where q: "split_on star pattern = q # qs" by (cases "split_on star pattern") auto
  show ?thesis
  proof (cases "qs = []")
    case True
    have "pattern = q" using split_on_join [of star pattern] q True by simp
    then show ?thesis using q True by (auto simp: glob_matches_def glob_parts starts_with_prefix prefix_def)
  next
    case False
    have star: "star \<in> set pattern" using q False split_on_single [of star pattern] by auto
    have last: "ends_with ''*'' pattern \<longleftrightarrow> last qs = []"
      using split_on_last_Nil [of star pattern] q False by simp
    have m: "glob_matches pattern resource \<longleftrightarrow> starts_with q resource \<and>
        (\<exists>e. glob_loop resource 1 qs (length q) = Some e \<and> (last qs = [] \<or> e = length resource))"
      using q False last by (auto simp: glob_matches_def glob_loop_parts simp del: glob_loop.simps split: option.splits)
    have g: "glob pattern resource \<longleftrightarrow> starts_with q resource \<and> gaps qs (drop (length q) resource)"
      using q by (simp add: glob_parts)
    show ?thesis
      unfolding m g last using star False glob_loop_sound [of resource 0 qs "length q"]
        glob_loop_complete [of qs "length q" resource "length q" 0] starts_with_length
      by auto
  qed
qed

text \<open>A prefix pattern and the resource it names.\<close>

theorem glob_matches_is_glob_witness:
  "glob_matches ''my_org__auth__*'' ''my_org__auth__users'' \<and> glob ''my_org__auth__*'' ''my_org__auth__users''"
proof -
  have "glob_matches ''my_org__auth__*'' ''my_org__auth__users''" by code_simp
  then show ?thesis using glob_matches_is_glob [of "''my_org__auth__*''" "''my_org__auth__users''"] by blast
qed

text \<open>A pattern that ends in a literal is matched greedily from the left: the first
  occurrence of the literal decides, so a resource that contains it twice is refused
  although the pattern read as a glob admits it.  The refusal is safe, but the grant does
  not admit what it says.\<close>

theorem glob_matches_refuses_repeated_ending:
  "glob ''a*b'' ''abb'' \<and> \<not> glob_matches ''a*b'' ''abb''"
  by code_simp

section \<open>Host patterns\<close>

lemma ends_with_labels:
  "(h = s \<or> ends_with (dot # s) h) \<longleftrightarrow> (\<exists>ls. split_on dot h = ls @ split_on dot s)"
proof
  assume "h = s \<or> ends_with (dot # s) h"
  then show "\<exists>ls. split_on dot h = ls @ split_on dot s"
  proof
    assume "ends_with (dot # s) h"
    then obtain r where "h = r @ dot # s" by (auto simp: ends_with_iff)
    then show ?thesis by (auto simp: split_on_append_any)
  qed simp
next
  assume "\<exists>ls. split_on dot h = ls @ split_on dot s"
  then obtain ls where ls: "split_on dot h = ls @ split_on dot s" by blast
  have "h = join_with [dot] (ls @ split_on dot s)" using ls split_on_join by metis
  then show "h = s \<or> ends_with (dot # s) h"
    using split_on_join [of dot s] by (cases "ls = []") (auto simp: join_with_append ends_with_iff)
qed

lemma one_label:
  "(l \<noteq> [] \<and> dot \<notin> set l \<and> h = l @ dot # s) \<longleftrightarrow> (l \<noteq> [] \<and> split_on dot h = l # split_on dot s)"
proof
  assume "l \<noteq> [] \<and> split_on dot h = l # split_on dot s"
  then show "l \<noteq> [] \<and> dot \<notin> set l \<and> h = l @ dot # s"
    using split_on_join [of dot h] split_on_join [of dot s] split_on_no_delim [of l dot h]
    by (cases "split_on dot s") auto
qed (auto simp: split_on_append)

lemma lower_star_dot:
  "to_ascii_lowercase (''*.'' @ s) = ''*.'' @ to_ascii_lowercase s"
  "to_ascii_lowercase (''**.'' @ s) = ''**.'' @ to_ascii_lowercase s"
  unfolding to_ascii_lowercase_append by (simp_all add: to_ascii_lowercase_def ascii_lower_def)

lemma star_dot_pattern:
  "(''*.'' @ s = ''*'') = False" "(''**.'' @ s = ''*'') = False"
  "strip_prefix ''**.'' (''*.'' @ s) = None" "strip_prefix ''*.'' (''*.'' @ s) = Some s"
  "strip_prefix ''**.'' (''**.'' @ s) = Some s"
  by (simp_all add: strip_prefix_def starts_with_def)

text \<open>Host patterns compare whole labels, without regard to case: \<^verbatim>\<open>*.s\<close> admits exactly the
  hosts with one non-empty label before those of \<^verbatim>\<open>s\<close>, \<^verbatim>\<open>**.s\<close> exactly \<^verbatim>\<open>s\<close> and the hosts whose
  last labels are those of \<^verbatim>\<open>s\<close>; a host that merely contains \<^verbatim>\<open>s\<close> (such as
  \<^verbatim>\<open>example.com.evil.com\<close> or \<^verbatim>\<open>evilexample.com\<close>) is not admitted.\<close>

theorem host_patterns_compare_labels:
  "(host_pattern_matches (''*.'' @ s) host \<longleftrightarrow>
     (\<exists>l. l \<noteq> [] \<and> split_on dot (to_ascii_lowercase host) = l # split_on dot (to_ascii_lowercase s)))
   \<and> (host_pattern_matches (''**.'' @ s) host \<longleftrightarrow>
     (\<exists>ls. split_on dot (to_ascii_lowercase host) = ls @ split_on dot (to_ascii_lowercase s)))"
proof -
  let ?h = "to_ascii_lowercase host" and ?s = "to_ascii_lowercase s"
  have "host_pattern_matches (''*.'' @ s) host \<longleftrightarrow> (\<exists>l. l \<noteq> [] \<and> dot \<notin> set l \<and> ?h = l @ dot # ?s)"
    unfolding host_pattern_matches_def Let_def lower_star_dot star_dot_pattern
    by (auto simp: strip_suffix_case)
  moreover have "host_pattern_matches (''**.'' @ s) host \<longleftrightarrow> ?h = ?s \<or> ends_with (dot # ?s) ?h"
    unfolding host_pattern_matches_def Let_def lower_star_dot star_dot_pattern by simp
  ultimately show ?thesis
    unfolding ends_with_labels one_label by simp
qed

end
