(* ===== verification/Streams.thy ===== *)
theory Streams
  imports Core_Types
begin

text \<open>
  \<^verbatim>\<open>crates/wafer-block/src/stream.rs\<close> and \<^verbatim>\<open>streams/output.rs\<close>: the output side of a block
  invocation, an \<^verbatim>\<open>OutputSink\<close> the producer writes to and the \<^verbatim>\<open>OutputStream\<close> its consumer
  reads.

  A consumer reads an \<^verbatim>\<open>OutputStream\<close> one event at a time and waits when none has arrived, so
  what it sees is the sequence of events that will come, ended by the close of the channel:
  the stream is the list of those events, what was put back (\<^verbatim>\<open>prelude\<close>) first.  The producer is
  a state machine over the calls it makes on its sink; a body send blocks while the channel is
  full and then proceeds, so the capacity orders nothing and is left out, except for the slot
  reserved for the terminal, which the model keeps (\<open>permit\<close>).
\<close>

type_synonym bytes = string

datatype stream_event =
    Chunk bytes
  | Meta meta_entry
  | Complete "meta_entry list"
  | Error wafer_error
  | Drop "meta_entry list"
  | Halt bytes "meta_entry list"
  | Continue message

type_synonym output_stream = "stream_event list"

fun is_body_event :: "stream_event \<Rightarrow> bool" where
  "is_body_event (Chunk _) = True"
| "is_body_event (Meta _) = True"
| "is_body_event _ = False"

record buffered_response =
  br_body :: bytes
  br_meta :: "meta_entry list"

datatype terminal_not_response =
    TError wafer_error
  | TDrop "meta_entry list"
  | THalt buffered_response
  | TContinue message
  | TMalformed

section \<open>Buffered constructors\<close>

definition respond :: "bytes \<Rightarrow> output_stream" where
  "respond bs = [Chunk bs, Complete []]"

definition respond_with_meta :: "bytes \<Rightarrow> meta_entry list \<Rightarrow> output_stream" where
  "respond_with_meta bs meta = (if bs = [] then [Complete meta] else [Chunk bs, Complete meta])"

definition out_error :: "wafer_error \<Rightarrow> output_stream" where
  "out_error e = [Error e]"

definition drop_request_with_meta :: "meta_entry list \<Rightarrow> output_stream" where
  "drop_request_with_meta meta = [Drop meta]"

definition drop_request :: output_stream where
  "drop_request = drop_request_with_meta []"

definition continue_with :: "message \<Rightarrow> output_stream" where
  "continue_with msg = [Continue msg]"

definition halt :: "bytes \<Rightarrow> meta_entry list \<Rightarrow> output_stream" where
  "halt body meta = [Halt body meta]"

definition from_buffered_response :: "buffered_response \<Rightarrow> output_stream" where
  "from_buffered_response buf = [Halt (br_body buf) (br_meta buf)]"

definition from_result :: "wafer_error + bytes \<Rightarrow> output_stream" where
  "from_result r = (case r of Inr bs \<Rightarrow> respond bs | Inl e \<Rightarrow> out_error e)"

section \<open>Reading\<close>

definition prepend :: "stream_event list \<Rightarrow> output_stream \<Rightarrow> output_stream" where
  "prepend events s = events @ s"

definition peek :: "output_stream \<Rightarrow> stream_event option" where
  "peek s = (case s of [] \<Rightarrow> None | e # _ \<Rightarrow> Some e)"

text \<open>The entries of the leading \<^verbatim>\<open>Meta\<close> events, and the stream left on the first other event.\<close>

fun take_leading_meta :: "output_stream \<Rightarrow> meta_entry list \<times> output_stream" where
  "take_leading_meta (Meta e # s) = (let (meta, rest) = take_leading_meta s in (e # meta, rest))"
| "take_leading_meta s = ([], s)"

text \<open>A rewrite sees the events in order and may carry state from one to the next
  (\<^verbatim>\<open>FnMut\<close>); \<open>None\<close> skips the event.\<close>

fun rewrite_produced :: "('a \<Rightarrow> stream_event \<Rightarrow> 'a \<times> stream_event option) \<Rightarrow> 'a \<Rightarrow> output_stream
    \<Rightarrow> output_stream" where
  "rewrite_produced f a [] = []"
| "rewrite_produced f a (e # s) =
     (case f a e of (a', None) \<Rightarrow> rewrite_produced f a' s
      | (a', Some e') \<Rightarrow> e' # rewrite_produced f a' s)"

definition halt_after_body_error :: wafer_error where
  "halt_after_body_error = wafer_error_new Internal
     (Text ''Halt terminal followed Chunk or Meta events (protocol violation)'' [])"

definition error_of_terminal :: "terminal_not_response \<Rightarrow> wafer_error" where
  "error_of_terminal t =
     (case t of
        TError e \<Rightarrow> e
      | TDrop _ \<Rightarrow> wafer_error_new Unknown (Text ''block dropped the request'' [])
      | THalt buf \<Rightarrow> wafer_error_new Internal
          (Text (''Halt terminal converted to error '' @ [CHR 0xE2, CHR 0x80, CHR 0x94] @ '' bug: callers should match Halt before this conversion ({} body bytes, {} meta entries)'')
             [A_nat (length (br_body buf)), A_nat (length (br_meta buf))])
      | TContinue msg \<Rightarrow> wafer_error_new Internal
          (Text ''unexpected Continue terminal (kind: {})'' [A_str (msg_kind msg)])
      | TMalformed \<Rightarrow> wafer_error_new Internal
          (Text ''stream ended without terminal event (protocol violation)'' []))"

text \<open>The loop of \<^verbatim>\<open>collect_buffered\<close> with its three variables.\<close>

fun collect_loop :: "bytes \<Rightarrow> meta_entry list \<Rightarrow> bool \<Rightarrow> output_stream
    \<Rightarrow> terminal_not_response + buffered_response" where
  "collect_loop body meta any_body_event [] = Inl TMalformed"
| "collect_loop body meta any_body_event (Chunk bs # s) =
     collect_loop (if body = [] then bs else body @ bs) meta True s"
| "collect_loop body meta any_body_event (Meta e # s) = collect_loop body (meta @ [e]) True s"
| "collect_loop body meta any_body_event (Complete trailing # s) =
     Inr \<lparr>br_body = body, br_meta = meta @ trailing\<rparr>"
| "collect_loop body meta any_body_event (Halt hb hm # s) =
     (if any_body_event then Inl (TError halt_after_body_error)
      else Inl (THalt \<lparr>br_body = hb, br_meta = hm\<rparr>))"
| "collect_loop body meta any_body_event (Error e # s) = Inl (TError e)"
| "collect_loop body meta any_body_event (Drop dm # s) = Inl (TDrop dm)"
| "collect_loop body meta any_body_event (Continue msg # s) = Inl (TContinue msg)"

definition collect_buffered :: "output_stream \<Rightarrow> terminal_not_response + buffered_response" where
  "collect_buffered s = collect_loop [] [] False s"

text \<open>\<^verbatim>\<open>body_stream_or_error\<close>: the items of the body, an error last if there is one.  The flag is
  \<^verbatim>\<open>any_body_event\<close>.\<close>

fun body_items :: "bool \<Rightarrow> output_stream \<Rightarrow> (wafer_error + bytes) list" where
  "body_items any_body_event [] = [Inl (error_of_terminal TMalformed)]"
| "body_items any_body_event (Chunk bs # s) = Inr bs # body_items True s"
| "body_items any_body_event (Meta e # s) = body_items True s"
| "body_items any_body_event (Error e # s) = [Inl e]"
| "body_items any_body_event (Halt hb hm # s) =
     (if any_body_event then [Inl halt_after_body_error] else if hb \<noteq> [] then [Inr hb] else [])"
| "body_items any_body_event (Complete trailing # s) = []"
| "body_items any_body_event (Drop dm # s) = []"
| "body_items any_body_event (Continue msg # s) = []"

definition body_stream_or_error :: "output_stream \<Rightarrow> (wafer_error + bytes) list" where
  "body_stream_or_error s = body_items False s"

section \<open>The sink\<close>

record sink =
  sk_sent :: "stream_event list"
  sk_permit :: bool
  sk_any_body_sent :: bool
  sk_closed :: bool
  sk_alive :: bool

datatype sink_send_error = SinkClosed | BodyAlreadySent string

definition new_sink :: sink where
  "new_sink = \<lparr>sk_sent = [], sk_permit = True, sk_any_body_sent = False, sk_closed = False, sk_alive = True\<rparr>"

text \<open>The channel discards what is sent after the consumer dropped its end.\<close>

definition deliver :: "stream_event \<Rightarrow> sink \<Rightarrow> sink" where
  "deliver e sk = (if sk_closed sk then sk else sk\<lparr>sk_sent := sk_sent sk @ [e]\<rparr>)"

definition closed_result :: "sink \<Rightarrow> sink_send_error + unit" where
  "closed_result sk = (if sk_closed sk then Inl SinkClosed else Inr ())"

definition send_terminal :: "stream_event \<Rightarrow> sink \<Rightarrow> sink \<times> (sink_send_error + unit)" where
  "send_terminal e sk = (deliver e (sk\<lparr>sk_permit := False\<rparr>), closed_result sk)"

definition send_body :: "stream_event \<Rightarrow> sink \<Rightarrow> sink \<times> (sink_send_error + unit)" where
  "send_body e sk = (deliver e (sk\<lparr>sk_any_body_sent := True\<rparr>), closed_result sk)"

definition send_chunk :: "bytes \<Rightarrow> sink \<Rightarrow> sink \<times> (sink_send_error + unit)" where
  "send_chunk bs = send_body (Chunk bs)"

definition send_meta :: "meta_entry \<Rightarrow> sink \<Rightarrow> sink \<times> (sink_send_error + unit)" where
  "send_meta e = send_body (Meta e)"

text \<open>\<^verbatim>\<open>Drop for OutputSink\<close>; \<open>cause\<close> says whether the thread was panicking.\<close>

definition sink_drop :: "string \<Rightarrow> sink \<Rightarrow> sink" where
  "sink_drop cause sk =
     (if sk_permit sk
      then deliver (Error (wafer_error_new Internal
                      (Text ''output stream ended without a terminal event: {}'' [A_str cause])))
             (sk\<lparr>sk_permit := False\<rparr>)
      else sk)\<lparr>sk_alive := False\<rparr>"

definition returned :: string where
  "returned = ''the producer was cancelled or returned without a terminal''"

definition panicked :: string where
  "panicked = ''the producer panicked''"

text \<open>The terminals consume the sink, which is dropped when they return.\<close>

definition consume :: "sink \<times> (sink_send_error + unit) \<Rightarrow> sink \<times> (sink_send_error + unit)" where
  "consume r = (sink_drop returned (fst r), snd r)"

definition sink_complete :: "meta_entry list \<Rightarrow> sink \<Rightarrow> sink \<times> (sink_send_error + unit)" where
  "sink_complete meta sk = consume (send_terminal (Complete meta) sk)"

definition sink_error :: "wafer_error \<Rightarrow> sink \<Rightarrow> sink \<times> (sink_send_error + unit)" where
  "sink_error e sk = consume (send_terminal (Error e) sk)"

definition sink_drop_request_with_meta :: "meta_entry list \<Rightarrow> sink \<Rightarrow> sink \<times> (sink_send_error + unit)" where
  "sink_drop_request_with_meta meta sk =
     consume (if sk_any_body_sent sk then (sk, Inl (BodyAlreadySent ''Drop'')) else send_terminal (Drop meta) sk)"

definition sink_continue_with :: "message \<Rightarrow> sink \<Rightarrow> sink \<times> (sink_send_error + unit)" where
  "sink_continue_with msg sk =
     consume (if sk_any_body_sent sk then (sk, Inl (BodyAlreadySent ''Continue''))
              else send_terminal (Continue msg) sk)"

definition sink_halt :: "bytes \<Rightarrow> meta_entry list \<Rightarrow> sink \<Rightarrow> sink \<times> (sink_send_error + unit)" where
  "sink_halt body meta sk =
     consume (if sk_any_body_sent sk then (sk, Inl (BodyAlreadySent ''Halt'')) else send_terminal (Halt body meta) sk)"

text \<open>What a producer and its consumer can do, in any order: the producer calls its sink while it
  holds it, and lets go of it by a terminal, by returning or by panicking; the consumer may drop
  the stream at any time.\<close>

inductive sink_step :: "sink \<Rightarrow> sink \<Rightarrow> bool" where
  step_chunk: "sk_alive sk \<Longrightarrow> sink_step sk (fst (send_chunk bs sk))"
| step_meta: "sk_alive sk \<Longrightarrow> sink_step sk (fst (send_meta e sk))"
| step_complete: "sk_alive sk \<Longrightarrow> sink_step sk (fst (sink_complete meta sk))"
| step_error: "sk_alive sk \<Longrightarrow> sink_step sk (fst (sink_error err sk))"
| step_drop_request: "sk_alive sk \<Longrightarrow> sink_step sk (fst (sink_drop_request_with_meta meta sk))"
| step_continue: "sk_alive sk \<Longrightarrow> sink_step sk (fst (sink_continue_with msg sk))"
| step_halt: "sk_alive sk \<Longrightarrow> sink_step sk (fst (sink_halt body meta sk))"
| step_release: "sk_alive sk \<Longrightarrow> cause \<in> {returned, panicked} \<Longrightarrow> sink_step sk (sink_drop cause sk)"
| step_close: "sink_step sk (sk\<lparr>sk_closed := True\<rparr>)"

inductive sink_reachable :: "sink \<Rightarrow> bool" where
  reach_new: "sink_reachable new_sink"
| reach_step: "sink_reachable sk \<Longrightarrow> sink_step sk sk' \<Longrightarrow> sink_reachable sk'"

inductive_cases sink_stepE: "sink_step sk sk'"

lemmas sink_op_defs =
  send_chunk_def send_meta_def send_body_def sink_complete_def sink_error_def sink_halt_def
  sink_drop_request_with_meta_def sink_continue_with_def consume_def send_terminal_def sink_drop_def
  deliver_def

text \<open>The protocol a consumer relies on: body events, then one terminal, which is not one of the
  bodiless kinds if there was a body.\<close>

fun bodiless :: "stream_event \<Rightarrow> bool" where
  "bodiless (Drop _) = True"
| "bodiless (Halt _ _) = True"
| "bodiless (Continue _) = True"
| "bodiless _ = False"

definition well_ended :: "output_stream \<Rightarrow> bool" where
  "well_ended s \<longleftrightarrow> s \<noteq> [] \<and> list_all is_body_event (butlast s) \<and> \<not> is_body_event (last s)
     \<and> (bodiless (last s) \<longrightarrow> butlast s = [])"

definition sink_inv :: "sink \<Rightarrow> bool" where
  "sink_inv sk \<longleftrightarrow>
     (if sk_alive sk
      then sk_permit sk \<and> list_all is_body_event (sk_sent sk) \<and> (sk_sent sk \<noteq> [] \<longrightarrow> sk_any_body_sent sk)
      else \<not> sk_permit sk \<and> (well_ended (sk_sent sk) \<or> (sk_closed sk \<and> list_all is_body_event (sk_sent sk))))"

lemma well_ended_snoc:
  "list_all is_body_event s \<Longrightarrow> \<not> is_body_event t \<Longrightarrow> (bodiless t \<Longrightarrow> s = []) \<Longrightarrow> well_ended (s @ [t])"
  by (simp add: well_ended_def)

lemma sink_step_inv:
  assumes "sink_step sk sk'" and "sink_inv sk"
  shows "sink_inv sk'"
  using assms
  by (cases rule: sink_step.cases)
     (auto simp: sink_op_defs sink_inv_def intro!: well_ended_snoc)

lemma new_sink_inv: "sink_inv new_sink"
  by (simp add: sink_inv_def new_sink_def)

lemma sink_reachable_inv: "sink_reachable sk \<Longrightarrow> sink_inv sk"
  by (induction rule: sink_reachable.induct) (blast intro: new_sink_inv sink_step_inv)+

section \<open>What collecting yields\<close>

fun chunk_bytes :: "output_stream \<Rightarrow> bytes" where
  "chunk_bytes [] = []"
| "chunk_bytes (Chunk bs # s) = bs @ chunk_bytes s"
| "chunk_bytes (e # s) = chunk_bytes s"

fun meta_entries :: "output_stream \<Rightarrow> meta_entry list" where
  "meta_entries [] = []"
| "meta_entries (Meta e # s) = e # meta_entries s"
| "meta_entries (e # s) = meta_entries s"

lemma collect_loop_body:
  "list_all is_body_event s \<Longrightarrow>
   collect_loop body meta b (s @ r) = collect_loop (body @ chunk_bytes s) (meta @ meta_entries s) (b \<or> s \<noteq> []) r"
proof (induction s arbitrary: body meta b)
  case (Cons e s)
  then show ?case by (cases e) auto
qed simp

lemma collect_body:
  "list_all is_body_event s \<Longrightarrow>
   collect_buffered (s @ r) = collect_loop (chunk_bytes s) (meta_entries s) (s \<noteq> []) r"
  by (simp add: collect_buffered_def collect_loop_body)

text \<open>A stream of the sink is its body events and a terminal; what a consumer collects from it.\<close>

lemma collect_well_ended:
  assumes "well_ended s"
  shows "collect_buffered s =
    (case last s of
       Complete m \<Rightarrow> Inr \<lparr>br_body = chunk_bytes (butlast s), br_meta = meta_entries (butlast s) @ m\<rparr>
     | Error e \<Rightarrow> Inl (TError e)
     | Drop m \<Rightarrow> Inl (TDrop m)
     | Halt b m \<Rightarrow> Inl (THalt \<lparr>br_body = b, br_meta = m\<rparr>)
     | Continue msg \<Rightarrow> Inl (TContinue msg)
     | _ \<Rightarrow> Inl TMalformed)"
proof -
  have s: "s = butlast s @ [last s]" using assms by (simp add: well_ended_def)
  have "collect_buffered s = collect_loop (chunk_bytes (butlast s)) (meta_entries (butlast s)) (butlast s \<noteq> []) [last s]"
    using assms by (subst s) (simp only: collect_body well_ended_def)
  then show ?thesis using assms by (cases "last s") (auto simp: well_ended_def)
qed

text \<open>C4: The stream protocol.  Whatever calls a producer makes on its sink, once the sink is gone
  and the consumer is still there, the consumer finds body events followed by exactly one
  terminal; a \<^verbatim>\<open>Drop\<close>, \<^verbatim>\<open>Continue\<close> or \<^verbatim>\<open>Halt\<close> terminal never follows a body event; collecting the
  stream is never \<^verbatim>\<open>Malformed\<close>, and yields a response exactly when the terminal is \<^verbatim>\<open>Complete\<close>,
  with all the bytes sent.\<close>

theorem sink_stream_protocol:
  assumes "sink_reachable sk" and "\<not> sk_alive sk" and "\<not> sk_closed sk"
  shows "well_ended (sk_sent sk) \<and> collect_buffered (sk_sent sk) \<noteq> Inl TMalformed
    \<and> (\<forall>buf. collect_buffered (sk_sent sk) = Inr buf \<longleftrightarrow>
          (\<exists>m. last (sk_sent sk) = Complete m
             \<and> buf = \<lparr>br_body = chunk_bytes (sk_sent sk), br_meta = meta_entries (sk_sent sk) @ m\<rparr>))"
proof -
  let ?s = "sk_sent sk"
  have we: "well_ended ?s"
    using sink_reachable_inv [OF assms(1)] assms(2,3) by (simp add: sink_inv_def)
  then have s: "?s = butlast ?s @ [last ?s]" by (simp add: well_ended_def)
  have "chunk_bytes (x @ [Complete m]) = chunk_bytes x" "meta_entries (x @ [Complete m]) = meta_entries x" for x m
    by (induction x rule: chunk_bytes.induct; simp)+
  then show ?thesis
    using we s collect_well_ended [OF we]
    by (cases "last ?s") (auto simp: well_ended_def, (metis)+)
qed

text \<open>A producer that sends one chunk and completes.\<close>

theorem sink_stream_protocol_witness:
  "let sk = fst (sink_complete [] (fst (send_chunk ''ok'' new_sink))) in
   sink_reachable sk \<and> collect_buffered (sk_sent sk) = Inr \<lparr>br_body = ''ok'', br_meta = []\<rparr>"
proof -
  let ?sk1 = "fst (send_chunk ''ok'' new_sink)"
  let ?sk = "fst (sink_complete [] ?sk1)"
  have "sk_alive new_sink" "sk_alive ?sk1"
    by (simp_all add: new_sink_def sink_op_defs)
  then have r: "sink_reachable ?sk"
    by (meson reach_new reach_step step_chunk step_complete)
  have "\<not> sk_alive ?sk" "\<not> sk_closed ?sk" "sk_sent ?sk = [Chunk ''ok'', Complete []]"
    by (simp_all add: new_sink_def sink_op_defs)
  then show ?thesis using sink_stream_protocol [OF r] r by (simp add: Let_def)
qed

text \<open>A cut-off body is never a response.  A producer that lets go of its sink without a
  terminal (it returned, was cancelled or panicked), and one whose bodiless terminal was
  refused because a body had started, leave a stream that collects to an \<^verbatim>\<open>Internal\<close> error,
  whatever was sent before.\<close>

theorem abandoned_sink_is_an_error:
  assumes "sink_reachable sk" and "sk_alive sk" and "\<not> sk_closed sk"
  shows "(\<exists>e. collect_buffered (sk_sent (sink_drop cause sk)) = Inl (TError e) \<and> we_code e = Internal)
    \<and> (sk_any_body_sent sk \<longrightarrow>
        (\<forall>op \<in> {sink_drop_request_with_meta meta, sink_continue_with msg, sink_halt body meta}.
           (\<exists>t. snd (op sk) = Inl (BodyAlreadySent t))
           \<and> (\<exists>e. collect_buffered (sk_sent (fst (op sk))) = Inl (TError e) \<and> we_code e = Internal)))"
proof -
  have "sk_permit sk" and body: "list_all is_body_event (sk_sent sk)"
    using sink_reachable_inv [OF assms(1)] assms(2) by (simp_all add: sink_inv_def)
  then have "\<exists>e. collect_buffered (sk_sent (sink_drop c sk)) = Inl (TError e) \<and> we_code e = Internal" for c
    using assms(3) by (simp add: sink_drop_def deliver_def collect_body [OF body])
  then show ?thesis
    by (simp add: sink_drop_request_with_meta_def sink_continue_with_def sink_halt_def consume_def)
qed

text \<open>A sink dropped after one chunk.\<close>

theorem abandoned_sink_is_an_error_witness:
  "let sk = fst (send_chunk ''part'' new_sink) in
   sink_reachable sk \<and> (\<exists>e. collect_buffered (sk_sent (sink_drop panicked sk)) = Inl (TError e))
   \<and> (\<exists>t. snd (sink_halt ''x'' [] sk) = Inl (BodyAlreadySent t))"
proof -
  let ?sk = "fst (send_chunk ''part'' new_sink)"
  have r: "sink_reachable ?sk"
    by (rule reach_step [OF reach_new step_chunk]) (simp add: new_sink_def)
  have "sk_alive ?sk" "\<not> sk_closed ?sk" "sk_any_body_sent ?sk"
    by (simp_all add: new_sink_def sink_op_defs)
  then show ?thesis
    using abandoned_sink_is_an_error [OF r, of panicked "[]" _ "''x''"] r by (simp add: Let_def) blast
qed

section \<open>Two ways to read a body\<close>

definition items_body :: "(wafer_error + bytes) list \<Rightarrow> bytes" where
  "items_body items = concat (map (\<lambda>i. case i of Inr bs \<Rightarrow> bs | Inl _ \<Rightarrow> []) items)"

definition items_error :: "(wafer_error + bytes) list \<Rightarrow> wafer_error option" where
  "items_error items = (case filter isl items of Inl e # _ \<Rightarrow> Some e | _ \<Rightarrow> None)"

lemma items_simps [simp]:
  "items_body [] = []" "items_body (Inr bs # is) = bs @ items_body is" "items_body (Inl e # is) = items_body is"
  "items_error [] = None" "items_error (Inr bs # is) = items_error is" "items_error (Inl e # is) = Some e"
  by (simp_all add: items_body_def items_error_def)

lemma collect_items:
  "case collect_loop body meta b s of
     Inr buf \<Rightarrow> items_error (body_items b s) = None \<and> br_body buf = body @ items_body (body_items b s)
   | Inl (THalt buf) \<Rightarrow> \<not> b \<and> items_error (body_items b s) = None \<and> items_body (body_items b s) = br_body buf
   | Inl (TError e) \<Rightarrow> items_error (body_items b s) = Some e
   | Inl TMalformed \<Rightarrow> items_error (body_items b s) = Some (error_of_terminal TMalformed)
   | Inl _ \<Rightarrow> items_error (body_items b s) = None"
proof (induction s arbitrary: body meta b)
  case (Cons e s)
  show ?case
  proof (cases e)
    case (Chunk bs)
    have "(if body = [] then bs else body @ bs) = body @ bs" by simp
    then show ?thesis using Chunk Cons [where body = "body @ bs" and meta = meta and b = True]
      by (auto split: sum.split terminal_not_response.split)
  next
    case (Meta m)
    then show ?thesis using Cons [where body = body and meta = "meta @ [m]" and b = True]
      by (auto split: sum.split terminal_not_response.split)
  qed auto
qed simp

text \<open>Reading a body as a stream and collecting it agree: the streamed items hold an error
  exactly when the collected stream failed or was malformed, and the same error; otherwise
  they are, in order, the bytes of the collected (or halted) response.\<close>

theorem body_stream_agrees_with_collect:
  "case collect_buffered s of
     Inr buf \<Rightarrow> items_error (body_stream_or_error s) = None \<and> items_body (body_stream_or_error s) = br_body buf
   | Inl (THalt buf) \<Rightarrow> items_error (body_stream_or_error s) = None
        \<and> items_body (body_stream_or_error s) = br_body buf
   | Inl (TError e) \<Rightarrow> items_error (body_stream_or_error s) = Some e
   | Inl TMalformed \<Rightarrow> items_error (body_stream_or_error s) = Some (error_of_terminal TMalformed)
   | Inl _ \<Rightarrow> items_error (body_stream_or_error s) = None"
  using collect_items [where body = "[]" and meta = "[]" and b = False and s = s]
  unfolding collect_buffered_def body_stream_or_error_def
  by (simp split: sum.splits terminal_not_response.splits)

end
