(* ===== verification/Http_Codec.thy ===== *)
theory Http_Codec
  imports Streams
begin

text \<open>
  The response half of \<^verbatim>\<open>crates/wafer-block/src/http_codec.rs\<close>: which meta entries are response
  parts, how a terminal is rendered as an HTTP response, and how a streamed response is opened
  and its body enforced.

  The JSON body of an error response is kept as its fields (\<open>ErrorJson\<close>).  Log lines are not
  modelled; a \<^verbatim>\<open>u16\<close> status and a \<^verbatim>\<open>u64\<close> length are naturals, bounded where they are parsed.
\<close>

section \<open>Response meta\<close>

definition META_RESP_STATUS :: string where "META_RESP_STATUS = ''resp.status''"
definition META_RESP_CONTENT_TYPE :: string where "META_RESP_CONTENT_TYPE = ''resp.content_type''"
definition META_RESP_HEADER_PREFIX :: string where "META_RESP_HEADER_PREFIX = ''resp.header.''"
definition META_RESP_COOKIE_PREFIX :: string where "META_RESP_COOKIE_PREFIX = ''resp.set_cookie.''"
definition META_RESP_STREAM :: string where "META_RESP_STREAM = ''resp.stream''"
definition META_RESP_CONTENT_LENGTH :: string where "META_RESP_CONTENT_LENGTH = ''resp.content_length''"
definition DEFAULT_RESPONSE_CONTENT_TYPE :: string where
  "DEFAULT_RESPONSE_CONTENT_TYPE = ''application/json''"
definition DEFAULT_STREAMED_CONTENT_TYPE :: string where
  "DEFAULT_STREAMED_CONTENT_TYPE = ''application/octet-stream''"

lemmas meta_key_defs =
  META_RESP_STATUS_def META_RESP_CONTENT_TYPE_def META_RESP_HEADER_PREFIX_def
  META_RESP_COOKIE_PREFIX_def META_RESP_STREAM_def META_RESP_CONTENT_LENGTH_def

datatype response_meta_part =
    PStatus nat
  | PHeader string string
  | PSetCookie string
  | PContentType string

definition TRANSPORT_OWNED_RESPONSE_HEADERS :: "string list" where
  "TRANSPORT_OWNED_RESPONSE_HEADERS =
     [''connection'', ''content-length'', ''keep-alive'', ''proxy-connection'', ''te'', ''trailer'',
      ''transfer-encoding'', ''upgrade'']"

definition BODY_RESPONSE_HEADERS :: "string list" where
  "BODY_RESPONSE_HEADERS =
     [''content-encoding'', ''content-disposition'', ''content-language'', ''content-location'',
      ''content-range'', ''accept-ranges'', ''etag'', ''last-modified'', ''location'']"

datatype invalid_response_meta_kind = TransportOwned | Unsendable

record invalid_response_meta =
  irm_key :: string
  irm_reason :: string
  irm_kind :: invalid_response_meta_kind

definition is_tchar :: "char \<Rightarrow> bool" where
  "is_tchar c \<longleftrightarrow> is_ascii_alphanumeric c \<or> c \<in> set (''!#$%&'' @ [squote] @ ''*+-.^_`|~'')"

definition is_field_name :: "string \<Rightarrow> bool" where
  "is_field_name name \<longleftrightarrow> name \<noteq> [] \<and> list_all is_tchar name"

definition is_field_value :: "string \<Rightarrow> bool" where
  "is_field_value v \<longleftrightarrow> list_all (\<lambda>b. b = CHR 0x09 \<or> (CHR '' '' \<le> b \<and> b \<le> CHR ''~'')) v"

definition is_listed :: "string list \<Rightarrow> string \<Rightarrow> bool" where
  "is_listed names name \<longleftrightarrow> list_ex (\<lambda>n. eq_ignore_ascii_case n name) names"

definition parse_status :: "string \<Rightarrow> nat option" where
  "parse_status v =
     (case parse_unsigned 65535 v of
        None \<Rightarrow> None
      | Some code \<Rightarrow> if 100 \<le> code \<and> code \<le> 999 then Some code else None)"

definition classify_response_meta ::
  "meta_entry \<Rightarrow> invalid_response_meta + response_meta_part option" where
  "classify_response_meta entry =
     (let k = me_key entry; v = me_value entry;
          invalid = (\<lambda>reason. \<lparr>irm_key = k, irm_reason = reason, irm_kind = Unsendable\<rparr>);
          emit = (\<lambda>part. if is_field_value v then Inr (Some part)
                         else Inl (invalid ''value holds a control or non-ASCII character''))
      in if k = META_RESP_STATUS then
           (case parse_status v of
              Some code \<Rightarrow> Inr (Some (PStatus code))
            | None \<Rightarrow> Inl (invalid ''status is not an integer in 100..=999''))
         else if starts_with META_RESP_COOKIE_PREFIX k then emit (PSetCookie v)
         else (case strip_prefix META_RESP_HEADER_PREFIX k of
                 Some name \<Rightarrow>
                   (if \<not> is_field_name name then Inl (invalid ''header name is not an RFC 9110 token'')
                    else if is_listed TRANSPORT_OWNED_RESPONSE_HEADERS name
                    then Inl ((invalid ''header is owned by the transport'')\<lparr>irm_kind := TransportOwned\<rparr>)
                    else if eq_ignore_ascii_case name ''content-type'' then emit (PContentType v)
                    else if eq_ignore_ascii_case name ''set-cookie'' then emit (PSetCookie v)
                    else emit (PHeader name v))
               | None \<Rightarrow>
                   (if k = META_RESP_CONTENT_TYPE then emit (PContentType v) else Inr None)))"

fun classified :: "meta_entry list \<Rightarrow> invalid_response_meta + (meta_entry \<times> response_meta_part) list" where
  "classified [] = Inr []"
| "classified (entry # meta) =
     (case classify_response_meta entry of
        Inr (Some part) \<Rightarrow> and_then (classified meta) (\<lambda>parts. Inr ((entry, part) # parts))
      | Inr None \<Rightarrow> classified meta
      | Inl invalid \<Rightarrow> if irm_kind invalid = TransportOwned then classified meta else Inl invalid)"

definition response_meta_parts :: "meta_entry list \<Rightarrow> invalid_response_meta + response_meta_part list" where
  "response_meta_parts meta = and_then (classified meta) (\<lambda>ps. Inr (map snd ps))"

definition response_meta_entries :: "meta_entry list \<Rightarrow> invalid_response_meta + meta_entry list" where
  "response_meta_entries meta = and_then (classified meta) (\<lambda>ps. Inr (map fst ps))"

section \<open>Cookies\<close>

record cookie_ident =
  ci_name :: string
  ci_path :: string
  ci_domain :: string

definition split_once :: "char \<Rightarrow> string \<Rightarrow> (string \<times> string) option" where
  "split_once d s = map_option (\<lambda>i. (take i s, drop (Suc i) s)) (str_find [d] s)"

definition cookie_attr :: "string \<Rightarrow> cookie_ident \<Rightarrow> cookie_ident" where
  "cookie_attr attr ci =
     (let (key, v0) = (case split_once (CHR ''='') attr of Some kv \<Rightarrow> kv | None \<Rightarrow> (attr, []));
          v = str_trim v0
      in if eq_ignore_ascii_case (str_trim key) ''path'' then ci\<lparr>ci_path := v\<rparr>
         else if eq_ignore_ascii_case (str_trim key) ''domain''
         then ci\<lparr>ci_domain := to_ascii_lowercase (dropWhile (\<lambda>c. c = dot) v)\<rparr>
         else ci)"

definition cookie_id :: "string \<Rightarrow> cookie_ident" where
  "cookie_id directive =
     (let parts = split_on (CHR '';'') directive in
      fold cookie_attr (tl parts)
        \<lparr>ci_name = str_trim (hd (split_on (CHR ''='') (hd parts))), ci_path = [], ci_domain = []\<rparr>)"

definition cookie_meta_key :: "string \<Rightarrow> string" where
  "cookie_meta_key directive =
     (let ci = cookie_id directive in
      META_RESP_COOKIE_PREFIX @ ci_name ci
      @ (if ci_domain ci = [] then [] else '';Domain='' @ ci_domain ci)
      @ (if ci_path ci = [] then [] else '';Path='' @ ci_path ci))"

section \<open>Status\<close>

fun error_code_to_http_status :: "error_code \<Rightarrow> nat" where
  "error_code_to_http_status Ok = 200"
| "error_code_to_http_status Cancelled = 499"
| "error_code_to_http_status InvalidArgument = 400"
| "error_code_to_http_status OutOfRange = 400"
| "error_code_to_http_status DeadlineExceeded = 504"
| "error_code_to_http_status NotFound = 404"
| "error_code_to_http_status AlreadyExists = 409"
| "error_code_to_http_status Aborted = 409"
| "error_code_to_http_status PermissionDenied = 403"
| "error_code_to_http_status ResourceExhausted = 429"
| "error_code_to_http_status FailedPrecondition = 412"
| "error_code_to_http_status Unimplemented = 501"
| "error_code_to_http_status Unavailable = 503"
| "error_code_to_http_status Unauthenticated = 401"
| "error_code_to_http_status Unknown = 500"
| "error_code_to_http_status Internal = 500"
| "error_code_to_http_status DataLoss = 500"

definition resolve_status :: "meta_entry list \<Rightarrow> nat \<Rightarrow> nat" where
  "resolve_status meta dflt =
     (case meta_get meta META_RESP_STATUS of
        None \<Rightarrow> dflt
      | Some code \<Rightarrow> (case parse_status code of Some n \<Rightarrow> n | None \<Rightarrow> dflt))"

definition resolve_error_status :: "wafer_error \<Rightarrow> nat" where
  "resolve_error_status e = resolve_status (we_meta e) (error_code_to_http_status (we_code e))"

section \<open>Rendering\<close>

type_synonym header_list = "(string \<times> string) list"

fun put_header :: "header_list \<Rightarrow> string \<Rightarrow> string \<Rightarrow> header_list" where
  "put_header [] name v = [(name, v)]"
| "put_header ((seen, w) # headers) name v =
     (if eq_ignore_ascii_case seen name then (name, v) # headers
      else (seen, w) # put_header headers name v)"

fun put_part :: "response_meta_part \<Rightarrow> header_list \<Rightarrow> header_list" where
  "put_part (PStatus _) headers = headers"
| "put_part (PSetCookie v) headers = headers @ [(''Set-Cookie'', v)]"
| "put_part (PContentType v) headers = put_header headers ''Content-Type'' v"
| "put_part (PHeader name v) headers = put_header headers name v"

definition headers_from_meta :: "meta_entry list \<Rightarrow> invalid_response_meta + header_list" where
  "headers_from_meta meta = and_then (response_meta_parts meta) (\<lambda>parts. Inr (fold put_part parts []))"

definition non_content_type_headers_from_meta :: "meta_entry list \<Rightarrow> invalid_response_meta + header_list" where
  "non_content_type_headers_from_meta meta =
     and_then (headers_from_meta meta) (\<lambda>headers. Inr (filter (\<lambda>(name, _). name \<noteq> ''Content-Type'') headers))"

definition unsendable_response_meta :: "meta_entry list \<Rightarrow> meta_entry list" where
  "unsendable_response_meta meta =
     filter (\<lambda>entry. case classify_response_meta entry of
                Inr (Some (PHeader name _)) \<Rightarrow>
                  \<not> is_listed BODY_RESPONSE_HEADERS name
                  \<and> \<not> eq_ignore_ascii_case name ''cache-control''
                  \<and> \<not> eq_ignore_ascii_case name ''expires''
              | _ \<Rightarrow> False) meta
     @ [\<lparr>me_key = META_RESP_HEADER_PREFIX @ ''Cache-Control'', me_value = ''no-store''\<rparr>]"

datatype http_body = Bytes bytes | ErrorJson error_code msg_text "string option"

record http_response_parts =
  hr_status :: nat
  hr_headers :: header_list
  hr_body :: http_body

definition internal_server_error :: wafer_error where
  "internal_server_error = wafer_error_new Internal (Text ''internal server error'' [])"

definition put_sendable :: "meta_entry \<Rightarrow> header_list \<Rightarrow> header_list" where
  "put_sendable entry headers =
     (case classify_response_meta entry of
        Inr (Some (PHeader name v)) \<Rightarrow> put_header headers name v
      | _ \<Rightarrow> headers)"

text \<open>The two renderers call each other; the error \<^verbatim>\<open>unsendable_response\<close> renders has no meta, so
  the recursion ends there.\<close>

function error_to_http_response :: "wafer_error \<Rightarrow> http_response_parts"
  and unsendable_response :: "meta_entry list \<Rightarrow> invalid_response_meta \<Rightarrow> http_response_parts" where
  "error_to_http_response err =
     (case non_content_type_headers_from_meta (we_meta err) of
        Inl invalid \<Rightarrow> unsendable_response (we_meta err) invalid
      | Inr headers \<Rightarrow>
          \<lparr>hr_status = resolve_error_status err,
           hr_headers = headers @ [(''Content-Type'', DEFAULT_RESPONSE_CONTENT_TYPE)],
           hr_body = ErrorJson (we_code err) (we_message err) (detail_code err)\<rparr>)"
| "unsendable_response meta invalid =
     (let headers = fold put_sendable (unsendable_response_meta meta) [];
          parts = error_to_http_response internal_server_error
      in parts\<lparr>hr_headers := headers @ hr_headers parts\<rparr>)"
  by pat_completeness auto
termination
proof (relation "measure (\<lambda>x. case x of
    Inl err \<Rightarrow> (case non_content_type_headers_from_meta (we_meta err) of Inl _ \<Rightarrow> 2 | Inr _ \<Rightarrow> 0)
  | Inr _ \<Rightarrow> (1 :: nat))", goal_cases)
  case 3
  show ?case
    by (simp add: internal_server_error_def non_content_type_headers_from_meta_def
        headers_from_meta_def response_meta_parts_def)
qed simp_all

declare error_to_http_response.simps [simp del] unsendable_response.simps [simp del]

definition with_content_type :: "string \<Rightarrow> header_list \<Rightarrow> header_list" where
  "with_content_type dflt headers =
     (if list_ex (\<lambda>(name, _). name = ''Content-Type'') headers then headers
      else headers @ [(''Content-Type'', dflt)])"

definition buffered_to_http_response :: "buffered_response \<Rightarrow> http_response_parts" where
  "buffered_to_http_response buf =
     (case headers_from_meta (br_meta buf) of
        Inl invalid \<Rightarrow> unsendable_response (br_meta buf) invalid
      | Inr headers \<Rightarrow>
          \<lparr>hr_status = resolve_status (br_meta buf) 200,
           hr_headers = with_content_type DEFAULT_RESPONSE_CONTENT_TYPE headers,
           hr_body = Bytes (br_body buf)\<rparr>)"

definition terminal_to_http_response ::
  "terminal_not_response + buffered_response \<Rightarrow> http_response_parts" where
  "terminal_to_http_response terminal =
     (case terminal of
        Inr buf \<Rightarrow> buffered_to_http_response buf
      | Inl (THalt buf) \<Rightarrow> buffered_to_http_response buf
      | Inl (TError err) \<Rightarrow> error_to_http_response err
      | Inl (TDrop meta) \<Rightarrow>
          (case non_content_type_headers_from_meta meta of
             Inr headers \<Rightarrow> \<lparr>hr_status = 204, hr_headers = headers, hr_body = Bytes []\<rparr>
           | Inl invalid \<Rightarrow> unsendable_response meta invalid)
      | Inl (TContinue msg) \<Rightarrow>
          (case non_content_type_headers_from_meta (msg_meta msg) of
             Inl invalid \<Rightarrow> unsendable_response (msg_meta msg) invalid
           | Inr headers \<Rightarrow>
               \<lparr>hr_status = 200,
                hr_headers = headers @ [(''Content-Type'', DEFAULT_RESPONSE_CONTENT_TYPE)],
                hr_body = Bytes []\<rparr>)
      | Inl TMalformed \<Rightarrow>
          \<lparr>hr_status = 500, hr_headers = [], hr_body = Bytes ''internal server error''\<rparr>)"

definition collect_http_response :: "output_stream \<Rightarrow> http_response_parts" where
  "collect_http_response output = terminal_to_http_response (collect_buffered output)"

section \<open>What is sent\<close>

lemma lower_literals [simp]:
  "to_ascii_lowercase ''Content-Type'' = ''content-type''"
  "to_ascii_lowercase ''content-type'' = ''content-type''"
  "to_ascii_lowercase ''Set-Cookie'' = ''set-cookie''"
  "to_ascii_lowercase ''set-cookie'' = ''set-cookie''"
  by code_simp+

definition sendable :: "string \<times> string \<Rightarrow> bool" where
  "sendable h \<longleftrightarrow> is_field_name (fst h) \<and> is_field_value (snd h)
     \<and> (to_ascii_lowercase (fst h) = ''content-type'' \<longrightarrow> fst h = ''Content-Type'')
     \<and> (to_ascii_lowercase (fst h) = ''set-cookie'' \<longrightarrow> fst h = ''Set-Cookie'')"

abbreviation header_names :: "header_list \<Rightarrow> string list" where
  "header_names hs \<equiv> map (to_ascii_lowercase \<circ> fst) (filter (\<lambda>h. fst h \<noteq> ''Set-Cookie'') hs)"

definition headers_ok :: "header_list \<Rightarrow> bool" where
  "headers_ok hs \<longleftrightarrow> list_all sendable hs \<and> distinct (header_names hs)"

fun part_ok :: "response_meta_part \<Rightarrow> bool" where
  "part_ok (PStatus n) = (100 \<le> n \<and> n \<le> 999)"
| "part_ok (PHeader name v) = (is_field_name name \<and> is_field_value v
     \<and> to_ascii_lowercase name \<notin> {''content-type'', ''set-cookie''})"
| "part_ok (PSetCookie v) = is_field_value v"
| "part_ok (PContentType v) = is_field_value v"

lemma parse_status_bound: "parse_status v = Some n \<Longrightarrow> 100 \<le> n \<and> n \<le> 999"
  by (auto simp: parse_status_def split: option.splits if_splits)

lemma classify_part_ok: "classify_response_meta e = Inr (Some part) \<Longrightarrow> part_ok part"
  unfolding classify_response_meta_def Let_def
  by (auto simp: eq_ignore_ascii_case_def dest: parse_status_bound split: if_splits option.splits)

lemma classified_part_ok: "classified meta = Inr ps \<Longrightarrow> (e, part) \<in> set ps \<Longrightarrow> part_ok part"
proof (induction meta arbitrary: ps)
  case (Cons a meta)
  then show ?case
    by (auto simp: and_then_eq_Inr split: sum.splits option.splits if_splits dest: classify_part_ok)
qed simp

lemma put_header_names:
  assumes "fst ` set hs \<inter> {n. n \<noteq> ''Set-Cookie'' \<and> to_ascii_lowercase n = ''set-cookie''} = {}"
    and "to_ascii_lowercase name \<noteq> ''set-cookie''"
  shows "header_names (put_header hs name v) =
    (if to_ascii_lowercase name \<in> set (header_names hs) then header_names hs
     else header_names hs @ [to_ascii_lowercase name])"
  using assms by (induction hs name v rule: put_header.induct) (auto simp: eq_ignore_ascii_case_def)

lemma put_header_sendable:
  "list_all sendable hs \<Longrightarrow> sendable (name, v) \<Longrightarrow> list_all sendable (put_header hs name v)"
  by (induction hs name v rule: put_header.induct) auto

lemma put_header_ok:
  assumes "headers_ok hs" and "sendable (name, v)" and "to_ascii_lowercase name \<noteq> ''set-cookie''"
  shows "headers_ok (put_header hs name v)"
proof -
  have "fst ` set hs \<inter> {n. n \<noteq> ''Set-Cookie'' \<and> to_ascii_lowercase n = ''set-cookie''} = {}"
    using assms(1) by (auto simp: headers_ok_def list_all_iff sendable_def)
  then show ?thesis
    using assms put_header_sendable put_header_names [of hs name v] by (simp add: headers_ok_def)
qed

lemma literal_field_names: "is_field_name ''Content-Type''" "is_field_name ''Set-Cookie''"
  by code_simp+

lemma put_part_ok: "headers_ok hs \<Longrightarrow> part_ok part \<Longrightarrow> headers_ok (put_part part hs)"
proof (cases part)
  case (PSetCookie v)
  then show "headers_ok hs \<Longrightarrow> part_ok part \<Longrightarrow> ?thesis"
    using literal_field_names by (simp add: headers_ok_def sendable_def)
qed (auto intro!: put_header_ok simp: sendable_def literal_field_names)

lemma fold_put_part_ok:
  "headers_ok hs \<Longrightarrow> (\<And>part. part \<in> set parts \<Longrightarrow> part_ok part) \<Longrightarrow> headers_ok (fold put_part parts hs)"
  by (induction parts arbitrary: hs) (auto intro: put_part_ok)

lemma headers_ok_Nil: "headers_ok []"
  by (simp add: headers_ok_def)

lemma headers_from_meta_ok: "headers_from_meta meta = Inr hs \<Longrightarrow> headers_ok hs"
  using classified_part_ok
  by (fastforce simp: headers_from_meta_def response_meta_parts_def and_then_eq_Inr
      intro!: fold_put_part_ok headers_ok_Nil)

lemma headers_ok_filter:
  assumes "headers_ok hs"
  shows "headers_ok (filter P hs)"
proof -
  have "header_names (filter P hs) = map (to_ascii_lowercase \<circ> fst) (filter P (filter (\<lambda>h. fst h \<noteq> ''Set-Cookie'') hs))"
    by (simp only: filter_filter conj_commute)
  then show ?thesis
    using assms unfolding headers_ok_def by (simp only: distinct_map_filter) (simp add: list_all_iff)
qed

lemma sendable_content_type: "is_field_value v \<Longrightarrow> sendable (''Content-Type'', v)"
  by (simp add: sendable_def literal_field_names)

lemma headers_ok_content_type:
  assumes "headers_ok hs" and "''Content-Type'' \<notin> fst ` set hs" and "is_field_value v"
  shows "headers_ok (hs @ [(''Content-Type'', v)])"
proof -
  have "''content-type'' \<notin> set (header_names hs)"
    using assms(1,2) by (auto simp: headers_ok_def list_all_iff sendable_def image_iff)
  then show ?thesis
    using assms(1) sendable_content_type [OF assms(3)] by (simp add: headers_ok_def)
qed

lemma non_content_type_headers_ok:
  "non_content_type_headers_from_meta meta = Inr hs \<Longrightarrow> headers_ok hs \<and> ''Content-Type'' \<notin> fst ` set hs"
  by (auto simp: non_content_type_headers_from_meta_def and_then_eq_Inr intro: headers_ok_filter headers_from_meta_ok)

lemma default_content_types_ok:
  "is_field_value DEFAULT_RESPONSE_CONTENT_TYPE" "is_field_value DEFAULT_STREAMED_CONTENT_TYPE"
  by code_simp+

text \<open>The headers of the 500: neither content type nor cookie among them.\<close>

definition plain_headers :: "header_list \<Rightarrow> bool" where
  "plain_headers hs \<longleftrightarrow> headers_ok hs \<and> ''Content-Type'' \<notin> fst ` set hs \<and> ''Set-Cookie'' \<notin> fst ` set hs"

lemma put_header_fst: "fst ` set (put_header hs name v) \<subseteq> insert name (fst ` set hs)"
  by (induction hs name v rule: put_header.induct) auto

lemma put_sendable_plain: "plain_headers hs \<Longrightarrow> plain_headers (put_sendable e hs)"
proof -
  assume hs: "plain_headers hs"
  show ?thesis
  proof (cases "\<exists>n v. classify_response_meta e = Inr (Some (PHeader n v))")
    case True
    then obtain n v where c: "classify_response_meta e = Inr (Some (PHeader n v))" by blast
    have n: "to_ascii_lowercase n \<noteq> ''content-type''" "to_ascii_lowercase n \<noteq> ''set-cookie''"
      "is_field_name n" "is_field_value v"
      using classify_part_ok [OF c] by simp_all
    then have "n \<noteq> ''Content-Type''" "n \<noteq> ''Set-Cookie''" by auto
    moreover have "headers_ok (put_header hs n v)"
      using hs n by (intro put_header_ok) (simp_all add: plain_headers_def sendable_def)
    ultimately show ?thesis
      using hs put_header_fst [of hs n v] c by (auto simp: plain_headers_def put_sendable_def)
  next
    case False
    then have "put_sendable e hs = hs"
      by (auto simp: put_sendable_def split: sum.split option.split response_meta_part.split)
    then show ?thesis using hs by simp
  qed
qed

lemma fold_put_sendable_plain: "plain_headers hs \<Longrightarrow> plain_headers (fold put_sendable meta hs)"
  by (induction meta arbitrary: hs) (auto intro: put_sendable_plain)

lemma non_content_type_headers_Nil [simp]: "non_content_type_headers_from_meta [] = Inr []"
  by (simp add: non_content_type_headers_from_meta_def headers_from_meta_def response_meta_parts_def)

lemma internal_parts:
  "error_to_http_response internal_server_error =
     \<lparr>hr_status = 500, hr_headers = [(''Content-Type'', DEFAULT_RESPONSE_CONTENT_TYPE)],
      hr_body = ErrorJson Internal (Text ''internal server error'' []) None\<rparr>"
  by (subst error_to_http_response.simps)
     (simp add: internal_server_error_def resolve_error_status_def resolve_status_def detail_code_def meta_get_def)

lemma unsendable_parts:
  "unsendable_response meta invalid =
     \<lparr>hr_status = 500,
      hr_headers = fold put_sendable (unsendable_response_meta meta) []
        @ [(''Content-Type'', DEFAULT_RESPONSE_CONTENT_TYPE)],
      hr_body = ErrorJson Internal (Text ''internal server error'' []) None\<rparr>"
  by (subst unsendable_response.simps) (simp add: internal_parts)

lemma unsendable_headers_ok: "headers_ok (hr_headers (unsendable_response meta invalid))"
  using fold_put_sendable_plain [of "[]" "unsendable_response_meta meta"] default_content_types_ok headers_ok_Nil
  unfolding unsendable_parts by (auto simp: plain_headers_def intro!: headers_ok_content_type)

lemma with_content_type_ok:
  "headers_ok hs \<Longrightarrow> is_field_value v \<Longrightarrow> headers_ok (with_content_type v hs)"
  by (auto simp: with_content_type_def list_ex_iff intro!: headers_ok_content_type)

lemma error_headers_ok: "headers_ok (hr_headers (error_to_http_response err))"
  using unsendable_headers_ok default_content_types_ok
  by (subst error_to_http_response.simps)
     (auto dest!: non_content_type_headers_ok intro: headers_ok_content_type split: sum.split)

lemma buffered_headers_ok: "headers_ok (hr_headers (buffered_to_http_response buf))"
  using unsendable_headers_ok default_content_types_ok
  by (auto simp: buffered_to_http_response_def dest!: headers_from_meta_ok intro: with_content_type_ok split: sum.split)

lemma terminal_headers_ok: "headers_ok (hr_headers (terminal_to_http_response t))"
  using unsendable_headers_ok default_content_types_ok error_headers_ok buffered_headers_ok headers_ok_Nil
  by (auto simp: terminal_to_http_response_def dest!: non_content_type_headers_ok intro: headers_ok_content_type
      split: sum.split terminal_not_response.split)

text \<open>C5: Whatever meta blocks put on a terminal, the rendered response holds only header pairs
  whose name is an RFC 9110 token and whose value is visible ASCII, space and tab (no CR, LF or
  NUL: a block cannot split the response), and one pair per case-insensitive name, \<^verbatim>\<open>Set-Cookie\<close>
  apart.\<close>

theorem rendered_headers_are_sendable:
  "list_all (\<lambda>(n, v). is_field_name n \<and> is_field_value v) (hr_headers (terminal_to_http_response t))
   \<and> distinct (header_names (hr_headers (terminal_to_http_response t)))"
  using terminal_headers_ok [of t] by (auto simp: headers_ok_def list_all_iff sendable_def)

section \<open>Failing closed\<close>

definition header_value :: "header_list \<Rightarrow> string \<Rightarrow> string option" where
  "header_value hs name = map_option snd (List.find (\<lambda>h. eq_ignore_ascii_case (fst h) name) hs)"

text \<open>The last sendable value of a header among meta entries.\<close>

fun last_sendable :: "meta_entry list \<Rightarrow> string \<Rightarrow> string option" where
  "last_sendable [] name = None"
| "last_sendable (e # meta) name =
     (case last_sendable meta name of
        Some v \<Rightarrow> Some v
      | None \<Rightarrow>
          (case classify_response_meta e of
             Inr (Some (PHeader n v)) \<Rightarrow> if eq_ignore_ascii_case n name then Some v else None
           | _ \<Rightarrow> None))"

lemma header_value_put:
  "header_value (put_header hs n v) m =
     (if eq_ignore_ascii_case n m then Some v else header_value hs m)"
  by (induction hs n v rule: put_header.induct) (auto simp: header_value_def eq_ignore_ascii_case_def)

lemma header_value_fold:
  "header_value (fold put_sendable meta hs) m =
     (case last_sendable meta m of Some v \<Rightarrow> Some v | None \<Rightarrow> header_value hs m)"
  by (induction meta arbitrary: hs)
     (auto simp: put_sendable_def header_value_put split: sum.split option.split response_meta_part.split)

definition dropped_from_500 :: "string \<Rightarrow> bool" where
  "dropped_from_500 name \<longleftrightarrow> is_listed BODY_RESPONSE_HEADERS name
     \<or> eq_ignore_ascii_case name ''cache-control'' \<or> eq_ignore_ascii_case name ''expires''"

lemma dropped_cong: "eq_ignore_ascii_case n m \<Longrightarrow> dropped_from_500 n = dropped_from_500 m"
  by (simp add: dropped_from_500_def eq_ignore_ascii_case_def is_listed_def)

definition kept_in_500 :: "meta_entry \<Rightarrow> bool" where
  "kept_in_500 entry =
     (case classify_response_meta entry of Inr (Some (PHeader name _)) \<Rightarrow> \<not> dropped_from_500 name | _ \<Rightarrow> False)"

definition no_store :: meta_entry where
  "no_store = \<lparr>me_key = META_RESP_HEADER_PREFIX @ ''Cache-Control'', me_value = ''no-store''\<rparr>"

lemma unsendable_response_meta_alt: "unsendable_response_meta meta = filter kept_in_500 meta @ [no_store]"
  unfolding unsendable_response_meta_def no_store_def
  by (auto simp: kept_in_500_def dropped_from_500_def intro!: filter_cong
      split: sum.split option.split response_meta_part.split)

lemma last_sendable_filter:
  "\<not> dropped_from_500 name \<Longrightarrow> last_sendable (filter kept_in_500 meta) name = last_sendable meta name"
  by (induction meta) (auto simp: kept_in_500_def dropped_cong split: sum.splits option.splits response_meta_part.splits)

lemma last_sendable_append:
  "last_sendable (a @ b) name = (case last_sendable b name of Some v \<Rightarrow> Some v | None \<Rightarrow> last_sendable a name)"
  by (induction a) (auto split: option.split sum.split response_meta_part.split)

lemma classify_no_store: "classify_response_meta no_store = Inr (Some (PHeader ''Cache-Control'' ''no-store''))"
  by code_simp

lemma no_store_cache_control: "eq_ignore_ascii_case ''Cache-Control'' ''cache-control''"
  by code_simp

lemma last_sendable_no_store:
  "last_sendable [no_store] name = (if eq_ignore_ascii_case ''Cache-Control'' name then Some ''no-store'' else None)"
  by (simp add: classify_no_store)

lemma dropped_cache_control: "eq_ignore_ascii_case ''Cache-Control'' name \<Longrightarrow> dropped_from_500 name"
  using no_store_cache_control by (simp add: dropped_from_500_def eq_ignore_ascii_case_def)

lemma header_value_append_content_type:
  "\<not> eq_ignore_ascii_case ''Content-Type'' name \<Longrightarrow>
   header_value (hs @ [(''Content-Type'', v)]) name = header_value hs name"
  by (simp add: header_value_def find_append split: option.split)

fun terminal_meta :: "terminal_not_response + buffered_response \<Rightarrow> meta_entry list" where
  "terminal_meta (Inr buf) = br_meta buf"
| "terminal_meta (Inl (THalt buf)) = br_meta buf"
| "terminal_meta (Inl (TError e)) = we_meta e"
| "terminal_meta (Inl (TDrop meta)) = meta"
| "terminal_meta (Inl (TContinue msg)) = msg_meta msg"
| "terminal_meta (Inl TMalformed) = []"

lemma terminal_unsendable:
  assumes "classified (terminal_meta t) = Inl invalid"
  shows "terminal_to_http_response t = unsendable_response (terminal_meta t) invalid"
  using assms
  by (cases t rule: terminal_meta.cases)
     (simp_all add: terminal_to_http_response_def buffered_to_http_response_def error_to_http_response.simps
       non_content_type_headers_from_meta_def headers_from_meta_def response_meta_parts_def)

text \<open>A terminal with an entry no transport can send fails closed, whichever terminal it is: the
  response is a 500 with the fixed error body and \<^verbatim>\<open>Cache-Control: no-store\<close>, without cookies,
  and for every header that does not describe the replaced body it carries the last value
  that can be sent, so the middleware's \<^verbatim>\<open>Content-Security-Policy\<close> stands when a later one is
  malformed.\<close>

theorem unsendable_terminal_fails_closed:
  assumes "classified (terminal_meta t) = Inl invalid"
  shows "hr_status (terminal_to_http_response t) = 500
    \<and> hr_body (terminal_to_http_response t) = ErrorJson Internal (Text ''internal server error'' []) None
    \<and> header_value (hr_headers (terminal_to_http_response t)) ''cache-control'' = Some ''no-store''
    \<and> ''Set-Cookie'' \<notin> fst ` set (hr_headers (terminal_to_http_response t))
    \<and> (\<forall>name. \<not> dropped_from_500 name \<and> \<not> eq_ignore_ascii_case ''Content-Type'' name \<longrightarrow>
          header_value (hr_headers (terminal_to_http_response t)) name = last_sendable (terminal_meta t) name)"
proof -
  let ?m = "terminal_meta t"
  let ?hs = "fold put_sendable (unsendable_response_meta ?m) []"
  have r: "terminal_to_http_response t = \<lparr>hr_status = 500,
      hr_headers = ?hs @ [(''Content-Type'', DEFAULT_RESPONSE_CONTENT_TYPE)],
      hr_body = ErrorJson Internal (Text ''internal server error'' []) None\<rparr>"
    using terminal_unsendable [OF assms] by (simp only: unsendable_parts)
  have hv: "header_value ?hs name = last_sendable (filter kept_in_500 ?m @ [no_store]) name" for name
    unfolding unsendable_response_meta_alt header_value_fold by (simp add: header_value_def split: option.split)
  have "plain_headers ?hs"
    by (rule fold_put_sendable_plain) (simp add: plain_headers_def headers_ok_Nil)
  moreover have "header_value ?hs ''cache-control'' = Some ''no-store''"
    unfolding hv last_sendable_append last_sendable_no_store using no_store_cache_control by simp
  moreover have "header_value ?hs name = last_sendable ?m name" if "\<not> dropped_from_500 name" for name
    unfolding hv last_sendable_append last_sendable_no_store
    using that dropped_cache_control last_sendable_filter by auto
  moreover have "\<not> eq_ignore_ascii_case ''Content-Type'' ''cache-control''" by code_simp
  ultimately show ?thesis
    unfolding r by (simp add: header_value_append_content_type plain_headers_def)
qed

text \<open>A response whose last \<^verbatim>\<open>Content-Security-Policy\<close> holds a line feed.\<close>

theorem unsendable_terminal_fails_closed_witness:
  "let csp = (\<lambda>v. \<lparr>me_key = ''resp.header.Content-Security-Policy'', me_value = v\<rparr>);
       t = Inr \<lparr>br_body = ''secret'', br_meta = [csp ''default-src self'', csp [CHR 0x0A]]\<rparr> in
   hr_status (terminal_to_http_response t) = 500
   \<and> header_value (hr_headers (terminal_to_http_response t)) ''content-security-policy'' = Some ''default-src self''"
proof -
  let ?csp = "\<lambda>v. \<lparr>me_key = ''resp.header.Content-Security-Policy'', me_value = v\<rparr>"
  let ?t = "Inr \<lparr>br_body = ''secret'', br_meta = [?csp ''default-src self'', ?csp [CHR 0x0A]]\<rparr>"
  have "classified (terminal_meta ?t) = Inl \<lparr>irm_key = ''resp.header.Content-Security-Policy'',
      irm_reason = ''value holds a control or non-ASCII character'', irm_kind = Unsendable\<rparr>"
    by code_simp
  note f = unsendable_terminal_fails_closed [OF this]
  have "\<not> dropped_from_500 ''content-security-policy''"
    "\<not> eq_ignore_ascii_case ''Content-Type'' ''content-security-policy''"
    "last_sendable (terminal_meta ?t) ''content-security-policy'' = Some ''default-src self''"
    by code_simp+
  with f show ?thesis unfolding Let_def by metis
qed

section \<open>The projection\<close>

lemma classify_key:
  "classify_response_meta e = Inr (Some part) \<Longrightarrow> starts_with ''resp.'' (me_key e)"
  unfolding classify_response_meta_def Let_def
  by (auto simp: meta_key_defs strip_prefix_def starts_with_prefix prefix_def split: if_splits option.splits)

lemma classified_entries:
  "classified meta = Inr ps \<Longrightarrow>
   map fst ps = filter (\<lambda>e. \<exists>part. classify_response_meta e = Inr (Some part)) meta"
  by (induction meta arbitrary: ps)
     (auto simp: and_then_eq_Inr split: sum.splits option.splits if_splits)

text \<open>What crosses a boundary that re-emits meta is a subsequence of the terminal's meta, unchanged,
  made of \<^verbatim>\<open>resp.\<close> keys only: request state a block carries along (\<^verbatim>\<open>http.header.authorization\<close>,
  \<^verbatim>\<open>auth.user_email\<close>, \<^verbatim>\<open>req.client.ip\<close>) never leaves the runtime; and it is exactly the entries
  from which the HTTP rendering of the same meta is made.\<close>

theorem response_meta_projection:
  assumes "response_meta_entries meta = Inr es"
  shows "subseq es meta \<and> list_all (\<lambda>e. starts_with ''resp.'' (me_key e)) es
    \<and> response_meta_parts meta = Inr (map (\<lambda>e. case classify_response_meta e of Inr (Some p) \<Rightarrow> p) es)"
proof -
  obtain ps where ps: "classified meta = Inr ps" and es: "es = map fst ps"
    using assms by (auto simp: response_meta_entries_def and_then_eq_Inr)
  have parts: "classified meta = Inr ps \<Longrightarrow> (e, p) \<in> set ps \<Longrightarrow> classify_response_meta e = Inr (Some p)" for e p
    by (induction meta arbitrary: ps) (auto simp: and_then_eq_Inr split: sum.splits option.splits if_splits)
  have "es = filter (\<lambda>e. \<exists>part. classify_response_meta e = Inr (Some part)) meta"
    using classified_entries [OF ps] es by simp
  then have "subseq es meta" "list_all (\<lambda>e. starts_with ''resp.'' (me_key e)) es"
    using classify_key by (auto simp: list_all_iff subseq_filter_left)
  moreover have "map snd ps = map (\<lambda>e. case classify_response_meta e of Inr (Some p) \<Rightarrow> p) es"
    using parts [OF ps] unfolding es by auto
  ultimately show ?thesis using ps by (simp add: response_meta_parts_def)
qed

text \<open>A halt built from a request message: only the header goes out.\<close>

theorem response_meta_projection_witness:
  "let h = \<lparr>me_key = ''resp.header.Vary'', me_value = ''Origin''\<rparr>;
       a = \<lparr>me_key = ''http.header.authorization'', me_value = ''Bearer x''\<rparr> in
   response_meta_entries [a, h] = Inr [h] \<and> response_meta_parts [a, h] = Inr [PHeader ''Vary'' ''Origin'']"
proof -
  let ?h = "\<lparr>me_key = ''resp.header.Vary'', me_value = ''Origin''\<rparr>"
  let ?a = "\<lparr>me_key = ''http.header.authorization'', me_value = ''Bearer x''\<rparr>"
  have e: "response_meta_entries [?a, ?h] = Inr [?h]"
    and c: "classify_response_meta ?h = Inr (Some (PHeader ''Vary'' ''Origin''))"
    by code_simp+
  then show ?thesis using response_meta_projection [OF e] by (simp add: Let_def)
qed

end
