(* ===== verification/Http_Streaming.thy ===== *)
theory Http_Streaming
  imports Http_Codec
begin

text \<open>
  The streamed responses of \<^verbatim>\<open>crates/wafer-block/src/http_codec.rs\<close>: the streaming decision,
  \<^verbatim>\<open>open_response\<close> and the \<^verbatim>\<open>StreamedBody\<close> that enforces a declared content length.
\<close>

section \<open>The decision\<close>

definition STREAM_MARKER_VALUE :: string where "STREAM_MARKER_VALUE = ''1''"

definition is_streaming_content_type :: "string \<Rightarrow> bool" where
  "is_streaming_content_type content_type =
     (let lower = to_ascii_lowercase content_type in
      starts_with ''text/event-stream'' lower \<or> starts_with ''application/octet-stream'' lower)"

definition is_content_type_key :: "string \<Rightarrow> bool" where
  "is_content_type_key key \<longleftrightarrow> key = META_RESP_CONTENT_TYPE
     \<or> (case strip_prefix META_RESP_HEADER_PREFIX key of
          Some name \<Rightarrow> eq_ignore_ascii_case name ''content-type'' | None \<Rightarrow> False)"

definition leading_content_type :: "meta_entry list \<Rightarrow> string option" where
  "leading_content_type meta = map_option me_value (List.find (\<lambda>e. is_content_type_key (me_key e)) (rev meta))"

definition has_stream_marker :: "meta_entry list \<Rightarrow> bool" where
  "has_stream_marker meta \<longleftrightarrow> meta_get meta META_RESP_STREAM = Some STREAM_MARKER_VALUE"

definition declares_streaming :: "meta_entry list \<Rightarrow> bool" where
  "declares_streaming meta \<longleftrightarrow> has_stream_marker meta
     \<or> (case leading_content_type meta of Some ct \<Rightarrow> is_streaming_content_type ct | None \<Rightarrow> False)"

section \<open>The body\<close>

record streamed_body =
  sb_output :: "output_stream option"
  sb_remaining :: "nat option"
  sb_held :: "bytes option"

definition overrun_error :: wafer_error where
  "overrun_error = wafer_error_new Internal
     (Text ''the streamed body overran its declared content length'' [])"

definition short_error :: "nat \<Rightarrow> wafer_error" where
  "short_error short = wafer_error_new Internal
     (Text ''the streamed body ended {} bytes short of its declared content length'' [A_nat short])"

definition cannot_follow :: "string \<Rightarrow> wafer_error" where
  "cannot_follow terminal = wafer_error_new Internal
     (Text ''a {} terminal cannot follow a streamed body'' [A_str terminal])"

text \<open>How a poll ends the body: the stream is dropped, the item (if any) is the last.\<close>

definition ended :: "nat option \<Rightarrow> bytes option \<Rightarrow> (wafer_error + bytes) option
    \<Rightarrow> streamed_body \<times> (wafer_error + bytes) option" where
  "ended remaining held item =
     (\<lparr>sb_output = None, sb_remaining = remaining, sb_held = held\<rparr>, item)"

text \<open>The loop of \<^verbatim>\<open>poll_next\<close> over what the producer sends.\<close>

fun poll_loop :: "nat option \<Rightarrow> bytes option \<Rightarrow> output_stream
    \<Rightarrow> streamed_body \<times> (wafer_error + bytes) option" where
  "poll_loop remaining held (Chunk bs # s) =
     (case remaining of
        None \<Rightarrow> (\<lparr>sb_output = Some s, sb_remaining = remaining, sb_held = held\<rparr>, Some (Inr bs))
      | Some r \<Rightarrow>
          (if bs = [] then poll_loop remaining held s
           else if r < length bs then ended remaining held (Some (Inl overrun_error))
           else if r = length bs then poll_loop (Some 0) (Some bs) s
           else (\<lparr>sb_output = Some s, sb_remaining = Some (r - length bs), sb_held = held\<rparr>, Some (Inr bs))))"
| "poll_loop remaining held (Meta e # s) = poll_loop remaining held s"
| "poll_loop remaining held (Complete meta # s) =
     (case held of
        Some l \<Rightarrow> ended remaining None (Some (Inr l))
      | None \<Rightarrow>
          (case remaining of
             Some short \<Rightarrow> if short > 0 then ended remaining held (Some (Inl (short_error short)))
                          else ended remaining held None
           | None \<Rightarrow> ended remaining held None))"
| "poll_loop remaining held (Error e # s) = ended remaining held (Some (Inl e))"
| "poll_loop remaining held (Halt b m # s) = ended remaining held (Some (Inl (cannot_follow ''Halt'')))"
| "poll_loop remaining held (Drop m # s) = ended remaining held (Some (Inl (cannot_follow ''Drop'')))"
| "poll_loop remaining held (Continue m # s) = ended remaining held (Some (Inl (cannot_follow ''Continue'')))"
| "poll_loop remaining held [] = ended remaining held (Some (Inl (error_of_terminal TMalformed)))"

definition body_poll :: "streamed_body \<Rightarrow> streamed_body \<times> (wafer_error + bytes) option" where
  "body_poll sb =
     (case sb_output sb of
        None \<Rightarrow> (sb, None)
      | Some s \<Rightarrow> poll_loop (sb_remaining sb) (sb_held sb) s)"

definition body_left :: "streamed_body \<Rightarrow> nat" where
  "body_left sb = (case sb_output sb of None \<Rightarrow> 0 | Some s \<Rightarrow> Suc (length s))"

lemma poll_loop_decreases: "body_left (fst (poll_loop remaining held s)) \<le> length s"
  by (induction remaining held s rule: poll_loop.induct)
     (auto simp: body_left_def ended_def split: option.splits)

lemma body_poll_decreases:
  "sb_output sb = Some s \<Longrightarrow> (sb', item) = body_poll sb \<Longrightarrow> body_left sb' < body_left sb"
  using poll_loop_decreases [of "sb_remaining sb" "sb_held sb" s]
  by (simp add: body_poll_def body_left_def [of sb]) (metis fst_conv le_imp_less_Suc)

text \<open>All items of the body, as a transport that polls to the end receives them.\<close>

function body_items_of :: "streamed_body \<Rightarrow> (wafer_error + bytes) list" where
  "body_items_of sb =
     (case sb_output sb of
        None \<Rightarrow> []
      | Some s \<Rightarrow>
          (case body_poll sb of
             (sb', None) \<Rightarrow> []
           | (sb', Some item) \<Rightarrow> item # body_items_of sb'))"
  by pat_completeness auto
termination
  by (relation "measure body_left") (auto intro: body_poll_decreases)

declare body_items_of.simps [simp del]

section \<open>Opening\<close>

record streamed_http_response =
  sr_status :: nat
  sr_headers :: header_list
  sr_content_length :: "nat option"
  sr_body :: streamed_body

datatype opened_response = Streamed streamed_http_response | Buffered output_stream

definition length_invalid :: "string \<Rightarrow> invalid_response_meta" where
  "length_invalid reason = \<lparr>irm_key = META_RESP_CONTENT_LENGTH, irm_reason = reason, irm_kind = Unsendable\<rparr>"

definition content_length :: "meta_entry list \<Rightarrow> invalid_response_meta + nat option" where
  "content_length meta =
     (case meta_get meta META_RESP_CONTENT_LENGTH of
        None \<Rightarrow> Inr None
      | Some v \<Rightarrow>
          (if \<not> all_digits v then Inl (length_invalid ''content length is not a decimal u64'')
           else (case parse_unsigned u64_max v of
                   Some n \<Rightarrow> Inr (Some n)
                 | None \<Rightarrow> Inl (length_invalid ''content length is not a decimal u64''))))"

datatype declared_length = Fits | Exceeded invalid_response_meta | NoBody

definition body_exceeds_content_length :: invalid_response_meta where
  "body_exceeds_content_length = length_invalid ''the body is longer than its declared content length''"

text \<open>The loop for a declared length of 0: what was found, the \<^verbatim>\<open>Meta\<close> events skipped and the
  stream left on the deciding event.\<close>

fun skip_empty :: "stream_event list \<Rightarrow> output_stream \<Rightarrow> declared_length \<times> stream_event list \<times> output_stream" where
  "skip_empty skipped (Chunk bs # s) =
     (if bs = [] then skip_empty skipped s else (Exceeded body_exceeds_content_length, skipped, Chunk bs # s))"
| "skip_empty skipped (Meta e # s) = skip_empty (skipped @ [Meta e]) s"
| "skip_empty skipped (Complete m # s) = (Fits, skipped, Complete m # s)"
| "skip_empty skipped s = (NoBody, skipped, s)"

definition check_declared_length :: "output_stream \<Rightarrow> nat \<Rightarrow> declared_length \<times> output_stream" where
  "check_declared_length output declared =
     (if declared > 0
      then (case peek output of
              Some (Chunk first) \<Rightarrow>
                if length first > declared then (Exceeded body_exceeds_content_length, output) else (Fits, output)
            | _ \<Rightarrow> (Fits, output))
      else (let (found, skipped, rest) = skip_empty [] output in (found, prepend skipped rest)))"

definition unsendable_stream :: "meta_entry list \<Rightarrow> invalid_response_meta \<Rightarrow> output_stream" where
  "unsendable_stream meta invalid =
     out_error (internal_server_error\<lparr>we_meta := unsendable_response_meta meta\<rparr>)"

definition open_response :: "output_stream \<Rightarrow> opened_response" where
  "open_response output0 =
     (let (meta, output) = take_leading_meta output0 in
      if \<not> declares_streaming meta \<or> \<not> (case peek output of Some (Chunk _) \<Rightarrow> True | _ \<Rightarrow> False)
      then Buffered (prepend (map Meta meta) output)
      else
        (case and_then (headers_from_meta meta) (\<lambda>headers.
                and_then (content_length meta) (\<lambda>len. Inr (headers, len))) of
           Inl invalid \<Rightarrow> Buffered (unsendable_stream meta invalid)
         | Inr (headers, len) \<Rightarrow>
             (let (found, output) =
                    (case len of None \<Rightarrow> (Fits, output)
                     | Some declared \<Rightarrow> check_declared_length output declared) in
              (case found of
                 Exceeded invalid \<Rightarrow> Buffered (unsendable_stream meta invalid)
               | NoBody \<Rightarrow> Buffered (prepend (map Meta meta) output)
               | Fits \<Rightarrow>
                   Streamed
                     \<lparr>sr_status = resolve_status meta 200,
                      sr_headers = with_content_type DEFAULT_STREAMED_CONTENT_TYPE headers,
                      sr_content_length = len,
                      sr_body = \<lparr>sb_output = Some output, sb_remaining = len, sb_held = None\<rparr>\<rparr>))))"

section \<open>A declared length is enforced\<close>

abbreviation sized_items :: "nat \<Rightarrow> output_stream \<Rightarrow> (wafer_error + bytes) list" where
  "sized_items r s \<equiv> body_items_of \<lparr>sb_output = Some s, sb_remaining = Some r, sb_held = None\<rparr>"

lemma body_items_ended [simp]: "sb_output sb = None \<Longrightarrow> body_items_of sb = []"
  by (subst body_items_of.simps) simp

lemma sized_items_poll:
  "sized_items r s = (case poll_loop (Some r) None s of
     (sb', None) \<Rightarrow> [] | (sb', Some item) \<Rightarrow> item # body_items_of sb')"
  by (subst body_items_of.simps) (simp add: body_poll_def)

lemma sized_items_simps:
  "sized_items r (Meta e # s) = sized_items r s"
  "sized_items r (Chunk [] # s) = sized_items r s"
  "bs \<noteq> [] \<Longrightarrow> r < length bs \<Longrightarrow> sized_items r (Chunk bs # s) = [Inl overrun_error]"
  "bs \<noteq> [] \<Longrightarrow> r = length bs \<Longrightarrow> sized_items r (Chunk bs # s) =
     (case poll_loop (Some 0) (Some bs) s of (sb', None) \<Rightarrow> [] | (sb', Some item) \<Rightarrow> item # body_items_of sb')"
  "bs \<noteq> [] \<Longrightarrow> length bs < r \<Longrightarrow> sized_items r (Chunk bs # s) = Inr bs # sized_items (r - length bs) s"
  "sized_items r (Complete m # s) = (if r > 0 then [Inl (short_error r)] else [])"
  "sized_items r [] = [Inl (error_of_terminal TMalformed)]"
  "sized_items r (Error err # s) = [Inl err]"
  "sized_items r (Halt b m # s) = [Inl (cannot_follow ''Halt'')]"
  "sized_items r (Drop m # s) = [Inl (cannot_follow ''Drop'')]"
  "sized_items r (Continue msg # s) = [Inl (cannot_follow ''Continue'')]"
  by (simp_all only: sized_items_poll) (simp_all add: ended_def sized_items_poll)

text \<open>What is left of the stream completes with exactly these body bytes.\<close>

definition collects :: "output_stream \<Rightarrow> bytes \<Rightarrow> bool" where
  "collects s bs \<longleftrightarrow>
     (\<forall>body meta b. \<exists>m. collect_loop body meta b s = Inr \<lparr>br_body = body @ bs, br_meta = m\<rparr>)"

lemma collect_loop_Chunk: "collect_loop body meta b (Chunk c # s) = collect_loop (body @ c) meta True s"
  by simp

lemma collects_Chunk: "collects s bs \<Longrightarrow> collects (Chunk c # s) (c @ bs)"
  unfolding collects_def collect_loop_Chunk by (metis append.assoc)

lemma collects_simps [simp]:
  "collects (Complete m # s) []"
  "collects s bs \<Longrightarrow> collects (Meta e # s) bs"
  "collects s bs \<Longrightarrow> collects (Chunk [] # s) bs"
  using collects_Chunk [of s bs "[]"] by (auto simp: collects_def)

lemma held_chunk:
  "(\<exists>sb'. poll_loop (Some 0) (Some h) s = (sb', Some (Inr h)) \<and> sb_output sb' = None \<and> collects s [])
   \<or> (\<exists>sb' e. poll_loop (Some 0) (Some h) s = (sb', Some (Inl e)) \<and> sb_output sb' = None)"
proof (induction s)
  case (Cons ev s)
  then show ?case by (cases ev) (auto simp: ended_def)
qed (simp add: ended_def)

text \<open>The items are whole and complete, or end in an error before the length is met.\<close>

definition enforced :: "nat \<Rightarrow> output_stream \<Rightarrow> (wafer_error + bytes) list \<Rightarrow> bool" where
  "enforced n s items \<longleftrightarrow> (\<exists>bss.
     (items = map Inr bss \<and> length (concat bss) = n
        \<and> collects s (concat bss))
     \<or> (\<exists>e. items = map Inr bss @ [Inl e] \<and> (length (concat bss) < n \<or> n = 0 \<and> bss = [])))"

lemma enforced_error: "enforced n s [Inl e]"
  unfolding enforced_def by (intro exI [of _ "[]"]) auto

lemma enforced_step: "enforced n s items \<Longrightarrow> enforced n (Meta e # s) items" "enforced n s items \<Longrightarrow> enforced n (Chunk [] # s) items"
  unfolding enforced_def using collects_simps by blast+

lemma enforced_chunk:
  assumes "enforced (n - length bs) s items" and "bs \<noteq> []" and "length bs < n"
  shows "enforced n (Chunk bs # s) (Inr bs # items)"
proof -
  obtain bss where "(items = map Inr bss \<and> length (concat bss) = n - length bs
        \<and> collects s (concat bss))
     \<or> (\<exists>e. items = map Inr bss @ [Inl e] \<and> (length (concat bss) < n - length bs \<or> n - length bs = 0 \<and> bss = []))"
    using assms(1) unfolding enforced_def by blast
  then show ?thesis
    unfolding enforced_def using assms(2,3) collects_Chunk [of s "concat bss" bs]
    by (intro exI [of _ "bs # bss"]) auto
qed

lemma enforced_held:
  assumes "bs \<noteq> []"
  shows "enforced (length bs) (Chunk bs # s) (sized_items (length bs) (Chunk bs # s))"
  using held_chunk [of bs s]
proof
  assume "\<exists>sb'. poll_loop (Some 0) (Some bs) s = (sb', Some (Inr bs)) \<and> sb_output sb' = None \<and> collects s []"
  then have "sized_items (length bs) (Chunk bs # s) = [Inr bs]" "collects s []"
    using assms by (auto simp: sized_items_simps)
  then show ?thesis
    unfolding enforced_def using collects_Chunk [of s "[]" bs] by (intro exI [of _ "[bs]"]) auto
next
  assume "\<exists>sb' e. poll_loop (Some 0) (Some bs) s = (sb', Some (Inl e)) \<and> sb_output sb' = None"
  then show ?thesis using assms by (auto simp: sized_items_simps enforced_error)
qed

lemma sized_items_enforced: "enforced n s (sized_items n s)"
proof (induction s arbitrary: n)
  case (Cons ev s)
  show ?case
  proof (cases ev)
    case (Chunk bs)
    consider "bs = []" | "bs \<noteq> []" "n < length bs" | "bs \<noteq> []" "n = length bs" | "bs \<noteq> []" "length bs < n"
      by linarith
    then show ?thesis
      using Cons.IH Chunk enforced_held enforced_chunk
      by cases (simp_all add: sized_items_simps(1-3,5) enforced_step enforced_error)
  next
    case (Complete m)
    then show ?thesis
      by (cases "n > 0") (simp_all add: sized_items_simps enforced_error, simp add: enforced_def)
  qed (simp_all add: sized_items_simps enforced_step enforced_error Cons.IH)
qed (simp add: sized_items_simps enforced_error)

section \<open>What opening a response keeps\<close>

lemma take_leading_meta_split: "take_leading_meta s = (meta, rest) \<Longrightarrow> s = map Meta meta @ rest"
  by (induction s arbitrary: meta rule: take_leading_meta.induct) (auto split: prod.splits)

lemma collect_leading_meta:
  "collect_buffered (map Meta meta @ s) = collect_loop [] meta (meta \<noteq> []) s"
proof -
  have "chunk_bytes (map Meta meta) = []" "meta_entries (map Meta meta) = meta"
    by (induction meta) simp_all
  then show ?thesis
    by (simp add: collect_body list_all_iff)
qed

lemma skip_empty_skips:
  "\<exists>metas. fst (snd (skip_empty acc s)) = acc @ map Meta metas
     \<and> (\<forall>body meta. collect_loop body meta True s =
          collect_loop body meta True (map Meta metas @ snd (snd (skip_empty acc s))))"
proof (induction acc s rule: skip_empty.induct)
  case (1 acc bs s)
  show ?case
  proof (cases "bs = []")
    case True
    then have "skip_empty acc (Chunk bs # s) = skip_empty acc s"
      "collect_loop body meta True (Chunk bs # s) = collect_loop body meta True s" for body meta
      by simp_all
    then show ?thesis using 1 [OF True] by presburger
  next
    case False
    then show ?thesis by (intro exI [of _ "[]"]) simp
  qed
next
  case (2 acc e s)
  then obtain metas where "fst (snd (skip_empty (acc @ [Meta e]) s)) = (acc @ [Meta e]) @ map Meta metas"
    "\<forall>body meta. collect_loop body meta True s =
       collect_loop body meta True (map Meta metas @ snd (snd (skip_empty (acc @ [Meta e]) s)))"
    by blast
  then show ?case by (intro exI [of _ "e # metas"]) simp
qed auto

lemma skip_empty_Fits:
  "fst (skip_empty acc s) = Fits \<Longrightarrow> (\<exists>m t. snd (snd (skip_empty acc s)) = Complete m # t) \<and> collects s []"
  by (induction acc s rule: skip_empty.induct) (auto split: if_splits)

lemma sized_items_metas: "sized_items n (map Meta metas @ s) = sized_items n s"
  by (induction metas) (simp_all add: sized_items_simps)

text \<open>The body of an opened response, in terms of the stream after the leading meta.\<close>

lemma checked_items:
  assumes "check_declared_length out n = (Fits, out')"
  shows "enforced n out (sized_items n out') \<and> (n = 0 \<longrightarrow> sized_items n out' = [])"
proof (cases "n > 0")
  case True
  then have "out' = out"
    using assms by (auto simp: check_declared_length_def split: option.splits stream_event.splits if_splits)
  then show ?thesis using True sized_items_enforced by simp
next
  case False
  obtain metas where metas: "fst (snd (skip_empty [] out)) = map Meta metas"
    using skip_empty_skips [of "[]" out] by auto
  have fits: "fst (skip_empty [] out) = Fits"
    and o': "out' = map Meta metas @ snd (snd (skip_empty [] out))"
    using assms False metas by (auto simp: check_declared_length_def prepend_def split: prod.splits)
  then have "sized_items n out' = []" "collects out []"
    using skip_empty_Fits [OF fits] False by (auto simp: sized_items_metas sized_items_simps)
  then show ?thesis using False by (simp add: enforced_def)
qed

lemma open_response_Streamed:
  assumes "open_response s = Streamed r"
  shows "\<exists>meta out out' hs. s = map Meta meta @ out \<and> declares_streaming meta
    \<and> headers_from_meta meta = Inr hs
    \<and> sr_headers r = with_content_type DEFAULT_STREAMED_CONTENT_TYPE hs
    \<and> sr_body r = \<lparr>sb_output = Some out', sb_remaining = sr_content_length r, sb_held = None\<rparr>
    \<and> (case sr_content_length r of Some n \<Rightarrow> check_declared_length out n = (Fits, out') | None \<Rightarrow> out' = out)"
proof -
  obtain meta out where t: "take_leading_meta s = (meta, out)" by (cases "take_leading_meta s")
  have d: "declares_streaming meta" "case peek out of Some (Chunk _) \<Rightarrow> True | _ \<Rightarrow> False"
    using assms t by (auto simp: open_response_def split: if_splits)
  then obtain hs len where h: "headers_from_meta meta = Inr hs" "content_length meta = Inr len"
    using assms t by (cases "headers_from_meta meta"; cases "content_length meta") (auto simp: open_response_def)
  define chk where "chk = (case len of None \<Rightarrow> (Fits, out) | Some n \<Rightarrow> check_declared_length out n)"
  obtain out' where "chk = (Fits, out')" and r: "sr_content_length r = len"
    "sr_headers r = with_content_type DEFAULT_STREAMED_CONTENT_TYPE hs"
    "sr_body r = \<lparr>sb_output = Some out', sb_remaining = len, sb_held = None\<rparr>"
    using assms t d h unfolding open_response_def chk_def [symmetric]
    by (cases chk; cases "fst chk") (auto simp: chk_def)
  then show ?thesis
    using take_leading_meta_split [OF t] d h unfolding chk_def
    by (intro exI [of _ meta] exI [of _ out] exI [of _ out'] exI [of _ hs]) (auto split: option.splits)
qed

text \<open>C6: A declared content length is enforced.  When a response opens as a stream with a declared
  length, polling its body to the end yields either exactly that many bytes and then the clean
  end, and the producer completed with exactly those bytes; or fewer bytes and then an error.
  So a transport that sends the declared length and stops polling once it is met has sent a
  whole body: the last chunk is withheld until the producer has completed.\<close>

theorem declared_length_is_enforced:
  assumes "open_response s = Streamed r" and "sr_content_length r = Some n"
  shows "\<exists>bss. (body_items_of (sr_body r) = map Inr bss \<and> length (concat bss) = n
                 \<and> (\<exists>m. collect_buffered s = Inr \<lparr>br_body = concat bss, br_meta = m\<rparr>))
           \<or> (\<exists>e. body_items_of (sr_body r) = map Inr bss @ [Inl e] \<and> length (concat bss) < n)"
proof -
  obtain meta out out' where s: "s = map Meta meta @ out" and body:
    "sr_body r = \<lparr>sb_output = Some out', sb_remaining = Some n, sb_held = None\<rparr>"
    and fits: "check_declared_length out n = (Fits, out')"
    using open_response_Streamed [OF assms(1)] assms(2) by auto
  have "enforced n out (body_items_of (sr_body r))" "n = 0 \<Longrightarrow> body_items_of (sr_body r) = []"
    using checked_items [OF fits] body by auto
  then show ?thesis
    unfolding s collect_leading_meta enforced_def collects_def
    by (cases "n = 0") (fastforce, metis append_Nil gr0I not_less_zero)
qed

text \<open>A two-byte download whose producer completes, and one whose producer sends a third byte.\<close>

theorem declared_length_is_enforced_witness:
  "let meta = [Meta \<lparr>me_key = ''resp.stream'', me_value = ''1''\<rparr>,
               Meta \<lparr>me_key = ''resp.content_length'', me_value = ''2''\<rparr>];
       s = meta @ [Chunk ''a'', Chunk ''b'', Chunk ''c'', Complete []] in
   \<exists>r bss e. open_response s = Streamed r \<and> sr_content_length r = Some 2
     \<and> body_items_of (sr_body r) = map Inr bss @ [Inl e] \<and> length (concat bss) < 2"
proof -
  let ?meta = "[Meta \<lparr>me_key = ''resp.stream'', me_value = ''1''\<rparr>,
    Meta \<lparr>me_key = ''resp.content_length'', me_value = ''2''\<rparr>]"
  let ?m = "[\<lparr>me_key = ''resp.stream'', me_value = ''1''\<rparr>, \<lparr>me_key = ''resp.content_length'', me_value = ''2''\<rparr>]"
  let ?s = "?meta @ [Chunk ''a'', Chunk ''b'', Chunk ''c'', Complete []]"
  let ?r = "\<lparr>sr_status = 200, sr_headers = [(''Content-Type'', ''application/octet-stream'')],
    sr_content_length = Some 2,
    sr_body = \<lparr>sb_output = Some [Chunk ''a'', Chunk ''b'', Chunk ''c'', Complete []],
      sb_remaining = Some 2, sb_held = None\<rparr>\<rparr>"
  have len2: "content_length ?m = Inr (Some 2)"
  proof -
    have "meta_get ?m META_RESP_CONTENT_LENGTH = Some ''2''" "all_digits ''2''" "nat_of_digits ''2'' = 2"
      by code_simp+
    then show ?thesis by (simp add: content_length_def parse_unsigned_def u64_max_def)
  qed
  have "take_leading_meta ?s = (?m, [Chunk ''a'', Chunk ''b'', Chunk ''c'', Complete []])"
    "declares_streaming ?m" "headers_from_meta ?m = Inr []" "resolve_status ?m 200 = 200"
    "with_content_type DEFAULT_STREAMED_CONTENT_TYPE [] = [(''Content-Type'', ''application/octet-stream'')]"
    by code_simp+
  then have "open_response ?s = Streamed ?r"
    using len2 by (simp add: open_response_def check_declared_length_def peek_def)
  then obtain r where o: "open_response ?s = Streamed r" and len: "sr_content_length r = Some 2" by simp
  have "collect_buffered ?s = Inr \<lparr>br_body = ''abc'', br_meta = [\<lparr>me_key = ''resp.stream'', me_value = ''1''\<rparr>,
      \<lparr>me_key = ''resp.content_length'', me_value = ''2''\<rparr>]\<rparr>"
    by code_simp
  then have "collect_buffered ?s \<noteq> Inr \<lparr>br_body = bs, br_meta = m\<rparr>" if "length bs = 2" for bs m
    using that by auto
  then obtain bss e where "body_items_of (sr_body r) = map Inr bss @ [Inl e]" "length (concat bss) < 2"
    using declared_length_is_enforced [OF o len] by blast
  with o len show ?thesis unfolding Let_def by blast
qed

section \<open>What is served buffered\<close>

lemma kept_meta_PHeader:
  "e \<in> set (unsendable_response_meta meta) \<Longrightarrow> \<exists>n v. classify_response_meta e = Inr (Some (PHeader n v))"
  unfolding unsendable_response_meta_alt
  by (auto simp: kept_in_500_def classify_no_store split: sum.splits option.splits response_meta_part.splits)

lemma headers_of_PHeaders:
  assumes "\<And>e. e \<in> set M \<Longrightarrow> \<exists>n v. classify_response_meta e = Inr (Some (PHeader n v))"
  shows "headers_from_meta M = Inr (fold put_sendable M [])"
proof -
  have "\<exists>ps. classified M = Inr ps \<and> (\<forall>hs. fold put_part (map snd ps) hs = fold put_sendable M hs)"
    using assms
  proof (induction M)
    case (Cons e M)
    obtain n v where "classify_response_meta e = Inr (Some (PHeader n v))" using Cons.prems [of e] by auto
    moreover from this have "put_sendable e hs = put_header hs n v" for hs by (simp add: put_sendable_def)
    moreover obtain ps where "classified M = Inr ps"
      "\<forall>hs. fold put_part (map snd ps) hs = fold put_sendable M hs"
      using Cons by auto
    ultimately show ?case by simp
  qed simp
  then show ?thesis by (auto simp: headers_from_meta_def response_meta_parts_def)
qed

lemma meta_get_other: "(\<And>e. e \<in> set M \<Longrightarrow> me_key e \<noteq> k) \<Longrightarrow> meta_get M k = None"
  by (auto simp: meta_get_def find_None_iff)

lemma PHeader_key: "classify_response_meta e = Inr (Some (PHeader n v)) \<Longrightarrow> me_key e \<noteq> META_RESP_STATUS"
  by (auto simp: classify_response_meta_def Let_def split: option.splits)

lemma resp_key: "classify_response_meta e = Inr (Some part) \<Longrightarrow> me_key e \<noteq> ''error.code''"
  using classify_key [of e part] by (auto simp: starts_with_def)

lemma unsendable_stream_renders:
  "collect_http_response (unsendable_stream meta invalid) = unsendable_response meta invalid'"
proof -
  let ?M = "unsendable_response_meta meta"
  let ?hs = "fold put_sendable ?M []"
  note M = kept_meta_PHeader [of _ meta]
  have "''Content-Type'' \<notin> fst ` set ?hs"
    using fold_put_sendable_plain [of "[]" ?M] headers_ok_Nil by (simp add: plain_headers_def)
  then have "filter (\<lambda>(name, _). name \<noteq> ''Content-Type'') ?hs = ?hs"
    by (auto simp: filter_id_conv image_iff)
  then have h: "non_content_type_headers_from_meta ?M = Inr ?hs"
    using headers_of_PHeaders [OF M] by (simp add: non_content_type_headers_from_meta_def)
  have st: "meta_get ?M META_RESP_STATUS = None" and dc: "meta_get ?M ''error.code'' = None"
    using M PHeader_key resp_key by (metis meta_get_other)+
  show ?thesis
    unfolding unsendable_parts collect_http_response_def unsendable_stream_def out_error_def
    by (simp add: collect_buffered_def terminal_to_http_response_def error_to_http_response.simps h st dc
        internal_server_error_def resolve_error_status_def resolve_status_def detail_code_def)
qed

lemma open_response_Buffered:
  assumes "open_response s = Buffered s'" and "take_leading_meta s = (meta, out)"
  shows "collect_buffered s' = collect_buffered s
    \<or> (declares_streaming meta \<and> (\<exists>invalid. s' = unsendable_stream meta invalid))"
proof (cases "declares_streaming meta \<and> (case peek out of Some (Chunk _) \<Rightarrow> True | _ \<Rightarrow> False)")
  case False
  then have "s' = map Meta meta @ out" using assms by (auto simp: open_response_def prepend_def)
  then show ?thesis using take_leading_meta_split [OF assms(2)] by simp
next
  case True
  then have "meta \<noteq> []" by (auto simp: declares_streaming_def has_stream_marker_def meta_get_def leading_content_type_def)
  have "s' = unsendable_stream meta i \<Longrightarrow> ?thesis" for i using True by blast
  moreover have ?thesis if "check_declared_length out n = (NoBody, out')" "s' = map Meta meta @ out'" for n out'
  proof -
    have "n = 0" using that(1)
      by (auto simp: check_declared_length_def split: if_splits option.splits stream_event.splits)
    obtain metas where metas: "fst (snd (skip_empty [] out)) = map Meta metas"
      "\<forall>body meta. collect_loop body meta True out =
          collect_loop body meta True (map Meta metas @ snd (snd (skip_empty [] out)))"
      using skip_empty_skips [of "[]" out] by auto
    have "out' = map Meta metas @ snd (snd (skip_empty [] out))"
      using that(1) \<open>n = 0\<close> metas(1) by (auto simp: check_declared_length_def prepend_def split: prod.splits)
    then show ?thesis
      using metas(2) that(2) \<open>meta \<noteq> []\<close> take_leading_meta_split [OF assms(2)]
      by (simp add: collect_leading_meta)
  qed
  ultimately show ?thesis
    using assms True unfolding open_response_def
    by (auto simp: prepend_def Let_def split: sum.splits prod.splits option.splits declared_length.splits)
qed

text \<open>A response that is not streamed is rendered as if it had never been opened: reading ahead
  loses nothing, empty chunks under a declared length of 0 included.  The one exception is a
  response that declared streaming and cannot be sent: what it is replaced by renders exactly
  as the fail-closed 500 for its leading meta.\<close>

theorem opening_keeps_buffered_responses:
  assumes "open_response s = Buffered s'"
  shows "collect_buffered s' = collect_buffered s
    \<or> (declares_streaming (fst (take_leading_meta s))
       \<and> (\<forall>invalid. collect_http_response s' = unsendable_response (fst (take_leading_meta s)) invalid))"
proof -
  obtain meta out where t: "take_leading_meta s = (meta, out)" by (cases "take_leading_meta s")
  show ?thesis
    using open_response_Buffered [OF assms t] unsendable_stream_renders unfolding t by auto
qed

text \<open>A plain JSON response.\<close>

theorem opening_keeps_buffered_responses_witness:
  "open_response (respond ''{}'') = Buffered (respond ''{}'')
   \<and> collect_buffered (respond ''{}'') = Inr \<lparr>br_body = ''{}'', br_meta = []\<rparr>"
proof -
  have o: "open_response (respond ''{}'') = Buffered (respond ''{}'')" by code_simp
  have "\<not> declares_streaming (fst (take_leading_meta (respond ''{}'')))" by code_simp
  then show ?thesis
    using o opening_keeps_buffered_responses [OF o] by (simp add: respond_def collect_buffered_def)
qed

end
