(* ===== verification/Restrictive_Headers.thy ===== *)
theory Restrictive_Headers
  imports Http_Codec Flow_Types
begin

text \<open>
  \<^verbatim>\<open>crates/wafer-run/src/waferflow/restrictive_headers.rs\<close>: how two values of a security header
  combine when a later step of a flow sets a header an earlier step has set.

  The parsers walk a byte slice with an index; here they walk what is left of the slice.
\<close>

section \<open>Ranked headers\<close>

definition stricter :: "string \<Rightarrow> string \<Rightarrow> (string \<Rightarrow> 'r :: linorder) \<Rightarrow> string" where
  "stricter earlier later rank = (if rank earlier > rank later then earlier else later)"

definition dedup :: "'a list \<Rightarrow> 'a list" where
  "dedup xs = fold (\<lambda>x acc. if x \<in> set acc then acc else acc @ [x]) xs []"

definition comma :: char where "comma = CHR '',''"

definition x_frame_options_rank :: "string \<Rightarrow> nat" where
  "x_frame_options_rank v =
     (let vs = dedup (map (\<lambda>t. to_ascii_lowercase (str_trim t)) (split_on comma v)) in
      if length vs > 1
      then (if list_ex (\<lambda>t. t \<in> {''deny'', ''allowall'', ''sameorigin''}) vs then 2 else 0)
      else (case vs of
              [] \<Rightarrow> 0
            | t # _ \<Rightarrow> if t = ''deny'' then 2 else if t = ''sameorigin'' then 1 else 0))"

definition is_nosniff :: "string \<Rightarrow> bool" where
  "is_nosniff v = eq_ignore_ascii_case (str_trim (hd (split_on comma v))) ''nosniff''"

definition REFERRER_POLICIES :: "string list" where
  "REFERRER_POLICIES =
     [''no-referrer'', ''same-origin'', ''strict-origin'', ''strict-origin-when-cross-origin'',
      ''origin'', ''origin-when-cross-origin'', ''no-referrer-when-downgrade'', ''unsafe-url'']"

fun find_map :: "('a \<Rightarrow> 'b option) \<Rightarrow> 'a list \<Rightarrow> 'b option" where
  "find_map f [] = None"
| "find_map f (x # xs) = (case f x of Some y \<Rightarrow> Some y | None \<Rightarrow> find_map f xs)"

definition referrer_rank :: "string \<Rightarrow> nat" where
  "referrer_rank v =
     (case find_map (\<lambda>token. position (\<lambda>p. eq_ignore_ascii_case p (str_trim token)) REFERRER_POLICIES)
             (rev (split_on comma v)) of
        None \<Rightarrow> 0
      | Some i \<Rightarrow> length REFERRER_POLICIES - i)"

section \<open>Content-Security-Policy\<close>

text \<open>\<^verbatim>\<open>split_ascii_whitespace\<close>.\<close>

definition split_ascii_whitespace :: "string \<Rightarrow> string list" where
  "split_ascii_whitespace s =
     filter (\<lambda>w. w \<noteq> []) (split_on (CHR '' '') (map (\<lambda>c. if is_ascii_whitespace c then CHR '' '' else c) s))"

definition csp_policy :: "string \<Rightarrow> string" where
  "csp_policy policy = join_with '' '' (split_ascii_whitespace policy)"

definition csp_add :: "string \<Rightarrow> string list \<Rightarrow> string list" where
  "csp_add part policies =
     (let policy = csp_policy part in
      if policy \<noteq> [] \<and> policy \<notin> set policies then policies @ [policy] else policies)"

definition csp_union :: "string \<Rightarrow> string \<Rightarrow> string" where
  "csp_union earlier later =
     join_with '', '' (fold csp_add (split_on comma earlier @ split_on comma later) [])"

section \<open>Strict-Transport-Security\<close>

record hsts =
  max_age :: nat
  include_subdomains :: bool
  preload :: bool

definition hsts_digits :: "string \<Rightarrow> string" where
  "hsts_digits arg =
     (case strip_prefix [dquote] arg of
        None \<Rightarrow> arg
      | Some a \<Rightarrow> (case strip_suffix [dquote] a of Some d \<Rightarrow> d | None \<Rightarrow> arg))"

definition parse_max_age :: "string \<Rightarrow> nat option" where
  "parse_max_age arg =
     (let digits = hsts_digits arg in
      if \<not> all_digits digits then None
      else Some (case parse_unsigned u64_max digits of Some n \<Rightarrow> n | None \<Rightarrow> u64_max))"

text \<open>A directive's name and argument, and what it sets (\<open>None\<close> is the early \<^verbatim>\<open>return None\<close>).\<close>

definition hsts_name_arg :: "string \<Rightarrow> string \<times> string option" where
  "hsts_name_arg directive =
     (case split_once (CHR ''='') directive of
        Some (n, a) \<Rightarrow> (to_ascii_lowercase (str_trim n), Some (str_trim a))
      | None \<Rightarrow> (to_ascii_lowercase directive, None))"

definition hsts_directive :: "string \<Rightarrow> string option \<Rightarrow> nat option \<times> bool \<times> bool
    \<Rightarrow> (nat option \<times> bool \<times> bool) option" where
  "hsts_directive name arg st =
     (case st of (age, incl, pre) \<Rightarrow>
        if name = ''max-age'' then
          (case arg of
             None \<Rightarrow> None
           | Some a \<Rightarrow> map_option (\<lambda>n. (Some n, incl, pre)) (parse_max_age a))
        else if name = ''includesubdomains'' then Some (age, True, pre)
        else if name = ''preload'' then Some (age, incl, True)
        else Some st)"

fun parse_directives :: "string list \<Rightarrow> string list \<Rightarrow> nat option \<times> bool \<times> bool \<Rightarrow> hsts option" where
  "parse_directives [] seen (age, incl, pre) =
     map_option (\<lambda>n. \<lparr>max_age = n, include_subdomains = incl, preload = pre\<rparr>) age"
| "parse_directives (directive # rest) seen st =
     (let (name, arg) = hsts_name_arg directive in
      if name \<in> set seen then None
      else (case hsts_directive name arg st of
              None \<Rightarrow> None
            | Some st' \<Rightarrow> parse_directives rest (seen @ [name]) st'))"

definition parse_hsts :: "string \<Rightarrow> hsts option" where
  "parse_hsts v =
     parse_directives (filter (\<lambda>d. d \<noteq> []) (map str_trim (split_on (CHR '';'') v))) [] (None, False, False)"

definition hsts_union :: "string \<Rightarrow> string \<Rightarrow> string" where
  "hsts_union earlier later =
     (case (parse_hsts earlier, parse_hsts later) of
        (Some a, Some b) \<Rightarrow>
          ''max-age='' @ show_nat (max (max_age a) (max_age b))
          @ (if include_subdomains a \<or> include_subdomains b then ''; includeSubDomains'' else [])
          @ (if list_ex (\<lambda>h. include_subdomains h \<and> preload h) [a, b] then ''; preload'' else [])
      | (Some _, None) \<Rightarrow> earlier
      | (None, _) \<Rightarrow> later)"

section \<open>Permissions-Policy\<close>

datatype allowlist = All | Only "string list"

record permission =
  p_feature :: string
  p_allowlist :: allowlist

definition intersect_lists :: "allowlist \<Rightarrow> allowlist \<Rightarrow> allowlist" where
  "intersect_lists x y =
     (case (x, y) of
        (All, l) \<Rightarrow> l
      | (l, All) \<Rightarrow> l
      | (Only a, Only b) \<Rightarrow> Only (filter (\<lambda>item. item \<in> set b) a))"

definition intersect :: "permission \<Rightarrow> allowlist \<Rightarrow> string" where
  "intersect p other =
     (case intersect_lists (p_allowlist p) other of
        All \<Rightarrow> p_feature p @ ''=*''
      | Only origins \<Rightarrow> p_feature p @ ''=('' @ join_with '' '' origins @ '')'')"

definition skip :: "char list \<Rightarrow> string \<Rightarrow> string" where
  "skip cs s = dropWhile (\<lambda>b. b \<in> set cs) s"

definition is_ascii_lowercase :: "char \<Rightarrow> bool" where
  "is_ascii_lowercase c \<longleftrightarrow> CHR ''a'' \<le> c \<and> c \<le> CHR ''z''"

text \<open>The parsers return what they read and what is left.\<close>

definition parse_key :: "string \<Rightarrow> (string \<times> string) option" where
  "parse_key s =
     (case s of
        [] \<Rightarrow> None
      | b # r \<Rightarrow>
          (if is_ascii_lowercase b \<or> b = star
           then (let follows = (\<lambda>b. is_ascii_lowercase b \<or> is_ascii_digit b \<or> b \<in> set ''_-.*'') in
                 Some (b # takeWhile follows r, dropWhile follows r))
           else None))"

fun string_item :: "string \<Rightarrow> (string \<times> string) option" where
  "string_item [] = None"
| "string_item (b # r) =
     (if b = backslash then
        (case r of
           c # r' \<Rightarrow> if c = dquote \<or> c = backslash
                     then map_option (\<lambda>(t, rest). (b # c # t, rest)) (string_item r') else None
         | [] \<Rightarrow> None)
      else if b = dquote then Some ([b], r)
      else if CHR '' '' \<le> b \<and> b \<le> CHR ''~''
      then map_option (\<lambda>(t, rest). (b # t, rest)) (string_item r)
      else None)"

definition is_ascii_alphabetic :: "char \<Rightarrow> bool" where
  "is_ascii_alphabetic c \<longleftrightarrow> is_ascii_alphanumeric c \<and> \<not> is_ascii_digit c"

text \<open>The first byte and the bytes that may follow it.\<close>

definition run_item :: "(char \<Rightarrow> bool) \<Rightarrow> char \<Rightarrow> string \<Rightarrow> (string \<times> string) option" where
  "run_item follows b r = Some (b # takeWhile follows r, dropWhile follows r)"

definition boolean_item :: "char \<Rightarrow> string \<Rightarrow> (string \<times> string) option" where
  "boolean_item b r =
     (case r of
        c # r' \<Rightarrow> if c = CHR ''0'' \<or> c = CHR ''1'' then Some ([b, c], r') else None
      | [] \<Rightarrow> None)"

definition binary_item :: "char \<Rightarrow> string \<Rightarrow> (string \<times> string) option" where
  "binary_item b r =
     (let follows = (\<lambda>b. is_ascii_alphanumeric b \<or> b \<in> set ''+/='') in
      (case dropWhile follows r of
         c # r' \<Rightarrow> if c = CHR '':'' then Some (b # takeWhile follows r @ [c], r') else None
       | [] \<Rightarrow> None))"

definition parse_bare_item :: "string \<Rightarrow> (string \<times> string) option" where
  "parse_bare_item s =
     (case s of
        [] \<Rightarrow> None
      | b # r \<Rightarrow>
          (if b = dquote then map_option (\<lambda>(t, rest). (b # t, rest)) (string_item r)
           else if is_ascii_alphabetic b \<or> b = star
           then run_item (\<lambda>b. is_tchar b \<or> b = CHR '':'' \<or> b = slash) b r
           else if is_ascii_digit b \<or> b = CHR ''-''
           then run_item (\<lambda>b. is_ascii_digit b \<or> b = dot) b r
           else if b = CHR ''?'' then boolean_item b r
           else if b = CHR '':'' then binary_item b r
           else None))"

lemma parse_key_shorter: "parse_key s = Some (k, rest) \<Longrightarrow> length rest < length s"
  by (auto simp: parse_key_def Let_def le_imp_less_Suc length_dropWhile_le split: list.splits if_splits)

lemma string_item_shorter: "string_item s = Some (t, rest) \<Longrightarrow> length rest < length s"
  by (induction s arbitrary: t rule: string_item.induct)
     (fastforce split: if_splits list.splits)+

lemma dropWhile_Cons_length: "dropWhile P xs = y # ys \<Longrightarrow> length ys < length xs"
  by (metis length_Cons length_dropWhile_le Suc_le_lessD)

lemma item_shorter:
  "map_option (\<lambda>(t, rest). (b # t, rest)) (string_item r) = Some (t, rest) \<Longrightarrow> length rest \<le> length r"
  "run_item follows b r = Some (t, rest) \<Longrightarrow> length rest \<le> length r"
  "boolean_item b r = Some (t, rest) \<Longrightarrow> length rest \<le> length r"
  "binary_item b r = Some (t, rest) \<Longrightarrow> length rest \<le> length r"
  by (auto simp: run_item_def boolean_item_def binary_item_def Let_def length_dropWhile_le
      dest: string_item_shorter dropWhile_Cons_length split: list.splits if_splits)

lemma if_SomeE:
  assumes "(if c then x else y) = Some z"
  obtains "x = Some z" | "y = Some z"
  using assms by (cases c) auto

lemma parse_bare_item_shorter:
  assumes "parse_bare_item s = Some (t, rest)"
  shows "length rest < length s"
proof (cases s)
  case Nil
  then show ?thesis using assms by (simp add: parse_bare_item_def)
next
  case (Cons b r)
  have "length rest \<le> length r"
    using assms unfolding Cons parse_bare_item_def list.case
    by (elim if_SomeE)
       (erule item_shorter(1), erule item_shorter(2), erule item_shorter(2), erule item_shorter(3),
        erule item_shorter(4), simp)
  then show ?thesis using Cons by simp
qed

lemma skip_le: "length (skip cs s) \<le> length s"
  by (simp add: skip_def length_dropWhile_le)

function parse_params :: "string \<Rightarrow> string option" where
  "parse_params s =
     (case s of
        [] \<Rightarrow> Some s
      | b # r \<Rightarrow>
          (if b \<noteq> CHR '';'' then Some s
           else (case parse_key (skip '' '' r) of
                   None \<Rightarrow> None
                 | Some (_, r1) \<Rightarrow>
                     (case r1 of
                        [] \<Rightarrow> parse_params r1
                      | c # r2 \<Rightarrow>
                          (if c = CHR ''=''
                           then (case parse_bare_item r2 of
                                   None \<Rightarrow> None
                                 | Some (_, r3) \<Rightarrow> parse_params r3)
                           else parse_params r1)))))"
  by pat_completeness auto
termination
proof (relation "measure length", goal_cases)
  case (2 s b r p k r1)
  then show ?case using parse_key_shorter [of "skip '' '' r" k r1] skip_le [of "'' ''" r] by auto
next
  case (3 s b r p k r1 c r2 q t r3)
  then show ?case
    using parse_key_shorter [of "skip '' '' r" k r1] skip_le [of "'' ''" r] parse_bare_item_shorter [of r2 t r3] by auto
next
  case (4 s b r p k r1 c r2)
  then show ?case using parse_key_shorter [of "skip '' '' r" k r1] skip_le [of "'' ''" r] by auto
qed simp

declare parse_params.simps [simp del]

lemma parse_params_le: "parse_params s = Some rest \<Longrightarrow> length rest \<le> length s"
proof (induction s arbitrary: rest rule: parse_params.induct)
  case (1 s)
  show ?case
  proof (cases "\<exists>r. s = CHR '';'' # r")
    case False
    then show ?thesis using 1(4) by (subst (asm) parse_params.simps) (auto split: list.splits if_splits)
  next
    case True
    then obtain r where s: "s = CHR '';'' # r" by blast
    with 1(4) obtain k r1 where k: "parse_key (skip '' '' r) = Some (k, r1)"
      by (subst (asm) parse_params.simps) (auto split: option.splits)
    have r1: "length r1 < length r"
      using parse_key_shorter [OF k] skip_le [of "'' ''" r] by simp
    show ?thesis
    proof (cases "\<exists>r2. r1 = CHR ''='' # r2")
      case True
      then obtain r2 where r2: "r1 = CHR ''='' # r2" by blast
      then obtain t r3 where t: "parse_bare_item r2 = Some (t, r3)" and p: "parse_params r3 = Some rest"
        using 1(4) s k by (subst (asm) parse_params.simps) (auto split: option.splits)
      have "length rest \<le> length r3"
        using 1(2) [of "CHR '';''" r _ k r1 "CHR ''=''" r2 _ t r3] s k r2 t p by simp
      then show ?thesis using parse_bare_item_shorter [OF t] r1 r2 s by simp
    next
      case False
      then have p: "parse_params r1 = Some rest"
        using 1(4) s k by (subst (asm) parse_params.simps) (auto split: list.splits if_splits)
      have "length rest \<le> length r1"
        using 1(1) [of "CHR '';''" r _ k r1] 1(3) [of "CHR '';''" r _ k r1] s k p False by (cases r1) auto
      then show ?thesis using r1 s by simp
    qed
  qed
qed

function inner_list :: "string list \<Rightarrow> string \<Rightarrow> (string list \<times> string) option" where
  "inner_list acc s =
     (case skip '' '' s of
        [] \<Rightarrow> None
      | b # r \<Rightarrow>
          (if b = CHR '')'' then map_option (\<lambda>rest. (acc, rest)) (parse_params r)
           else (case parse_bare_item (b # r) of
                   None \<Rightarrow> None
                 | Some (item, r1) \<Rightarrow>
                     (case parse_params r1 of
                        None \<Rightarrow> None
                      | Some r2 \<Rightarrow>
                          (case r2 of
                             [] \<Rightarrow> None
                           | c # _ \<Rightarrow> if c = CHR '' '' \<or> c = CHR '')'' then inner_list (acc @ [item]) r2
                                      else None)))))"
  by pat_completeness auto
termination
proof (relation "measure (length \<circ> snd)", goal_cases)
  case (2 acc s b r p item r1 r2 c r3)
  have "length (b # r) \<le> length s" using 2(1) skip_le [of "'' ''" s] by simp
  then show ?case
    using 2 parse_bare_item_shorter [of "b # r" item r1] parse_params_le [of r1 r2] by simp
qed simp

declare inner_list.simps [simp del]

text \<open>The value of one dictionary member, after its key.\<close>

definition member_items :: "string \<Rightarrow> (string list \<times> string) option" where
  "member_items s =
     (case s of
        b # r \<Rightarrow>
          (if b = CHR ''='' then
             (case r of
                c # r' \<Rightarrow>
                  (if c = CHR ''('' then inner_list [] r'
                   else (case parse_bare_item r of
                           None \<Rightarrow> None
                         | Some (item, r1) \<Rightarrow> map_option (\<lambda>rest. ([item], rest)) (parse_params r1)))
              | [] \<Rightarrow> None)
           else map_option (\<lambda>rest. ([], rest)) (parse_params s))
      | [] \<Rightarrow> map_option (\<lambda>rest. ([], rest)) (parse_params s))"

fun put_member :: "permission \<Rightarrow> permission list \<Rightarrow> permission list" where
  "put_member m [] = [m]"
| "put_member m (n # ms) = (if p_feature n = p_feature m then m # ms else n # put_member m ms)"

lemma inner_list_le: "inner_list acc s = Some (its, rest) \<Longrightarrow> length rest \<le> length s"
proof (induction acc s arbitrary: its rest rule: inner_list.induct)
  case (1 acc s)
  obtain b r where b: "skip '' '' s = b # r"
    using 1(2) by (subst (asm) inner_list.simps) (auto split: list.splits)
  have le: "length (b # r) \<le> length s" using skip_le [of "'' ''" s] b by simp
  show ?case
  proof (cases "b = CHR '')''")
    case True
    then have "parse_params r = Some rest"
      using 1(2) b by (subst (asm) inner_list.simps) auto
    then show ?thesis using parse_params_le [of r rest] le by simp
  next
    case False
    then obtain item r1 r2 c r3 where st: "parse_bare_item (b # r) = Some (item, r1)" "parse_params r1 = Some r2"
      "r2 = c # r3" "c = CHR '' '' \<or> c = CHR '')''" "inner_list (acc @ [item]) r2 = Some (its, rest)"
      using 1(2) b by (subst (asm) inner_list.simps) (auto split: option.splits list.splits if_splits)
    then have "length rest \<le> length r2" using 1(1) [OF b False st(1) _ st(2,3,4)] by simp
    then show ?thesis
      using parse_bare_item_shorter [OF st(1)] parse_params_le [OF st(2)] le by linarith
  qed
qed

lemma member_items_le: "member_items s = Some (its, rest) \<Longrightarrow> length rest \<le> length s"
  by (auto simp: member_items_def split: list.splits if_splits option.splits
      dest!: inner_list_le parse_params_le parse_bare_item_shorter)

function permissions_loop :: "permission list \<Rightarrow> string \<Rightarrow> permission list option" where
  "permissions_loop acc s =
     (if s = [] then Some acc
      else (case parse_key s of
              None \<Rightarrow> None
            | Some (feature, r) \<Rightarrow>
                (case member_items r of
                   None \<Rightarrow> None
                 | Some (origins, r1) \<Rightarrow>
                     (let allowed = (if ''*'' \<in> set origins then All else Only origins);
                          acc' = put_member \<lparr>p_feature = feature, p_allowlist = allowed\<rparr> acc;
                          r2 = skip [CHR '' '', CHR 0x09] r1
                      in (case r2 of
                            [] \<Rightarrow> Some acc'
                          | b # r3 \<Rightarrow>
                              (if b \<noteq> comma then None
                               else (let r4 = skip [CHR '' '', CHR 0x09] r3 in
                                     if r4 = [] then None else permissions_loop acc' r4)))))))"
  by pat_completeness auto
termination
proof (relation "measure (length \<circ> snd)", goal_cases)
  case (2 acc s p feature r q origins r1 al acc' r2 b r3 r4)
  then have "length r4 \<le> length r3" "length (b # r3) \<le> length r1" "length r1 \<le> length r" "length r < length s"
    using skip_le [of _ r3] skip_le [of _ r1] member_items_le [of r] parse_key_shorter [of s] by (metis, metis, auto)
  then show ?case by simp
qed simp

declare permissions_loop.simps [simp del]

definition parse_permissions :: "string \<Rightarrow> permission list option" where
  "parse_permissions v = permissions_loop [] (skip [CHR '' '', CHR 0x09] v)"

definition permissions_intersection :: "string \<Rightarrow> string \<Rightarrow> string" where
  "permissions_intersection earlier later =
     (case (parse_permissions earlier, parse_permissions later) of
        (Some a, Some b) \<Rightarrow>
          (let dflt = Only [''self''] in
           join_with '', ''
             (map (\<lambda>m. intersect m (case List.find (\<lambda>n. p_feature n = p_feature m) b of
                                      Some n \<Rightarrow> p_allowlist n | None \<Rightarrow> dflt)) a
              @ map (\<lambda>m. intersect m dflt)
                  (filter (\<lambda>m. \<not> list_ex (\<lambda>n. p_feature n = p_feature m) a) b)))
      | (Some _, None) \<Rightarrow> earlier
      | (None, _) \<Rightarrow> later)"

section \<open>Combining\<close>

definition combine :: "string \<Rightarrow> string \<Rightarrow> string \<Rightarrow> string option" where
  "combine lower_name earlier later =
     (if lower_name = ''content-security-policy'' then Some (csp_union earlier later)
      else if lower_name = ''x-frame-options'' then Some (stricter earlier later x_frame_options_rank)
      else if lower_name = ''x-content-type-options'' then Some (stricter earlier later is_nosniff)
      else if lower_name = ''referrer-policy'' then Some (stricter earlier later referrer_rank)
      else if lower_name = ''strict-transport-security'' then Some (hsts_union earlier later)
      else if lower_name = ''permissions-policy'' then Some (permissions_intersection earlier later)
      else None)"

section \<open>Combining only tightens\<close>

text \<open>What the overlay of a flow relies on: a way to combine two values and an order of
  strictness, the combination being at least as strict as each.\<close>

locale restrictive_header =
  fixes meet :: "string \<Rightarrow> string \<Rightarrow> string"
    and covers :: "string \<Rightarrow> string \<Rightarrow> bool"
  assumes covers_refl: "covers v v"
    and covers_trans: "covers u v \<Longrightarrow> covers v w \<Longrightarrow> covers u w"
    and covers_left: "covers (meet v w) v"
    and covers_right: "covers (meet v w) w"
begin

text \<open>Reducing any number of values is at least as strict as every one of them.\<close>

lemma foldl_covers_first: "covers (foldl meet v vs) v"
proof (induction vs arbitrary: v)
  case (Cons w vs)
  then show ?case using covers_trans [OF Cons covers_left] by simp
qed (simp add: covers_refl)

lemma foldl_covers: "w \<in> set (v # vs) \<Longrightarrow> covers (foldl meet v vs) w"
proof (induction vs arbitrary: v)
  case (Cons u vs)
  then show ?case
    using covers_trans [OF foldl_covers_first [of "meet v u" vs] covers_right [of v u]] covers_trans [OF foldl_covers_first [of "meet v u" vs] covers_left [of v u]]
    by auto
qed (simp add: covers_refl)

end

interpretation xfo: restrictive_header
  "\<lambda>v w. stricter v w x_frame_options_rank" "\<lambda>v w. x_frame_options_rank w \<le> x_frame_options_rank v"
  by unfold_locales (auto simp: stricter_def)

interpretation nosniff: restrictive_header "\<lambda>v w. stricter v w is_nosniff" "\<lambda>v w. is_nosniff w \<le> is_nosniff v"
  by unfold_locales (auto simp: stricter_def)

interpretation referrer: restrictive_header
  "\<lambda>v w. stricter v w referrer_rank" "\<lambda>v w. referrer_rank w \<le> referrer_rank v"
  by unfold_locales (auto simp: stricter_def)

text \<open>The policies a browser enforces for a \<^verbatim>\<open>Content-Security-Policy\<close> value.\<close>

definition csp_policies :: "string \<Rightarrow> string set" where
  "csp_policies v = csp_policy ` set (split_on comma v) - {[]}"

lemma filter_split_space: "filter (\<lambda>w. w \<noteq> []) (split_on d (d # s)) = filter (\<lambda>w. w \<noteq> []) (split_on d s)"
  by simp

lemma words_space: "split_ascii_whitespace (CHR '' '' # s) = split_ascii_whitespace s"
  by (simp add: split_ascii_whitespace_def)

lemma words_char:
  assumes "w \<in> set (split_ascii_whitespace s)"
  shows "w \<noteq> [] \<and> list_all (\<lambda>c. \<not> is_ascii_whitespace c) w \<and> set w \<subseteq> set s"
proof -
  let ?t = "map (\<lambda>c. if is_ascii_whitespace c then CHR '' '' else c) s"
  have w: "w \<in> set (split_on (CHR '' '') ?t)" "w \<noteq> []"
    using assms by (auto simp: split_ascii_whitespace_def)
  have "\<not> is_ascii_whitespace c \<and> c \<in> set s" if "c \<in> set w" for c
  proof -
    have "c \<noteq> CHR '' ''" "c \<in> set ?t"
      using that w split_on_no_delim split_on_subset by blast+
    then show ?thesis by (auto split: if_splits)
  qed
  then show ?thesis using w(2) by (auto simp: list_all_iff)
qed

lemma words_join:
  assumes ws: "\<And>w. w \<in> set ws \<Longrightarrow> w \<noteq> [] \<and> list_all (\<lambda>c. \<not> is_ascii_whitespace c) w"
  shows "split_ascii_whitespace (join_with '' '' ws) = ws"
proof (cases "ws = []")
  case False
  let ?j = "join_with '' '' ws"
  have sp: "is_ascii_whitespace (CHR '' '')" by (simp add: is_ascii_whitespace_def)
  have "(if is_ascii_whitespace c then CHR '' '' else c) = c" if "c \<in> set ?j" for c
    using that join_with_set [of "'' ''" ws] ws by (fastforce simp: list_all_iff)
  then have "map (\<lambda>c. if is_ascii_whitespace c then CHR '' '' else c) ?j = ?j"
    by (simp add: map_idI)
  moreover have "split_on (CHR '' '') ?j = ws"
    using False ws sp by (intro split_on_join_inverse) (auto simp: list_all_iff)
  ultimately show ?thesis using ws by (simp add: split_ascii_whitespace_def filter_id_conv)
qed (simp add: split_ascii_whitespace_def)

lemma csp_policy_words: "split_ascii_whitespace (csp_policy s) = split_ascii_whitespace s"
  unfolding csp_policy_def using words_char by (intro words_join) blast

lemma csp_policy_idem [simp]: "csp_policy (csp_policy s) = csp_policy s" "csp_policy (CHR '' '' # s) = csp_policy s"
  by (simp_all add: csp_policy_def [of "csp_policy s"] csp_policy_words)
     (simp_all add: csp_policy_def words_space)

lemma csp_policy_no_comma: "comma \<notin> set s \<Longrightarrow> comma \<notin> set (csp_policy s)"
  using join_with_set [of "'' ''" "split_ascii_whitespace s"] words_char [of _ s]
  by (auto simp: csp_policy_def comma_def)

text \<open>The list the loop collects: normalised policies, none empty, none with a comma.\<close>

lemma fold_csp_add:
  "set (fold csp_add parts acc) = set acc \<union> (csp_policy ` set parts - {[]})"
  by (induction parts arbitrary: acc) (auto simp: csp_add_def Let_def)

lemma join_comma_space:
  "join_with '', '' (p # ps) = join_with [comma] (p # map (\<lambda>q. CHR '' '' # q) ps)"
  by (induction ps arbitrary: p) (simp_all add: comma_def join_with_hd)

lemma csp_policies_join:
  assumes "\<And>p. p \<in> set ps \<Longrightarrow> p \<noteq> [] \<and> comma \<notin> set p \<and> csp_policy p = p"
  shows "csp_policies (join_with '', '' ps) = set ps"
proof (cases ps)
  case Nil
  then show ?thesis by (simp add: csp_policies_def csp_policy_def split_ascii_whitespace_def)
next
  case (Cons p qs)
  have "comma \<noteq> CHR '' ''" by (simp add: comma_def)
  moreover have "comma \<notin> set p" "\<forall>q \<in> set qs. comma \<notin> set q"
    using assms Cons by simp_all
  ultimately have "split_on comma (join_with '', '' ps) = p # map (\<lambda>q. CHR '' '' # q) qs"
    unfolding Cons join_comma_space by (intro split_on_join_inverse) auto
  then show ?thesis using assms Cons by (force simp: csp_policies_def image_iff)
qed

lemma csp_policies_union: "csp_policies (csp_union v w) = csp_policies v \<union> csp_policies w"
proof -
  let ?parts = "split_on comma v @ split_on comma w"
  have set: "set (fold csp_add ?parts []) = csp_policies v \<union> csp_policies w"
    by (auto simp: fold_csp_add csp_policies_def)
  have "p \<noteq> [] \<and> comma \<notin> set p \<and> csp_policy p = p" if "p \<in> set (fold csp_add ?parts [])" for p
    using that split_on_no_delim csp_policy_no_comma unfolding set by (auto simp: csp_policies_def)
  then show ?thesis unfolding csp_union_def set [symmetric] by (rule csp_policies_join)
qed

interpretation csp: restrictive_header csp_union "\<lambda>v w. csp_policies w \<subseteq> csp_policies v"
  by unfold_locales (auto simp: csp_policies_union)

text \<open>The value \<^verbatim>\<open>hsts_union\<close> writes reads back as it was meant.\<close>

definition hsts_text :: "nat \<Rightarrow> bool \<Rightarrow> bool \<Rightarrow> string" where
  "hsts_text n incl pre =
     ''max-age='' @ show_nat n @ (if incl then ''; includeSubDomains'' else []) @ (if pre then ''; preload'' else [])"

lemma digit_solid: "is_ascii_digit c \<Longrightarrow> solid c \<and> c \<noteq> CHR '';'' \<and> c \<noteq> CHR ''='' \<and> c \<noteq> dquote"
  by (auto simp: is_ascii_digit_def solid_def is_ws_byte_def less_eq_char_def less_char_def)

lemma trim_show_nat: "str_trim (show_nat n) = show_nat n"
  using show_nat_chars [of _ n] digit_solid by (intro str_trim_solid) auto

lemma trim_max_age: "str_trim (''max-age='' @ show_nat n) = ''max-age='' @ show_nat n"
proof (rule str_trim_solid)
  show "solid (hd (''max-age='' @ show_nat n))" by code_simp
  show "solid (last (''max-age='' @ show_nat n))"
    using show_nat_chars [of "last (show_nat n)" n] digit_solid by simp
qed simp

lemma trim_flags:
  "str_trim '' includeSubDomains'' = ''includeSubDomains''" "str_trim '' preload'' = ''preload''"
  by code_simp+

lemma split_once_max_age: "split_once (CHR ''='') (''max-age='' @ show_nat n) = Some (''max-age'', show_nat n)"
  by (simp add: split_once_def)

lemma directive_flags:
  "hsts_name_arg ''includeSubDomains'' = (''includesubdomains'', None)" "hsts_name_arg ''preload'' = (''preload'', None)"
  by code_simp+

lemma lower_max_age: "to_ascii_lowercase (str_trim ''max-age'') = ''max-age''"
  by code_simp

lemma directive_max_age: "hsts_name_arg (''max-age='' @ show_nat n) = (''max-age'', Some (show_nat n))"
  unfolding hsts_name_arg_def split_once_max_age by (simp add: lower_max_age trim_show_nat)

lemma parse_max_age_show: "n \<le> u64_max \<Longrightarrow> parse_max_age (show_nat n) = Some n"
proof -
  assume n: "n \<le> u64_max"
  obtain c r where c: "show_nat n = c # r" by (cases "show_nat n") auto
  have d: "is_ascii_digit c" using show_nat_chars [of c n] c by simp
  then have "c \<noteq> dquote" "c \<noteq> CHR ''+''" using digit_solid by (auto simp: is_ascii_digit_def less_eq_char_def)
  then have "hsts_digits (show_nat n) = show_nat n" "parse_unsigned u64_max (show_nat n) = Some n"
    using show_nat_digits [of n] n c by (simp_all add: hsts_digits_def strip_prefix_def parse_unsigned_def)
  then show ?thesis using show_nat_digits [of n] by (simp add: parse_max_age_def)
qed

lemma directive_effects:
  "n \<le> u64_max \<Longrightarrow> hsts_directive ''max-age'' (Some (show_nat n)) (age, incl, pre) = Some (Some n, incl, pre)"
  "hsts_directive ''includesubdomains'' arg (age, incl, pre) = Some (age, True, pre)"
  "hsts_directive ''preload'' arg (age, incl, pre) = Some (age, incl, True)"
  by (simp_all add: hsts_directive_def parse_max_age_show)

lemma parse_hsts_text:
  assumes "n \<le> u64_max"
  shows "parse_hsts (hsts_text n incl pre) = Some \<lparr>max_age = n, include_subdomains = incl, preload = pre\<rparr>"
proof -
  let ?parts = "[''max-age='' @ show_nat n] @ (if incl then ['' includeSubDomains''] else [])
    @ (if pre then ['' preload''] else [])"
  have semi: "CHR '';'' \<notin> set (show_nat n)" using show_nat_chars digit_solid by blast
  have "hsts_text n incl pre = join_with '';'' ?parts" by (simp add: hsts_text_def)
  moreover have "split_on (CHR '';'') (join_with '';'' ?parts) = ?parts"
    using semi by (intro split_on_join_inverse) auto
  ultimately have "map str_trim (split_on (CHR '';'') (hsts_text n incl pre)) =
      [''max-age='' @ show_nat n] @ (if incl then [''includeSubDomains''] else []) @ (if pre then [''preload''] else [])"
    by (simp add: trim_max_age [simplified] trim_flags)
  moreover have "hsts_name_arg (CHR ''m'' # CHR ''a'' # CHR ''x'' # CHR ''-'' # CHR ''a'' # CHR ''g'' # CHR ''e'' # CHR ''='' # show_nat n)
      = (''max-age'', Some (show_nat n))"
    using directive_max_age [of n] by simp
  ultimately show ?thesis
    using assms by (cases incl; cases pre) (simp_all add: parse_hsts_def directive_flags directive_effects)
qed

lemma hsts_directive_bound:
  assumes "hsts_directive name arg (age, incl, pre) = Some (age', incl', pre')"
    and "\<forall>n. age = Some n \<longrightarrow> n \<le> u64_max"
  shows "\<forall>n. age' = Some n \<longrightarrow> n \<le> u64_max"
proof -
  have "parse_max_age a = Some n \<Longrightarrow> n \<le> u64_max" for a n
    by (auto simp: parse_max_age_def Let_def dest: parse_unsigned_bound split: if_splits option.splits)
  then show ?thesis
    using assms unfolding hsts_directive_def by (auto split: if_splits option.splits)
qed

lemma parse_directives_bound:
  "\<forall>n. fst st = Some n \<longrightarrow> n \<le> u64_max \<Longrightarrow> parse_directives ds seen st = Some h \<Longrightarrow> max_age h \<le> u64_max"
proof (induction ds seen st rule: parse_directives.induct)
  case (2 directive rest seen st)
  obtain age incl pre where st: "st = (age, incl, pre)" by (cases st)
  obtain name arg st' where d: "hsts_name_arg directive = (name, arg)" "name \<notin> set seen"
    "hsts_directive name arg st = Some st'" "parse_directives rest (seen @ [name]) st' = Some h"
    using 2(3) by (auto split: prod.splits if_splits option.splits)
  obtain age' incl' pre' where st': "st' = (age', incl', pre')" by (cases st')
  have "\<forall>n. fst st' = Some n \<longrightarrow> n \<le> u64_max"
    using hsts_directive_bound d(3) 2(2) unfolding st st' fst_conv by blast
  then show ?case using 2(1) [OF d(1) [symmetric] refl d(2,3)] d(4) by blast
qed auto

lemma parse_hsts_bound: "parse_hsts v = Some h \<Longrightarrow> max_age h \<le> u64_max"
  unfolding parse_hsts_def by (rule parse_directives_bound) simp_all

text \<open>What a value demands of the browser: nothing if the browser ignores it.\<close>

definition hsts_covers :: "string \<Rightarrow> string \<Rightarrow> bool" where
  "hsts_covers v w =
     (case parse_hsts w of
        None \<Rightarrow> True
      | Some b \<Rightarrow>
          (case parse_hsts v of
             None \<Rightarrow> False
           | Some a \<Rightarrow> max_age b \<le> max_age a \<and> (include_subdomains b \<longrightarrow> include_subdomains a)
               \<and> (include_subdomains b \<and> preload b \<longrightarrow> preload a)))"

lemma hsts_union_parse:
  assumes "parse_hsts v = Some a" and "parse_hsts w = Some b"
  shows "parse_hsts (hsts_union v w) = Some
    \<lparr>max_age = max (max_age a) (max_age b), include_subdomains = include_subdomains a \<or> include_subdomains b,
     preload = include_subdomains a \<and> preload a \<or> include_subdomains b \<and> preload b\<rparr>"
proof -
  have "hsts_union v w = hsts_text (max (max_age a) (max_age b)) (include_subdomains a \<or> include_subdomains b)
      (include_subdomains a \<and> preload a \<or> include_subdomains b \<and> preload b)"
    using assms by (simp add: hsts_union_def hsts_text_def)
  then show ?thesis using parse_hsts_text parse_hsts_bound assms by (simp add: max_def)
qed

interpretation hsts: restrictive_header hsts_union hsts_covers
proof unfold_locales
  show "hsts_covers v v" for v by (simp add: hsts_covers_def split: option.split)
  show "hsts_covers u w" if "hsts_covers u v" "hsts_covers v w" for u v w
    using that by (auto simp: hsts_covers_def split: option.splits)
  show "hsts_covers (hsts_union v w) v" "hsts_covers (hsts_union v w) w" for v w
    by (cases "parse_hsts v"; cases "parse_hsts w"; simp add: hsts_covers_def hsts_union_parse;
        simp add: hsts_union_def)+
qed

text \<open>The strictness order of each header.  For \<^verbatim>\<open>Permissions-Policy\<close> the order is not defined
  here.\<close>

definition at_least_as_strict :: "string \<Rightarrow> string \<Rightarrow> string \<Rightarrow> bool" where
  "at_least_as_strict name v w =
     (if name = ''content-security-policy'' then csp_policies w \<subseteq> csp_policies v
      else if name = ''x-frame-options'' then x_frame_options_rank w \<le> x_frame_options_rank v
      else if name = ''x-content-type-options'' then is_nosniff w \<longrightarrow> is_nosniff v
      else if name = ''referrer-policy'' then referrer_rank w \<le> referrer_rank v
      else if name = ''strict-transport-security'' then hsts_covers v w
      else True)"

definition strict_headers :: "string list" where
  "strict_headers = [''content-security-policy'', ''x-frame-options'', ''x-content-type-options'',
     ''referrer-policy'', ''strict-transport-security'']"

text \<open>The reduction of the overlay: the values of one header, the earliest first.\<close>

definition combine_all :: "string \<Rightarrow> string \<Rightarrow> string list \<Rightarrow> string" where
  "combine_all name v vs =
     foldl (\<lambda>earlier later. case combine name earlier later of Some c \<Rightarrow> c | None \<Rightarrow> later) v vs"

lemma combine_simps [simp]:
  "combine ''content-security-policy'' v w = Some (csp_union v w)"
  "combine ''x-frame-options'' v w = Some (stricter v w x_frame_options_rank)"
  "combine ''x-content-type-options'' v w = Some (stricter v w is_nosniff)"
  "combine ''referrer-policy'' v w = Some (stricter v w referrer_rank)"
  "combine ''strict-transport-security'' v w = Some (hsts_union v w)"
  by (simp_all add: combine_def)

lemma combine_all_strict:
  assumes "name \<in> set strict_headers" and "w \<in> set (v # vs)"
  shows "at_least_as_strict name (combine_all name v vs) w"
proof -
  have "\<forall>name \<in> set strict_headers. at_least_as_strict name (combine_all name v vs) w"
    unfolding strict_headers_def list.set ball_simps
    using csp.foldl_covers [OF assms(2)] xfo.foldl_covers [OF assms(2)] nosniff.foldl_covers [OF assms(2)]
      referrer.foldl_covers [OF assms(2)] hsts.foldl_covers [OF assms(2)]
    by (simp add: combine_all_def at_least_as_strict_def)
  then show ?thesis using assms(1) by blast
qed

end
