(* ===== verification/Response_Meta.thy ===== *)
theory Response_Meta
  imports Restrictive_Headers
begin

text \<open>
  \<^verbatim>\<open>crates/wafer-run/src/waferflow/response_meta.rs\<close>: how the response meta of a flow's steps
  combines, and what a short-circuit terminal inherits of it.  The \<^verbatim>\<open>HashMap\<close> of the responder
  record is a map.
\<close>

section \<open>Classification\<close>

definition UNION_HEADERS :: "string list" where
  "UNION_HEADERS = [''vary'']"

definition first_unsendable :: "meta_entry list \<Rightarrow> invalid_response_meta option" where
  "first_unsendable entries =
     find_map (\<lambda>e. case classify_response_meta e of
                     Inl invalid \<Rightarrow> if irm_kind invalid = Unsendable then Some invalid else None
                   | Inr _ \<Rightarrow> None) entries"

datatype entry_kind = KCookie | KHeader string | KOther

definition kind :: "meta_entry \<Rightarrow> entry_kind" where
  "kind entry =
     (case classify_response_meta entry of
        Inr (Some (PSetCookie _)) \<Rightarrow> KCookie
      | Inr (Some (PHeader name _)) \<Rightarrow> KHeader (to_ascii_lowercase name)
      | _ \<Rightarrow> KOther)"

definition header_name_is :: "meta_entry \<Rightarrow> string \<Rightarrow> bool" where
  "header_name_is entry lower_name \<longleftrightarrow> kind entry = KHeader lower_name"

section \<open>Overlay\<close>

text \<open>The tokens of one value, then of all; \<open>None\<close> is the early return of \<^verbatim>\<open>*\<close>.\<close>

fun add_tokens :: "string list \<Rightarrow> string list \<Rightarrow> string list option" where
  "add_tokens tokens [] = Some tokens"
| "add_tokens tokens (t # ts) =
     (if t = ''*'' then None
      else if list_ex (\<lambda>u. eq_ignore_ascii_case u t) tokens then add_tokens tokens ts
      else add_tokens (tokens @ [t]) ts)"

definition tokens_of :: "string \<Rightarrow> string list" where
  "tokens_of v = filter (\<lambda>t. t \<noteq> []) (map str_trim (split_on comma v))"

definition union_tokens :: "string list \<Rightarrow> string" where
  "union_tokens vs =
     (case add_tokens [] (concat (map tokens_of vs)) of
        None \<Rightarrow> ''*''
      | Some tokens \<Rightarrow> join_with '', '' tokens)"

text \<open>The search of \<^verbatim>\<open>fresh_cookie_key\<close> ends after at most one more key than \<open>meta\<close> has entries
  (\<open>fresh_cookie_key_fresh\<close> below).\<close>

definition cookie_key :: "nat \<Rightarrow> string" where
  "cookie_key n = META_RESP_COOKIE_PREFIX @ show_nat n"

definition fresh_cookie_key :: "meta_entry list \<Rightarrow> string" where
  "fresh_cookie_key meta =
     (case List.find (\<lambda>key. list_all (\<lambda>e. me_key e \<noteq> key) meta) (map cookie_key [0..<Suc (length meta)]) of
        Some key \<Rightarrow> key
      | None \<Rightarrow> [])"

record written =
  wr_key :: string
  wr_displaced :: "meta_entry list"

type_synonym displaced_cookies = "(cookie_ident \<times> meta_entry list) list"

definition is_cookie :: "cookie_ident \<Rightarrow> meta_entry \<Rightarrow> bool" where
  "is_cookie i e \<longleftrightarrow> kind e = KCookie \<and> cookie_id (me_value e) = i"

definition note_displaced :: "meta_entry list \<Rightarrow> meta_entry \<Rightarrow> displaced_cookies \<Rightarrow> displaced_cookies" where
  "note_displaced base entry dc =
     (let i = cookie_id (me_value entry) in
      if list_all (\<lambda>(seen, _). seen \<noteq> i) dc then dc @ [(i, filter (is_cookie i) base)] else dc)"

definition displaced_by :: "meta_entry list \<Rightarrow> meta_entry list \<Rightarrow> displaced_cookies" where
  "displaced_by base over = fold (note_displaced base) (filter (\<lambda>e. kind e = KCookie) over) []"

definition retained :: "displaced_cookies \<Rightarrow> meta_entry list \<Rightarrow> meta_entry list" where
  "retained dc base =
     filter (\<lambda>e. kind e \<noteq> KCookie \<or> list_all (\<lambda>(i, _). i \<noteq> cookie_id (me_value e)) dc) base"

text \<open>\<^verbatim>\<open>std::mem::take\<close> of the entries displaced by the first cookie of an identity.\<close>

fun take_displaced :: "cookie_ident \<Rightarrow> displaced_cookies \<Rightarrow> meta_entry list \<times> displaced_cookies" where
  "take_displaced i [] = ([], [])"
| "take_displaced i ((seen, es) # dc) =
     (if seen = i then (es, (seen, []) # dc)
      else (let (found, dc') = take_displaced i dc in (found, (seen, es) # dc')))"

definition put_cookie :: "meta_entry \<Rightarrow> meta_entry list \<Rightarrow> meta_entry" where
  "put_cookie entry base =
     (if list_ex (\<lambda>e. me_key e = me_key entry) base
      then \<lparr>me_key = fresh_cookie_key base, me_value = me_value entry\<rparr> else entry)"

definition combined_value :: "string \<Rightarrow> string list \<Rightarrow> string \<Rightarrow> string" where
  "combined_value name earlier v =
     (if is_listed UNION_HEADERS name then union_tokens (earlier @ [v])
      else (case earlier @ [v] of
              first # rest \<Rightarrow> combine_all name first rest
            | [] \<Rightarrow> v))"

definition put_entry_header :: "string \<Rightarrow> meta_entry \<Rightarrow> meta_entry list \<Rightarrow> meta_entry list" where
  "put_entry_header name replacement base =
     (let base' = filter (\<lambda>e. \<not> header_name_is e name) base in
      case position (\<lambda>e. header_name_is e name) base of
        Some p \<Rightarrow> (let i = min p (length base') in take i base' @ replacement # drop i base')
      | None \<Rightarrow> base' @ [replacement])"

fun put_other :: "meta_entry \<Rightarrow> meta_entry list \<Rightarrow> meta_entry list" where
  "put_other entry [] = [entry]"
| "put_other entry (e # base) =
     (if me_key e = me_key entry then e\<lparr>me_value := me_value entry\<rparr> # base else e # put_other entry base)"

definition overlay_step :: "meta_entry \<Rightarrow> meta_entry list \<times> displaced_cookies \<times> written list
    \<Rightarrow> meta_entry list \<times> displaced_cookies \<times> written list" where
  "overlay_step entry st =
     (case st of (base, dc, ws) \<Rightarrow>
        (case kind entry of
           KCookie \<Rightarrow>
             (let (displaced, dc') = take_displaced (cookie_id (me_value entry)) dc;
                  e = put_cookie entry base
              in (base @ [e], dc', ws @ [\<lparr>wr_key = me_key e, wr_displaced = displaced\<rparr>]))
         | KHeader name \<Rightarrow>
             (let displaced = filter (\<lambda>e. header_name_is e name) base;
                  replacement = entry\<lparr>me_value := combined_value name (map me_value displaced) (me_value entry)\<rparr>
              in (put_entry_header name replacement base, dc,
                  ws @ [\<lparr>wr_key = me_key replacement, wr_displaced = displaced\<rparr>]))
         | KOther \<Rightarrow> (put_other entry base, dc, ws)))"

definition overlay :: "meta_entry list \<Rightarrow> meta_entry list \<Rightarrow> meta_entry list \<times> written list" where
  "overlay base over =
     (let dc = displaced_by base over;
          (base', _, ws) = fold overlay_step over (retained dc base, dc, [])
      in (base', ws))"

section \<open>The responder record\<close>

type_synonym responder_record = "string \<Rightarrow> meta_entry list option"

definition BODY_HINTS :: "string list" where
  "BODY_HINTS = [META_RESP_STREAM, META_RESP_CONTENT_LENGTH]"

definition record_written :: "written \<Rightarrow> responder_record \<Rightarrow> responder_record" where
  "record_written w rec =
     rec(wr_key w \<mapsto>
       concat (map (\<lambda>d. case rec (me_key d) of Some es \<Rightarrow> es | None \<Rightarrow> [d]) (wr_displaced w)))"

definition apply_response :: "responder_record \<Rightarrow> meta_entry list \<Rightarrow> meta_entry list
    \<Rightarrow> responder_record \<times> meta_entry list" where
  "apply_response rec flow_meta over =
     (let base = filter (\<lambda>e. me_key e \<notin> set BODY_HINTS) flow_meta;
          (base', ws) = overlay base over
      in (fold record_written ws rec, base'))"

definition carries :: "meta_entry \<Rightarrow> bool" where
  "carries e =
     (case kind e of
        KCookie \<Rightarrow> True
      | KHeader name \<Rightarrow> \<not> is_listed BODY_RESPONSE_HEADERS name
      | KOther \<Rightarrow> False)"

definition middleware_of :: "responder_record \<Rightarrow> meta_entry \<Rightarrow> meta_entry list" where
  "middleware_of rec e = (case rec (me_key e) of Some es \<Rightarrow> es | None \<Rightarrow> [e])"

definition carried :: "meta_entry list \<Rightarrow> responder_record \<Rightarrow> meta_entry list" where
  "carried flow_meta rec = filter carries (concat (map (middleware_of rec) flow_meta))"

definition after_continue :: "responder_record \<Rightarrow> meta_entry list \<Rightarrow> meta_entry list \<Rightarrow> responder_record" where
  "after_continue rec before nxt =
     (\<lambda>key. let old = meta_get before key in
            if old \<noteq> None \<and> old = meta_get nxt key then rec key else None)"

section \<open>Kinds are a matter of keys\<close>

definition sendable_entry :: "meta_entry \<Rightarrow> bool" where
  "sendable_entry e \<longleftrightarrow> (\<forall>i. classify_response_meta e = Inl i \<longrightarrow> irm_kind i \<noteq> Unsendable)"

lemma first_unsendable_None: "first_unsendable es = None \<longleftrightarrow> list_all sendable_entry es"
  unfolding first_unsendable_def
  by (induction es) (auto simp: sendable_entry_def split: sum.splits if_splits)

definition key_kind :: "string \<Rightarrow> entry_kind" where
  "key_kind k = kind \<lparr>me_key = k, me_value = []\<rparr>"

lemma field_value_Nil [simp]: "is_field_value []"
  by (simp add: is_field_value_def)

lemma parse_status_field_value: "parse_status v = Some n \<Longrightarrow> is_field_value v"
proof -
  assume "parse_status v = Some n"
  then obtain m where "parse_unsigned 65535 v = Some m"
    by (auto simp: parse_status_def split: option.splits)
  then have "list_all (\<lambda>c. is_ascii_digit c \<or> c = CHR ''+'') v"
    by (auto simp: parse_unsigned_def Let_def all_digits_def list_all_iff split: list.splits if_splits)
  then show ?thesis
    by (auto simp: is_field_value_def list_all_iff is_ascii_digit_def less_eq_char_def)
qed

lemma classify_status:
  "me_key e = META_RESP_STATUS \<Longrightarrow> kind e = KOther"
  by (simp add: kind_def classify_response_meta_def split: option.split)

lemma kind_by_key: "kind e = (if is_field_value (me_value e) then key_kind (me_key e) else KOther)"
proof (cases "me_key e = META_RESP_STATUS")
  case True
  then show ?thesis by (simp add: classify_status key_kind_def)
next
  case False
  then show ?thesis
    unfolding key_kind_def kind_def classify_response_meta_def Let_def
    by (auto split: option.split)
qed

lemma sendable_kind:
  assumes "sendable_entry e"
  shows "kind e = key_kind (me_key e)"
proof (cases "is_field_value (me_value e)")
  case False
  have "key_kind (me_key e) = KOther"
  proof (cases "me_key e = META_RESP_STATUS")
    case True
    then show ?thesis by (simp add: classify_status key_kind_def)
  next
    case nostatus: False
    then show ?thesis
      using assms False unfolding sendable_entry_def key_kind_def kind_def classify_response_meta_def Let_def
      by (auto split: option.splits if_splits)
  qed
  then show ?thesis using False by (simp add: kind_by_key)
qed (simp add: kind_by_key)

lemma kind_update:
  "is_field_value v \<Longrightarrow> kind (e\<lparr>me_value := v\<rparr>) = key_kind (me_key e)"
  "kind (e\<lparr>me_value := v\<rparr>) \<in> {key_kind (me_key e), KOther}"
  by (simp_all add: kind_by_key)

lemma kind_header_key: "kind e = KHeader n \<Longrightarrow> key_kind (me_key e) = KHeader n \<and> is_field_value (me_value e)"
  by (simp add: kind_by_key split: if_splits)

lemma kind_cookie_key: "kind e = KCookie \<Longrightarrow> key_kind (me_key e) = KCookie \<and> is_field_value (me_value e)"
  by (simp add: kind_by_key split: if_splits)

lemma cookie_prefix_kind: "starts_with META_RESP_COOKIE_PREFIX k \<Longrightarrow> key_kind k = KCookie"
proof -
  assume k: "starts_with META_RESP_COOKIE_PREFIX k"
  then have "k \<noteq> META_RESP_STATUS" by (auto simp: meta_key_defs)
  then show ?thesis using k by (simp add: key_kind_def kind_def classify_response_meta_def Let_def)
qed

lemma cookie_key_inj: "inj cookie_key"
proof (rule injI)
  fix m n assume "cookie_key m = cookie_key n"
  then have "show_nat m = show_nat n" by (simp add: cookie_key_def)
  then show "m = n" using show_nat_digits by metis
qed

lemma fresh_cookie_key_fresh:
  obtains n where "fresh_cookie_key meta = cookie_key n" and "\<And>e. e \<in> set meta \<Longrightarrow> me_key e \<noteq> cookie_key n"
proof -
  let ?ks = "map cookie_key [0..<Suc (length meta)]"
  have "distinct ?ks" using cookie_key_inj by (simp add: distinct_map inj_on_def del: upt_Suc)
  then have "card (set ?ks) = Suc (length meta)" using distinct_card [of ?ks] by (simp del: upt_Suc)
  moreover have "card (me_key ` set meta) \<le> length meta"
    by (metis card_image_le card_length le_trans List.finite_set)
  ultimately have "\<not> set ?ks \<subseteq> me_key ` set meta"
    using card_mono [of "me_key ` set meta" "set ?ks"] by auto
  then obtain k where "k \<in> set ?ks" "\<forall>e \<in> set meta. me_key e \<noteq> k" by blast
  then have "List.find (\<lambda>key. list_all (\<lambda>e. me_key e \<noteq> key) meta) ?ks \<noteq> None"
    unfolding find_None_iff list_all_iff by blast
  then obtain k where k: "List.find (\<lambda>key. list_all (\<lambda>e. me_key e \<noteq> key) meta) ?ks = Some k" by blast
  then have "list_all (\<lambda>e. me_key e \<noteq> k) meta" "k \<in> set ?ks"
    by (metis (mono_tags, lifting) find_Some_iff nth_mem)+
  then show ?thesis using that k by (auto simp: fresh_cookie_key_def list_all_iff)
qed

lemma fresh_cookie_key_kind: "key_kind (fresh_cookie_key meta) = KCookie"
  by (rule fresh_cookie_key_fresh [of meta]) (simp add: cookie_prefix_kind cookie_key_def starts_with_prefix)

section \<open>Combined values can be sent\<close>

lemma field_value_append [simp]: "is_field_value (a @ b) \<longleftrightarrow> is_field_value a \<and> is_field_value b"
  by (simp add: is_field_value_def)

lemma field_value_subset: "is_field_value v \<Longrightarrow> set w \<subseteq> set v \<Longrightarrow> is_field_value w"
  by (auto simp: is_field_value_def list_all_iff)

lemma field_value_join:
  "is_field_value d \<Longrightarrow> (\<And>s. s \<in> set ss \<Longrightarrow> is_field_value s) \<Longrightarrow> is_field_value (join_with d ss)"
  by (induction d ss rule: join_with.induct) auto

lemma field_value_csp: "is_field_value s \<Longrightarrow> is_field_value (csp_policy s)"
  unfolding csp_policy_def using words_char field_value_subset
  by (intro field_value_join) (auto simp: is_field_value_def)

lemma field_value_csp_union: "is_field_value v \<Longrightarrow> is_field_value w \<Longrightarrow> is_field_value (csp_union v w)"
proof -
  assume v: "is_field_value v" "is_field_value w"
  have "is_field_value p" if "p \<in> set (fold csp_add (split_on comma v @ split_on comma w) [])" for p
  proof -
    from that obtain q where q: "q \<in> set (split_on comma v) \<union> set (split_on comma w)" "p = csp_policy q"
      by (auto simp: fold_csp_add)
    then have "is_field_value q"
      using v split_on_subset [of q comma v] split_on_subset [of q comma w] field_value_subset by auto
    then show ?thesis using q(2) field_value_csp by simp
  qed
  moreover have "is_field_value '', ''" by code_simp
  ultimately show ?thesis unfolding csp_union_def by (intro field_value_join)
qed

lemma digit_field_value: "is_ascii_digit c \<Longrightarrow> CHR '' '' \<le> c \<and> c \<le> CHR ''~''"
  by (auto simp: is_ascii_digit_def less_eq_char_def)

lemma field_value_show_nat: "is_field_value (show_nat n)"
  using show_nat_chars digit_field_value unfolding is_field_value_def list_all_iff by blast

lemma field_value_hsts: "is_field_value v \<Longrightarrow> is_field_value w \<Longrightarrow> is_field_value (hsts_union v w)"
proof -
  assume "is_field_value v" "is_field_value w"
  moreover have "is_field_value ''max-age=''" "is_field_value ''; includeSubDomains''" "is_field_value ''; preload''"
    by code_simp+
  ultimately show ?thesis
    unfolding hsts_union_def using field_value_show_nat
    by (cases "parse_hsts v"; cases "parse_hsts w") (simp_all del: append.simps)
qed

lemma field_value_combine:
  assumes "name \<in> set strict_headers" and "is_field_value v" and "is_field_value w"
  shows "\<exists>c. combine name v w = Some c \<and> is_field_value c"
proof -
  have "\<forall>name \<in> set strict_headers. \<exists>c. combine name v w = Some c \<and> is_field_value c"
    unfolding strict_headers_def list.set ball_simps combine_simps
    using assms(2,3) field_value_csp_union field_value_hsts by (simp add: stricter_def)
  then show ?thesis using assms(1) by blast
qed

lemma field_value_combine_all:
  assumes "name \<in> set strict_headers" and "is_field_value v" and "\<And>w. w \<in> set vs \<Longrightarrow> is_field_value w"
  shows "is_field_value (combine_all name v vs)"
  using assms(2,3) unfolding combine_all_def
proof (induction vs arbitrary: v)
  case (Cons w vs)
  obtain c where "combine name v w = Some c" "is_field_value c"
    using field_value_combine [OF assms(1), of v w] Cons.prems by auto
  then show ?case using Cons.IH [of c] Cons.prems by simp
qed simp

section \<open>Security headers only tighten\<close>

definition header_values :: "meta_entry list \<Rightarrow> string \<Rightarrow> string list" where
  "header_values meta name = map me_value (filter (\<lambda>e. header_name_is e name) meta)"

lemma header_values_simps [simp]:
  "header_values [] name = []"
  "header_values (e # meta) name = (if kind e = KHeader name then me_value e # header_values meta name else header_values meta name)"
  "header_values (a @ b) name = header_values a name @ header_values b name"
  by (simp_all add: header_values_def header_name_is_def)

lemma header_values_filter: "(\<And>e. kind e = KHeader name \<Longrightarrow> P e) \<Longrightarrow> header_values (filter P meta) name = header_values meta name"
  by (induction meta) auto

lemma header_values_remove:
  "header_values (filter (\<lambda>e. \<not> header_name_is e m) meta) name = (if name = m then [] else header_values meta name)"
  by (induction meta) (auto simp: header_name_is_def)

lemma header_values_take_drop: "header_values (take i meta) name @ header_values (drop i meta) name = header_values meta name"
  using header_values_simps(3) [of "take i meta" "drop i meta" name] by simp

lemma header_values_put:
  assumes "kind r \<in> {KHeader m, KOther}"
  shows "header_values (put_entry_header m r meta) name =
    (if name = m then (if kind r = KHeader m then [me_value r] else []) else header_values meta name)"
proof -
  let ?f = "filter (\<lambda>e. \<not> header_name_is e m) meta"
  have none: "header_values (take i ?f) m = []" "header_values (drop i ?f) m = []" for i
    using header_values_take_drop [of i ?f m] by (simp_all add: header_values_remove)
  have all: "header_values (take i ?f) name @ header_values (drop i ?f) name = header_values meta name"
    if "name \<noteq> m" for i
    unfolding header_values_take_drop header_values_remove using that by simp
  show ?thesis
    using assms none all header_values_remove [of m meta name]
    by (cases "name = m"; cases "position (\<lambda>e. header_name_is e m) meta")
       (auto simp: put_entry_header_def Let_def)
qed

lemma header_values_put_other:
  assumes "key_kind (me_key entry) = KOther"
  shows "header_values (put_other entry meta) name = header_values meta name"
  using assms
proof (induction entry meta rule: put_other.induct)
  case (1 entry)
  then show ?case using kind_header_key [of entry name] by auto
next
  case (2 entry e base)
  have "kind e \<noteq> KHeader name" "kind (e\<lparr>me_value := me_value entry\<rparr>) \<noteq> KHeader name" if "me_key e = me_key entry"
    using that 2(2) by (auto dest: kind_header_key)
  then show ?case using 2 by auto
qed

lemma header_values_field_value: "v \<in> set (header_values meta name) \<Longrightarrow> is_field_value v"
  by (auto simp: header_values_def header_name_is_def dest: kind_header_key)

lemma strict_not_union: "name \<in> set strict_headers \<Longrightarrow> \<not> is_listed UNION_HEADERS name"
proof -
  have "\<forall>name \<in> set strict_headers. \<not> is_listed UNION_HEADERS name" by code_simp
  then show "name \<in> set strict_headers \<Longrightarrow> ?thesis" by blast
qed

lemma at_least_as_strict_refl: "at_least_as_strict name v v"
  by (simp add: at_least_as_strict_def hsts.covers_refl)

lemma at_least_as_strict_trans:
  "at_least_as_strict name u v \<Longrightarrow> at_least_as_strict name v w \<Longrightarrow> at_least_as_strict name u w"
  unfolding at_least_as_strict_def using hsts.covers_trans by (auto split: if_splits)

text \<open>One entry of the overlay: the values of a security header before and after it.\<close>

lemma combined_strict:
  assumes "name \<in> set strict_headers" and "is_field_value v" and "\<And>u. u \<in> set earlier \<Longrightarrow> is_field_value u"
    and "w \<in> set earlier \<union> {v}"
  shows "is_field_value (combined_value name earlier v) \<and> at_least_as_strict name (combined_value name earlier v) w"
proof -
  obtain first rest where fr: "earlier @ [v] = first # rest" by (cases "earlier @ [v]") auto
  have mem: "set (first # rest) = set earlier \<union> {v}" using fr by (metis list.set(1,2) set_append)
  have "w \<in> set (first # rest)" using assms(4) unfolding mem .
  moreover have "is_field_value u" if "u \<in> set (first # rest)" for u
    using that assms(2,3) unfolding mem by blast
  ultimately show ?thesis
    using combine_all_strict [OF assms(1)] field_value_combine_all [OF assms(1), of first rest]
      strict_not_union [OF assms(1)] fr
    by (simp add: combined_value_def)
qed

lemma overlay_step_values:
  assumes "name \<in> set strict_headers" and "sendable_entry e" and "overlay_step e (b, dc, ws) = (b', dc', ws')"
  shows "if kind e = KHeader name
    then \<exists>c. header_values b' name = [c] \<and> (\<forall>w \<in> set (header_values b name) \<union> {me_value e}. at_least_as_strict name c w)
    else header_values b' name = header_values b name"
proof (cases "kind e")
  case KCookie
  moreover have "kind (put_cookie e b) \<noteq> KHeader name"
  proof -
    have "key_kind (fresh_cookie_key b) \<noteq> KHeader name" using fresh_cookie_key_kind by simp
    then show ?thesis using KCookie by (auto simp: put_cookie_def dest: kind_header_key)
  qed
  ultimately show ?thesis using assms(3) by (auto simp: overlay_step_def Let_def split: prod.splits)
next
  case (KHeader m)
  let ?vs = "map me_value (filter (\<lambda>e. header_name_is e m) b)"
  let ?r = "e\<lparr>me_value := combined_value m ?vs (me_value e)\<rparr>"
  have vs: "?vs = header_values b m" by (simp add: header_values_def)
  have b': "b' = put_entry_header m ?r b" using assms(3) KHeader by (simp add: overlay_step_def Let_def)
  have ek: "key_kind (me_key e) = KHeader m" "is_field_value (me_value e)" using kind_header_key KHeader by auto
  then have rk: "kind ?r \<in> {KHeader m, KOther}" using kind_update(2) [where e = e] by simp
  show ?thesis
  proof (cases "m = name")
    case True
    have c: "is_field_value (me_value ?r) \<and> at_least_as_strict name (me_value ?r) w"
      if "w \<in> set (header_values b name) \<union> {me_value e}" for w
      using combined_strict [OF assms(1) ek(2), of "header_values b name" w] header_values_field_value that True vs by simp
    have "is_field_value (me_value ?r)" using c [of "me_value e"] by simp
    then have "kind ?r = KHeader m" using kind_update(1) [where e = e] ek by simp
    then show ?thesis using KHeader True header_values_put [OF rk, of b name] b' c by auto
  next
    case False
    then show ?thesis using KHeader header_values_put [OF rk, of b name] b' by auto
  qed
next
  case KOther
  then show ?thesis
    using assms(3) header_values_put_other [of e b name] sendable_kind [OF assms(2)]
    by (auto simp: overlay_step_def)
qed

lemma overlay_fold_values:
  assumes "name \<in> set strict_headers" and "list_all sendable_entry over"
    and "fold overlay_step over (b, dc, ws) = (b', dc', ws')"
  shows "(header_values over name = [] \<longrightarrow> header_values b' name = header_values b name)
    \<and> (header_values over name \<noteq> [] \<longrightarrow> (\<exists>c. header_values b' name = [c]
         \<and> (\<forall>w \<in> set (header_values b name) \<union> set (header_values over name). at_least_as_strict name c w)))"
  using assms(2,3)
proof (induction over arbitrary: b dc ws)
  case (Cons e over)
  obtain b1 dc1 ws1 where st: "overlay_step e (b, dc, ws) = (b1, dc1, ws1)" by (cases "overlay_step e (b, dc, ws)")
  have IH: "(header_values over name = [] \<longrightarrow> header_values b' name = header_values b1 name)
    \<and> (header_values over name \<noteq> [] \<longrightarrow> (\<exists>c. header_values b' name = [c]
         \<and> (\<forall>w \<in> set (header_values b1 name) \<union> set (header_values over name). at_least_as_strict name c w)))"
    using Cons.IH [of b1 dc1 ws1] Cons.prems st by simp
  have step: "if kind e = KHeader name
    then \<exists>c. header_values b1 name = [c] \<and> (\<forall>w \<in> set (header_values b name) \<union> {me_value e}. at_least_as_strict name c w)
    else header_values b1 name = header_values b name"
    using overlay_step_values [OF assms(1) _ st] Cons.prems(1) by simp
  show ?case
  proof (cases "kind e = KHeader name")
    case True
    then obtain c where c: "header_values b1 name = [c]"
      "\<forall>w \<in> set (header_values b name) \<union> {me_value e}. at_least_as_strict name c w"
      using step by auto
    show ?thesis
    proof (cases "header_values over name = []")
      case True
      then show ?thesis using IH c \<open>kind e = KHeader name\<close> by simp
    next
      case False
      then obtain d where d: "header_values b' name = [d]" "at_least_as_strict name d c"
        "\<forall>w \<in> set (header_values over name). at_least_as_strict name d w"
        using IH c(1) by auto
      then show ?thesis using c(2) \<open>kind e = KHeader name\<close> at_least_as_strict_trans by auto
    qed
  next
    case False
    then show ?thesis using IH step by simp
  qed
qed simp



end
