(* ===== verification/Response_Carried.thy ===== *)
theory Response_Carried
  imports Response_Meta
begin

text \<open>
  What a short-circuit terminal inherits (\<^verbatim>\<open>carried\<close>) does not depend on what responding steps
  wrote: the responder record of \<^verbatim>\<open>response_meta.rs\<close> restores the middleware's entries.  This
  holds when cookies are stored under one key per identity, and fails for positional keys.
\<close>

section \<open>The carried entries as a multiset\<close>

definition carried_mset :: "responder_record \<Rightarrow> meta_entry list \<Rightarrow> meta_entry multiset" where
  "carried_mset rec es = mset (carried es rec)"

definition carried_of :: "responder_record \<Rightarrow> meta_entry \<Rightarrow> meta_entry multiset" where
  "carried_of rec e = mset (filter carries (middleware_of rec e))"

lemma carried_mset_simps [simp]:
  "carried_mset rec [] = {#}"
  "carried_mset rec (e # es) = carried_of rec e + carried_mset rec es"
  "carried_mset rec (a @ b) = carried_mset rec a + carried_mset rec b"
  by (simp_all add: carried_mset_def carried_def carried_of_def)

lemma carried_mset_perm: "mset a = mset b \<Longrightarrow> carried_mset rec a = carried_mset rec b"
proof -
  have "carried_mset rec es = (\<Sum>e \<in># mset es. carried_of rec e)" for es
    by (induction es) simp_all
  then show "mset a = mset b \<Longrightarrow> ?thesis" by simp
qed

lemma carried_mset_cong:
  "(\<And>e. e \<in> set es \<Longrightarrow> rec (me_key e) = rec' (me_key e)) \<Longrightarrow> carried_mset rec es = carried_mset rec' es"
  by (induction es) (simp_all add: carried_of_def middleware_of_def)

text \<open>A record holds keys of headers and cookies only.\<close>

definition record_ok :: "responder_record \<Rightarrow> bool" where
  "record_ok rec \<longleftrightarrow> (\<forall>k. rec k \<noteq> None \<longrightarrow> key_kind k \<noteq> KOther)"

lemma carries_key_kind: "carries e \<Longrightarrow> key_kind (me_key e) \<noteq> KOther"
  by (auto simp: carries_def kind_by_key split: if_splits)

lemma other_not_carried:
  "record_ok rec \<Longrightarrow> key_kind (me_key e) = KOther \<Longrightarrow> carried_of rec e = {#}"
  using carries_key_kind by (auto simp: carried_of_def middleware_of_def record_ok_def split: option.split)

lemma carried_mset_filter_other:
  assumes "record_ok rec" and "\<And>e. e \<in> set es \<Longrightarrow> \<not> P e \<Longrightarrow> key_kind (me_key e) = KOther"
  shows "carried_mset rec (filter P es) = carried_mset rec es"
  using assms(2) by (induction es) (auto simp: other_not_carried [OF assms(1)])

lemma carried_mset_put_other:
  assumes "record_ok rec" and "key_kind (me_key entry) = KOther"
  shows "carried_mset rec (put_other entry es) = carried_mset rec es"
  using assms(2)
  by (induction entry es rule: put_other.induct) (auto simp: other_not_carried [OF assms(1)])

text \<open>Replacing displaced entries by the entry that displaced them, the record updated.\<close>

lemma carried_mset_written:
  assumes "\<And>e. e \<in> set kept \<Longrightarrow> me_key e \<noteq> me_key r"
  shows "carried_mset (record_written \<lparr>wr_key = me_key r, wr_displaced = displaced\<rparr> rec) (kept @ [r])
    = carried_mset rec kept + carried_mset rec displaced"
proof -
  let ?rec = "record_written \<lparr>wr_key = me_key r, wr_displaced = displaced\<rparr> rec"
  have "carried_mset ?rec kept = carried_mset rec kept"
    using assms by (intro carried_mset_cong) (auto simp: record_written_def)
  moreover have "carried_of ?rec r = carried_mset rec displaced"
    by (simp add: carried_of_def middleware_of_def record_written_def carried_mset_def carried_def)
       (simp add: middleware_of_def [abs_def])
  ultimately show ?thesis by simp
qed

section \<open>Displaced cookies\<close>

definition pending :: "displaced_cookies \<Rightarrow> meta_entry list" where
  "pending dc = concat (map snd dc)"

definition dc_ok :: "meta_entry list \<Rightarrow> displaced_cookies \<Rightarrow> bool" where
  "dc_ok base dc \<longleftrightarrow> distinct (map fst dc) \<and> (\<forall>(i, es) \<in> set dc. es = filter (is_cookie i) base)"

lemma displaced_by_ok:
  "dc_ok base dc \<Longrightarrow> dc_ok base (fold (note_displaced base) es dc)
    \<and> fst ` set (fold (note_displaced base) es dc) = fst ` set dc \<union> (cookie_id \<circ> me_value) ` set es"
proof (induction es arbitrary: dc)
  case (Cons e es)
  let ?i = "cookie_id (me_value e)"
  have fresh: "list_all (\<lambda>(seen, _). seen \<noteq> ?i) dc \<longleftrightarrow> ?i \<notin> fst ` set dc"
    by (force simp: list_all_iff)
  have "dc_ok base (note_displaced base e dc)" "fst ` set (note_displaced base e dc) = insert ?i (fst ` set dc)"
    using Cons.prems unfolding note_displaced_def Let_def fresh by (auto simp: dc_ok_def)
  then show ?case using Cons.IH [of "note_displaced base e dc"] by auto
qed simp

lemma mset_filter_disj:
  "(\<And>x. \<not> (P x \<and> Q x)) \<Longrightarrow> mset (filter P xs) + mset (filter Q xs) = mset (filter (\<lambda>x. P x \<or> Q x) xs)"
  by (induction xs) auto

lemma pending_cookies:
  "dc_ok base dc \<Longrightarrow>
   mset (pending dc) = mset (filter (\<lambda>e. kind e = KCookie \<and> cookie_id (me_value e) \<in> fst ` set dc) base)"
proof (induction dc)
  case (Cons p dc)
  obtain i es where p: "p = (i, es)" by (cases p)
  have ok: "dc_ok base dc" "i \<notin> fst ` set dc" "es = filter (is_cookie i) base"
    using Cons.prems p by (auto simp: dc_ok_def)
  have "mset (filter (is_cookie i) base)
      + mset (filter (\<lambda>e. kind e = KCookie \<and> cookie_id (me_value e) \<in> fst ` set dc) base)
    = mset (filter (\<lambda>e. is_cookie i e \<or> kind e = KCookie \<and> cookie_id (me_value e) \<in> fst ` set dc) base)"
    using ok(2) by (intro mset_filter_disj) (auto simp: is_cookie_def)
  also have "\<dots> = mset (filter (\<lambda>e. kind e = KCookie \<and> cookie_id (me_value e) \<in> fst ` set (p # dc)) base)"
    unfolding p by (intro arg_cong [where f = mset] filter_cong) (auto simp: is_cookie_def)
  finally show ?case using Cons.IH [OF ok(1)] ok(3) p by (simp add: pending_def)
qed (simp add: pending_def)

lemma mset_filter_split: "mset (filter (\<lambda>x. \<not> P x) xs) + mset (filter P xs) = mset xs"
  by (induction xs) auto

lemma retained_pending:
  assumes "dc_ok base dc"
  shows "mset (retained dc base) + mset (pending dc) = mset base"
proof -
  have "retained dc base = filter (\<lambda>e. \<not> (kind e = KCookie \<and> cookie_id (me_value e) \<in> fst ` set dc)) base"
    unfolding retained_def by (intro filter_cong) (force simp: list_all_iff)+
  then show ?thesis using pending_cookies [OF assms] mset_filter_split by metis
qed

lemma take_displaced_pending:
  "take_displaced i dc = (found, dc') \<Longrightarrow>
   mset (pending dc) = mset found + mset (pending dc') \<and> map fst dc' = map fst dc
   \<and> (\<forall>(j, es) \<in> set dc'. j = i \<and> distinct (map fst dc) \<longrightarrow> es = [])
   \<and> (\<forall>j es. j \<noteq> i \<longrightarrow> (j, es) \<in> set dc' \<longrightarrow> (j, es) \<in> set dc)"
  by (induction i dc arbitrary: found dc' rule: take_displaced.induct)
     (force simp: pending_def split: if_splits prod.splits)+

section \<open>The loop\<close>

abbreviation cookies :: "meta_entry list \<Rightarrow> meta_entry list" where
  "cookies es \<equiv> filter (\<lambda>e. kind e = KCookie) es"

text \<open>The state of the overlay loop: \<open>b\<close> and \<open>dc\<close> with the entries \<open>todo\<close> still to lay over.\<close>

definition keys_ok :: "meta_entry list \<Rightarrow> meta_entry list \<Rightarrow> bool" where
  "keys_ok b todo \<longleftrightarrow>
     (\<forall>e \<in> set b. me_key e \<in> me_key ` set todo \<longrightarrow> kind e = key_kind (me_key e))
     \<and> (\<forall>f \<in> set (cookies todo). me_key f \<notin> me_key ` set b)"

definition dc_state :: "displaced_cookies \<Rightarrow> meta_entry list \<Rightarrow> bool" where
  "dc_state dc cs \<longleftrightarrow>
     distinct (map fst dc)
     \<and> (\<forall>(i, es) \<in> set dc. (es \<noteq> [] \<longrightarrow> i \<in> (cookie_id \<circ> me_value) ` set cs) \<and> (\<forall>d \<in> set es. is_cookie i d))
     \<and> (\<forall>d \<in> set (pending dc). \<forall>f \<in> set cs.
          me_key d = me_key f \<longrightarrow> cookie_id (me_value d) = cookie_id (me_value f))"

definition loop_ok :: "meta_entry list \<Rightarrow> displaced_cookies \<Rightarrow> meta_entry list \<Rightarrow> bool" where
  "loop_ok b dc todo \<longleftrightarrow>
     list_all sendable_entry todo \<and> distinct (map me_key todo) \<and> keys_ok b todo \<and> dc_state dc (cookies todo)"

lemma keys_ok_step:
  assumes "keys_ok b (f # todo)" and "me_key f \<notin> me_key ` set todo"
    and "\<And>e. e \<in> set b' \<Longrightarrow> e \<in> set b \<or> me_key e = me_key f"
  shows "keys_ok b' todo"
proof -
  have "kind e = key_kind (me_key e)" if "e \<in> set b'" "me_key e \<in> me_key ` set todo" for e
    using assms(1) assms(3) [OF that(1)] that(2) assms(2) by (auto simp: keys_ok_def)
  moreover have "me_key g \<notin> me_key ` set b'" if g: "g \<in> set todo" "kind g = KCookie" for g
  proof
    assume "me_key g \<in> me_key ` set b'"
    then obtain e where e: "e \<in> set b'" "me_key e = me_key g" by (metis imageE)
    have "me_key g \<notin> me_key ` set b" using assms(1) g by (simp add: keys_ok_def)
    then have "me_key e = me_key f" using assms(3) [OF e(1)] e(2) by (metis image_eqI)
    then show False using e(2) g(1) assms(2) by (metis image_eqI)
  qed
  ultimately show ?thesis by (simp add: keys_ok_def)
qed

lemma loop_ok_step:
  assumes "loop_ok b dc (f # todo)" and "\<And>e. e \<in> set b' \<Longrightarrow> e \<in> set b \<or> me_key e = me_key f"
    and "dc_state dc' (cookies todo)"
  shows "loop_ok b' dc' todo"
  using assms keys_ok_step [of b f todo b'] by (simp add: loop_ok_def)

lemma loop_ok_agree: "loop_ok b dc (f # todo) \<Longrightarrow> e \<in> set b \<Longrightarrow> me_key e = me_key f \<Longrightarrow> kind e = key_kind (me_key f)"
  by (auto simp: loop_ok_def keys_ok_def)

lemma loop_ok_pending: "loop_ok b dc todo \<Longrightarrow> d \<in> set (pending dc) \<Longrightarrow> kind d = KCookie"
  by (force simp: loop_ok_def dc_state_def pending_def is_cookie_def)

lemma pending_elem: "d \<in> set (pending dc) \<longleftrightarrow> (\<exists>i es. (i, es) \<in> set dc \<and> d \<in> set es)"
  by (force simp: pending_def)

lemma mset_put_entry_header:
  "mset (put_entry_header n r b) = mset (filter (\<lambda>e. \<not> header_name_is e n) b @ [r])"
proof -
  have "mset (take i xs @ r # drop i xs) = mset (xs @ [r])" for i and xs :: "meta_entry list"
    by (metis append_take_drop_id mset_append mset.simps(2) union_mset_add_mset_right add_mset_add_single mset_single_iff_right mset.simps(1) union_assoc union_commute)
  then show ?thesis by (simp add: put_entry_header_def Let_def split: option.split)
qed

lemma set_put_entry_header: "set (put_entry_header n r b) \<subseteq> insert r (set b)"
  using mset_eq_setD [OF mset_put_entry_header [of n r b]] by auto

lemma keys_put_other: "me_key ` set (put_other entry b) = insert (me_key entry) (me_key ` set b)"
  by (induction entry b rule: put_other.induct) auto

text \<open>One entry: the carried entries, those of the pending cookies included, stay the same.\<close>

definition total :: "responder_record \<Rightarrow> meta_entry list \<Rightarrow> displaced_cookies \<Rightarrow> meta_entry multiset" where
  "total rec b dc = carried_mset rec b + carried_mset rec (pending dc)"

lemma step_cookie:
  assumes "loop_ok b dc (f # todo)" and "kind f = KCookie" and "overlay_step f (b, dc, ws) = (b', dc', ws')"
  shows "\<exists>w. ws' = ws @ [w] \<and> total (record_written w rec) b' dc' = total rec b dc
    \<and> loop_ok b' dc' todo \<and> key_kind (wr_key w) = KCookie"
proof -
  have nokey: "me_key f \<notin> me_key ` set b" using assms(1,2) by (simp add: loop_ok_def keys_ok_def)
  have ds: "dc_state dc (f # cookies todo)" using assms(1,2) by (simp add: loop_ok_def)
  have "\<not> list_ex (\<lambda>e. me_key e = me_key f) b" using nokey unfolding list_ex_iff by (metis image_eqI)
  then have "put_cookie f b = f" by (simp add: put_cookie_def)
  then obtain found where t: "take_displaced (cookie_id (me_value f)) dc = (found, dc')" and b': "b' = b @ [f]"
    and ws': "ws' = ws @ [\<lparr>wr_key = me_key f, wr_displaced = found\<rparr>]"
    using assms(2,3) by (auto simp: overlay_step_def Let_def split: prod.splits)
  have td: "mset (pending dc) = mset found + mset (pending dc')" "map fst dc' = map fst dc"
    "\<forall>(j, es) \<in> set dc'. j = cookie_id (me_value f) \<longrightarrow> es = []"
    "\<forall>j es. j \<noteq> cookie_id (me_value f) \<longrightarrow> (j, es) \<in> set dc' \<longrightarrow> (j, es) \<in> set dc"
    using take_displaced_pending [OF t] ds by (auto simp: dc_state_def)
  have sub: "d \<in> set (pending dc)" if "d \<in> set (pending dc')" for d
    using that td(1) by (metis UnCI set_mset_mset set_mset_union)
  let ?w = "\<lparr>wr_key = me_key f, wr_displaced = found\<rparr>"
  have other: "me_key d \<noteq> me_key f" if d: "d \<in> set (pending dc')" for d
  proof
    assume eq: "me_key d = me_key f"
    obtain i es where ies: "(i, es) \<in> set dc'" "d \<in> set es" using d by (auto simp: pending_elem)
    then have "i \<noteq> cookie_id (me_value f)" using td(3) by auto
    then have "(i, es) \<in> set dc" using td(4) ies by auto
    then have "cookie_id (me_value d) = i" using ds ies by (auto simp: dc_state_def is_cookie_def)
    moreover have "cookie_id (me_value d) = cookie_id (me_value f)"
      using ds sub [OF d] eq by (auto simp: dc_state_def)
    ultimately show False using \<open>i \<noteq> _\<close> by simp
  qed
  have "carried_mset (record_written ?w rec) b' = carried_mset rec b + carried_mset rec found"
    unfolding b' using nokey by (intro carried_mset_written) (metis image_eqI)
  moreover have "carried_mset (record_written ?w rec) (pending dc') = carried_mset rec (pending dc')"
    using other by (intro carried_mset_cong) (auto simp: record_written_def)
  moreover have "carried_mset rec (pending dc) = carried_mset rec (found @ pending dc')"
    using td(1) by (intro carried_mset_perm) simp
  ultimately have tot: "total (record_written ?w rec) b' dc' = total rec b dc"
    by (simp add: total_def add.assoc)
  have "\<forall>(i, es) \<in> set dc'. (es \<noteq> [] \<longrightarrow> i \<in> (cookie_id \<circ> me_value) ` set (cookies todo)) \<and> (\<forall>d \<in> set es. is_cookie i d)"
    using ds td(3,4) by (fastforce simp: dc_state_def)
  then have "dc_state dc' (cookies todo)"
    using ds td(2) sub by (simp add: dc_state_def)
  then have "loop_ok b' dc' todo"
    using b' by (intro loop_ok_step [OF assms(1)]) auto
  then show ?thesis using tot ws' kind_cookie_key [OF assms(2)] by auto
qed

lemma step_header:
  assumes "loop_ok b dc (f # todo)" and "kind f = KHeader n" and "overlay_step f (b, dc, ws) = (b', dc', ws')"
  shows "\<exists>w. ws' = ws @ [w] \<and> total (record_written w rec) b' dc' = total rec b dc
    \<and> loop_ok b' dc' todo \<and> key_kind (wr_key w) = KHeader n"
proof -
  define displaced where "displaced = filter (\<lambda>e. header_name_is e n) b"
  define kept where "kept = filter (\<lambda>e. \<not> header_name_is e n) b"
  define r where "r = f\<lparr>me_value := combined_value n (map me_value displaced) (me_value f)\<rparr>"
  let ?w = "\<lparr>wr_key = me_key f, wr_displaced = displaced\<rparr>"
  have st: "b' = put_entry_header n r b" "dc' = dc" "ws' = ws @ [?w]" "me_key r = me_key f"
    using assms(2,3) by (auto simp: overlay_step_def Let_def displaced_def r_def)
  have fk: "key_kind (me_key f) = KHeader n" using kind_header_key assms(2) by blast
  have "me_key e \<noteq> me_key r" if "e \<in> set kept" for e
    using that loop_ok_agree [OF assms(1), of e] fk st(4) by (auto simp: kept_def header_name_is_def)
  then have "carried_mset (record_written ?w rec) (kept @ [r]) = carried_mset rec kept + carried_mset rec displaced"
    using carried_mset_written [of kept r displaced rec] st(4) by simp
  also have "\<dots> = carried_mset rec b"
    using carried_mset_perm [of "kept @ displaced" b rec] mset_filter_split [of "\<lambda>e. header_name_is e n" b]
    by (simp add: kept_def displaced_def)
  finally have "carried_mset (record_written ?w rec) b' = carried_mset rec b"
    using carried_mset_perm [OF mset_put_entry_header [of n r b]] st(1) by (simp add: kept_def)
  moreover have "carried_mset (record_written ?w rec) (pending dc) = carried_mset rec (pending dc)"
  proof (rule carried_mset_cong)
    fix d assume "d \<in> set (pending dc)"
    then have "kind d = KCookie" using loop_ok_pending [OF assms(1)] by simp
    then have "me_key d \<noteq> me_key f" using kind_cookie_key [of d] fk by auto
    then show "record_written ?w rec (me_key d) = rec (me_key d)" by (simp add: record_written_def)
  qed
  moreover have "loop_ok b' dc' todo"
    using set_put_entry_header [of n r b] st assms(1,2)
    by (intro loop_ok_step [OF assms(1)]) (auto simp: loop_ok_def)
  ultimately show ?thesis using st fk by (auto simp: total_def)
qed

lemma step_other:
  assumes "loop_ok b dc (f # todo)" and "kind f = KOther" and "record_ok rec"
    and "overlay_step f (b, dc, ws) = (b', dc', ws')"
  shows "ws' = ws \<and> total rec b' dc' = total rec b dc \<and> loop_ok b' dc' todo"
proof -
  have st: "b' = put_other f b" "dc' = dc" "ws' = ws" using assms(2,4) by (auto simp: overlay_step_def)
  have fk: "key_kind (me_key f) = KOther"
    using assms(1,2) sendable_kind [of f] by (simp add: loop_ok_def)
  have "e \<in> set (put_other f c) \<Longrightarrow> me_key e \<noteq> me_key f \<Longrightarrow> e \<in> set c" for e c
    by (induction f c rule: put_other.induct) (auto split: if_splits)
  then have "loop_ok b' dc' todo"
    using st assms(1,2) by (intro loop_ok_step [OF assms(1)]) (auto simp: loop_ok_def)
  then show ?thesis using st carried_mset_put_other [OF assms(3) fk] by (simp add: total_def)
qed

lemma record_ok_written: "record_ok rec \<Longrightarrow> key_kind (wr_key w) \<noteq> KOther \<Longrightarrow> record_ok (record_written w rec)"
  by (auto simp: record_ok_def record_written_def)

lemma overlay_fold_total:
  "loop_ok b dc todo \<Longrightarrow> record_ok rec \<Longrightarrow> fold overlay_step todo (b, dc, ws) = (b', dc', ws') \<Longrightarrow>
   \<exists>new. ws' = ws @ new \<and> total (fold record_written new rec) b' dc' = total rec b dc
     \<and> record_ok (fold record_written new rec) \<and> loop_ok b' dc' []"
proof (induction todo arbitrary: b dc ws rec)
  case (Cons f todo)
  obtain b1 dc1 ws1 where st: "overlay_step f (b, dc, ws) = (b1, dc1, ws1)" by (cases "overlay_step f (b, dc, ws)")
  have rest: "fold overlay_step todo (b1, dc1, ws1) = (b', dc', ws')" using Cons.prems(3) st by simp
  have "\<exists>new1. ws1 = ws @ new1 \<and> total (fold record_written new1 rec) b1 dc1 = total rec b dc
      \<and> record_ok (fold record_written new1 rec) \<and> loop_ok b1 dc1 todo"
  proof (cases "kind f")
    case KOther
    then have "ws1 = ws" "total rec b1 dc1 = total rec b dc" "loop_ok b1 dc1 todo"
      using step_other [OF Cons.prems(1) _ Cons.prems(2) st] by simp_all
    then show ?thesis using Cons.prems(2) by (intro exI [of _ "[]"]) simp
  next
    case KCookie
    obtain w where "ws1 = ws @ [w]" "total (record_written w rec) b1 dc1 = total rec b dc"
      "loop_ok b1 dc1 todo" "key_kind (wr_key w) = KCookie"
      using step_cookie [OF Cons.prems(1) KCookie st, of rec] by blast
    then show ?thesis using record_ok_written [OF Cons.prems(2)] by (intro exI [of _ "[w]"]) simp
  next
    case (KHeader n)
    obtain w where "ws1 = ws @ [w]" "total (record_written w rec) b1 dc1 = total rec b dc"
      "loop_ok b1 dc1 todo" "key_kind (wr_key w) = KHeader n"
      using step_header [OF Cons.prems(1) KHeader st, of rec] by blast
    then show ?thesis using record_ok_written [OF Cons.prems(2)] by (intro exI [of _ "[w]"]) simp
  qed
  then obtain new1 where n1: "ws1 = ws @ new1" "total (fold record_written new1 rec) b1 dc1 = total rec b dc"
    "record_ok (fold record_written new1 rec)" "loop_ok b1 dc1 todo" by blast
  obtain new2 where "ws' = ws1 @ new2"
    "total (fold record_written new2 (fold record_written new1 rec)) b' dc' = total (fold record_written new1 rec) b1 dc1"
    "record_ok (fold record_written new2 (fold record_written new1 rec))" "loop_ok b' dc' []"
    using Cons.IH [OF n1(4,3) rest] by blast
  then show ?case using n1 by (intro exI [of _ "new1 @ new2"]) simp
qed (intro exI [of _ "[]"], simp)

text \<open>One key per cookie: entries under one key are the same browser cookie.\<close>

definition one_key_per_cookie :: "meta_entry list \<Rightarrow> meta_entry list \<Rightarrow> bool" where
  "one_key_per_cookie base over \<longleftrightarrow>
     list_all (\<lambda>e. list_all (\<lambda>f. me_key e = me_key f \<longrightarrow> cookie_id (me_value e) = cookie_id (me_value f))
       (cookies over)) (cookies base)"

lemma initial_loop_ok:
  assumes "list_all sendable_entry base" and "list_all sendable_entry over" and "distinct (map me_key over)"
    and "one_key_per_cookie base over" and "dc = displaced_by base over"
  shows "loop_ok (retained dc base) dc over \<and> dc_ok base dc"
proof -
  have dc: "dc_ok base dc" "fst ` set dc = (cookie_id \<circ> me_value) ` set (cookies over)"
    using displaced_by_ok [of base "[]" "cookies over"] assms(5) by (simp_all add: displaced_by_def dc_ok_def)
  have same: "cookie_id (me_value e) = cookie_id (me_value f)"
    if "e \<in> set base" "kind e = KCookie" "f \<in> set (cookies over)" "me_key e = me_key f" for e f
    using assms(4) that by (auto simp: one_key_per_cookie_def list_all_iff)
  have "me_key f \<noteq> me_key e" if f: "f \<in> set (cookies over)" and e: "e \<in> set (retained dc base)" for e f
  proof
    assume k: "me_key f = me_key e"
    have "e \<in> set base" using e by (simp add: retained_def)
    then have "kind e = key_kind (me_key e)" using assms(1) sendable_kind by (auto simp: list_all_iff)
    also have "\<dots> = KCookie" using k f kind_cookie_key [of f] by simp
    finally have c: "kind e = KCookie" .
    have "cookie_id (me_value e) = cookie_id (me_value f)" using same [OF \<open>e \<in> set base\<close> c f] k by simp
    moreover have "cookie_id (me_value e) \<notin> fst ` set dc" using e c by (force simp: retained_def list_all_iff)
    ultimately show False using dc(2) f by (metis comp_apply image_eqI)
  qed
  moreover have "kind e = key_kind (me_key e)" if "e \<in> set (retained dc base)" for e
    using that assms(1) sendable_kind by (auto simp: retained_def list_all_iff)
  ultimately have "keys_ok (retained dc base) over"
    by (auto simp: keys_ok_def)
  moreover have "dc_state dc (cookies over)"
  proof -
    have entry: "i \<in> (cookie_id \<circ> me_value) ` set (cookies over)" "es = filter (is_cookie i) base" if "(i, es) \<in> set dc" for i es
      using that dc unfolding dc_ok_def by (metis fst_conv image_eqI, auto)
    have "cookie_id (me_value d) = cookie_id (me_value f)"
      if d: "d \<in> set (pending dc)" "f \<in> set (cookies over)" "me_key d = me_key f" for d f
    proof -
      obtain i es where "(i, es) \<in> set dc" "d \<in> set es" using d(1) by (auto simp: pending_elem)
      then have "d \<in> set base" "kind d = KCookie" using entry(2) [of i es] by (auto simp: is_cookie_def)
      then show ?thesis using same d(2,3) by blast
    qed
    moreover have "\<forall>p \<in> set dc. case p of (i, es) \<Rightarrow>
        (es \<noteq> [] \<longrightarrow> i \<in> (cookie_id \<circ> me_value) ` set (cookies over)) \<and> (\<forall>d \<in> set es. is_cookie i d)"
    proof
      fix p assume p: "p \<in> set dc"
      obtain i es where ies: "p = (i, es)" by (cases p)
      have "\<forall>d \<in> set es. is_cookie i d" using entry(2) [of i es] p ies by simp
      then show "case p of (i, es) \<Rightarrow>
          (es \<noteq> [] \<longrightarrow> i \<in> (cookie_id \<circ> me_value) ` set (cookies over)) \<and> (\<forall>d \<in> set es. is_cookie i d)"
        using entry(1) [of i es] p unfolding ies prod.case by blast
    qed
    ultimately show ?thesis using dc(1) by (simp add: dc_state_def dc_ok_def)
  qed
  ultimately show ?thesis using assms(2,3) dc(1) by (simp add: loop_ok_def)
qed

lemma loop_done: "loop_ok b dc [] \<Longrightarrow> pending dc = []"
  by (force simp: loop_ok_def dc_state_def pending_def)

lemma body_hint_kind: "k \<in> set BODY_HINTS \<Longrightarrow> key_kind k = KOther"
proof -
  have "\<forall>k \<in> set BODY_HINTS. key_kind k = KOther" by code_simp
  then show "k \<in> set BODY_HINTS \<Longrightarrow> ?thesis" by blast
qed



text \<open>With positional cookie keys the record loses a middleware cookie: a step that writes an unrelated
  cookie under the key of the middleware's cookie and then replaces that cookie under another
  key leaves nothing to carry, because the displaced entry is looked up under a key the same
  response has just rewritten.\<close>

theorem positional_cookie_keys_lose_the_middleware_cookie:
  "let middleware = [\<lparr>me_key = ''resp.set_cookie.0'', me_value = ''sid=a''\<rparr>];
       response = [\<lparr>me_key = ''resp.set_cookie.0'', me_value = ''theme=dark''\<rparr>,
                   \<lparr>me_key = ''resp.set_cookie.1'', me_value = ''sid=b''\<rparr>];
       (rec, meta) = apply_response Map.empty middleware response in
   first_unsendable response = None \<and> carried middleware Map.empty = middleware \<and> carried meta rec = []"
  by code_simp

end
