(* ===== verification/Registration.thy ===== *)
theory Registration
  imports Wrap_Names Wrap_Patterns
begin

text \<open>
  \<^verbatim>\<open>crates/wafer-run/src/runtime/registration.rs\<close>, the grant validation of
  \<^verbatim>\<open>runtime/lifecycle.rs\<close> and the declaration checks of
  \<^verbatim>\<open>crates/wafer-block/src/types/block_info.rs\<close>: which blocks and aliases a runtime knows, and
  which WRAP grants their declarations confer.

  A block is what the registry knows of it: the \<^verbatim>\<open>BlockInfo\<close> it reported once, with the fields
  registration reads.  \<^verbatim>\<open>str::to_uppercase\<close> (a Unicode table) is the argument \<open>upper\<close>.  The
  \<^verbatim>\<open>HashMap\<close> of blocks is an association list; the code walks it in sorted order only, or
  where the order makes no difference.  Asset loaders, registrars and config expanders are not
  modelled.
\<close>

section \<open>Declarations\<close>

datatype http_method = Get | Post | Patch | Delete

record block_endpoint =
  ep_method :: http_method
  ep_path :: string
  ep_agent_tool :: "string option"

record block_info =
  bi_name :: string
  bi_requires :: "string list"
  bi_optional_requires :: "string list"
  bi_config_keys :: "string list"
  bi_flow_config :: "string list"
  bi_grants :: "resource_grant list"
  bi_endpoints :: "block_endpoint list"
  bi_init_timeout_ms :: "nat option"

datatype block_info_error =
    ReservedConfigKey string string
  | ConfigVarPrefix string string string
  | InvalidAgentToolName string http_method string string
  | ZeroInitTimeout string

definition call_allowlist :: "block_info \<Rightarrow> string list option" where
  "call_allowlist info =
     (if bi_requires info = [] \<and> bi_optional_requires info = [] then None
      else Some (bi_requires info @ bi_optional_requires info))"

definition config_var_prefix :: "(string \<Rightarrow> string) \<Rightarrow> string \<Rightarrow> string" where
  "config_var_prefix upper block_name =
     replace_char (CHR ''-'') ''_'' (replace_char slash ''__'' (upper block_name)) @ ''__''"

definition MAX_NAME_LEN :: nat where "MAX_NAME_LEN = 128"

definition is_tool_char :: "char \<Rightarrow> bool" where
  "is_tool_char c \<longleftrightarrow> is_ascii_alphanumeric c \<or> c = CHR ''_'' \<or> c = CHR ''-''"

definition is_valid_name :: "string \<Rightarrow> bool" where
  "is_valid_name name \<longleftrightarrow> name \<noteq> [] \<and> length name \<le> MAX_NAME_LEN \<and> list_all is_tool_char name"

text \<open>The first endpoint whose agent tool has an illegal name.\<close>

fun bad_tool :: "block_endpoint list \<Rightarrow> (block_endpoint \<times> string) option" where
  "bad_tool [] = None"
| "bad_tool (ep # eps) =
     (case ep_agent_tool ep of None \<Rightarrow> bad_tool eps
      | Some tool \<Rightarrow> if \<not> is_valid_name tool then Some (ep, tool) else bad_tool eps)"

definition info_validate :: "(string \<Rightarrow> string) \<Rightarrow> block_info \<Rightarrow> string \<Rightarrow> block_info_error + unit" where
  "info_validate upper info registered_name =
     (if bi_init_timeout_ms info = Some 0 then Inl (ZeroInitTimeout registered_name)
      else (case List.find (\<lambda>key. starts_with WAFER_RUN_SHARED_PREFIX key)
                   (bi_config_keys info @ bi_flow_config info) of
        Some key \<Rightarrow> Inl (ReservedConfigKey (bi_name info) key)
      | None \<Rightarrow>
          (let prfx = config_var_prefix upper registered_name in
           case List.find (\<lambda>key. \<not> starts_with prfx key) (bi_config_keys info) of
             Some key \<Rightarrow> Inl (ConfigVarPrefix registered_name key prfx)
           | None \<Rightarrow>
               (case bad_tool (bi_endpoints info) of
                  Some (ep, tool) \<Rightarrow>
                    Inl (InvalidAgentToolName (bi_name info) (ep_method ep) (ep_path ep) tool)
                | None \<Rightarrow> Inr ()))))"

section \<open>Grants a declaration confers\<close>

definition grant_resource_owner :: "wrap_env \<Rightarrow> string \<Rightarrow> resource_type option \<Rightarrow> string option" where
  "grant_resource_owner env resource rt =
     (case str_find ''*'' resource of
        None \<Rightarrow> typed_resource_owner env resource rt
      | Some i \<Rightarrow>
          (let literal = take i resource in
           if rt = Some Storage
           then (if count_list literal slash < 2 then None else storage_resource_owner literal)
           else resource_owner env literal))"

datatype grant_fault =
    BadShape invalid_grant_shape
  | OnlyAdmin resource_type
  | OwnedBy string
  | NotNamespaced "resource_type option"

record grant_validation_error =
  gve_block :: string
  gve_grant :: resource_grant
  gve_reason :: grant_fault

record grant_validation_outcome =
  gvo_accepted :: "resource_grant list"
  gvo_rejected :: "grant_validation_error list"

datatype grant_verdict = Accept | Reject grant_fault | Defer

text \<open>The body of the loop of \<^verbatim>\<open>validate_and_collect_grants_for_block\<close>.\<close>

definition judge_grant :: "wrap_env \<Rightarrow> string \<Rightarrow> string \<Rightarrow> resource_grant \<Rightarrow> grant_verdict" where
  "judge_grant env block_name admin_block g =
     (case check_shape g of
        Inl shape \<Rightarrow> Reject (BadShape shape)
      | Inr _ \<Rightarrow>
          (case g_type g of
             Some Network \<Rightarrow>
               (if admin_block = [] then Defer else if block_name = admin_block then Accept
                else Reject (OnlyAdmin Network))
           | Some Crypto \<Rightarrow>
               (if admin_block = [] then Defer else if block_name = admin_block then Accept
                else Reject (OnlyAdmin Crypto))
           | _ \<Rightarrow>
               (case grant_resource_owner env (g_resource g) (g_type g) of
                  Some owner \<Rightarrow> (if owner = block_name then Accept else Reject (OwnedBy owner))
                | None \<Rightarrow> Reject (NotNamespaced (g_type g)))))"

definition validate_and_collect_grants_for_block ::
  "wrap_env \<Rightarrow> string \<Rightarrow> resource_grant list \<Rightarrow> string \<Rightarrow> grant_validation_outcome" where
  "validate_and_collect_grants_for_block env block_name grants admin_block =
     \<lparr>gvo_accepted = filter (\<lambda>g. judge_grant env block_name admin_block g = Accept) grants,
      gvo_rejected = concat (map (\<lambda>g. case judge_grant env block_name admin_block g of
          Reject reason \<Rightarrow> [\<lparr>gve_block = block_name, gve_grant = g, gve_reason = reason\<rparr>]
        | _ \<Rightarrow> []) grants)\<rparr>"

section \<open>The registry\<close>

record registered_block =
  rb_info :: block_info
  rb_call_allowlist :: "string list option"

definition registered_block_new :: "block_info \<Rightarrow> registered_block" where
  "registered_block_new info = \<lparr>rb_info = info, rb_call_allowlist = call_allowlist info\<rparr>"

record wrap_state =
  ws_grants :: "resource_grant list"
  ws_grants_external :: "resource_grant list"
  ws_admin_block :: string
  ws_validation_errors :: "grant_validation_error list"

definition wrap_state_new :: wrap_state where
  "wrap_state_new = \<lparr>ws_grants = [], ws_grants_external = [], ws_admin_block = [], ws_validation_errors = []\<rparr>"

definition append_grants :: "wrap_state \<Rightarrow> resource_grant list \<Rightarrow> wrap_state" where
  "append_grants ws grants = (if grants = [] then ws else ws\<lparr>ws_grants := ws_grants ws @ grants\<rparr>)"

record registration_core =
  rc_blocks :: "(string \<times> registered_block) list"
  rc_all_blocks :: "string \<Rightarrow> registered_block option"
  rc_aliases :: "(string \<times> string) list"
  rc_slots :: "string list"
  rc_block_configs :: "string \<Rightarrow> json option"
  rc_wrap :: wrap_state
  rc_sealed :: bool

definition registration_new :: registration_core where
  "registration_new =
     \<lparr>rc_blocks = [], rc_all_blocks = Map.empty, rc_aliases = [], rc_slots = [],
      rc_block_configs = Map.empty, rc_wrap = wrap_state_new, rc_sealed = False\<rparr>"

datatype alias_error =
    AfterSeal string
  | Cycle string
  | AlreadyAliased string string
  | TargetIsAlias string string
  | AliasIsExistingTarget string
  | ShadowsBlock string

definition add_alias :: "registration_core \<Rightarrow> string \<Rightarrow> string \<Rightarrow> alias_error + registration_core" where
  "add_alias rc alias target =
     (if rc_sealed rc then Inl (AfterSeal alias)
      else if alias = target then Inl (Cycle alias)
      else (case map_of (rc_aliases rc) alias of
        Some existing \<Rightarrow> Inl (AlreadyAliased alias existing)
      | None \<Rightarrow>
          (if map_of (rc_aliases rc) target \<noteq> None then Inl (TargetIsAlias alias target)
           else if list_ex (\<lambda>(_, t). t = alias) (rc_aliases rc) then Inl (AliasIsExistingTarget alias)
           else if map_of (rc_blocks rc) alias \<noteq> None then Inl (ShadowsBlock alias)
           else Inr (rc\<lparr>rc_aliases := rc_aliases rc @ [(alias, target)]\<rparr>))))"

definition canonicalize :: "registration_core \<Rightarrow> string \<Rightarrow> string" where
  "canonicalize rc name = (case map_of (rc_aliases rc) name of None \<Rightarrow> name | Some target \<Rightarrow> target)"

definition lookup_with_alias :: "registration_core \<Rightarrow> string \<Rightarrow> (string \<times> registered_block) option" where
  "lookup_with_alias rc name =
     (let resolved = canonicalize rc name in map_option (\<lambda>b. (resolved, b)) (rc_all_blocks rc resolved))"

definition rebuild_all_blocks :: "registration_core \<Rightarrow> registration_core" where
  "rebuild_all_blocks rc =
     rc\<lparr>rc_all_blocks :=
        fold (\<lambda>(alias, target) map. case map_of (rc_blocks rc) target of
                Some block \<Rightarrow> map(alias \<mapsto> block) | None \<Rightarrow> map)
          (rc_aliases rc)
          (fold (\<lambda>(name, block) map. map(name \<mapsto> block)) (rc_blocks rc) Map.empty)\<rparr>"

text \<open>\<open>blocks_sorted\<close>: the registered blocks in the order of their names.\<close>

definition blocks_sorted :: "registration_core \<Rightarrow> (string \<times> registered_block) list" where
  "blocks_sorted rc = sort_key fst (rc_blocks rc)"

definition rebuild_wrap_grants :: "wrap_env \<Rightarrow> registration_core \<Rightarrow> registration_core" where
  "rebuild_wrap_grants env rc =
     (let ws = rc_wrap rc;
          outcomes = map (\<lambda>(name, b). validate_and_collect_grants_for_block env name
                            (bi_grants (rb_info b)) (ws_admin_block ws)) (blocks_sorted rc)
      in rc\<lparr>rc_wrap := ws\<lparr>ws_grants := concat (map gvo_accepted outcomes) @ ws_grants_external ws,
                          ws_validation_errors := concat (map gvo_rejected outcomes)\<rparr>\<rparr>)"

definition set_admin_block :: "wrap_env \<Rightarrow> registration_core \<Rightarrow> string \<Rightarrow> registration_core" where
  "set_admin_block env rc block_id =
     rebuild_wrap_grants env (rc\<lparr>rc_wrap := (rc_wrap rc)\<lparr>ws_admin_block := block_id\<rparr>\<rparr>)"

datatype runtime_error =
    DuplicateBlock string
  | NameIsAlias string string
  | RegisteredAfterSeal string
  | InvalidBlockName string block_name_fault
  | BlockNameMismatch string string
  | InvalidBlockInfo block_info_error
  | GrantsRejected "grant_validation_error list"

definition add_wrap_grants ::
  "registration_core \<Rightarrow> resource_grant list \<Rightarrow> runtime_error + registration_core" where
  "add_wrap_grants rc grants =
     (let rejected = concat (map (\<lambda>g. case check_shape g of
            Inl shape \<Rightarrow> [\<lparr>gve_block = [], gve_grant = g, gve_reason = BadShape shape\<rparr>]
          | Inr _ \<Rightarrow> []) grants)
      in if rejected \<noteq> [] then Inl (GrantsRejected rejected)
         else Inr (rc\<lparr>rc_wrap := append_grants
                        ((rc_wrap rc)\<lparr>ws_grants_external := ws_grants_external (rc_wrap rc) @ grants\<rparr>)
                        grants\<rparr>))"

definition admit ::
  "(string \<Rightarrow> string) \<Rightarrow> registration_core \<Rightarrow> string \<Rightarrow> block_info \<Rightarrow> runtime_error + block_info" where
  "admit upper rc name info =
     (if rc_sealed rc then Inl (RegisteredAfterSeal name)
      else if map_of (rc_blocks rc) name \<noteq> None then Inl (DuplicateBlock name)
      else (case map_of (rc_aliases rc) name of
        Some target \<Rightarrow> Inl (NameIsAlias name target)
      | None \<Rightarrow>
          (case validate_block_name name of
             Inl fault \<Rightarrow> Inl (InvalidBlockName name fault)
           | Inr _ \<Rightarrow>
               (if bi_name info \<noteq> name then Inl (BlockNameMismatch name (bi_name info))
                else (case info_validate upper info name of
                        Inl e \<Rightarrow> Inl (InvalidBlockInfo e)
                      | Inr _ \<Rightarrow> Inr info)))))"

definition insert_block_with_grants ::
  "wrap_env \<Rightarrow> registration_core \<Rightarrow> string \<Rightarrow> block_info \<Rightarrow> registration_core" where
  "insert_block_with_grants env rc name info =
     (let outcome = validate_and_collect_grants_for_block env name (bi_grants info)
                      (ws_admin_block (rc_wrap rc));
          ws = append_grants (rc_wrap rc) (gvo_accepted outcome)
      in rc\<lparr>rc_wrap := ws\<lparr>ws_validation_errors := ws_validation_errors ws @ gvo_rejected outcome\<rparr>,
            rc_blocks := rc_blocks rc @ [(name, registered_block_new info)],
            rc_slots := rc_slots rc @ [name]\<rparr>)"

definition register_block_inner ::
  "wrap_env \<Rightarrow> (string \<Rightarrow> string) \<Rightarrow> registration_core \<Rightarrow> string \<Rightarrow> block_info
    \<Rightarrow> runtime_error + registration_core" where
  "register_block_inner env upper rc name info =
     and_then (admit upper rc name info) (\<lambda>info. Inr (insert_block_with_grants env rc name info))"

definition check_downloadable :: "registration_core \<Rightarrow> string \<Rightarrow> runtime_error + unit" where
  "check_downloadable rc name =
     (if map_of (rc_blocks rc) name \<noteq> None then Inl (DuplicateBlock name)
      else (case map_of (rc_aliases rc) name of
              Some target \<Rightarrow> Inl (NameIsAlias name target)
            | None \<Rightarrow> Inr ()))"

definition add_block_config :: "registration_core \<Rightarrow> string \<Rightarrow> json \<Rightarrow> registration_core" where
  "add_block_config rc name config = rc\<lparr>rc_block_configs := (rc_block_configs rc)(name \<mapsto> config)\<rparr>"

text \<open>What \<^verbatim>\<open>Wafer::seal\<close> does to the registry once it has been filled: the snapshot dispatch
  resolves against, and the flag that closes the registry.\<close>

definition close_registry :: "registration_core \<Rightarrow> registration_core" where
  "close_registry rc = (rebuild_all_blocks rc)\<lparr>rc_sealed := True\<rparr>"

section \<open>Reachable registries\<close>

inductive registry_step :: "wrap_env \<Rightarrow> (string \<Rightarrow> string) \<Rightarrow> registration_core \<Rightarrow> registration_core \<Rightarrow> bool"
  for env upper where
  step_alias: "add_alias rc alias target = Inr rc' \<Longrightarrow> registry_step env upper rc rc'"
| step_register: "register_block_inner env upper rc name info = Inr rc' \<Longrightarrow> registry_step env upper rc rc'"
| step_admin: "registry_step env upper rc (set_admin_block env rc block_id)"
| step_grants: "add_wrap_grants rc grants = Inr rc' \<Longrightarrow> registry_step env upper rc rc'"
| step_config: "registry_step env upper rc (add_block_config rc name config)"
| step_close: "\<not> rc_sealed rc \<Longrightarrow> registry_step env upper rc (close_registry rc)"
| step_seal_failed: "\<not> rc_sealed rc \<Longrightarrow> registry_step env upper rc (rc\<lparr>rc_sealed := True\<rparr>)"

inductive registry_reachable :: "wrap_env \<Rightarrow> (string \<Rightarrow> string) \<Rightarrow> registration_core \<Rightarrow> bool"
  for env upper where
  reachable_new: "registry_reachable env upper registration_new"
| reachable_step: "registry_reachable env upper rc \<Longrightarrow> registry_step env upper rc rc'
    \<Longrightarrow> registry_reachable env upper rc'"

inductive_cases registry_stepE: "registry_step env upper rc rc'"

end
