(* ===== verification/Registration_Authority.thy ===== *)
theory Registration_Authority
  imports Registration
begin

text \<open>
  What registration guarantees: names are unambiguous, every registered block has its own
  init slot, and a grant a block declares confers access to that block's own resources only.
\<close>

section \<open>Owners read from a prefix\<close>

lemma str_find_prefix_stable:
  assumes "str_find p s = Some i"
  shows "str_find p (s @ t) = Some i"
proof (rule str_find_eqI)
  have b: "i + length p \<le> length s" by (rule str_find_Some_bound [OF assms])
  have "starts_with p (drop i s)" by (rule str_find_Some_match [OF assms])
  then show "starts_with p (drop i (s @ t))"
    using b by (auto simp: starts_with_prefix)
  show "i \<le> length (s @ t)" using b by simp
  show "\<not> starts_with p (drop j (s @ t))" if "j < i" for j
    using str_find_Some_least [OF assms that] b that
    by (auto simp: starts_with_def)
qed

lemma resource_owner_extend:
  assumes "resource_owner env l = Some b"
    and "lower env l = to_ascii_lowercase l" and "lower env (l @ t) = to_ascii_lowercase (l @ t)"
  shows "resource_owner env (l @ t) = Some b"
proof -
  let ?low = "to_ascii_lowercase l" and ?t = "to_ascii_lowercase t"
  obtain f s where f: "str_find ''__'' ?low = Some f" and s: "str_find ''__'' (drop (f + 2) ?low) = Some s"
    and b: "b = replace_char (CHR ''_'') ''-'' (replace_str ''__'' ''/'' (take (f + 2 + s) ?low))"
    using assms(1,2) by (auto simp: resource_owner_def Let_def split: option.splits)
  have bf: "f + 2 \<le> length ?low" and bs: "s + 2 \<le> length (drop (f + 2) ?low)"
    using str_find_Some_bound [OF f] str_find_Some_bound [OF s] by simp_all
  have "str_find ''__'' (?low @ ?t) = Some f" by (rule str_find_prefix_stable [OF f])
  moreover have "str_find ''__'' (drop (f + 2) (?low @ ?t)) = Some s"
    using str_find_prefix_stable [OF s, of ?t] bf by simp
  moreover have "take (f + 2 + s) (?low @ ?t) = take (f + 2 + s) ?low" using bf bs by simp
  ultimately show ?thesis
    using assms(3) b by (simp add: resource_owner_def del: take_append drop_append add_2_eq_Suc')
qed

text \<open>The owner of a resource, when it is a legal block name, is read from a first segment
  without a slash.\<close>

lemma replace_char_slash:
  "slash \<in> set s \<Longrightarrow> slash \<in> set (replace_char (CHR ''_'') ''-'' s)"
  by (induction s) auto

lemma resource_owner_first_segment:
  assumes "resource_owner env l = Some b" and "validate_block_name b = Inr ()"
  obtains f where "str_find ''__'' (lower env l) = Some f" and "slash \<notin> set (take f (lower env l))"
proof -
  let ?low = "lower env l"
  obtain f s where f: "str_find ''__'' ?low = Some f" and s: "str_find ''__'' (drop (f + 2) ?low) = Some s"
    and b: "b = replace_char (CHR ''_'') ''-'' (replace_str ''__'' ''/'' (take (f + 2 + s) ?low))"
    using assms(1) by (auto simp: resource_owner_def Let_def split: option.splits)
  define x where "x = take f ?low"
  define y where "y = take s (drop (f + 2) ?low)"
  have bf: "f + 2 \<le> length ?low" using str_find_Some_bound [OF f] by simp
  have sep: "take 2 (drop f ?low) = ''__''"
    using str_find_Some_match [OF f] by (simp add: starts_with_def numeral_2_eq_2)
  have tk: "take (f + 2 + s) ?low = x @ ''__'' @ y"
    unfolding take_add sep by (simp add: x_def y_def)
  have lx: "length x = f" using bf by (simp add: x_def)
  have skip: "\<not> starts_with ''__'' (drop j (x @ ''__'' @ y))" if "j < length x" for j
  proof -
    have "\<not> starts_with ''__'' (drop j ?low)" using str_find_Some_least [OF f] that lx by simp
    moreover have "(x @ ''__'' @ y) ! k = ?low ! k" if "k < f + 2 + s" "k < length ?low" for k
      using that tk nth_take [of k "f + 2 + s" ?low] by simp
    ultimately show ?thesis
      using that lx bf unfolding starts_with_two by (auto simp del: nth_append_length)
  qed
  have "replace_str ''__'' ''/'' (x @ ''__'' @ y)
      = x @ replace_fuel (Suc (Suc (length y))) ''__'' ''/'' (''__'' @ y)"
    using replace_fuel_skip [of x "''__''" "''__'' @ y" "length (x @ ''__'' @ y)" "''/''"] skip
    by (simp add: replace_str_def del: replace_fuel.simps drop_append)
  also have "\<dots> = x @ slash # replace_fuel (Suc (length y)) ''__'' ''/'' y"
    unfolding replace_fuel_sep by simp
  finally obtain rest where "b = replace_char (CHR ''_'') ''-'' x @ slash # rest"
    using b tk by auto
  moreover have "count_list b slash = 1"
    using assms(2) by (auto simp: validate_block_name_def split: if_splits option.splits)
  ultimately have "slash \<notin> set (replace_char (CHR ''_'') ''-'' x)"
    by (auto simp: count_list_0_iff)
  then have "slash \<notin> set x" using replace_char_slash by blast
  with f that show thesis by (simp add: x_def)
qed

section \<open>What a pattern can match\<close>

definition grant_literal :: "string \<Rightarrow> string" where
  "grant_literal p = (case str_find ''*'' p of None \<Rightarrow> p | Some i \<Rightarrow> take i p)"

lemma grant_literal_star:
  assumes "str_find ''*'' p = Some i"
  shows "p = take i p @ star # drop (Suc i) p" and "star \<notin> set (take i p)" and "i < length p"
proof -
  show "p = take i p @ star # drop (Suc i) p" by (rule str_find_single [OF assms])
  show i: "i < length p" using str_find_Some_bound [OF assms] by simp
  show "star \<notin> set (take i p)"
  proof
    assume "star \<in> set (take i p)"
    then obtain j where j: "j < i" "p ! j = star" by (auto simp: in_set_conv_nth)
    then have "starts_with ''*'' (drop j p)" using i by (simp add: Cons_nth_drop_Suc [symmetric])
    with str_find_Some_least [OF assms j(1)] show False by simp
  qed
qed

lemma no_star:
  assumes "str_find ''*'' p = None"
  shows "star \<notin> set p"
proof
  assume "star \<in> set p"
  then obtain j where "j < length p" "p ! j = star" by (auto simp: in_set_conv_nth)
  then have "starts_with ''*'' (drop j p)" "j \<le> length p" by (simp_all add: Cons_nth_drop_Suc [symmetric])
  with assms show False by (auto simp: str_find_None)
qed

lemma glob_matches_literal:
  assumes "glob_matches p r"
  shows "prefix (grant_literal p) r"
proof (cases "str_find ''*'' p")
  case None
  then have "split_on star p = [p]" by (intro split_on_single no_star)
  with assms None show ?thesis by (simp add: glob_matches_def grant_literal_def)
next
  case (Some i)
  note lit = grant_literal_star [OF Some]
  obtain ps where ps: "split_on star p = take i p # ps" "ps \<noteq> []"
    using split_on_append [OF lit(2), of "drop (Suc i) p"] lit(1) by (metis split_on_neq_Nil)
  have "starts_with (take i p) r"
    using assms ps glob_loop_parts [OF ps(2), of r "take i p"]
    by (auto simp: glob_matches_def Let_def split: option.splits if_splits)
  with Some show ?thesis by (simp add: grant_literal_def starts_with_prefix)
qed

lemma url_literal:
  assumes "is_url_pattern p"
  shows "is_url_pattern (grant_literal p)"
proof -
  have keep: "starts_with u (grant_literal p)" if "starts_with u p" "star \<notin> set u" for u
  proof (cases "str_find ''*'' p")
    case (Some i)
    note lit = grant_literal_star [OF Some]
    have "length u \<le> i"
    proof (rule ccontr)
      assume "\<not> length u \<le> i"
      then have "u ! i \<in> set u" by simp
      moreover have "p ! i = star"
        using arg_cong [OF lit(1), of "\<lambda>s. s ! i"] lit(3) by (simp add: nth_append)
      moreover have "u ! i = p ! i"
        using that(1) \<open>\<not> length u \<le> i\<close> by (metis not_le nth_take starts_with_def)
      ultimately show False using that(2) by simp
    qed
    with that(1) Some show ?thesis by (simp add: grant_literal_def starts_with_def min_def)
  qed (use that in \<open>simp add: grant_literal_def\<close>)
  show ?thesis
    using assms keep [of "''http://''"] keep [of "''https://''"] by (auto simp: is_url_pattern_def)
qed

lemma url_has_no_owner:
  assumes "is_url_pattern l" and "resource_owner env l = Some b" and "lower env l = to_ascii_lowercase l"
  shows "validate_block_name b \<noteq> Inr ()"
proof
  assume "validate_block_name b = Inr ()"
  then obtain f where f: "str_find ''__'' (lower env l) = Some f" "slash \<notin> set (take f (lower env l))"
    using resource_owner_first_segment [OF assms(2)] by blast
  obtain r where "lower env l = ''http://'' @ r \<or> lower env l = ''https://'' @ r"
    using assms(1,3)
    by (auto simp: is_url_pattern_def starts_with_prefix prefix_def to_ascii_lowercase_def ascii_lower_def)
  then have sl: "\<exists>k<8. lower env l ! k = slash \<and> (\<forall>j<k. lower env l ! j \<noteq> CHR ''_'') \<and> k < length (lower env l)"
  proof
    assume l: "lower env l = ''http://'' @ r"
    have "\<forall>j<5. lower env l ! j \<noteq> CHR ''_''" by (auto simp: l less_Suc_eq numeral_eq_Suc)
    then show ?thesis by (intro exI [of _ 5]) (simp add: l)
  next
    assume l: "lower env l = ''https://'' @ r"
    have "\<forall>j<6. lower env l ! j \<noteq> CHR ''_''" by (auto simp: l less_Suc_eq numeral_eq_Suc)
    then show ?thesis by (intro exI [of _ 6]) (simp add: l)
  qed
  then obtain k where k: "lower env l ! k = slash" "\<And>j. j < k \<Longrightarrow> lower env l ! j \<noteq> CHR ''_''" "k < length (lower env l)"
    by blast
  have "lower env l ! f = CHR ''_''"
    using str_find_Some_match [OF f(1)] starts_with_two by blast
  then have "\<not> f < k" "f \<noteq> k" using k(1,2) by auto
  then have "k < f" by simp
  with k(1,3) f(2) show False by (metis in_set_conv_nth length_take min_less_iff_conj nth_take)
qed

text \<open>A pattern whose literal part has a legal owner matches below that literal part only.\<close>

lemma owned_pattern_prefix:
  assumes "grant_matches_resource env p r" and "resource_owner env (grant_literal p) = Some b"
    and "validate_block_name b = Inr ()" and "lower env (grant_literal p) = to_ascii_lowercase (grant_literal p)"
  shows "prefix (grant_literal p) r"
proof (cases "p = ''*'' \<or> is_url_pattern p")
  case True
  then show ?thesis
  proof
    assume "p = ''*''"
    then have "grant_literal p = []" by (simp add: grant_literal_def)
    then show ?thesis by simp
  next
    assume "is_url_pattern p"
    with url_has_no_owner [OF url_literal [OF this] assms(2,4)] assms(3) show ?thesis by simp
  qed
next
  case False
  with assms(1) have "glob_matches p r" by (simp add: grant_matches_resource_def)
  then show ?thesis by (rule glob_matches_literal)
qed

lemma storage_owner_extend:
  assumes "storage_resource_owner l = Some b" and "count_list l slash \<ge> 2"
  shows "storage_resource_owner (l @ t) = Some b"
proof -
  obtain o1 l1 where l: "l = o1 @ slash # l1" "slash \<notin> set o1"
    using assms(2) by (metis count_list_0_iff not_numeral_le_zero split_list_first)
  have "count_list l1 slash \<ge> 1" using assms(2) l by (simp add: count_list_0_iff)
  then obtain o2 l2 where l1: "l1 = o2 @ slash # l2" "slash \<notin> set o2"
    by (metis count_list_0_iff not_one_le_zero split_list_first)
  show ?thesis
    using assms(1) l l1 by (simp add: storage_resource_owner_def split_on_append)
qed

lemma storage_pattern_owner:
  assumes "grant_resource_owner env p (Some Storage) = Some b" and "grant_matches_resource env p r"
  shows "storage_resource_owner r = Some b"
proof -
  have url: "storage_resource_owner l = None" if "is_url_pattern l" for l
    using that by (auto simp: is_url_pattern_def starts_with_prefix prefix_def storage_resource_owner_def
        split: list.splits)
  have lit: "storage_resource_owner (grant_literal p) = Some b"
    using assms(1)
    by (auto simp: grant_resource_owner_def grant_literal_def typed_resource_owner_def Let_def
        split: option.splits if_splits)
  have "\<not> is_url_pattern p" using url [OF url_literal] lit by auto
  moreover have "p \<noteq> ''*''"
    using lit by (auto simp: grant_literal_def storage_resource_owner_def)
  ultimately have "glob_matches p r" using assms(2) by (simp add: grant_matches_resource_def)
  then obtain t where r: "r = grant_literal p @ t" using glob_matches_literal by (auto simp: prefix_def)
  show ?thesis
  proof (cases "str_find ''*'' p")
    case None
    then have "r = p"
      using \<open>glob_matches p r\<close> by (simp add: glob_matches_def split_on_single no_star)
    with lit None show ?thesis by (simp add: grant_literal_def)
  next
    case (Some i)
    then have "count_list (grant_literal p) slash \<ge> 2"
      using assms(1) by (auto simp: grant_resource_owner_def grant_literal_def Let_def split: if_splits)
    with storage_owner_extend [OF lit] r show ?thesis by simp
  qed
qed

lemma name_char_not_underscore: "is_name_char c \<Longrightarrow> ascii_lower c \<noteq> CHR ''_''"
  by (auto simp: is_name_char_def is_ascii_digit_def less_eq_char_def ascii_lower_def)

lemma ascii_lower_slash: "ascii_lower slash = slash"
  by (simp add: ascii_lower_def less_eq_char_def)

text \<open>No string is both below a block's storage folder and below a block's table prefix.\<close>

lemma storage_and_table_disjoint:
  assumes "storage_resource_owner r = Some y" and "validate_block_name y = Inr ()"
    and "prefix l r" and "resource_owner env l = Some b" and "validate_block_name b = Inr ()"
    and "lower env l = to_ascii_lowercase l"
  shows False
proof -
  obtain org block rest where sp: "split_on slash r = org # block # rest" and y: "y = org @ slash # block"
    using assms(1) by (auto simp: storage_resource_owner_def split: list.splits if_splits)
  have before: "takeWhile (\<lambda>c. c \<noteq> slash) (s @ slash # t) = s" if "slash \<notin> set s" for s t
    using that by (subst takeWhile_append2) auto
  have "slash \<notin> set org" using split_on_no_delim [of org slash r] sp by simp
  then have tw: "takeWhile (\<lambda>c. c \<noteq> slash) y = org" using y before by simp
  obtain org' block' where y': "y = org' @ slash # block'" "segment_ok org'"
    using validate_block_name_split [OF assms(2)] .
  have "slash \<notin> set org'" using segment_name_char [OF y'(2)] is_name_char_facts(2) by blast
  then have "org = org'" using y'(1) before tw by simp
  then have names: "is_name_char c" if "c \<in> set org" for c
    using segment_name_char [OF y'(2)] that by simp
  have r: "r = org @ slash # join_with ''/'' (block # rest)"
    using split_on_join [of slash r] sp by simp
  obtain f where f: "str_find ''__'' (lower env l) = Some f" and sl: "slash \<notin> set (take f (lower env l))"
    using resource_owner_first_segment [OF assms(4,5)] .
  have low: "lower env l ! k = ascii_lower (r ! k)" if "k < length l" for k
    using that assms(3,6) by (auto simp: to_ascii_lowercase_def prefix_def nth_append)
  have fl: "f < length l" "lower env l ! f = CHR ''_''"
    using str_find_Some_match [OF f] str_find_Some_bound [OF f] assms(6)
    by (auto simp: starts_with_two to_ascii_lowercase_def)
  consider "f < length org" | "f = length org" | "length org < f" by linarith
  then show False
  proof cases
    case 1
    then show False
      using low [OF fl(1)] fl(2) names [of "org ! f"] name_char_not_underscore [of "org ! f"]
      by (simp add: r nth_append)
  next
    case 2
    then show False using low [OF fl(1)] fl(2) ascii_lower_slash by (simp add: r)
  next
    case 3
    then have "lower env l ! length org = slash"
      using low [of "length org"] fl(1) ascii_lower_slash by (simp add: r)
    moreover have "length org < length (take f (lower env l))"
      using 3 fl(1) assms(6) by (simp add: to_ascii_lowercase_def)
    ultimately show False using sl 3 by (metis nth_mem nth_take)
  qed
qed

lemma judge_accept_owner:
  assumes "judge_grant env b admin g = Accept" and "g_type g \<notin> {Some Network, Some Crypto}"
  shows "grant_resource_owner env (g_resource g) (g_type g) = Some b"
proof -
  have shape: "check_shape g = Inr ()"
    using assms(1) by (cases "check_shape g") (simp_all add: judge_grant_def)
  have "judge_grant env b admin g = (case grant_resource_owner env (g_resource g) (g_type g) of
      Some owner \<Rightarrow> (if owner = b then Accept else Reject (OwnedBy owner))
    | None \<Rightarrow> Reject (NotNamespaced (g_type g)))"
  proof (cases "g_type g")
    case (Some t)
    with assms(2) shape show ?thesis by (cases t) (simp_all add: judge_grant_def)
  qed (simp add: judge_grant_def shape)
  with assms(1) show ?thesis by (simp split: option.splits if_splits)
qed

lemma judge_accept_admin:
  assumes "judge_grant env b admin g = Accept" and "g_type g \<in> {Some Network, Some Crypto}"
  shows "b = admin \<and> admin \<noteq> []"
proof -
  have "check_shape g = Inr ()"
    using assms(1) by (cases "check_shape g") (simp_all add: judge_grant_def)
  with assms show ?thesis by (auto simp: judge_grant_def split: if_splits)
qed

text \<open>An accepted grant of the block \<open>b\<close> admits access to no resource another block owns.\<close>

lemma accepted_grant_own:
  assumes "judge_grant env b admin g = Accept" and "validate_block_name b = Inr ()"
    and "grant_allows env g caller r access rt" and "rt \<notin> {Some Network, Some Crypto}"
    and "typed_resource_owner env r rt = Some y" and "validate_block_name y = Inr ()"
    and "lower env (grant_literal (g_resource g)) = to_ascii_lowercase (grant_literal (g_resource g))"
    and "lower env r = to_ascii_lowercase r"
  shows "y = b"
proof -
  have m: "grant_matches_resource env (g_resource g) r" and ty: "g_type g = None \<or> g_type g = rt"
    using assms(3) by (auto simp: grant_allows_def split: if_splits option.splits)
  have own: "grant_resource_owner env (g_resource g) (g_type g) = Some b"
    using ty assms(4) by (intro judge_accept_owner [OF assms(1)]) auto
  show ?thesis
  proof (cases "g_type g = Some Storage")
    case True
    then have "storage_resource_owner r = Some b" using storage_pattern_owner own m by simp
    with assms(5) ty True show ?thesis by (simp add: typed_resource_owner_def)
  next
    case False
    then have lit: "resource_owner env (grant_literal (g_resource g)) = Some b"
      using own by (auto simp: grant_resource_owner_def grant_literal_def typed_resource_owner_def
          Let_def split: option.splits)
    have pre: "prefix (grant_literal (g_resource g)) r"
      by (rule owned_pattern_prefix [OF m lit assms(2,7)])
    show ?thesis
    proof (cases "rt = Some Storage")
      case True
      then show ?thesis
        using storage_and_table_disjoint [OF _ assms(6) pre lit assms(2,7)] assms(5)
        by (simp add: typed_resource_owner_def)
    next
      case rt: False
      have "resource_owner env r = Some b"
        using pre resource_owner_extend [OF lit assms(7)] assms(8) by (auto simp: prefix_def)
      with rt assms(5) show ?thesis by (simp add: typed_resource_owner_def)
    qed
  qed
qed

section \<open>Invariants of the registry\<close>

definition names_inv :: "(string \<Rightarrow> string) \<Rightarrow> registration_core \<Rightarrow> bool" where
  "names_inv upper rc \<longleftrightarrow>
     distinct (map fst (rc_blocks rc)) \<and> distinct (map fst (rc_aliases rc))
     \<and> fst ` set (rc_aliases rc) \<inter> snd ` set (rc_aliases rc) = {}
     \<and> fst ` set (rc_aliases rc) \<inter> fst ` set (rc_blocks rc) = {}
     \<and> rc_slots rc = map fst (rc_blocks rc)
     \<and> (\<forall>(name, b) \<in> set (rc_blocks rc). validate_block_name name = Inr () \<and> bi_name (rb_info b) = name
          \<and> info_validate upper (rb_info b) name = Inr () \<and> rb_call_allowlist b = call_allowlist (rb_info b))"

definition declared_grant :: "wrap_env \<Rightarrow> registration_core \<Rightarrow> string \<Rightarrow> resource_grant \<Rightarrow> bool" where
  "declared_grant env rc name g \<longleftrightarrow>
     (\<exists>b. (name, b) \<in> set (rc_blocks rc) \<and> g \<in> set (bi_grants (rb_info b)))
     \<and> judge_grant env name (ws_admin_block (rc_wrap rc)) g = Accept"

definition grants_inv :: "wrap_env \<Rightarrow> registration_core \<Rightarrow> bool" where
  "grants_inv env rc \<longleftrightarrow>
     (\<forall>g \<in> set (ws_grants (rc_wrap rc)).
        g \<in> set (ws_grants_external (rc_wrap rc)) \<or> (\<exists>name. declared_grant env rc name g))
     \<and> (\<forall>g \<in> set (ws_grants_external (rc_wrap rc)). check_shape g = Inr ())"

definition snapshot_inv :: "registration_core \<Rightarrow> bool" where
  "snapshot_inv rc \<longleftrightarrow>
     rc_all_blocks rc = Map.empty
     \<or> rc_sealed rc \<and> (\<forall>x. rc_all_blocks rc x = map_of (rc_blocks rc) (canonicalize rc x))"

lemma fold_insert_blocks:
  "distinct (map fst bl) \<Longrightarrow>
     fold (\<lambda>(name, block) map. map(name \<mapsto> block)) bl m = m ++ map_of bl"
proof (induction bl arbitrary: m)
  case (Cons nb bl)
  obtain n b where nb: "nb = (n, b)" by (cases nb)
  have "map_of bl n = None" using Cons.prems nb by (simp add: map_of_eq_None_iff)
  with Cons nb show ?case by (auto simp: fun_eq_iff map_add_def split: option.splits)
qed simp

lemma fold_insert_aliases:
  "distinct (map fst as) \<Longrightarrow>
     fold (\<lambda>(alias, target) map. case bl target of Some block \<Rightarrow> map(alias \<mapsto> block) | None \<Rightarrow> map) as m x
     = (case map_of as x of None \<Rightarrow> m x
        | Some t \<Rightarrow> (case bl t of Some block \<Rightarrow> Some block | None \<Rightarrow> m x))"
proof (induction as arbitrary: m)
  case (Cons y as)
  obtain a t where at: "y = (a, t)" by (cases y)
  have "map_of as a = None" using Cons.prems at by (simp add: map_of_eq_None_iff)
  with Cons at show ?case by (auto split: option.splits)
qed simp

lemma rebuild_snapshot:
  assumes "names_inv upper rc"
  shows "rc_all_blocks (rebuild_all_blocks rc) x = map_of (rc_blocks rc) (canonicalize rc x)"
proof -
  have "map_of (rc_blocks rc) x = None" if "map_of (rc_aliases rc) x = Some t" for t
  proof -
    have "x \<in> fst ` set (rc_aliases rc)" using map_of_SomeD [OF that] by force
    with assms have "x \<notin> fst ` set (rc_blocks rc)" unfolding names_inv_def by blast
    then show ?thesis by (simp add: map_of_eq_None_iff)
  qed
  with assms show ?thesis
    by (auto simp: rebuild_all_blocks_def names_inv_def fold_insert_blocks fold_insert_aliases
        canonicalize_def split: option.splits)
qed

lemma add_alias_Inr:
  assumes "add_alias rc alias target = Inr rc'"
  shows "rc' = rc\<lparr>rc_aliases := rc_aliases rc @ [(alias, target)]\<rparr>" "\<not> rc_sealed rc" "alias \<noteq> target"
    "alias \<notin> fst ` set (rc_aliases rc)" "target \<notin> fst ` set (rc_aliases rc)"
    "alias \<notin> snd ` set (rc_aliases rc)" "alias \<notin> fst ` set (rc_blocks rc)"
  using assms
  by (auto simp: add_alias_def map_of_eq_None_iff list_ex_iff split: if_splits option.splits)

lemma register_block_Inr:
  assumes "register_block_inner env upper rc name info = Inr rc'"
  shows "rc' = insert_block_with_grants env rc name info" "\<not> rc_sealed rc"
    "name \<notin> fst ` set (rc_blocks rc)" "name \<notin> fst ` set (rc_aliases rc)"
    "validate_block_name name = Inr ()" "bi_name info = name" "info_validate upper info name = Inr ()"
  using assms
  by (auto simp: register_block_inner_def admit_def map_of_eq_None_iff and_then_eq_Inr
      split: if_splits option.splits sum.splits)

lemmas registry_op_defs =
  set_admin_block_def rebuild_wrap_grants_def add_block_config_def close_registry_def
  insert_block_with_grants_def append_grants_def rebuild_all_blocks_def Let_def

lemma add_wrap_grants_Inr:
  assumes "add_wrap_grants rc grants = Inr rc'"
  shows "\<forall>g \<in> set grants. check_shape g = Inr ()"
    "rc' = rc\<lparr>rc_wrap := append_grants
       ((rc_wrap rc)\<lparr>ws_grants_external := ws_grants_external (rc_wrap rc) @ grants\<rparr>) grants\<rparr>"
proof -
  have "check_shape g = Inr ()" if "g \<in> set grants" for g
    using assms that
    by (cases "check_shape g") (auto simp: add_wrap_grants_def Let_def split: if_splits)
  then show "\<forall>g \<in> set grants. check_shape g = Inr ()" by blast
qed (use assms in \<open>auto simp: add_wrap_grants_def Let_def split: if_splits\<close>)

lemma append_grants_simps [simp]:
  "ws_grants (append_grants ws gs) = ws_grants ws @ gs"
  "ws_grants_external (append_grants ws gs) = ws_grants_external ws"
  "ws_admin_block (append_grants ws gs) = ws_admin_block ws"
  by (simp_all add: append_grants_def)

lemma names_inv_step: "registry_step env upper rc rc' \<Longrightarrow> names_inv upper rc \<Longrightarrow> names_inv upper rc'"
proof (erule registry_stepE)
  fix al target
  assume inv: "names_inv upper rc" and "add_alias rc al target = Inr rc'"
  note a = add_alias_Inr [OF this(2)]
  have "target \<notin> fst ` set (rc_aliases rc)" "al \<notin> snd ` set (rc_aliases rc)" using a by auto
  with inv a(3,4,7) show "names_inv upper rc'" unfolding a(1) by (auto simp: names_inv_def)
next
  fix name info
  assume inv: "names_inv upper rc" and "register_block_inner env upper rc name info = Inr rc'"
  note a = register_block_Inr [OF this(2)]
  with inv show "names_inv upper rc'"
    unfolding a(1) by (auto simp: names_inv_def registry_op_defs registered_block_new_def)
next
  fix grants
  assume inv: "names_inv upper rc" and "add_wrap_grants rc grants = Inr rc'"
  note a = add_wrap_grants_Inr(2) [OF this(2)]
  from inv show "names_inv upper rc'" unfolding a by (simp add: names_inv_def)
qed (simp_all add: names_inv_def registry_op_defs)

lemma declared_grant_mono:
  "declared_grant env rc name g \<Longrightarrow> set (rc_blocks rc) \<subseteq> set (rc_blocks rc')
   \<Longrightarrow> ws_admin_block (rc_wrap rc') = ws_admin_block (rc_wrap rc) \<Longrightarrow> declared_grant env rc' name g"
  by (auto simp: declared_grant_def)

lemma set_blocks_sorted: "set (blocks_sorted rc) = set (rc_blocks rc)"
  by (simp add: blocks_sorted_def)

lemma rebuilt_grants:
  assumes "g \<in> set (ws_grants (rc_wrap (rebuild_wrap_grants env rc)))"
  shows "g \<in> set (ws_grants_external (rc_wrap rc)) \<or> (\<exists>name. declared_grant env rc name g)"
  using assms set_blocks_sorted [of rc]
  by (auto simp: rebuild_wrap_grants_def Let_def validate_and_collect_grants_for_block_def declared_grant_def)
     blast

lemma grants_inv_step: "registry_step env upper rc rc' \<Longrightarrow> grants_inv env rc \<Longrightarrow> grants_inv env rc'"
proof (erule registry_stepE)
  fix al target
  assume inv: "grants_inv env rc" and "add_alias rc al target = Inr rc'"
  note a = add_alias_Inr(1) [OF this(2)]
  from inv show "grants_inv env rc'" unfolding a by (simp add: grants_inv_def declared_grant_def)
next
  fix name info
  assume inv: "grants_inv env rc" and "register_block_inner env upper rc name info = Inr rc'"
  note a = register_block_Inr(1) [OF this(2)]
  have parts: "set (rc_blocks rc) \<subseteq> set (rc_blocks rc')"
    "ws_admin_block (rc_wrap rc') = ws_admin_block (rc_wrap rc)"
    "ws_grants_external (rc_wrap rc') = ws_grants_external (rc_wrap rc)"
    "ws_grants (rc_wrap rc') = ws_grants (rc_wrap rc)
       @ filter (\<lambda>g. judge_grant env name (ws_admin_block (rc_wrap rc)) g = Accept) (bi_grants info)"
    "(name, registered_block_new info) \<in> set (rc_blocks rc')"
    unfolding a insert_block_with_grants_def validate_and_collect_grants_for_block_def
    by (simp_all add: Let_def subset_insertI)
  have "declared_grant env rc' name g"
    if "g \<in> set (bi_grants info)" "judge_grant env name (ws_admin_block (rc_wrap rc)) g = Accept" for g
    using that parts(2,5) by (auto simp: declared_grant_def registered_block_new_def)
  with inv declared_grant_mono [OF _ parts(1,2)] show "grants_inv env rc'"
    unfolding grants_inv_def parts(3,4) set_append set_filter by blast
next
  fix grants
  assume inv: "grants_inv env rc" and ok: "add_wrap_grants rc grants = Inr rc'"
  note a = add_wrap_grants_Inr [OF ok]
  from inv a(1) show "grants_inv env rc'" unfolding a(2) by (auto simp: grants_inv_def declared_grant_def)
next
  fix block_id
  assume inv: "grants_inv env rc" and a: "rc' = set_admin_block env rc block_id"
  let ?rc = "rc\<lparr>rc_wrap := (rc_wrap rc)\<lparr>ws_admin_block := block_id\<rparr>\<rparr>"
  have same: "ws_grants_external (rc_wrap rc') = ws_grants_external (rc_wrap rc)"
    "declared_grant env rc' = declared_grant env ?rc"
    by (simp_all add: a set_admin_block_def rebuild_wrap_grants_def Let_def declared_grant_def fun_eq_iff)
  have "ws_grants (rc_wrap rc') = ws_grants (rc_wrap (rebuild_wrap_grants env ?rc))"
    by (simp add: a set_admin_block_def)
  with inv rebuilt_grants [of _ env ?rc] show "grants_inv env rc'"
    unfolding grants_inv_def same by simp
qed (simp_all add: grants_inv_def declared_grant_def add_block_config_def close_registry_def rebuild_all_blocks_def)

lemma snapshot_inv_step:
  "registry_step env upper rc rc' \<Longrightarrow> names_inv upper rc \<Longrightarrow> snapshot_inv rc \<Longrightarrow> snapshot_inv rc'"
proof (erule registry_stepE)
  fix al target
  assume inv: "snapshot_inv rc" and "add_alias rc al target = Inr rc'"
  note a = add_alias_Inr(1,2) [OF this(2)]
  from inv a(2) show "snapshot_inv rc'" unfolding a(1) by (simp add: snapshot_inv_def)
next
  fix name info
  assume inv: "snapshot_inv rc" and "register_block_inner env upper rc name info = Inr rc'"
  note a = register_block_Inr(1,2) [OF this(2)]
  from inv a(2) show "snapshot_inv rc'"
    unfolding a(1) by (simp add: snapshot_inv_def insert_block_with_grants_def Let_def)
next
  fix grants
  assume inv: "snapshot_inv rc" and ok: "add_wrap_grants rc grants = Inr rc'"
  note a = add_wrap_grants_Inr(2) [OF ok]
  from inv show "snapshot_inv rc'" unfolding a by (simp add: snapshot_inv_def canonicalize_def)
next
  assume names: "names_inv upper rc" and a: "rc' = close_registry rc"
  have "rc_all_blocks rc' x = map_of (rc_blocks rc') (canonicalize rc' x)" for x
    using rebuild_snapshot [OF names, of x]
    by (simp add: a close_registry_def rebuild_all_blocks_def canonicalize_def)
  then show "snapshot_inv rc'" by (simp add: snapshot_inv_def a close_registry_def)
qed (simp_all add: snapshot_inv_def canonicalize_def set_admin_block_def rebuild_wrap_grants_def
    add_block_config_def Let_def)

lemma registry_inv:
  "registry_reachable env upper rc \<Longrightarrow> names_inv upper rc \<and> grants_inv env rc \<and> snapshot_inv rc"
proof (induction rule: registry_reachable.induct)
  case reachable_new
  show ?case
    by (simp add: names_inv_def grants_inv_def snapshot_inv_def registration_new_def wrap_state_new_def)
next
  case (reachable_step rc rc')
  then show ?case using names_inv_step grants_inv_step snapshot_inv_step by blast
qed

section \<open>Properties of registration\<close>

text \<open>However blocks, aliases, grants and the admin block are registered, in whatever order,
  names stay unambiguous: no name is registered twice, none is both a block and an alias,
  aliases never chain, every registered block has a legal name it reports itself, valid
  declarations and its own init slot; and a dispatch finds nothing before the registry is
  sealed, and afterwards exactly the registered block its name, or the alias's target, names.\<close>

theorem registry_names_unambiguous:
  assumes "registry_reachable env upper rc"
  shows "names_inv upper rc
    \<and> canonicalize rc (canonicalize rc name) = canonicalize rc name
    \<and> (lookup_with_alias rc name \<noteq> None \<longrightarrow>
         rc_sealed rc \<and> lookup_with_alias rc name
           = map_option (\<lambda>b. (canonicalize rc name, b)) (map_of (rc_blocks rc) (canonicalize rc name)))"
proof -
  have n: "names_inv upper rc" and sn: "snapshot_inv rc" using registry_inv [OF assms] by auto
  have canon: "canonicalize rc (canonicalize rc x) = canonicalize rc x" for x
  proof (cases "map_of (rc_aliases rc) x")
    case (Some t)
    then have "t \<in> snd ` set (rc_aliases rc)" by (force dest: map_of_SomeD)
    then have "map_of (rc_aliases rc) t = None"
      using n by (auto simp: names_inv_def map_of_eq_None_iff)
    with Some show ?thesis by (simp add: canonicalize_def)
  qed (simp add: canonicalize_def)
  have "rc_sealed rc \<and> lookup_with_alias rc name
       = map_option (\<lambda>b. (canonicalize rc name, b)) (map_of (rc_blocks rc) (canonicalize rc name))"
    if "lookup_with_alias rc name \<noteq> None"
    using that sn canon by (auto simp: lookup_with_alias_def snapshot_inv_def Let_def)
  with n canon show ?thesis by blast
qed

text \<open>A registry with two blocks and an alias, before and after it is sealed.\<close>

definition ascii_env :: wrap_env where
  "ascii_env = \<lparr>lower = to_ascii_lowercase, url_parse = \<lambda>_. None\<rparr>"

definition sample_info :: "string \<Rightarrow> resource_grant list \<Rightarrow> block_info" where
  "sample_info name grants =
     \<lparr>bi_name = name, bi_requires = [], bi_optional_requires = [], bi_config_keys = [], bi_flow_config = [],
      bi_grants = grants, bi_endpoints = [], bi_init_timeout_ms = None\<rparr>"

definition sample_registry :: registration_core where
  "sample_registry =
     projr (add_alias (projr (register_block_inner ascii_env id (projr (register_block_inner ascii_env id
       registration_new ''acme/files'' (sample_info ''acme/files'' [grant_read ''other/app'' ''acme__files__*''])))
       ''other/app'' (sample_info ''other/app'' []))) ''app'' ''other/app'')"

lemma sample_registry_reachable: "registry_reachable ascii_env id sample_registry"
proof -
  let ?a = "register_block_inner ascii_env id registration_new ''acme/files''
    (sample_info ''acme/files'' [grant_read ''other/app'' ''acme__files__*''])"
  let ?b = "register_block_inner ascii_env id (projr ?a) ''other/app'' (sample_info ''other/app'' [])"
  let ?c = "add_alias (projr ?b) ''app'' ''other/app''"
  have "\<not> isl ?a" "\<not> isl ?b" "\<not> isl ?c" by code_simp+
  then have "?a = Inr (projr ?a)" "?b = Inr (projr ?b)" "?c = Inr (projr ?c)"
    by (simp_all only: Inr_projr not_False_eq_True)
  note steps = reachable_step [OF reachable_step [OF reachable_step [OF reachable_new
      step_register [OF this(1)]] step_register [OF this(2)]] step_alias [OF this(3)]]
  show ?thesis unfolding sample_registry_def by (rule steps)
qed

text \<open>The sealed sample registry resolves the alias to the block.\<close>

theorem registry_names_unambiguous_witness:
  "registry_reachable ascii_env id (close_registry sample_registry)
   \<and> lookup_with_alias (close_registry sample_registry) ''app'' \<noteq> None
   \<and> lookup_with_alias (close_registry sample_registry) ''app''
       = map_option (\<lambda>b. (''other/app'', b)) (map_of (rc_blocks sample_registry) ''other/app'')"
proof -
  have r: "registry_reachable ascii_env id (close_registry sample_registry)"
    using sample_registry_reachable
    by (rule reachable_step) (rule step_close, code_simp)
  have found: "lookup_with_alias (close_registry sample_registry) ''app'' \<noteq> None"
    and can: "canonicalize (close_registry sample_registry) ''app'' = ''other/app''"
    by code_simp+
  have "rc_blocks (close_registry sample_registry) = rc_blocks sample_registry"
    by (simp add: close_registry_def rebuild_all_blocks_def)
  with r found can registry_names_unambiguous [OF r, of "''app''"] show ?thesis by simp
qed

lemma sealed_grants_source:
  assumes "registry_reachable env upper rc" and "g \<in> set (ws_grants (rc_wrap rc))"
  shows "g \<in> set (ws_grants_external (rc_wrap rc))
    \<or> (\<exists>name b. (name, b) \<in> set (rc_blocks rc) \<and> validate_block_name name = Inr ()
          \<and> g \<in> set (bi_grants (rb_info b)) \<and> judge_grant env name (ws_admin_block (rc_wrap rc)) g = Accept)"
proof -
  have inv: "names_inv upper rc" "grants_inv env rc" using registry_inv [OF assms(1)] by auto
  have valid: "validate_block_name name = Inr ()" if "(name, b) \<in> set (rc_blocks rc)" for name b
    using inv(1) that by (auto simp: names_inv_def)
  consider "g \<in> set (ws_grants_external (rc_wrap rc))" | name where "declared_grant env rc name g"
    using inv(2) assms(2) unfolding grants_inv_def by blast
  then show ?thesis
  proof cases
    case 2
    then show ?thesis using valid unfolding declared_grant_def by blast
  qed simp
qed

definition is_ascii :: "string \<Rightarrow> bool" where
  "is_ascii s \<longleftrightarrow> (\<forall>c \<in> set s. (of_char c :: nat) < 128)"

lemma is_ascii_literal: "is_ascii s \<Longrightarrow> is_ascii (grant_literal s)"
  by (auto simp: is_ascii_def grant_literal_def split: option.splits dest: in_set_takeD)



end
