(* ===== verification/Flow_Plan.thy ===== *)
theory Flow_Plan
  imports Registration Flow_Accumulator Flow_Validate
begin

text \<open>
  \<^verbatim>\<open>crates/wafer-run/src/waferflow/plan.rs\<close>: a flow document compiled against the registry into
  the plan the executor walks.

  The arguments a plan needs from outside are gathered in \<open>plan_env\<close>: \<open>pe_from_str\<close> is
  \<^verbatim>\<open>serde_json::from_str\<close> (array and object literals of conditions) and \<open>pe_number\<close> is
  \<^verbatim>\<open>Number::to_string\<close>.  \<^verbatim>\<open>usize\<close> is 64 bits wide, so a \<^verbatim>\<open>u64\<close> step limit fits it.  The block handle
  and the init slot of a step target are determined by its canonical name.
\<close>

section \<open>Plans\<close>

datatype next_target =
    To_step nat
  | Missing_step string
  | To_flow string
  | No_target

record compiled_next_entry =
  cn_when :: "(string \<times> compiled_condition) option"
  cn_target :: next_target

record compiled_each =
  ce_raw :: string
  ce_path :: compiled_path

datatype compiled_step =
    CompiledStep (cs_id: string) (cs_block_label: string) (cs_target: "string option")
      (cs_input: "compiled_template option") (cs_config: "string \<Rightarrow> string option")
      (cs_each: "compiled_each option") (cs_parallel: "compiled_branch list option")
      (cs_next: "compiled_next_entry list option")
and compiled_branch = CompiledBranch (cb_steps: "compiled_step list")

record compiled_flow =
  cf_id :: string
  cf_timeout :: "duration option"
  cf_max_steps :: nat
  cf_on_error :: on_error
  cf_uses_accumulator :: bool
  cf_steps :: "compiled_step list"

definition DEFAULT_MAX_STEPS :: nat where "DEFAULT_MAX_STEPS = 1000"

section \<open>Compilation\<close>

record plan_env =
  pe_from_str :: "string \<Rightarrow> json option"
  pe_number :: "number \<Rightarrow> string"

text \<open>\<^verbatim>\<open>parse_config_map\<close> of \<^verbatim>\<open>crates/wafer-block/src/config.rs\<close>.\<close>

definition config_text :: "plan_env \<Rightarrow> json \<Rightarrow> string option" where
  "config_text pe v =
     (case v of
        String s \<Rightarrow> Some s
      | Number n \<Rightarrow> Some (pe_number pe n)
      | Bool b \<Rightarrow> Some (if b then ''true'' else ''false'')
      | _ \<Rightarrow> None)"

definition parse_config_map :: "plan_env \<Rightarrow> json \<Rightarrow> string \<Rightarrow> string option" where
  "parse_config_map pe config =
     (case config of
        Object obj \<Rightarrow>
          fold (\<lambda>(k, v) cfg. case config_text pe v of Some s \<Rightarrow> cfg(k \<mapsto> s) | None \<Rightarrow> cfg) obj Map.empty
      | _ \<Rightarrow> Map.empty)"

primrec step_uses_accumulator :: "step \<Rightarrow> bool" and branch_uses_accumulator :: "parallel_branch \<Rightarrow> bool" where
  "step_uses_accumulator (Step sid block input nxt each par description config) =
     (input \<noteq> None \<or> each \<noteq> None
      \<or> (case map_option (map branch_uses_accumulator) par of
           None \<Rightarrow> False | Some branches \<Rightarrow> list_ex id branches))"
| "branch_uses_accumulator (ParallelBranch steps) = list_ex id (map step_uses_accumulator steps)"

definition steps_use_accumulator :: "step list \<Rightarrow> bool" where
  "steps_use_accumulator steps \<longleftrightarrow> list_ex step_uses_accumulator steps"

text \<open>The first index of every top-level step id.\<close>

definition step_index :: "step list \<Rightarrow> string \<Rightarrow> nat option" where
  "step_index steps =
     fold (\<lambda>(i, s) index. case index (s_id s) of None \<Rightarrow> index(s_id s \<mapsto> i) | Some _ \<Rightarrow> index)
       (enumerate 0 steps) Map.empty"

definition compile_next :: "plan_env \<Rightarrow> (string \<Rightarrow> nat option) \<Rightarrow> next_entry \<Rightarrow> compiled_next_entry" where
  "compile_next pe index e =
     \<lparr>cn_when = map_option (\<lambda>w. (w, compile_condition (pe_from_str pe) w)) (ne_when e),
      cn_target = (case ne_step e of
         Some s \<Rightarrow> (case index s of None \<Rightarrow> Missing_step s | Some i \<Rightarrow> To_step i)
       | None \<Rightarrow> (case ne_flow e of Some f \<Rightarrow> To_flow f | None \<Rightarrow> No_target))\<rparr>"

primrec compile_step :: "plan_env \<Rightarrow> registration_core \<Rightarrow> (string \<Rightarrow> nat option) \<Rightarrow> step \<Rightarrow> compiled_step"
  and compile_branch :: "plan_env \<Rightarrow> registration_core \<Rightarrow> (string \<Rightarrow> nat option) \<Rightarrow> parallel_branch
    \<Rightarrow> compiled_branch" where
  "compile_step pe rc index (Step sid block input nxt each par description config) =
     CompiledStep sid block (map_option fst (lookup_with_alias rc block))
       (map_option compile_template input)
       (case config of None \<Rightarrow> Map.empty | Some c \<Rightarrow> parse_config_map pe c)
       (map_option (\<lambda>raw. \<lparr>ce_raw = raw, ce_path = compile_path raw\<rparr>) each)
       (map_option (map (compile_branch pe rc index)) par)
       (map_option (map (compile_next pe index)) nxt)"
| "compile_branch pe rc index (ParallelBranch steps) = CompiledBranch (map (compile_step pe rc index) steps)"

definition compile_flow :: "plan_env \<Rightarrow> registration_core \<Rightarrow> wafer_flow \<Rightarrow> compiled_flow" where
  "compile_flow pe rc flow =
     (let config = (case wf_config flow of None \<Rightarrow> default_config | Some c \<Rightarrow> c);
          index = step_index (wf_steps flow)
      in \<lparr>cf_id = wf_id flow,
          cf_timeout = config_timeout config,
          cf_max_steps = (case fc_max_steps config of None \<Rightarrow> DEFAULT_MAX_STEPS | Some n \<Rightarrow> n),
          cf_on_error = config_on_error config,
          cf_uses_accumulator = steps_use_accumulator (wf_steps flow),
          cf_steps = map (compile_step pe rc index) (wf_steps flow)\<rparr>)"

section \<open>Jump targets\<close>

lemma step_index_fold:
  "fold (\<lambda>(i, s) index. case index (s_id s) of None \<Rightarrow> index(s_id s \<mapsto> i) | Some _ \<Rightarrow> index)
     (enumerate n steps) index0 x
   = (case index0 x of Some i \<Rightarrow> Some i
      | None \<Rightarrow> map_option fst (List.find (\<lambda>(i, s). s_id s = x) (enumerate n steps)))"
proof (induction steps arbitrary: n index0)
  case Nil
  then show ?case by (simp split: option.splits)
next
  case (Cons s steps)
  show ?case by (simp add: Cons split: option.splits)
qed

lemma step_index_find:
  "step_index steps x = map_option fst (List.find (\<lambda>(i, s). s_id s = x) (enumerate 0 steps))"
  by (simp add: step_index_def step_index_fold)

lemma step_index_Some:
  assumes "step_index steps x = Some i"
  shows "i < length steps" "s_id (steps ! i) = x"
  using assms by (auto simp: step_index_find find_Some_iff nth_enumerate_eq)

lemma step_index_None: "step_index steps x = None \<longleftrightarrow> x \<notin> s_id ` set steps"
  by (auto simp: step_index_find find_None_iff enumerate_eq_zip in_set_zip image_iff in_set_conv_nth)
     (metis nth_mem)

end
