(* ===== verification/Async_Tasks.thy ===== *)
theory Async_Tasks
  imports Streams Flow_Types
begin

text \<open>
  The asynchronous tasks the flow executor (\<^verbatim>\<open>crates/wafer-run/src/waferflow/executor.rs\<close>) is
  made of.  A task is the tree of what it does next: it has finished (\<open>Ret\<close>), or it performs
  one action on what it shares with other tasks and goes on with the answer.  The actions are
  the accesses to the atomics of a \<^verbatim>\<open>TransferChain\<close> (one constructor per access the code
  makes), reading the clock, dispatching to a block, the observability hooks, and the choice
  of the executor which of several joined tasks is polled next.

  \<open>join_all\<close> is \<^verbatim>\<open>futures::future::join_all\<close>: it interleaves its tasks action by action in any
  order, so a statement about every environment is a statement about every schedule.

  The atomic counter counts in \<^typ>\<open>nat\<close>: wrapping the \<^verbatim>\<open>AtomicUsize\<close> takes \<open>2 ^ 64\<close> visits of
  a step.
\<close>

section \<open>Actions\<close>

text \<open>What a dispatch hands the runtime: \<^verbatim>\<open>DispatchObs\<close>, \<^verbatim>\<open>DispatchTarget\<close> and the arguments
  of \<^verbatim>\<open>make_block_context\<close>.\<close>

record block_call =
  bc_flow_id :: string
  bc_node_path :: string
  bc_block_name :: string
  bc_resolved :: string
  bc_config :: "string \<Rightarrow> string option"
  bc_deadline :: "nat option"
  bc_msg :: message
  bc_body :: bytes

datatype observation =
    Flow_start string message
  | Flow_end string
  | Block_start string string string message
  | Block_end string string string

datatype 'a task =
    Ret 'a
  | Charge nat "bool \<Rightarrow> 'a task"
  | Load_cancelled "bool \<Rightarrow> 'a task"
  | Store_cancelled "'a task"
  | Now "nat \<Rightarrow> 'a task"
  | Ensure_init block_call "wafer_error option \<Rightarrow> 'a task"
  | Invoke block_call "output_stream \<Rightarrow> 'a task"
  | Observe observation "'a task"
  | Poll nat "nat \<Rightarrow> 'a task"

primrec bind :: "'a task \<Rightarrow> ('a \<Rightarrow> 'b task) \<Rightarrow> 'b task" where
  "bind (Ret a) g = g a"
| "bind (Charge m f) g = Charge m (\<lambda>b. bind (f b) g)"
| "bind (Load_cancelled f) g = Load_cancelled (\<lambda>b. bind (f b) g)"
| "bind (Store_cancelled t) g = Store_cancelled (bind t g)"
| "bind (Now f) g = Now (\<lambda>n. bind (f n) g)"
| "bind (Ensure_init c f) g = Ensure_init c (\<lambda>r. bind (f r) g)"
| "bind (Invoke c f) g = Invoke c (\<lambda>s. bind (f s) g)"
| "bind (Observe ob t) g = Observe ob (bind t g)"
| "bind (Poll n f) g = Poll n (\<lambda>k. bind (f k) g)"

text \<open>The \<^verbatim>\<open>?\<close> of an asynchronous function: go on with the value, or return the error.\<close>

definition try_bind :: "('e + 'a) task \<Rightarrow> ('a \<Rightarrow> ('e + 'b) task) \<Rightarrow> ('e + 'b) task" where
  "try_bind t g = bind t (\<lambda>r. case r of Inl e \<Rightarrow> Ret (Inl e) | Inr a \<Rightarrow> g a)"

lemma bind_Ret_right [simp]: "bind t Ret = t"
  by (induction t) simp_all

lemma bind_assoc: "bind (bind t g) h = bind t (\<lambda>a. bind (g a) h)"
  by (induction t) simp_all

lemma bind_fundef_cong [fundef_cong]:
  assumes "t = t'" and "\<And>a. a \<in> set_task t' \<Longrightarrow> g a = g' a"
  shows "bind t g = bind t' g'"
  using assms(2) unfolding assms(1) by (induction t') auto

section \<open>Joining tasks\<close>

text \<open>One action of the \<open>i\<close>-th task of a list; the result goes on with the list updated there.\<close>

fun finished :: "'a task \<Rightarrow> bool" where
  "finished (Ret _) = True"
| "finished _ = False"

fun ret_value :: "'a task \<Rightarrow> 'a" where
  "ret_value (Ret a) = a"
| "ret_value _ = undefined"

definition pending :: "'a task list \<Rightarrow> nat list" where
  "pending ts = filter (\<lambda>i. \<not> finished (ts ! i)) [0..<length ts]"

text \<open>The task that is polled for the answer \<open>k\<close>.\<close>

definition polled :: "'a task list \<Rightarrow> nat \<Rightarrow> nat" where
  "polled ts k = pending ts ! (k mod length (pending ts))"

inductive child :: "'a task \<Rightarrow> 'a task \<Rightarrow> bool" where
  "child (f b) (Charge m f)"
| "child (f b) (Load_cancelled f)"
| "child t (Store_cancelled t)"
| "child (f n) (Now f)"
| "child (f r) (Ensure_init c f)"
| "child (f s) (Invoke c f)"
| "child t (Observe ob t)"
| "child (f k) (Poll n f)"

inductive_cases childE: "child t' t"

lemma wfp_child: "wfp (child :: 'a task \<Rightarrow> 'a task \<Rightarrow> bool)"
proof (rule wfpUNIVI)
  fix P :: "'a task \<Rightarrow> bool" and t :: "'a task"
  assume step: "\<forall>t. (\<forall>t'. child t' t \<longrightarrow> P t') \<longrightarrow> P t"
  show "P t"
    by (induction t) (rule step [rule_format], auto elim: childE)+
qed

text \<open>\<open>advance t k\<close> performs one action of \<open>t\<close> and goes on with \<open>k\<close> of what \<open>t\<close> is then.\<close>

fun advance :: "'a task \<Rightarrow> ('a task \<Rightarrow> 'b task) \<Rightarrow> 'b task" where
  "advance (Ret a) k = k (Ret a)"
| "advance (Charge m f) k = Charge m (\<lambda>b. k (f b))"
| "advance (Load_cancelled f) k = Load_cancelled (\<lambda>b. k (f b))"
| "advance (Store_cancelled t) k = Store_cancelled (k t)"
| "advance (Now f) k = Now (\<lambda>n. k (f n))"
| "advance (Ensure_init c f) k = Ensure_init c (\<lambda>r. k (f r))"
| "advance (Invoke c f) k = Invoke c (\<lambda>s. k (f s))"
| "advance (Observe ob t) k = Observe ob (k t)"
| "advance (Poll n f) k = Poll n (\<lambda>i. k (f i))"

lemma advance_cong [fundef_cong]:
  assumes "t = u" and "\<And>t'. child t' u \<or> finished u \<and> t' = u \<Longrightarrow> k t' = k' t'"
  shows "advance t k = advance u k'"
  using assms by (cases u) (auto intro!: ext intro: child.intros)

lemma polled_pending:
  assumes "pending ts \<noteq> []"
  shows "polled ts k < length ts" and "\<not> finished (ts ! polled ts k)"
proof -
  have "polled ts k \<in> set (pending ts)"
    using assms unfolding polled_def by (intro nth_mem) simp
  then show "polled ts k < length ts" "\<not> finished (ts ! polled ts k)"
    by (auto simp: pending_def)
qed

function join_all :: "'a task list \<Rightarrow> 'a list task" where
  "join_all ts =
     (if pending ts = [] then Ret (map ret_value ts)
      else Poll (length (pending ts)) (\<lambda>k.
        let i = polled ts k in advance (ts ! i) (\<lambda>t. join_all (ts[i := t]))))"
  by pat_completeness auto
termination
proof (relation "inv_image (mult1 {(x, y). child x y}) mset", goal_cases)
  case 1
  show ?case using wfp_child by (auto simp: wfp_def intro: wf_mult1)
next
  case (2 ts k i t')
  have i: "i < length ts" "\<not> finished (ts ! i)"
    using 2 polled_pending by auto
  with 2 have c: "child t' (ts ! i)" by auto
  have "mset ts = add_mset (ts ! i) (mset ts - {#ts ! i#})"
    using i by (simp add: insert_DiffM)
  moreover have "mset (ts[i := t']) = (mset ts - {#ts ! i#}) + {#t'#}"
    using i by (simp add: mset_update)
  ultimately have "(mset (ts[i := t']), mset ts) \<in> mult1 {(x, y). child x y}"
    by (rule mult1I) (use c in auto)
  then show ?case by (simp add: in_inv_image)
qed

declare join_all.simps [simp del]

section \<open>Running a task\<close>

text \<open>What the executor cannot see: the clock, block initialisation, the blocks and the order in
  which joined tasks are polled, all functions of a world they may change.\<close>

record 'w runtime_env =
  re_clock :: "'w \<Rightarrow> nat \<times> 'w"
  re_init :: "block_call \<Rightarrow> 'w \<Rightarrow> wafer_error option \<times> 'w"
  re_invoke :: "block_call \<Rightarrow> 'w \<Rightarrow> output_stream \<times> 'w"
  re_poll :: "nat \<Rightarrow> 'w \<Rightarrow> nat \<times> 'w"

text \<open>The shared state: the world, the two atomics of the chain, and what has been observed and
  invoked so far.\<close>

record 'w machine =
  mc_world :: 'w
  mc_used :: nat
  mc_cancelled :: bool
  mc_observed :: "observation list"
  mc_invoked :: "block_call list"

primrec exec :: "'w runtime_env \<Rightarrow> 'a task \<Rightarrow> 'w machine \<Rightarrow> 'a \<times> 'w machine" where
  "exec env (Ret a) m = (a, m)"
| "exec env (Charge limit f) m =
     exec env (f (mc_used m \<ge> limit)) (m\<lparr>mc_used := Suc (mc_used m)\<rparr>)"
| "exec env (Load_cancelled f) m = exec env (f (mc_cancelled m)) m"
| "exec env (Store_cancelled t) m = exec env t (m\<lparr>mc_cancelled := True\<rparr>)"
| "exec env (Now f) m =
     (let (now, w) = re_clock env (mc_world m) in exec env (f now) (m\<lparr>mc_world := w\<rparr>))"
| "exec env (Ensure_init c f) m =
     (let (r, w) = re_init env c (mc_world m) in exec env (f r) (m\<lparr>mc_world := w\<rparr>))"
| "exec env (Invoke c f) m =
     (let (out, w) = re_invoke env c (mc_world m)
      in exec env (f out) (m\<lparr>mc_world := w, mc_invoked := mc_invoked m @ [c]\<rparr>))"
| "exec env (Observe ob t) m = exec env t (m\<lparr>mc_observed := mc_observed m @ [ob]\<rparr>)"
| "exec env (Poll n f) m =
     (let (k, w) = re_poll env n (mc_world m) in exec env (f k) (m\<lparr>mc_world := w\<rparr>))"

lemma exec_bind:
  "exec env (bind t g) m = (let (a, m') = exec env t m in exec env (g a) m')"
  by (induction t arbitrary: m) (simp_all add: split_beta Let_def)

lemma exec_try_bind:
  "exec env (try_bind t g) m =
     (case exec env t m of (Inl e, m') \<Rightarrow> (Inl e, m') | (Inr a, m') \<Rightarrow> exec env (g a) m')"
  by (simp add: try_bind_def exec_bind split: prod.split sum.split)

section \<open>What every task does to the shared state\<close>

text \<open>A preorder that no single action violates relates the states before and after every task,
  joined tasks included.\<close>

locale action_order =
  fixes R :: "'w machine \<Rightarrow> 'w machine \<Rightarrow> bool"
  assumes order_refl: "R m m"
    and order_trans: "R m m' \<Longrightarrow> R m' m'' \<Longrightarrow> R m m''"
    and order_charge: "R m (m\<lparr>mc_used := Suc (mc_used m)\<rparr>)"
    and order_store: "R m (m\<lparr>mc_cancelled := True\<rparr>)"
    and order_world: "R m (m\<lparr>mc_world := w\<rparr>)"
    and order_observe: "R m (m\<lparr>mc_observed := mc_observed m @ [ob]\<rparr>)"
    and order_invoke: "R m (m\<lparr>mc_invoked := mc_invoked m @ [c]\<rparr>)"
begin

lemma after_world: "R (m\<lparr>mc_world := w\<rparr>) m' \<Longrightarrow> R m m'"
  by (rule order_trans [OF order_world])

lemma exec_ordered: "R m (snd (exec env t m))"
proof (induction t arbitrary: m)
  case (Invoke c f)
  have "R m (m\<lparr>mc_world := w, mc_invoked := mc_invoked m @ [c]\<rparr>)" for w
    using order_trans [OF order_world order_invoke] by simp
  then show ?case using Invoke order_trans by (simp add: split_beta Let_def) blast
next
  case (Now f)
  show ?case by (simp add: split_beta Let_def) (rule after_world, rule Now, simp)
next
  case (Ensure_init c f)
  show ?case by (simp add: split_beta Let_def) (rule after_world, rule Ensure_init, simp)
next
  case (Poll n f)
  show ?case by (simp add: split_beta Let_def) (rule after_world, rule Poll, simp)
qed (auto simp: order_refl intro: order_trans order_charge order_store order_observe)

end

interpretation used: action_order "\<lambda>m m'. mc_used m \<le> mc_used m'"
  by unfold_locales auto

interpretation cancel: action_order "\<lambda>m m'. mc_cancelled m \<longrightarrow> mc_cancelled m'"
  by unfold_locales auto

interpretation invoked: action_order "\<lambda>m m'. prefix (mc_invoked m) (mc_invoked m')"
  by unfold_locales (auto intro: prefix_order.trans)

section \<open>What a task returns, whatever it is answered\<close>

text \<open>\<open>obeys G A Q t\<close>: as long as blocks answer their calls as \<open>A\<close> says, every call \<open>t\<close> makes
  satisfies \<open>G\<close> and every value it returns satisfies \<open>Q\<close>.  The other answers are arbitrary, so
  the statement holds of the task under every schedule, clock and budget.\<close>

primrec obeys :: "(block_call \<Rightarrow> bool) \<Rightarrow> (block_call \<Rightarrow> output_stream \<Rightarrow> bool) \<Rightarrow> ('a \<Rightarrow> bool)
    \<Rightarrow> 'a task \<Rightarrow> bool" where
  "obeys G A Q (Ret a) = Q a"
| "obeys G A Q (Charge limit f) = (\<forall>b. obeys G A Q (f b))"
| "obeys G A Q (Load_cancelled f) = (\<forall>b. obeys G A Q (f b))"
| "obeys G A Q (Store_cancelled t) = obeys G A Q t"
| "obeys G A Q (Now f) = (\<forall>n. obeys G A Q (f n))"
| "obeys G A Q (Ensure_init c f) = (\<forall>r. obeys G A Q (f r))"
| "obeys G A Q (Invoke c f) = (G c \<and> (\<forall>s. A c s \<longrightarrow> obeys G A Q (f s)))"
| "obeys G A Q (Observe ob t) = obeys G A Q t"
| "obeys G A Q (Poll n f) = (\<forall>k. obeys G A Q (f k))"

lemma obeys_mono:
  "obeys G A Q t \<Longrightarrow> (\<And>a. Q a \<Longrightarrow> Q' a) \<Longrightarrow> obeys G A Q' t"
  by (induction t) auto

lemma obeys_bind:
  "obeys G A (\<lambda>a. obeys G A Q (g a)) t \<Longrightarrow> obeys G A Q (bind t g)"
  by (induction t) auto

lemma obeys_try_bind:
  assumes "obeys G A (\<lambda>r. case r of Inl e \<Rightarrow> Q (Inl e) | Inr a \<Rightarrow> obeys G A Q (g a)) t"
  shows "obeys G A Q (try_bind t g)"
  unfolding try_bind_def
  by (rule obeys_bind, rule obeys_mono [OF assms]) (auto split: sum.splits)

lemma obeys_exec:
  assumes "obeys G A Q t" and "\<And>c w. A c (fst (re_invoke env c w))"
  shows "Q (fst (exec env t m))"
  using assms by (induction t arbitrary: m) (auto simp: split_beta Let_def)

lemma obeys_calls:
  assumes "obeys G A Q t" and "\<And>c w. A c (fst (re_invoke env c w))"
  shows "\<forall>c \<in> set (mc_invoked (snd (exec env t m))). c \<in> set (mc_invoked m) \<or> G c"
  using assms
proof (induction t arbitrary: m)
  case (Invoke c f)
  let ?r = "re_invoke env c (mc_world m)"
  have "obeys G A Q (f (fst ?r))" using Invoke.prems by simp
  from Invoke.IH [OF _ this Invoke.prems(2), of "m\<lparr>mc_world := snd ?r, mc_invoked := mc_invoked m @ [c]\<rparr>"]
  show ?case using Invoke.prems(1) by (auto simp: split_beta Let_def)
qed (fastforce simp: split_beta Let_def)+

lemma obeys_advance:
  "obeys G A Q (advance t k)"
  if "obeys G A Q0 t" "\<And>t'. obeys G A Q0 t' \<Longrightarrow> obeys G A Q (k t')"
  using that by (cases t) auto

text \<open>Joined tasks keep what each of them guarantees alone.\<close>

lemma obeys_join_all:
  "list_all2 (obeys G A) Qs ts \<Longrightarrow> obeys G A (\<lambda>rs. list_all2 (\<lambda>Q r. Q r) Qs rs) (join_all ts)"
proof (induction ts rule: join_all.induct)
  case (1 ts)
  show ?case
  proof (cases "pending ts = []")
    case True
    have fin: "finished (ts ! i)" if "i < length ts" for i
      using True that by (auto simp: pending_def filter_empty_conv)
    have "(Qs ! i) (ret_value (ts ! i))" if "i < length ts" for i
      using fin [OF that] list_all2_nthD2 [OF "1.prems" that] by (cases "ts ! i") auto
    with True "1.prems" show ?thesis
      by (subst join_all.simps) (auto simp: list_all2_conv_all_nth)
  next
    case False
    have "obeys G A (\<lambda>rs. list_all2 (\<lambda>Q r. Q r) Qs rs)
        (advance (ts ! i) (\<lambda>t. join_all (ts[i := t])))" if "i = polled ts k" for i k
    proof -
      have i: "i < length ts" "\<not> finished (ts ! i)" using polled_pending [OF False] that by auto
      have q: "obeys G A (Qs ! i) (ts ! i)" using "1.prems" i by (simp add: list_all2_conv_all_nth)
      have step: "obeys G A (\<lambda>rs. list_all2 (\<lambda>Q r. Q r) Qs rs) (join_all (ts[i := t]))"
        if "child t (ts ! i)" "obeys G A (Qs ! i) t" for t
      proof (rule "1.IH" [OF False \<open>i = polled ts k\<close>])
        show "child t (ts ! i) \<or> finished (ts ! i) \<and> t = ts ! i" using that by simp
        show "list_all2 (obeys G A) Qs (ts[i := t])"
          using "1.prems" i that(2) by (auto simp: list_all2_conv_all_nth nth_list_update)
      qed
      show ?thesis
        using q i(2) step by (cases "ts ! i") (auto intro: child.intros)
    qed
    then show ?thesis using False by (subst join_all.simps) (simp add: Let_def)
  qed
qed

section \<open>Paying for invocations\<close>

text \<open>\<open>paid limit n t\<close>: every charge of \<open>t\<close> is against \<open>limit\<close>, and with \<open>n\<close> charges in hand at the
  start, every invocation of \<open>t\<close> is covered by a charge made before and not used yet.\<close>

primrec paid :: "nat \<Rightarrow> nat \<Rightarrow> 'a task \<Rightarrow> bool" where
  "paid limit n (Ret a) = True"
| "paid limit n (Charge l f) = (l = limit \<and> paid limit n (f True) \<and> paid limit (Suc n) (f False))"
| "paid limit n (Load_cancelled f) = (\<forall>b. paid limit n (f b))"
| "paid limit n (Store_cancelled t) = paid limit n t"
| "paid limit n (Now f) = (\<forall>k. paid limit n (f k))"
| "paid limit n (Ensure_init c f) = (\<forall>r. paid limit n (f r))"
| "paid limit n (Invoke c f) = (0 < n \<and> (\<forall>s. paid limit (n - 1) (f s)))"
| "paid limit n (Observe ob t) = paid limit n t"
| "paid limit n (Poll k f) = (\<forall>i. paid limit n (f i))"

lemma paid_mono: "paid limit n t \<Longrightarrow> n \<le> n' \<Longrightarrow> paid limit n' t"
proof (induction t arbitrary: n n')
  case (Charge l f)
  then show ?case by (auto intro: Charge.IH)
next
  case (Invoke c f)
  then show ?case by (auto intro: Invoke.IH [of _ "n - 1"])
qed (simp; blast)+

text \<open>What the first task does not need is left for the second.\<close>

lemma paid_bind_frame:
  "paid limit n t \<Longrightarrow> (\<And>a. paid limit k (g a)) \<Longrightarrow> paid limit (n + k) (bind t g)"
proof (induction t arbitrary: n)
  case (Ret a)
  then show ?case using paid_mono [of limit k "g a" "n + k"] by simp
next
  case (Invoke c f)
  have "paid limit (n - 1 + k) (bind (f s) g)" for s
    using Invoke.prems by (intro Invoke.IH) auto
  moreover have "n - 1 + k = n + k - 1" using Invoke.prems by simp
  ultimately show ?case using Invoke.prems by simp
next
  case (Charge l f)
  have "paid limit (n + k) (bind (f True) g)" using Charge.prems by (intro Charge.IH) auto
  moreover have "paid limit (Suc n + k) (bind (f False) g)" using Charge.prems by (intro Charge.IH) auto
  ultimately show ?case using Charge.prems by simp
qed (simp; blast)+

lemma paid_try_bind_frame:
  assumes "paid limit n t" and "\<And>a. paid limit k (g a)"
  shows "paid limit (n + k) (try_bind t g)"
  unfolding try_bind_def by (rule paid_bind_frame [OF assms(1)]) (simp add: assms(2) split: sum.split)

lemmas paid_bind = paid_bind_frame [where k = 0, simplified]
lemmas paid_try_bind = paid_try_bind_frame [where k = 0, simplified]

lemma sum_list_update_nat:
  "i < length ns \<Longrightarrow> sum_list (ns[i := x]) + ns ! i = sum_list ns + (x :: nat)"
  by (induction ns arbitrary: i) (auto split: nat.splits)

lemma paid_join_all:
  "list_all2 (paid limit) ns ts \<Longrightarrow> paid limit (sum_list ns) (join_all ts)"
proof (induction ts arbitrary: ns rule: join_all.induct)
  case (1 ts)
  show ?case
  proof (cases "pending ts = []")
    case False
    have "paid limit (sum_list ns) (advance (ts ! i) (\<lambda>t. join_all (ts[i := t])))" if "i = polled ts k" for i k
    proof -
      have i: "i < length ts" "\<not> finished (ts ! i)" using polled_pending [OF False] that by auto
      have li: "i < length ns" using i "1.prems" by (simp add: list_all2_lengthD)
      have pi: "paid limit (ns ! i) (ts ! i)" using "1.prems" i by (simp add: list_all2_conv_all_nth)
      have step: "paid limit (sum_list (ns[i := n])) (join_all (ts[i := t]))"
        if "child t (ts ! i)" "paid limit n t" for t n
      proof (rule "1.IH" [OF False \<open>i = polled ts k\<close>])
        show "child t (ts ! i) \<or> finished (ts ! i) \<and> t = ts ! i" using that by simp
        show "list_all2 (paid limit) (ns[i := n]) (ts[i := t])"
          using "1.prems" li i that(2) by (auto simp: list_all2_conv_all_nth nth_list_update)
      qed
      have same: "paid limit (sum_list ns) (join_all (ts[i := t]))"
        if "child t (ts ! i)" "paid limit (ns ! i) t" for t
        using step [OF that] by simp
      show ?thesis
      proof (cases "ts ! i")
        case (Charge l f)
        then have "paid limit (sum_list (ns[i := Suc (ns ! i)])) (join_all (ts[i := f False]))"
          using pi by (intro step) (auto intro: child.intros)
        moreover have "sum_list (ns[i := Suc (ns ! i)]) = Suc (sum_list ns)"
          using sum_list_update_nat [OF li, of "Suc (ns ! i)"] by simp
        ultimately show ?thesis using Charge pi same by (auto intro: child.intros)
      next
        case (Invoke c f)
        have "paid limit (sum_list (ns[i := ns ! i - 1])) (join_all (ts[i := f s]))" for s
          using pi Invoke by (intro step) (auto intro: child.intros)
        moreover have "sum_list (ns[i := ns ! i - 1]) = sum_list ns - 1" "0 < sum_list ns"
          using sum_list_update_nat [OF li, of "ns ! i - 1"] pi Invoke elem_le_sum_list [OF li] by auto
        ultimately show ?thesis using Invoke by simp
      qed (use pi same i(2) in \<open>auto intro: child.intros\<close>)
    qed
    then show ?thesis using False by (subst join_all.simps) (simp add: Let_def)
  qed (subst join_all.simps, simp)
qed

text \<open>What a paid task invokes is bounded by the charges that were granted.\<close>

lemma paid_exec:
  "paid limit n t \<Longrightarrow> length (mc_invoked (snd (exec env t m))) + min (mc_used m) limit
     \<le> length (mc_invoked m) + n + min (mc_used (snd (exec env t m))) limit"
proof (induction t arbitrary: n m)
  case (Charge l f)
  let ?m = "m\<lparr>mc_used := Suc (mc_used m)\<rparr>"
  show ?case
  proof (cases "mc_used m \<ge> l")
    case True
    moreover have "min (Suc (mc_used m)) limit = limit" "min (mc_used m) limit = limit"
      using True Charge.prems by simp_all
    ultimately show ?thesis using Charge.prems Charge.IH [of "f True" n ?m] by simp
  next
    case False
    then show ?thesis using Charge.prems Charge.IH [of "f False" "Suc n" ?m] by simp
  qed
next
  case (Invoke c f)
  let ?r = "re_invoke env c (mc_world m)"
  show ?case
    using Invoke.prems Invoke.IH [of "f (fst ?r)" "n - 1" "m\<lparr>mc_world := snd ?r, mc_invoked := mc_invoked m @ [c]\<rparr>"]
    by (simp add: split_beta Let_def)
next
  case (Now f)
  then show ?case using Now.IH [of "f (fst (re_clock env (mc_world m)))" n "m\<lparr>mc_world := snd (re_clock env (mc_world m))\<rparr>"]
    by (simp add: split_beta Let_def)
next
  case (Ensure_init c f)
  then show ?case
    using Ensure_init.IH [of "f (fst (re_init env c (mc_world m)))" n "m\<lparr>mc_world := snd (re_init env c (mc_world m))\<rparr>"]
    by (simp add: split_beta Let_def)
next
  case (Poll k f)
  then show ?case using Poll.IH [of "f (fst (re_poll env k (mc_world m)))" n "m\<lparr>mc_world := snd (re_poll env k (mc_world m))\<rparr>"]
    by (simp add: split_beta Let_def)
next
  case (Load_cancelled f)
  then show ?case using Load_cancelled.IH [of "f (mc_cancelled m)" n m] by simp
next
  case (Store_cancelled t)
  then show ?case using Store_cancelled.IH [of n "m\<lparr>mc_cancelled := True\<rparr>"] by simp
next
  case (Observe ob t)
  then show ?case using Observe.IH [of n "m\<lparr>mc_observed := mc_observed m @ [ob]\<rparr>"] by simp
qed simp

section \<open>Tasks whose result does not depend on the schedule\<close>

text \<open>\<open>settles limit h a t\<close>: if every charge against \<open>limit\<close> is granted, nothing is cancelled, every
  block initialises and answers its calls by the function \<open>h\<close>, then \<open>t\<close> returns \<open>a\<close>, whatever
  the clock says and in whatever order joined tasks are polled.\<close>

primrec settles :: "nat \<Rightarrow> (block_call \<Rightarrow> output_stream) \<Rightarrow> 'a \<Rightarrow> 'a task \<Rightarrow> bool" where
  "settles limit h a (Ret b) = (b = a)"
| "settles limit h a (Charge l f) = (l = limit \<and> settles limit h a (f False))"
| "settles limit h a (Load_cancelled f) = settles limit h a (f False)"
| "settles limit h a (Store_cancelled t) = False"
| "settles limit h a (Now f) = (\<forall>n. settles limit h a (f n))"
| "settles limit h a (Ensure_init c f) = settles limit h a (f None)"
| "settles limit h a (Invoke c f) = settles limit h a (f (h c))"
| "settles limit h a (Observe ob t) = settles limit h a t"
| "settles limit h a (Poll n f) = (\<forall>k. settles limit h a (f k))"

lemma settles_bind: "settles limit h a t \<Longrightarrow> settles limit h b (g a) \<Longrightarrow> settles limit h b (bind t g)"
  by (induction t) auto

lemma settles_advance:
  "settles limit h a t \<Longrightarrow> \<not> finished t \<Longrightarrow>
    (\<And>t'. child t' t \<Longrightarrow> settles limit h a t' \<Longrightarrow> settles limit h b (k t')) \<Longrightarrow> settles limit h b (advance t k)"
  by (cases t) (auto intro: child.intros)

lemma settles_join_all: "list_all2 (settles limit h) as ts \<Longrightarrow> settles limit h as (join_all ts)"
proof (induction ts rule: join_all.induct)
  case (1 ts)
  show ?case
  proof (cases "pending ts = []")
    case True
    have fin: "finished (ts ! i)" if "i < length ts" for i
      using True that by (auto simp: pending_def filter_empty_conv)
    have "ret_value (ts ! i) = as ! i" if "i < length ts" for i
      using fin [OF that] list_all2_nthD2 [OF "1.prems" that] by (cases "ts ! i") auto
    then have "map ret_value ts = as"
      using "1.prems" by (auto simp: list_all2_lengthD intro: nth_equalityI)
    with True show ?thesis by (subst join_all.simps) simp
  next
    case False
    have "settles limit h as (advance (ts ! i) (\<lambda>t. join_all (ts[i := t])))" if "i = polled ts k" for i k
    proof (rule settles_advance)
      have i: "i < length ts" "\<not> finished (ts ! i)" using polled_pending [OF False] that by auto
      then show "settles limit h (as ! i) (ts ! i)" "\<not> finished (ts ! i)"
        using "1.prems" by (simp_all add: list_all2_conv_all_nth)
      fix t
      assume t: "child t (ts ! i)" "settles limit h (as ! i) t"
      show "settles limit h as (join_all (ts[i := t]))"
      proof (rule "1.IH" [OF False that])
        show "child t (ts ! i) \<or> finished (ts ! i) \<and> t = ts ! i" using t by simp
        show "list_all2 (settles limit h) as (ts[i := t])"
          using "1.prems" i t(2) by (auto simp: list_all2_conv_all_nth nth_list_update)
      qed
    qed
    then show ?thesis using False by (subst join_all.simps) (simp add: Let_def)
  qed
qed

lemma settles_exec:
  assumes "settles limit h a t" and "\<not> mc_cancelled m" and "mc_used (snd (exec env t m)) \<le> limit"
    and "\<And>c w. fst (re_init env c w) = None" and "\<And>c w. fst (re_invoke env c w) = h c"
  shows "fst (exec env t m) = a"
  using assms(1-3)
proof (induction t arbitrary: m)
  case (Charge l f)
  let ?m = "m\<lparr>mc_used := Suc (mc_used m)\<rparr>"
  have "Suc (mc_used m) \<le> mc_used (snd (exec env (Charge l f) m))"
    using used.exec_ordered [of ?m env "f (mc_used m \<ge> l)"] by simp
  then have "\<not> mc_used m \<ge> l" using Charge.prems by simp
  then show ?case using Charge.prems by (auto intro!: Charge.IH)
qed (use assms(4,5) in \<open>auto simp: split_beta Let_def\<close>)

definition settling :: "nat \<Rightarrow> (block_call \<Rightarrow> output_stream) \<Rightarrow> 'a task \<Rightarrow> bool" where
  "settling limit h t \<longleftrightarrow> (\<exists>a. settles limit h a t)"

lemma settling_Ret [simp]: "settling limit h (Ret a)"
  by (simp add: settling_def)

lemma settling_bind: "settling limit h t \<Longrightarrow> (\<And>a. settling limit h (g a)) \<Longrightarrow> settling limit h (bind t g)"
  unfolding settling_def by (metis settles_bind)

lemma settling_try_bind:
  "settling limit h t \<Longrightarrow> (\<And>a. settling limit h (g a)) \<Longrightarrow> settling limit h (try_bind t g)"
  unfolding try_bind_def by (rule settling_bind) (simp_all split: sum.split)

lemma settling_join_all:
  assumes "list_all (settling limit h) ts"
  shows "settling limit h (join_all ts)"
proof -
  have "\<exists>as. list_all2 (settles limit h) as ts"
    using assms by (induction ts) (auto simp: settling_def list_all2_Cons2)
  then show ?thesis unfolding settling_def using settles_join_all by blast
qed

end
