(* ===== verification/Flow_Executor.thy ===== *)
theory Flow_Executor
  imports Flow_Plan Async_Tasks Response_Carried Http_Streaming
begin

text \<open>
  \<^verbatim>\<open>crates/wafer-run/src/waferflow/executor.rs\<close>: walking a compiled flow.

  Every asynchronous function of the source is a task (theory \<open>Async_Tasks\<close>).  A function that
  returns \<^verbatim>\<open>Result<T, ShortCircuit>\<close> and updates \<^verbatim>\<open>&mut ExecState\<close> returns
  \<open>(short_circuit \<times> exec_state) + 'a\<close>: the terminal that ends the flow with the state it leaves
  behind, or the value with the new state in it.  What a step reads of its surroundings is
  \<open>step_env\<close>: the flow, the limits of the chain, \<^verbatim>\<open>serde_json\<close>'s codec (not part of the repository)
  and the lookup of flow plans.

  Log messages are not modelled.  A stream is the list of events it delivers, so reading its
  leading meta, peeking and collecting are functions of that list.
\<close>

section \<open>State\<close>

record transfer_chain =
  tc_max_steps :: nat
  tc_deadline :: "nat option"

record json_codec =
  jc_from_slice :: "bytes \<Rightarrow> json option"
  jc_to_vec :: "json \<Rightarrow> string + bytes"

record step_env =
  sv_flow :: compiled_flow
  sv_chain :: transfer_chain
  sv_json :: json_codec
  sv_flow_plan :: "string \<Rightarrow> compiled_flow option"

record exec_state =
  es_acc :: accumulator
  es_body :: bytes
  es_msg :: message
  es_record :: responder_record

datatype invocation_outcome = Responded | NoOutput

datatype response_mode = Collect_output | Forward_stream

datatype step_output =
    Collected "terminal_not_response + buffered_response"
  | Streaming "meta_entry list" output_stream

datatype short_circuit =
    SC_error wafer_error
  | SC_halt buffered_response
  | SC_drop "meta_entry list"
  | SC_stream output_stream string

datatype flow_outcome =
    Done output_stream
  | Transfer compiled_flow message bytes responder_record
  | Out_of_fuel

text \<open>\<^verbatim>\<open>TransferChain::new\<close> and \<^verbatim>\<open>enter\<close>; the counter and the flag are in the machine.\<close>

definition chain_new :: transfer_chain where
  "chain_new = \<lparr>tc_max_steps = u64_max, tc_deadline = None\<rparr>"

definition chain_enter :: "transfer_chain \<Rightarrow> compiled_flow \<Rightarrow> nat \<Rightarrow> transfer_chain" where
  "chain_enter chain flow now =
     \<lparr>tc_max_steps = min (tc_max_steps chain) (cf_max_steps flow),
      tc_deadline = (case cf_timeout flow of
         None \<Rightarrow> tc_deadline chain
       | Some t \<Rightarrow>
           (let own = now + t in
            Some (case tc_deadline chain of None \<Rightarrow> own | Some d \<Rightarrow> min d own)))\<rparr>"

section \<open>Terminals\<close>

definition response_meta_of :: "message \<Rightarrow> meta_entry list" where
  "response_meta_of msg = filter (\<lambda>e. starts_with ''resp.'' (me_key e)) (msg_meta msg)"

definition with_carried :: "exec_state \<Rightarrow> meta_entry list \<Rightarrow> meta_entry list" where
  "with_carried state own = fst (overlay (carried (msg_meta (es_msg state)) (es_record state)) own)"

text \<open>The errors \<^verbatim>\<open>after_head\<close> raises keep the rest of the error and replace its meta.\<close>

definition after_head :: "meta_entry list \<Rightarrow> string \<Rightarrow> stream_event \<Rightarrow> stream_event option" where
  "after_head carried_meta step event =
     (let fail = (\<lambda>error. Some (stream_event.Error (error\<lparr>we_meta := fst (overlay carried_meta (we_meta error))\<rparr>)))
      in case event of
        Chunk _ \<Rightarrow> Some event
      | Meta _ \<Rightarrow> None
      | Complete _ \<Rightarrow> Some (Complete [])
      | stream_event.Error err \<Rightarrow>
          (case first_unsendable (we_meta err) of
             None \<Rightarrow> fail err
           | Some invalid \<Rightarrow> fail (wafer_error_new Internal
               (Text ''{step} produced unsendable response meta: {invalid}'' [A_str step])))
      | _ \<Rightarrow> fail (wafer_error_new Internal
               (Text ''{step} ended its streamed response with a terminal that cannot follow a body''
                 [A_str step])))"

definition into_output :: "short_circuit \<Rightarrow> exec_state \<Rightarrow> output_stream" where
  "into_output sc state =
     (case sc of
        SC_error err \<Rightarrow> out_error (err\<lparr>we_meta := with_carried state (we_meta err)\<rparr>)
      | SC_halt buf \<Rightarrow> from_buffered_response
          \<lparr>br_body = br_body buf, br_meta = with_carried state (br_meta buf)\<rparr>
      | SC_drop meta \<Rightarrow> drop_request_with_meta (with_carried state meta)
      | SC_stream out step \<Rightarrow>
          prepend (map Meta (response_meta_of (es_msg state)))
            (rewrite_produced (\<lambda>_ e. ((), after_head (carried (msg_meta (es_msg state)) (es_record state)) step e))
               () out))"

definition block_in_step :: "compiled_step \<Rightarrow> string" where
  "block_in_step step = ''block '' @ [squote] @ cs_block_label step @ [squote] @ '' in step '' @ [squote] @ cs_id step @ [squote]"

text \<open>Messages that end in the rendering of an \<^verbatim>\<open>InvalidResponseMeta\<close> leave that argument out.\<close>

definition unsendable_meta_error :: "compiled_step \<Rightarrow> invalid_response_meta \<Rightarrow> short_circuit" where
  "unsendable_meta_error step invalid = SC_error (wafer_error_new Internal
     (Text ''block '{}' in step '{}' produced unsendable response meta: {}''
       [A_str (cs_block_label step), A_str (cs_id step)]))"

definition open_terminal_output :: "output_stream \<Rightarrow> step_output" where
  "open_terminal_output out =
     (let (meta, rest) = take_leading_meta out in
      if declares_streaming meta \<and> (case peek rest of Some (Chunk _) \<Rightarrow> True | _ \<Rightarrow> False)
      then Streaming meta rest
      else Collected (collect_buffered (prepend (map Meta meta) rest)))"

definition apply_to_state :: "exec_state \<Rightarrow> meta_entry list \<Rightarrow> exec_state" where
  "apply_to_state state meta =
     (let (record', meta') = apply_response (es_record state) (msg_meta (es_msg state)) meta
      in state\<lparr>es_record := record', es_msg := (es_msg state)\<lparr>msg_meta := meta'\<rparr>\<rparr>)"

definition forward_stream ::
  "compiled_step \<Rightarrow> exec_state \<Rightarrow> meta_entry list \<Rightarrow> output_stream \<Rightarrow> short_circuit \<times> exec_state" where
  "forward_stream step state meta out =
     (case first_unsendable meta of
        Some invalid \<Rightarrow> (unsendable_meta_error step invalid, state)
      | None \<Rightarrow> (SC_stream out (block_in_step step), apply_to_state state meta))"

section \<open>Budget and deadline\<close>

definition check_budget :: "step_env \<Rightarrow> (short_circuit + unit) task" where
  "check_budget env =
     Charge (tc_max_steps (sv_chain env)) (\<lambda>exhausted.
       if exhausted
       then Ret (Inl (SC_error (wafer_error_new ResourceExhausted
              (Text (''max steps ({}) exceeded in flow '{}'' @ [squote])
                [A_nat (tc_max_steps (sv_chain env)), A_str (cf_id (sv_flow env))]))))
       else Ret (Inr ()))"

definition check_cancel_deadline :: "step_env \<Rightarrow> (short_circuit + unit) task" where
  "check_cancel_deadline env =
     Load_cancelled (\<lambda>cancelled.
       if cancelled
       then Ret (Inl (SC_error (wafer_error_new Cancelled (Text ''flow cancelled'' []))))
       else (case tc_deadline (sv_chain env) of
               None \<Rightarrow> Ret (Inr ())
             | Some dl \<Rightarrow> Now (\<lambda>now.
                 if now \<ge> dl
                 then Store_cancelled (Ret (Inl (SC_error (wafer_error_new DeadlineExceeded
                        (Text ''flow '{}' timed out'' [A_str (cf_id (sv_flow env))])))))
                 else Ret (Inr ()))))"

text \<open>The state in which a check or a pure computation fails is the current one.\<close>

definition in_state :: "exec_state \<Rightarrow> (short_circuit + 'a) task \<Rightarrow> ((short_circuit \<times> exec_state) + 'a) task" where
  "in_state state t = bind t (\<lambda>r. Ret (case r of Inl sc \<Rightarrow> Inl (sc, state) | Inr a \<Rightarrow> Inr a))"

section \<open>One invocation\<close>

definition resolve_step_input :: "step_env \<Rightarrow> compiled_step \<Rightarrow> exec_state \<Rightarrow> short_circuit + exec_state" where
  "resolve_step_input env step state =
     (case cs_input step of None \<Rightarrow> Inr state
      | Some template \<Rightarrow>
          (case template_resolve template (es_acc state) of
             Inr val \<Rightarrow>
               (case jc_to_vec (sv_json env) val of
                  Inr data \<Rightarrow> Inr (state\<lparr>es_body := data\<rparr>)
                | Inl e \<Rightarrow> Inl (SC_error (wafer_error_new Internal
                    (Text ''failed to serialize input for step '{}': {}'' [A_str (cs_id step), A_str e]))))
           | Inl e \<Rightarrow> Inl (SC_error (wafer_error_new InvalidArgument
               (Text ''input resolution failed in step '{}': {}'' [A_str (cs_id step), A_expr e])))))"

text \<open>The meta of an output that is checked before it is applied.\<close>

definition produced_meta :: "exec_state \<Rightarrow> terminal_not_response + buffered_response \<Rightarrow> meta_entry list" where
  "produced_meta state buf =
     (case buf of
        Inr response \<Rightarrow> br_meta response
      | Inl (TError e) \<Rightarrow> we_meta e
      | Inl (TDrop meta) \<Rightarrow> meta
      | Inl (THalt halted) \<Rightarrow> br_meta halted
      | Inl (TContinue next_msg) \<Rightarrow> filter (\<lambda>e. e \<notin> set (msg_meta (es_msg state))) (msg_meta next_msg)
      | Inl TMalformed \<Rightarrow> [])"

definition process_result :: "step_env \<Rightarrow> compiled_step \<Rightarrow> exec_state \<Rightarrow> terminal_not_response + buffered_response
    \<Rightarrow> (short_circuit \<times> exec_state) + (invocation_outcome \<times> exec_state)" where
  "process_result env step state buf =
     (case first_unsendable (produced_meta state buf) of
        Some invalid \<Rightarrow> Inl (unsendable_meta_error step invalid, state)
      | None \<Rightarrow>
          (case buf of
             Inr response \<Rightarrow> Inr (Responded, apply_to_state (state\<lparr>es_body := br_body response\<rparr>) (br_meta response))
           | Inl (TError e) \<Rightarrow>
               (case cf_on_error (sv_flow env) of
                  Stop \<Rightarrow> Inl (SC_error e, state)
                | on_error.Continue \<Rightarrow> Inr (NoOutput, state\<lparr>es_body := []\<rparr>))
           | Inl (TDrop meta) \<Rightarrow> Inl (SC_drop meta, state)
           | Inl (THalt halted) \<Rightarrow> Inl (SC_halt halted, state)
           | Inl (TContinue next_msg) \<Rightarrow>
               Inr (NoOutput, state\<lparr>es_record := after_continue (es_record state) (msg_meta (es_msg state)) (msg_meta next_msg),
                                   es_msg := next_msg\<rparr>)
           | Inl TMalformed \<Rightarrow> Inl (SC_error (wafer_error_new Internal
               (Text ''block '{}' in step '{}' produced malformed output stream''
                 [A_str (cs_block_label step), A_str (cs_id step)])), state)))"

definition step_call :: "step_env \<Rightarrow> compiled_step \<Rightarrow> string \<Rightarrow> exec_state \<Rightarrow> block_call" where
  "step_call env step target state =
     \<lparr>bc_flow_id = cf_id (sv_flow env), bc_node_path = cs_id step, bc_block_name = cs_block_label step,
      bc_resolved = target, bc_config = cs_config step, bc_deadline = tc_deadline (sv_chain env),
      bc_msg = es_msg state, bc_body = es_body state\<rparr>"

text \<open>\<^verbatim>\<open>run_resolved\<close> of \<^verbatim>\<open>runtime/runner.rs\<close>: initialise the block, then the observed invocation.\<close>

definition run_resolved :: "block_call \<Rightarrow> (output_stream \<Rightarrow> 'a) \<Rightarrow> (wafer_error + 'a) task" where
  "run_resolved call read =
     Ensure_init call (\<lambda>failure. case failure of
         Some e \<Rightarrow> Ret (Inl e)
       | None \<Rightarrow>
           Observe (Block_start (bc_flow_id call) (bc_node_path call) (bc_block_name call) (bc_msg call))
             (Invoke call (\<lambda>out.
                Observe (Block_end (bc_flow_id call) (bc_node_path call) (bc_block_name call))
                  (Ret (Inr (read out))))))"

definition run_invocation :: "step_env \<Rightarrow> compiled_step \<Rightarrow> exec_state \<Rightarrow> response_mode
    \<Rightarrow> ((short_circuit \<times> exec_state) + (invocation_outcome \<times> exec_state)) task" where
  "run_invocation env step state mode =
     try_bind (in_state state (check_cancel_deadline env)) (\<lambda>_.
     try_bind (in_state state (Ret (resolve_step_input env step state))) (\<lambda>state.
     (case cs_target step of
        None \<Rightarrow> Ret (Inl (SC_error (wafer_error_new Unimplemented
            (Text ''block '{}' in step '{}' is not registered''
              [A_str (cs_block_label step), A_str (cs_id step)])), state))
      | Some target \<Rightarrow>
          bind (run_resolved (step_call env step target state)
                  (\<lambda>out. case mode of
                     Collect_output \<Rightarrow> Collected (collect_buffered out)
                   | Forward_stream \<Rightarrow> open_terminal_output out)) (\<lambda>r.
          Ret (case r of
             Inl init_failure \<Rightarrow> Inl (SC_error init_failure, state)
           | Inr (Streaming meta out) \<Rightarrow> Inl (forward_stream step state meta out)
           | Inr (Collected buf) \<Rightarrow> process_result env step state buf)))))"

text \<open>The value a step's output becomes in the accumulator.\<close>

definition output_value :: "step_env \<Rightarrow> invocation_outcome \<Rightarrow> exec_state \<Rightarrow> json" where
  "output_value env outcome state =
     (case outcome of
        Responded \<Rightarrow> (case jc_from_slice (sv_json env) (es_body state) of Some v \<Rightarrow> v | None \<Rightarrow> Null)
      | NoOutput \<Rightarrow> Null)"

section \<open>Fan-out\<close>

text \<open>The loop of \<^verbatim>\<open>run_each\<close> over the remaining items, \<open>results\<close> being what it has pushed.\<close>

fun each_loop :: "step_env \<Rightarrow> compiled_step \<Rightarrow> json list \<Rightarrow> nat \<Rightarrow> json list \<Rightarrow> exec_state
    \<Rightarrow> ((short_circuit \<times> exec_state) + (json list \<times> exec_state)) task" where
  "each_loop env step [] index results state = Ret (Inr (results, state))"
| "each_loop env step (item # rest) index results state =
     try_bind (in_state state (check_budget env)) (\<lambda>_.
     try_bind (in_state state (check_cancel_deadline env)) (\<lambda>_.
     try_bind (in_state state (Ret
        (if cs_input step \<noteq> None then Inr state
         else (case jc_to_vec (sv_json env) item of
                 Inr bs \<Rightarrow> Inr (state\<lparr>es_body := bs\<rparr>)
               | Inl e \<Rightarrow> Inl (SC_error (wafer_error_new Internal
                   (Text ''failed to serialize each item {index} for step '{}': {e}''
                     [A_nat index, A_str (cs_id step), A_str e]))))))) (\<lambda>state.
     try_bind (run_invocation env step
        (state\<lparr>es_acc := acc_set (es_acc state) ''each''
           (Object [(''index'', Number (PosInt index)), (''item'', item)])\<rparr>) Collect_output) (\<lambda>(outcome, state).
     each_loop env step rest (Suc index) (results @ [output_value env outcome state]) state))))"

definition run_each :: "step_env \<Rightarrow> compiled_step \<Rightarrow> compiled_each \<Rightarrow> exec_state
    \<Rightarrow> ((short_circuit \<times> exec_state) + exec_state) task" where
  "run_each env step each state =
     try_bind (in_state state (Ret (case path_resolve (ce_path each) (es_acc state) of
         Inr (Array arr) \<Rightarrow> Inr arr
       | Inr other \<Rightarrow> Inl (SC_error (wafer_error_new InvalidArgument
           (Text ''each expression '{}' in step '{}' must resolve to an array, got {other}''
             [A_str (ce_raw each), A_str (cs_id step), A_json other])))
       | Inl e \<Rightarrow> Inl (SC_error (wafer_error_new InvalidArgument
           (Text ''each expression '{}' in step '{}' failed to resolve: {e}''
             [A_str (ce_raw each), A_str (cs_id step), A_expr e])))))) (\<lambda>arr.
     try_bind (each_loop env step arr 0 [] state) (\<lambda>(results, state).
     let state = state\<lparr>es_acc := acc_remove (es_acc state) ''each''\<rparr>
     in Ret (case jc_to_vec (sv_json env) (Array results) of
          Inr bs \<Rightarrow> Inr (state\<lparr>es_body := bs, es_acc := acc_set (es_acc state) (cs_id step) (Array results)\<rparr>)
        | Inl e \<Rightarrow> Inl (SC_error (wafer_error_new Internal
            (Text ''failed to serialize results of step '{}': {e}'' [A_str (cs_id step), A_str e])), state))))"

section \<open>Joining branches\<close>

definition branch_state :: "exec_state \<Rightarrow> exec_state" where
  "branch_state state = state\<lparr>es_acc := branch_from (es_acc state)\<rparr>"

text \<open>The entries of a branch that merge back: those the parent did not have at the fork.\<close>

definition new_entries :: "accumulator \<Rightarrow> (string \<Rightarrow> json option) \<Rightarrow> string \<Rightarrow> json option" where
  "new_entries parent delta = (\<lambda>k. if acc_get parent k = None then delta k else None)"

fun acc_merge :: "accumulator \<Rightarrow> (string \<Rightarrow> json option) \<Rightarrow> accumulator" where
  "acc_merge (Accumulator parent data) delta = Accumulator parent (data ++ delta)"

text \<open>The tail of \<^verbatim>\<open>run_parallel\<close>, after all branches have been awaited: the first failure in
  declaration order, or the deltas merged in that order.  The state of a failed branch is
  dropped with the branch.\<close>

fun first_failure :: "((short_circuit \<times> exec_state) + exec_state) list \<Rightarrow> short_circuit option" where
  "first_failure [] = None"
| "first_failure (Inl (sc, _) # rest) = Some sc"
| "first_failure (Inr _ # rest) = first_failure rest"

definition branch_deltas :: "((short_circuit \<times> exec_state) + exec_state) list \<Rightarrow> (string \<Rightarrow> json option) list" where
  "branch_deltas outcomes =
     concat (map (\<lambda>r. case r of Inr st \<Rightarrow> [into_data (es_acc st)] | Inl _ \<Rightarrow> []) outcomes)"

definition join_branches :: "exec_state \<Rightarrow> ((short_circuit \<times> exec_state) + exec_state) list
    \<Rightarrow> (short_circuit \<times> exec_state) + exec_state" where
  "join_branches state outcomes =
     (case first_failure outcomes of
        Some failure \<Rightarrow> Inl (failure, state)
      | None \<Rightarrow> Inr (state\<lparr>es_acc :=
          fold (\<lambda>delta acc. acc_merge acc delta)
            (map (new_entries (es_acc state)) (branch_deltas outcomes)) (es_acc state)\<rparr>))"

section \<open>Steps\<close>

fun run_step :: "step_env \<Rightarrow> compiled_step \<Rightarrow> exec_state \<Rightarrow> response_mode
    \<Rightarrow> ((short_circuit \<times> exec_state) + exec_state) task"
and run_branches :: "step_env \<Rightarrow> compiled_branch list \<Rightarrow> exec_state
    \<Rightarrow> ((short_circuit \<times> exec_state) + exec_state) task list"
and run_branch_steps :: "step_env \<Rightarrow> compiled_step list \<Rightarrow> exec_state
    \<Rightarrow> ((short_circuit \<times> exec_state) + exec_state) task" where
  "run_step env (CompiledStep sid label target input config each par nxt) state mode =
     try_bind (in_state state (check_budget env)) (\<lambda>_.
     try_bind (in_state state (check_cancel_deadline env)) (\<lambda>_.
     try_bind (case par of None \<Rightarrow> Ret (Inr state)
               | Some branches \<Rightarrow>
                   bind (join_all (run_branches env branches state)) (\<lambda>outcomes.
                   Ret (join_branches state outcomes))) (\<lambda>state.
     (let step = CompiledStep sid label target input config each par nxt in
      case each of
        Some e \<Rightarrow> run_each env step e state
      | None \<Rightarrow>
          try_bind (run_invocation env step state mode) (\<lambda>(outcome, state).
          Ret (Inr (if input \<noteq> None
                    then state\<lparr>es_acc := acc_set (es_acc state) sid (output_value env outcome state)\<rparr>
                    else state)))))))"
| "run_branches env [] state = []"
| "run_branches env (CompiledBranch steps # branches) state =
     run_branch_steps env steps (branch_state state) # run_branches env branches state"
| "run_branch_steps env [] state = Ret (Inr state)"
| "run_branch_steps env (step # steps) state =
     (if cs_next step \<noteq> None
      then Ret (Inl (SC_error (wafer_error_new InvalidArgument
             (Text (''step '{}': 'next' routing inside parallel branches is not supported '' @ [CHR 0xE2, CHR 0x80, CHR 0x94]
                    @ '' branch steps run strictly in order'') [A_str (cs_id step)])), state))
      else try_bind (run_step env step state Collect_output) (\<lambda>state. run_branch_steps env steps state))"

section \<open>The flow\<close>

datatype routing =
    Route_error wafer_error
  | Jump nat
  | Leave string
  | Fall_through

text \<open>The \<^verbatim>\<open>next\<close> entries of a step: the first whose condition holds is taken.\<close>

fun take_next :: "step_env \<Rightarrow> compiled_step \<Rightarrow> accumulator \<Rightarrow> compiled_next_entry list \<Rightarrow> routing" where
  "take_next env step acc [] = Fall_through"
| "take_next env step acc (entry # entries) =
     (case (case cn_when entry of
              None \<Rightarrow> Inr True
            | Some (condition, compiled) \<Rightarrow>
                (case condition_eval compiled acc of
                   Inr taken \<Rightarrow> Inr taken
                 | Inl e \<Rightarrow> Inl (wafer_error_new InvalidArgument
                     (Text ''flow '{}' step '{}': condition '{condition}' failed to evaluate: {e}''
                       [A_str (cf_id (sv_flow env)), A_str (cs_id step), A_str condition, A_expr e])))) of
        Inl e \<Rightarrow> Route_error e
      | Inr False \<Rightarrow> take_next env step acc entries
      | Inr True \<Rightarrow>
          (case cn_target entry of
             To_step i \<Rightarrow> Jump i
           | Missing_step target \<Rightarrow> Route_error (wafer_error_new Unimplemented
               (Text ''next target step '{target_step}' does not exist'' [A_str target]))
           | To_flow f \<Rightarrow> Leave f
           | No_target \<Rightarrow> Fall_through))"

definition flow_not_found :: "string \<Rightarrow> wafer_error" where
  "flow_not_found flow_id = wafer_error_new Unimplemented (Text ''flow is not registered: {flow_id}'' [A_str flow_id])"

definition is_terminal_step :: "step_env \<Rightarrow> nat \<Rightarrow> bool \<Rightarrow> bool" where
  "is_terminal_step env current routed \<longleftrightarrow>
     (let steps = cf_steps (sv_flow env); step = steps ! current in
      cs_next step = None \<and> (routed \<or> current + 1 = length steps) \<and> cs_each step = None \<and> cs_parallel step = None)"

text \<open>The loop of \<^verbatim>\<open>execute\<close>.  It may jump backwards, so it runs on fuel; every turn charges the
  step budget of the chain, which bounds the fuel it needs.\<close>

fun step_loop :: "nat \<Rightarrow> step_env \<Rightarrow> nat \<Rightarrow> bool \<Rightarrow> exec_state \<Rightarrow> flow_outcome task" where
  "step_loop 0 env current routed state = Ret Out_of_fuel"
| "step_loop (Suc fuel) env current routed state =
     (let steps = cf_steps (sv_flow env);
          finish = (\<lambda>state. Ret (Done (respond_with_meta (es_body state) (response_meta_of (es_msg state)))))
      in if current < length steps then
        (let step = steps ! current;
             mode = (if is_terminal_step env current routed then Forward_stream else Collect_output)
         in bind (run_step env step state mode) (\<lambda>r.
            case r of
              Inl (sc, state) \<Rightarrow> Ret (Done (into_output sc state))
            | Inr state \<Rightarrow>
                (case cs_next step of
                   None \<Rightarrow> if routed then finish state else step_loop fuel env (current + 1) False state
                 | Some entries \<Rightarrow>
                     (case take_next env step (es_acc state) entries of
                        Route_error e \<Rightarrow> Ret (Done (into_output (SC_error e) state))
                      | Jump i \<Rightarrow> step_loop fuel env i True state
                      | Fall_through \<Rightarrow> step_loop fuel env (current + 1) False state
                      | Leave target \<Rightarrow>
                          (case sv_flow_plan env target of
                             None \<Rightarrow> Ret (Done (into_output (SC_error (flow_not_found target)) state))
                           | Some plan \<Rightarrow> Ret (Transfer plan (es_msg state) (es_body state) (es_record state)))))))
      else finish state)"

definition initial_state :: "step_env \<Rightarrow> message \<Rightarrow> bytes \<Rightarrow> responder_record \<Rightarrow> exec_state" where
  "initial_state env msg body record =
     \<lparr>es_acc = (if cf_uses_accumulator (sv_flow env)
                then acc_set acc_new ''input''
                       (case jc_from_slice (sv_json env) body of Some v \<Rightarrow> v | None \<Rightarrow> Null)
                else acc_new),
      es_body = body, es_msg = msg, es_record = record\<rparr>"

text \<open>\<open>input\<close> is what \<^verbatim>\<open>collect_to_bytes\<close> makes of the input stream.\<close>

definition execute :: "nat \<Rightarrow> step_env \<Rightarrow> message \<Rightarrow> wafer_error + bytes \<Rightarrow> responder_record \<Rightarrow> flow_outcome task" where
  "execute fuel env msg input record =
     (case input of
        Inl e \<Rightarrow> Ret (Done (out_error e))
      | Inr body \<Rightarrow> step_loop fuel env 0 False (initial_state env msg body record))"

end
