(* ===== verification/Flow_Runner.thy ===== *)
theory Flow_Runner
  imports Flow_Executor
begin

text \<open>
  \<^verbatim>\<open>crates/wafer-run/src/runtime/runner.rs\<close>: running a flow by id, the chain of transfers as a loop,
  and running a single block; \<^verbatim>\<open>add_flow\<close> and the compiled plan of \<^verbatim>\<open>runtime/exec_plan.rs\<close>.
\<close>

section \<open>The runtime\<close>

datatype seal_state = Unsealed | Sealed | Seal_failed string

record wafer =
  wa_registration :: registration_core
  wa_flows :: "(string \<times> wafer_flow) list"
  wa_plan_flows :: "string \<Rightarrow> compiled_flow option"
  wa_plan_configs :: "string \<Rightarrow> (string \<Rightarrow> string option) option"
  wa_seal_state :: seal_state
  wa_env :: plan_env
  wa_json :: json_codec

definition add_flow :: "wafer \<Rightarrow> wafer_flow \<Rightarrow> validation_error list + wafer" where
  "add_flow w flow =
     and_then (validate (pe_from_str (wa_env w)) flow) (\<lambda>_.
       Inr (w\<lparr>wa_flows := AList.update (wf_id flow) flow (wa_flows w)\<rparr>))"

definition compile_plan :: "wafer \<Rightarrow> wafer" where
  "compile_plan w =
     w\<lparr>wa_plan_flows := (\<lambda>id. map_option (compile_flow (wa_env w) (wa_registration w)) (map_of (wa_flows w) id)),
       wa_plan_configs := (\<lambda>name. map_option (parse_config_map (wa_env w)) (rc_block_configs (wa_registration w) name))\<rparr>"

definition config_for :: "wafer \<Rightarrow> string \<Rightarrow> string \<Rightarrow> string option" where
  "config_for w resolved = (case wa_plan_configs w resolved of Some c \<Rightarrow> c | None \<Rightarrow> Map.empty)"

definition flow_plan :: "wafer \<Rightarrow> string \<Rightarrow> compiled_flow option" where
  "flow_plan w flow_id =
     (case wa_plan_flows w flow_id of
        Some compiled \<Rightarrow> Some compiled
      | None \<Rightarrow> map_option (compile_flow (wa_env w) (wa_registration w)) (map_of (wa_flows w) flow_id))"

definition refuse_unless_sealed :: "wafer \<Rightarrow> output_stream option" where
  "refuse_unless_sealed w =
     (case wa_seal_state w of
        Sealed \<Rightarrow> None
      | Unsealed \<Rightarrow> Some (out_error (wafer_error_new FailedPrecondition
          (Text ''runtime is not sealed: call seal() (or start()) before dispatching'' [])))
      | Seal_failed reason \<Rightarrow> Some (out_error (wafer_error_new FailedPrecondition
          (Text ''runtime failed to seal, so it cannot dispatch: {reason}'' [A_str reason]))))"

section \<open>Running\<close>

definition step_env_of :: "wafer \<Rightarrow> compiled_flow \<Rightarrow> transfer_chain \<Rightarrow> step_env" where
  "step_env_of w plan chain = \<lparr>sv_flow = plan, sv_chain = chain, sv_json = wa_json w, sv_flow_plan = flow_plan w\<rparr>"

definition fire_flow_ends :: "compiled_flow list \<Rightarrow> 'a task \<Rightarrow> 'a task" where
  "fire_flow_ends entered t = fold (\<lambda>plan t. Observe (Flow_end (cf_id plan)) t) entered t"

text \<open>The loop of \<^verbatim>\<open>run_plan\<close>; \<open>turns\<close> is the fuel of the loop over transfers, \<open>fuel\<close> that of each
  flow.  \<open>None\<close> is running out of either.\<close>

fun plan_loop :: "nat \<Rightarrow> nat \<Rightarrow> wafer \<Rightarrow> transfer_chain \<Rightarrow> compiled_flow list \<Rightarrow> compiled_flow \<Rightarrow> message
    \<Rightarrow> wafer_error + bytes \<Rightarrow> responder_record \<Rightarrow> output_stream option task" where
  "plan_loop 0 fuel w chain entered plan msg input record = Ret None"
| "plan_loop (Suc turns) fuel w chain entered plan msg input record =
     Observe (Flow_start (cf_id plan) msg) (Now (\<lambda>start.
       let chain = chain_enter chain plan start in
       bind (execute fuel (step_env_of w plan chain) msg input record) (\<lambda>outcome.
         case outcome of
           Done out \<Rightarrow> fire_flow_ends (entered @ [plan]) (Ret (Some out))
         | Out_of_fuel \<Rightarrow> Ret None
         | Transfer plan' msg' body' record' \<Rightarrow>
             plan_loop turns fuel w chain (entered @ [plan]) plan' msg' (Inr body') record')))"

definition run_plan :: "nat \<Rightarrow> wafer \<Rightarrow> compiled_flow \<Rightarrow> message \<Rightarrow> wafer_error + bytes \<Rightarrow> output_stream option task" where
  "run_plan fuel w plan msg input = plan_loop fuel fuel w chain_new [] plan msg input Map.empty"

definition run :: "nat \<Rightarrow> wafer \<Rightarrow> string \<Rightarrow> message \<Rightarrow> wafer_error + bytes \<Rightarrow> output_stream option task" where
  "run fuel w flow_id msg input =
     (case refuse_unless_sealed w of
        Some refused \<Rightarrow> Ret (Some refused)
      | None \<Rightarrow>
          (case flow_plan w flow_id of
             Some plan \<Rightarrow> run_plan fuel w plan msg input
           | None \<Rightarrow> Ret (Some (out_error (flow_not_found flow_id)))))"

definition run_block :: "wafer \<Rightarrow> string \<Rightarrow> message \<Rightarrow> bytes \<Rightarrow> output_stream task" where
  "run_block w block_name msg input =
     (case refuse_unless_sealed w of
        Some refused \<Rightarrow> Ret refused
      | None \<Rightarrow>
          (case lookup_with_alias (wa_registration w) block_name of
             None \<Rightarrow> Ret (out_error (wafer_error_new Unimplemented
               (Text ''block is not registered: {block_name}'' [A_str block_name])))
           | Some (resolved, _) \<Rightarrow>
               bind (run_resolved
                 \<lparr>bc_flow_id = [], bc_node_path = resolved, bc_block_name = block_name, bc_resolved = resolved,
                  bc_config = config_for w resolved, bc_deadline = None, bc_msg = msg, bc_body = input\<rparr> id) (\<lambda>r.
               Ret (case r of Inl e \<Rightarrow> out_error e | Inr out \<Rightarrow> out))))"

text \<open>The machine a request starts on: nothing charged, nothing cancelled.\<close>

definition fresh_machine :: "'w \<Rightarrow> 'w machine" where
  "fresh_machine w = \<lparr>mc_world = w, mc_used = 0, mc_cancelled = False, mc_observed = [], mc_invoked = []\<rparr>"

end
