(* ===== verification/Flow_Budget.thy ===== *)
theory Flow_Budget
  imports Flow_Runner
begin

text \<open>
  The step budget: every request gets an answer, and no request dispatches to more blocks than
  the budget of the flow it entered allows, whatever the flow jumps to, fans out over, runs in
  parallel or transfers to.
\<close>

section \<open>Every request is answered\<close>

lemma used_mono: "exec env t m = (a, m') \<Longrightarrow> mc_used m \<le> mc_used m'"
  using used.exec_ordered [of m env t] by simp

lemma exec_check_budget:
  "exec env (in_state state (check_budget sv)) m =
     (if mc_used m \<ge> tc_max_steps (sv_chain sv)
      then Inl (SC_error (wafer_error_new ResourceExhausted
             (Text (''max steps ({}) exceeded in flow '{}'' @ [squote])
                [A_nat (tc_max_steps (sv_chain sv)), A_str (cf_id (sv_flow sv))])), state)
      else Inr (), m\<lparr>mc_used := Suc (mc_used m)\<rparr>)"
  by (simp add: in_state_def check_budget_def exec_bind)

text \<open>A step that completes has been charged: the budget was not spent, and is now lower.\<close>

lemma run_step_charged:
  assumes "exec env (run_step sv step state mode) m = (Inr state', m')"
  shows "mc_used m < tc_max_steps (sv_chain sv) \<and> mc_used m < mc_used m'"
proof -
  obtain sid label target input config each par nxt
    where step: "step = CompiledStep sid label target input config each par nxt" by (cases step)
  obtain k where run: "run_step sv step state mode = try_bind (in_state state (check_budget sv)) k"
    unfolding step run_step.simps by blast
  show ?thesis
    using assms used_mono [of env "k ()" "m\<lparr>mc_used := Suc (mc_used m)\<rparr>"]
    unfolding run exec_try_bind exec_check_budget by (auto split: if_splits)
qed

lemma step_loop_fuel:
  assumes "fuel > tc_max_steps (sv_chain sv) - mc_used m"
  shows "fst (exec env (step_loop fuel sv current routed state) m) \<noteq> Out_of_fuel"
  using assms
proof (induction fuel arbitrary: current routed state m)
  case (Suc fuel)
  have next_turn: "fst (exec env (step_loop fuel sv c r st) m') \<noteq> Out_of_fuel"
    if "exec env (run_step sv step state mode) m = (Inr st', m')" for c r st step mode st' m'
    using run_step_charged [OF that] Suc.prems by (intro Suc.IH) linarith
  show ?case
  proof (cases "current < length (cf_steps (sv_flow sv))")
    case True
    obtain r m' where r: "exec env (run_step sv (cf_steps (sv_flow sv) ! current) state
        (if is_terminal_step sv current routed then Forward_stream else Collect_output)) m = (r, m')"
      by force
    show ?thesis
      using True next_turn r
      by (auto simp: exec_bind Let_def split: sum.splits option.splits routing.splits)
  qed (simp add: Let_def)
qed simp

lemma step_loop_transfer:
  assumes "exec env (step_loop fuel sv current routed state) m = (Transfer plan msg body rec, m')"
  shows "mc_used m < tc_max_steps (sv_chain sv) \<and> mc_used m < mc_used m'"
  using assms
proof (induction fuel arbitrary: current routed state m)
  case (Suc fuel)
  let ?mode = "if is_terminal_step sv current routed then Forward_stream else Collect_output"
  let ?t = "run_step sv (cf_steps (sv_flow sv) ! current) state ?mode"
  have "current < length (cf_steps (sv_flow sv))"
    using Suc.prems by (auto simp: Let_def split: if_splits)
  then obtain st m1 where st: "exec env ?t m = (Inr st, m1)"
    using Suc.prems by (cases "exec env ?t m") (auto simp: exec_bind Let_def split: sum.splits)
  obtain t where "exec env t m1 = (Transfer plan msg body rec, m')"
    using Suc.prems st \<open>current < _\<close> by (auto simp: exec_bind Let_def)
  then have "mc_used m1 \<le> mc_used m'" by (rule used_mono)
  with run_step_charged [OF st] show ?case by simp
qed simp

lemma chain_enter_max: "tc_max_steps (chain_enter chain plan now) = min (tc_max_steps chain) (cf_max_steps plan)"
  by (simp add: chain_enter_def)

lemma exec_fire_flow_ends:
  "exec env (fire_flow_ends entered t) m =
     exec env t (m\<lparr>mc_observed := mc_observed m @ map (\<lambda>p. Flow_end (cf_id p)) (rev entered)\<rparr>)"
proof (induction entered arbitrary: t m rule: rev_induct)
  case (snoc p entered)
  then show ?case by (simp add: fire_flow_ends_def)
qed (simp add: fire_flow_ends_def)

lemma plan_loop_answers:
  assumes "min (tc_max_steps chain) (cf_max_steps plan) - mc_used m < turns"
    and "min (tc_max_steps chain) (cf_max_steps plan) < fuel"
  shows "\<exists>out. fst (exec env (plan_loop turns fuel w chain entered plan msg input rec) m) = Some out"
  using assms
proof (induction turns arbitrary: chain entered plan msg input rec m)
  case (Suc turns)
  define now where "now = fst (re_clock env (mc_world m))"
  define m0 where "m0 = m\<lparr>mc_observed := mc_observed m @ [Flow_start (cf_id plan) msg], mc_world := snd (re_clock env (mc_world m))\<rparr>"
  define chain' where "chain' = chain_enter chain plan now"
  let ?sv = "step_env_of w plan chain'"
  have used0: "mc_used m0 = mc_used m" by (simp add: m0_def)
  have lim: "tc_max_steps (sv_chain ?sv) = min (tc_max_steps chain) (cf_max_steps plan)"
    by (simp add: step_env_of_def chain'_def chain_enter_max)
  obtain r m' where r: "exec env (execute fuel ?sv msg input rec) m0 = (r, m')" by force
  have nf: "r \<noteq> Out_of_fuel"
  proof (cases input)
    case (Inr body)
    then show ?thesis
      using r Suc.prems(2) lim step_loop_fuel [of ?sv m0 fuel env]
      by (auto simp: execute_def dest!: arg_cong [of _ _ fst])
  qed (use r in \<open>auto simp: execute_def\<close>)
  have ex: "exec env (plan_loop (Suc turns) fuel w chain entered plan msg input rec) m
      = exec env (case r of
           Done out \<Rightarrow> fire_flow_ends (entered @ [plan]) (Ret (Some out))
         | Out_of_fuel \<Rightarrow> Ret None
         | Transfer plan' msg' body' record' \<Rightarrow>
             plan_loop turns fuel w chain' (entered @ [plan]) plan' msg' (Inr body') record') m'"
    using r unfolding chain'_def now_def m0_def by (simp add: exec_bind Let_def split_beta)
  show ?case
  proof (cases r)
    case (Done out)
    then show ?thesis using ex by (simp add: exec_fire_flow_ends)
  next
    case (Transfer plan' msg' body' rec')
    then obtain body where "input = Inr body" using r by (cases input) (auto simp: execute_def)
    then have "mc_used m0 < tc_max_steps (sv_chain ?sv) \<and> mc_used m0 < mc_used m'"
      using r Transfer by (intro step_loop_transfer) (simp add: execute_def)
    then have "min (tc_max_steps chain') (cf_max_steps plan') - mc_used m' < turns"
      and "min (tc_max_steps chain') (cf_max_steps plan') < fuel"
      using Suc.prems lim used0 by (auto simp: step_env_of_def)
    from Suc.IH [OF this] show ?thesis using ex Transfer by simp
  qed (use nf in simp)
qed simp

text \<open>C10: Every request to run a flow is answered: whatever the blocks answer, however branches
  interleave and whatever flows transfer to each other, in a cycle or not, the chain of flows
  ends with a response stream once it has been given fuel for one more step than the budget of
  the flow it entered.\<close>

theorem run_plan_answers:
  assumes "cf_max_steps plan < fuel"
  shows "\<exists>out. fst (exec env (run_plan fuel w plan msg input) m) = Some out"
  unfolding run_plan_def using assms by (intro plan_loop_answers) (auto simp: chain_new_def)

text \<open>A flow whose only step jumps back to itself, with a budget of two steps, and blocks that
  always pass the message on.\<close>

definition looping_plan :: compiled_flow where
  "looping_plan = \<lparr>cf_id = ''loop'', cf_timeout = None, cf_max_steps = 2, cf_on_error = Stop, cf_uses_accumulator = False,
     cf_steps = [CompiledStep ''a'' ''x/y'' (Some ''x/y'') None Map.empty None None
       (Some [\<lparr>cn_when = None, cn_target = To_step 0\<rparr>])]\<rparr>"

definition passing_env :: "unit runtime_env" where
  "passing_env = \<lparr>re_clock = \<lambda>w. (0, w), re_init = \<lambda>_ w. (None, w),
     re_invoke = \<lambda>c w. ([stream_event.Continue (bc_msg c)], w), re_poll = \<lambda>_ w. (0, w)\<rparr>"

definition bare_wafer :: wafer where
  "bare_wafer = \<lparr>wa_registration = registration_new, wa_flows = [], wa_plan_flows = Map.empty, wa_plan_configs = Map.empty,
     wa_seal_state = Sealed, wa_env = \<lparr>pe_from_str = \<lambda>_. None, pe_number = \<lambda>_. []\<rparr>,
     wa_json = \<lparr>jc_from_slice = \<lambda>_. None, jc_to_vec = \<lambda>_. Inr []\<rparr>\<rparr>"

theorem run_plan_answers_witness:
  "cf_max_steps looping_plan < 3
   \<and> (\<exists>out. fst (exec passing_env (run_plan 3 bare_wafer looping_plan
          \<lparr>msg_kind = ''http.request'', msg_meta = []\<rparr> (Inr [])) (fresh_machine ())) = Some out)"
  using run_plan_answers [of looping_plan 3 passing_env bare_wafer "\<lparr>msg_kind = ''http.request'', msg_meta = []\<rparr>"
      "Inr []" "fresh_machine ()"]
  by (simp add: looping_plan_def)

section \<open>Dispatches are paid for\<close>

text \<open>The tasks of the executor charge the chain's limit.\<close>

lemma paid_in_state: "paid limit n t \<Longrightarrow> paid limit n (in_state state t)"
  unfolding in_state_def by (rule paid_bind) simp_all

lemma paid_check_cancel: "paid limit n (in_state state (check_cancel_deadline sv))"
  by (rule paid_in_state) (simp add: check_cancel_deadline_def split: option.splits)

lemma paid_check_budget_then:
  assumes "limit = tc_max_steps (sv_chain sv)" and "paid limit (Suc n) (k ())"
  shows "paid limit n (try_bind (in_state state (check_budget sv)) k)"
  using assms by (simp add: try_bind_def in_state_def check_budget_def)

lemma paid_run_resolved: "paid limit (Suc n) (run_resolved call rd)"
  by (auto simp: run_resolved_def split: option.splits)

text \<open>An invocation uses one charge.\<close>

lemma paid_run_invocation: "paid limit 1 (run_invocation sv step state mode)"
proof -
  have "paid limit 1 (case cs_target step of
        None \<Rightarrow> Ret (Inl (sc, st))
      | Some target \<Rightarrow> bind (run_resolved (c target) rd) (\<lambda>r. Ret (g r)))" for sc st c rd g
    using paid_run_resolved [of limit 0] by (auto intro!: paid_bind split: option.splits)
  then show ?thesis
    unfolding run_invocation_def try_bind_def
    by (auto simp: in_state_def check_cancel_deadline_def split: option.splits sum.splits)
qed

lemma paid_each_loop:
  assumes "limit = tc_max_steps (sv_chain sv)"
  shows "paid limit n (each_loop sv step arr index results state)"
  using assms
proof (induction arr arbitrary: n index results state)
  case (Cons item arr)
  have inv: "paid limit (Suc n) (try_bind (run_invocation sv step st Collect_output) (\<lambda>(outcome, state).
      each_loop sv step arr (Suc index) (results @ [output_value sv outcome state]) state))" for st n
    by (rule paid_mono [of _ 1], rule paid_try_bind [OF paid_run_invocation]) (auto intro: Cons.IH Cons.prems)
  show ?case
    unfolding each_loop.simps
    apply (rule paid_check_budget_then [OF Cons.prems])
    apply (simp add: try_bind_def in_state_def check_cancel_deadline_def split: option.splits sum.splits)
    using inv by (auto simp: try_bind_def in_state_def split: sum.splits)
qed simp

lemma paid_run_each:
  assumes "limit = tc_max_steps (sv_chain sv)"
  shows "paid limit n (run_each sv step each state)"
  unfolding run_each_def
  by (rule paid_try_bind, rule paid_in_state, simp, rule paid_try_bind [OF paid_each_loop [OF assms]])
     (auto simp: Let_def split: sum.splits)

lemma paid_steps:
  assumes "limit = tc_max_steps (sv_chain sv)"
  shows "paid limit 0 (run_step sv step state mode)"
    and "list_all2 (paid limit) (replicate (length branches) 0) (run_branches sv branches state)"
    and "paid limit 0 (run_branch_steps sv steps state)"
  using assms
proof (induction sv step state mode and sv branches state and sv steps state
    rule: run_step_run_branches_run_branch_steps.induct)
  case (1 sv sid label target input config each par nxt state mode)
  let ?step = "CompiledStep sid label target input config each par nxt"
  have branches: "paid limit 0 (case par of None \<Rightarrow> Ret (Inr state)
      | Some branches \<Rightarrow> bind (join_all (run_branches sv branches state)) (\<lambda>outcomes. Ret (join_branches state outcomes)))"
  proof (cases par)
    case (Some bs)
    then have "paid limit (sum_list (replicate (length bs) 0)) (join_all (run_branches sv bs state))"
      using 1 by (intro paid_join_all) auto
    then show ?thesis using Some by (auto intro!: paid_bind simp: sum_list_replicate)
  qed simp
  have own: "paid limit 1 (let step = ?step in case each of
        Some e \<Rightarrow> run_each sv step e st
      | None \<Rightarrow> try_bind (run_invocation sv step st mode) (\<lambda>(outcome, state).
          Ret (Inr (if input \<noteq> None
                    then state\<lparr>es_acc := acc_set (es_acc state) sid (output_value sv outcome state)\<rparr>
                    else state))))" for st
    unfolding Let_def
    by (cases each) (auto intro!: paid_run_each [OF "1.prems"] paid_try_bind [OF paid_run_invocation, simplified])
  have "paid limit (0 + 1) (try_bind (case par of None \<Rightarrow> Ret (Inr state)
      | Some branches \<Rightarrow> bind (join_all (run_branches sv branches state)) (\<lambda>outcomes. Ret (join_branches state outcomes)))
      (\<lambda>st. let step = ?step in case each of
        Some e \<Rightarrow> run_each sv step e st
      | None \<Rightarrow> try_bind (run_invocation sv step st mode) (\<lambda>(outcome, state).
          Ret (Inr (if input \<noteq> None
                    then state\<lparr>es_acc := acc_set (es_acc state) sid (output_value sv outcome state)\<rparr>
                    else state)))))"
    by (rule paid_try_bind_frame [OF branches own])
  then show ?case
    unfolding run_step.simps
    using paid_try_bind_frame [OF paid_check_cancel [of limit 0 state sv], of 1]
    by (intro paid_check_budget_then [OF "1.prems"]) simp
next
  case (5 sv step steps state)
  then show ?case by (auto intro!: paid_try_bind)
qed simp_all

lemma paid_step_loop:
  "limit = tc_max_steps (sv_chain sv) \<Longrightarrow> paid limit 0 (step_loop fuel sv current routed state)"
proof (induction fuel arbitrary: current routed state)
  case (Suc fuel)
  then show ?case
    by (auto simp: Let_def intro!: paid_bind [OF paid_steps(1)] split: sum.splits option.splits routing.splits)
qed simp

lemma paid_execute:
  "limit = tc_max_steps (sv_chain sv) \<Longrightarrow> paid limit 0 (execute fuel sv msg input rec)"
  by (auto simp: execute_def paid_step_loop split: sum.splits)

text \<open>Tightening the limit along a chain can only lower what is granted.\<close>

lemma min_slope:
  fixes a b l l' :: nat
  assumes "a \<le> b" and "l' \<le> l"
  shows "min b l' + min a l \<le> min a l' + min b l"
  using assms by (auto simp: min_def)

lemma plan_loop_invocations:
  assumes "min (tc_max_steps chain) (cf_max_steps plan) \<le> limit"
  shows "length (mc_invoked (snd (exec env (plan_loop turns fuel w chain entered plan msg input rec) m)))
           + min (mc_used m) limit
       \<le> length (mc_invoked m)
           + min (mc_used (snd (exec env (plan_loop turns fuel w chain entered plan msg input rec) m))) limit"
  using assms
proof (induction turns arbitrary: chain entered plan msg input rec m)
  case (Suc turns)
  define m0 where "m0 = m\<lparr>mc_observed := mc_observed m @ [Flow_start (cf_id plan) msg], mc_world := snd (re_clock env (mc_world m))\<rparr>"
  define chain' where "chain' = chain_enter chain plan (fst (re_clock env (mc_world m)))"
  let ?sv = "step_env_of w plan chain'" and ?l = "min (tc_max_steps chain) (cf_max_steps plan)"
  have lim: "?l = tc_max_steps (sv_chain ?sv)"
    by (simp add: step_env_of_def chain'_def chain_enter_max)
  obtain r m' where r: "exec env (execute fuel ?sv msg input rec) m0 = (r, m')" by force
  have u: "mc_used m \<le> mc_used m'" using used_mono [OF r] by (simp add: m0_def)
  have first: "length (mc_invoked m') + min (mc_used m) limit \<le> length (mc_invoked m) + min (mc_used m') limit"
    using paid_exec [OF paid_execute [OF lim], of env fuel msg input rec m0] r min_slope [OF u Suc.prems]
    by (simp add: m0_def)
  have ex: "exec env (plan_loop (Suc turns) fuel w chain entered plan msg input rec) m
      = exec env (case r of
           Done out \<Rightarrow> fire_flow_ends (entered @ [plan]) (Ret (Some out))
         | Out_of_fuel \<Rightarrow> Ret None
         | Transfer plan' msg' body' record' \<Rightarrow>
             plan_loop turns fuel w chain' (entered @ [plan]) plan' msg' (Inr body') record') m'"
    using r unfolding chain'_def m0_def by (simp add: exec_bind Let_def split_beta)
  show ?case
  proof (cases r)
    case (Transfer plan' msg' body' rec')
    have "min (tc_max_steps chain') (cf_max_steps plan') \<le> limit"
      using Suc.prems lim by (simp add: step_env_of_def)
    from Suc.IH [OF this, of "entered @ [plan]" msg' "Inr body'" rec' m'] first
    show ?thesis using ex Transfer by simp
  qed (use first ex in \<open>simp_all add: exec_fire_flow_ends\<close>)
qed simp

text \<open>C11: A request never dispatches to more blocks than the step budget of the flow it enters:
  counted over every jump, every fan-out item, all concurrent branches and all flows it
  transfers to, and for every interleaving of the branches.\<close>

theorem dispatches_within_budget:
  "length (mc_invoked (snd (exec env (run_plan fuel w plan msg input) (fresh_machine world)))) \<le> cf_max_steps plan"
proof -
  have "min (tc_max_steps chain_new) (cf_max_steps plan) \<le> cf_max_steps plan" by simp
  from plan_loop_invocations [OF this, of env fuel fuel w "[]" msg input Map.empty "fresh_machine world"]
  show ?thesis by (simp add: run_plan_def fresh_machine_def)
qed

end
