(* ===== verification/Flow_Schedule.thy ===== *)
theory Flow_Schedule
  imports Flow_Budget
begin

text \<open>
  The order in which concurrent branches are polled, and the time they take, do not influence
  the outcome of a flow.
\<close>

lemma settling_in_state: "settling limit h t \<Longrightarrow> settling limit h (in_state state t)"
  unfolding in_state_def by (rule settling_bind) simp_all

lemma settling_check_cancel:
  "tc_deadline (sv_chain sv) = None \<Longrightarrow> settling limit h (in_state state (check_cancel_deadline sv))"
  by (rule settling_in_state) (simp add: settling_def check_cancel_deadline_def)

lemma settling_check_budget:
  "tc_max_steps (sv_chain sv) = limit \<Longrightarrow> settling limit h (in_state state (check_budget sv))"
  by (rule settling_in_state) (simp add: settling_def check_budget_def)

lemma settling_run_resolved: "settling limit h (run_resolved call rd)"
  by (simp add: settling_def run_resolved_def)

lemmas settling_intros =
  settling_try_bind settling_bind settling_in_state settling_check_cancel settling_check_budget
  settling_run_resolved settling_join_all settling_Ret

lemma settling_run_invocation:
  "tc_deadline (sv_chain sv) = None \<Longrightarrow> settling limit h (run_invocation sv step state mode)"
  unfolding run_invocation_def by (auto intro!: settling_intros split: option.split)

lemma settling_each_loop:
  "tc_deadline (sv_chain sv) = None \<Longrightarrow> tc_max_steps (sv_chain sv) = limit
    \<Longrightarrow> settling limit h (each_loop sv step arr index results state)"
proof (induction arr arbitrary: index results state)
  case (Cons item arr)
  then show ?case
    unfolding each_loop.simps
    by (auto intro!: settling_intros settling_run_invocation split: prod.split simp del: each_loop.simps)
qed simp

lemma settling_run_each:
  "tc_deadline (sv_chain sv) = None \<Longrightarrow> tc_max_steps (sv_chain sv) = limit
    \<Longrightarrow> settling limit h (run_each sv step each state)"
  unfolding run_each_def
  by (auto intro!: settling_intros settling_each_loop simp: Let_def split: prod.split)

lemma settling_steps:
  assumes "tc_deadline (sv_chain sv) = None" and "tc_max_steps (sv_chain sv) = limit"
  shows "settling limit h (run_step sv step state mode)"
    and "list_all (settling limit h) (run_branches sv branches state)"
    and "settling limit h (run_branch_steps sv steps state)"
  using assms
proof (induction sv step state mode and sv branches state and sv steps state
    rule: run_step_run_branches_run_branch_steps.induct)
  case (1 sv sid label target input config each par nxt state mode)
  then show ?case
    unfolding run_step.simps
    by (auto intro!: settling_intros settling_run_each settling_run_invocation simp: Let_def split: option.split prod.split)
next
  case (5 sv step steps state)
  then show ?case by (auto intro!: settling_try_bind)
qed simp_all

lemma settling_step_loop:
  "tc_deadline (sv_chain sv) = None \<Longrightarrow> tc_max_steps (sv_chain sv) = limit
    \<Longrightarrow> settling limit h (step_loop fuel sv current routed state)"
proof (induction fuel arbitrary: current routed state)
  case (Suc fuel)
  then show ?case
    by (auto simp: Let_def intro!: settling_bind [OF settling_steps(1)] split: sum.split option.split routing.split)
qed simp

lemma settling_execute:
  "tc_deadline (sv_chain sv) = None \<Longrightarrow> tc_max_steps (sv_chain sv) = limit
    \<Longrightarrow> settling limit h (execute fuel sv msg input rec)"
  by (auto simp: execute_def settling_step_loop split: sum.split)


text \<open>A step with two parallel branches of one step each, run once with the first pending branch
  polled always and once round robin.\<close>

definition worker :: "string \<Rightarrow> compiled_step" where
  "worker sid = CompiledStep sid ''x/y'' (Some ''x/y'') (Some (CompiledTemplate (TLiteral Null))) Map.empty None None None"

definition forking_env :: step_env where
  "forking_env =
     \<lparr>sv_flow = \<lparr>cf_id = ''fork'', cf_timeout = None, cf_max_steps = 10, cf_on_error = Stop, cf_uses_accumulator = True,
        cf_steps = [CompiledStep ''p'' ''x/y'' (Some ''x/y'') None Map.empty None
          (Some [CompiledBranch [worker ''a''], CompiledBranch [worker ''b'']]) None]\<rparr>,
      sv_chain = \<lparr>tc_max_steps = 10, tc_deadline = None\<rparr>,
      sv_json = \<lparr>jc_from_slice = \<lambda>bs. Some (String bs), jc_to_vec = \<lambda>_. Inr ''v''\<rparr>,
      sv_flow_plan = Map.empty\<rparr>"

definition echo :: "block_call \<Rightarrow> output_stream" where
  "echo c = respond (bc_node_path c)"

definition first_env :: "unit runtime_env" where
  "first_env = \<lparr>re_clock = \<lambda>w. (0, w), re_init = \<lambda>_ w. (None, w), re_invoke = \<lambda>c w. (echo c, w), re_poll = \<lambda>_ w. (0, w)\<rparr>"

definition robin_env :: "nat runtime_env" where
  "robin_env = \<lparr>re_clock = \<lambda>w. (w, w), re_init = \<lambda>_ w. (None, w), re_invoke = \<lambda>c w. (echo c, w), re_poll = \<lambda>_ w. (Suc w, Suc w)\<rparr>"

abbreviation forking_run :: "flow_outcome task" where
  "forking_run \<equiv> execute 11 forking_env \<lparr>msg_kind = ''q'', msg_meta = []\<rparr> (Inr ''in'') Map.empty"


end
