(* ===== verification/Flow_Frame.thy ===== *)
theory Flow_Frame
  imports Flow_Budget
begin

text \<open>
  What a step of a flow may write: its own entry of the accumulator and those of the steps in
  its branches.
\<close>

section \<open>Completed tasks\<close>

text \<open>\<open>completes P t\<close>: whenever \<open>t\<close> returns a value (not an error), the value satisfies \<open>P\<close>,
  whatever blocks answer and however tasks are scheduled.\<close>

definition completes :: "('a \<Rightarrow> bool) \<Rightarrow> ('e + 'a) task \<Rightarrow> bool" where
  "completes P t \<longleftrightarrow> obeys (\<lambda>_. True) (\<lambda>_ _. True) (\<lambda>r. \<forall>a. r = Inr a \<longrightarrow> P a) t"

lemma completes_Ret [simp]: "completes P (Ret r) \<longleftrightarrow> (\<forall>a. r = Inr a \<longrightarrow> P a)"
  by (simp add: completes_def)

lemma completes_try:
  assumes "completes P t" and "\<And>a. P a \<Longrightarrow> completes R (g a)"
  shows "completes R (try_bind t g)"
  unfolding completes_def
  by (rule obeys_try_bind, rule obeys_mono [OF assms(1) [unfolded completes_def]])
     (use assms(2) in \<open>auto simp: completes_def split: sum.split\<close>)

lemma completes_bind:
  assumes "\<And>r. completes R (g r)"
  shows "completes R (bind t g)"
proof -
  have any: "obeys (\<lambda>_. True) (\<lambda>_ _. True) (\<lambda>_. True) t" by (induction t) auto
  show ?thesis
    unfolding completes_def by (rule obeys_bind, rule obeys_mono [OF any]) (use assms in \<open>simp add: completes_def\<close>)
qed

lemma completes_any: "completes (\<lambda>_. True) t"
  unfolding completes_def by (induction t) auto

lemma completes_mono: "completes P t \<Longrightarrow> (\<And>a. P a \<Longrightarrow> R a) \<Longrightarrow> completes R t"
  unfolding completes_def by (erule obeys_mono) blast

lemma completes_exec:
  "completes P t \<Longrightarrow> exec env t m = (Inr a, m') \<Longrightarrow> P a"
  using obeys_exec [of "\<lambda>_. True" "\<lambda>_ _. True" "\<lambda>r. \<forall>a. r = Inr a \<longrightarrow> P a" t env m]
  by (simp add: completes_def)

section \<open>Frames\<close>

definition frame :: "string set \<Rightarrow> accumulator \<Rightarrow> accumulator \<Rightarrow> bool" where
  "frame S a a' \<longleftrightarrow> acc_parent a' = acc_parent a \<and> (\<forall>k. k \<notin> S \<longrightarrow> acc_data a' k = acc_data a k)"

lemma frame_refl [simp]: "frame S a a"
  by (simp add: frame_def)

lemma frame_trans: "frame S a b \<Longrightarrow> frame S b c \<Longrightarrow> frame S a c"
  by (simp add: frame_def)

lemma frame_mono: "frame S a b \<Longrightarrow> S \<subseteq> T \<Longrightarrow> frame T a b"
  by (auto simp: frame_def)

lemma frame_set: "k \<in> S \<Longrightarrow> frame S a b \<Longrightarrow> frame S a (acc_set b k v)"
  by (auto simp: frame_def)

lemma frame_remove: "k \<in> S \<Longrightarrow> frame S a b \<Longrightarrow> frame S a (acc_remove b k)"
  by (auto simp: frame_def)

lemma frame_get: "frame S a a' \<Longrightarrow> k \<notin> S \<Longrightarrow> acc_get a' k = acc_get a k"
  by (cases a; cases a') (auto simp: frame_def)

lemma frame_merge: "(\<And>k. k \<notin> S \<Longrightarrow> delta k = None) \<Longrightarrow> frame S a b \<Longrightarrow> frame S a (acc_merge b delta)"
  by (cases b) (auto simp: frame_def map_add_def split: option.split)

lemma frame_merges:
  "(\<And>delta k. delta \<in> set deltas \<Longrightarrow> k \<notin> S \<Longrightarrow> delta k = None) \<Longrightarrow> frame S a b
    \<Longrightarrow> frame S a (fold (\<lambda>delta acc. acc_merge acc delta) deltas b)"
  by (induction deltas arbitrary: b) (auto intro: frame_merge)

section \<open>Invocations\<close>

text \<open>An invocation leaves the accumulator alone.\<close>

lemma process_result_acc: "process_result sv step state buf = Inr (out, state') \<Longrightarrow> es_acc state' = es_acc state"
  by (auto simp: process_result_def apply_to_state_def split_beta Let_def
      split: option.splits sum.splits terminal_not_response.splits on_error.splits)

lemma resolve_step_input_acc: "resolve_step_input sv step state = Inr state' \<Longrightarrow> es_acc state' = es_acc state"
  by (auto simp: resolve_step_input_def split: option.splits sum.splits)

lemma completes_in_state: "(\<And>a. r = Inr a \<Longrightarrow> P a) \<Longrightarrow> completes P (in_state state (Ret r))"
  by (simp add: in_state_def split: sum.split)

lemma run_invocation_frame: "completes (\<lambda>(out, state'). es_acc state' = es_acc state) (run_invocation sv step state mode)"
  unfolding run_invocation_def
proof (rule completes_try [OF completes_any], rule completes_try [OF completes_in_state])
  show "es_acc st = es_acc state" if "resolve_step_input sv step state = Inr st" for st
    using resolve_step_input_acc [OF that] .
next
  fix st :: exec_state
  assume "es_acc st = es_acc state"
  then show "completes (\<lambda>(out, state'). es_acc state' = es_acc state)
    (case cs_target step of
        None \<Rightarrow> Ret (Inl (SC_error (wafer_error_new Unimplemented
            (Text ''block '{}' in step '{}' is not registered''
              [A_str (cs_block_label step), A_str (cs_id step)])), st))
      | Some target \<Rightarrow>
          bind (run_resolved (step_call sv step target st)
                  (\<lambda>out. case mode of
                     Collect_output \<Rightarrow> Collected (collect_buffered out)
                   | Forward_stream \<Rightarrow> open_terminal_output out)) (\<lambda>r.
          Ret (case r of
             Inl init_failure \<Rightarrow> Inl (SC_error init_failure, st)
           | Inr (Streaming meta out) \<Rightarrow> Inl (forward_stream step st meta out)
           | Inr (Collected buf) \<Rightarrow> process_result sv step st buf)))"
    by (auto intro!: completes_bind simp: process_result_acc split: option.split sum.split step_output.split)
qed

lemma each_loop_frame:
  assumes "frame S a (es_acc state)" and "''each'' \<in> S"
  shows "completes (\<lambda>(results, state'). frame S a (es_acc state')) (each_loop sv step arr index results state)"
  using assms(1)
proof (induction arr arbitrary: index results state)
  case (Cons item arr)
  have inv: "completes (\<lambda>(results, state'). frame S a (es_acc state'))
     (try_bind (run_invocation sv step (st\<lparr>es_acc := acc_set (es_acc state) ''each'' v\<rparr>) Collect_output) (\<lambda>(outcome, state).
        each_loop sv step arr (Suc index) (results @ [output_value sv outcome state]) state))"
    for st v
    by (rule completes_try [OF run_invocation_frame]) (use Cons assms(2) in \<open>auto intro!: Cons.IH frame_set\<close>)
  show ?case
    unfolding each_loop.simps
    by (rule completes_try [OF completes_any], rule completes_try [OF completes_any],
        rule completes_try [where P = "\<lambda>st. es_acc st = es_acc state"])
       (auto intro!: completes_in_state inv split: if_splits sum.splits)
qed simp

lemma run_each_frame:
  "completes (\<lambda>state'. frame {cs_id step, ''each''} (es_acc state) (es_acc state')) (run_each sv step each state)"
  unfolding run_each_def
  by (rule completes_try [OF completes_any],
      rule completes_try [OF each_loop_frame [of "{cs_id step, ''each''}" "es_acc state"]])
     (auto simp: Let_def frame_set frame_remove split: sum.splits)

section \<open>Steps\<close>

primrec plan_ids :: "compiled_step \<Rightarrow> string list" and branch_ids :: "compiled_branch \<Rightarrow> string list" where
  "plan_ids (CompiledStep sid label target input config each par nxt) =
     sid # (case map_option (map branch_ids) par of None \<Rightarrow> [] | Some ids \<Rightarrow> concat ids)"
| "branch_ids (CompiledBranch steps) = concat (map plan_ids steps)"

abbreviation touches :: "compiled_step \<Rightarrow> string set" where
  "touches step \<equiv> insert ''each'' (set (plan_ids step))"

lemma set_branch_deltas: "set (branch_deltas outcomes) = {into_data (es_acc st) |st. Inr st \<in> set outcomes}"
  unfolding branch_deltas_def by (induction outcomes) (auto split: sum.splits)

lemma join_branches_frame:
  assumes "join_branches state outcomes = Inr state'"
    and "\<And>st. Inr st \<in> set outcomes \<Longrightarrow> frame S (branch_from (es_acc state)) (es_acc st)"
  shows "frame S (es_acc state) (es_acc state')"
proof -
  have state': "state' = state\<lparr>es_acc := fold (\<lambda>delta acc. acc_merge acc delta)
            (map (new_entries (es_acc state)) (branch_deltas outcomes)) (es_acc state)\<rparr>"
    using assms(1) by (simp add: join_branches_def split: option.splits)
  have "delta k = None" if d: "delta \<in> set (map (new_entries (es_acc state)) (branch_deltas outcomes))" and k: "k \<notin> S" for delta k
  proof -
    obtain st where st: "Inr st \<in> set outcomes" "delta = new_entries (es_acc state) (into_data (es_acc st))"
      using d set_branch_deltas [of outcomes] by auto
    show ?thesis using assms(2) [OF st(1)] st(2) k by (simp add: frame_def new_entries_def into_data_def)
  qed
  then show ?thesis unfolding state' by (auto intro: frame_merges)
qed

lemma completes_join:
  fixes ts :: "('a + 'b) task list"
  assumes "list_all (completes P) ts" and "\<And>rs. (\<And>a. Inr a \<in> set rs \<Longrightarrow> P a) \<Longrightarrow> completes R (g rs)"
  shows "completes R (bind (join_all ts) g)"
proof -
  let ?Q = "\<lambda>r. \<forall>a. r = Inr a \<longrightarrow> P a"
  have "list_all2 (obeys (\<lambda>_. True) (\<lambda>_ _. True)) (replicate (length ts) ?Q) ts"
    using assms(1) by (simp add: list_all2_conv_all_nth list_all_length completes_def)
  from obeys_join_all [OF this] show ?thesis
    unfolding completes_def
  proof (intro obeys_bind, elim obeys_mono)
    fix rs :: "('a + 'b) list"
    assume "list_all2 (\<lambda>Q r. Q r) (replicate (length ts) ?Q) rs"
    then have "P a" if "Inr a \<in> set rs" for a
      using that by (auto simp: list_all2_conv_all_nth in_set_conv_nth)
    then show "obeys (\<lambda>_. True) (\<lambda>_ _. True) (\<lambda>r. \<forall>a. r = Inr a \<longrightarrow> R a) (g rs)"
      using assms(2) [of rs] by (simp add: completes_def)
  qed
qed

text \<open>The own block of a step, after its branches.\<close>

lemma own_frame:
  assumes "frame S a (es_acc st)" and "sid \<in> S" and "''each'' \<in> S"
  shows "completes (\<lambda>st'. frame S a (es_acc st'))
     (let step = CompiledStep sid label target input config each par nxt in case each of
        Some e \<Rightarrow> run_each sv step e st
      | None \<Rightarrow> try_bind (run_invocation sv step st mode) (\<lambda>(outcome, state).
          Ret (Inr (if input \<noteq> None
                    then state\<lparr>es_acc := acc_set (es_acc state) sid (output_value sv outcome state)\<rparr>
                    else state))))"
proof (cases each)
  case None
  have "completes (\<lambda>st'. frame S a (es_acc st'))
    (try_bind (run_invocation sv (CompiledStep sid label target input config None par nxt) st mode) (\<lambda>(outcome, state).
        Ret (Inr (if input \<noteq> None
                  then state\<lparr>es_acc := acc_set (es_acc state) sid (output_value sv outcome state)\<rparr>
                  else state))))"
    by (rule completes_try [OF run_invocation_frame]) (use assms in \<open>auto intro!: frame_set\<close>)
  with None show ?thesis by simp
next
  case (Some e)
  have "completes (\<lambda>st'. frame S a (es_acc st'))
      (run_each sv (CompiledStep sid label target input config each par nxt) e st)"
    by (rule completes_mono [OF run_each_frame]) (rule frame_trans [OF assms(1) frame_mono], use assms in auto)
  with Some show ?thesis by simp
qed

lemma steps_frame:
  "completes (\<lambda>state'. frame (touches step) (es_acc state) (es_acc state')) (run_step sv step state mode)"
  "list_all (completes (\<lambda>state'. frame (insert ''each'' (set (concat (map branch_ids branches))))
      (branch_from (es_acc state)) (es_acc state'))) (run_branches sv branches state)"
  "completes (\<lambda>state'. frame (insert ''each'' (set (concat (map plan_ids steps)))) (es_acc state) (es_acc state'))
     (run_branch_steps sv steps state)"
proof (induction sv step state mode and sv branches state and sv steps state
    rule: run_step_run_branches_run_branch_steps.induct)
  case (1 sv sid label target input config each par nxt state mode)
  let ?step = "CompiledStep sid label target input config each par nxt"
  have par: "completes (\<lambda>st. frame (touches ?step) (es_acc state) (es_acc st))
     (case par of None \<Rightarrow> Ret (Inr state)
      | Some branches \<Rightarrow> bind (join_all (run_branches sv branches state)) (\<lambda>outcomes. Ret (join_branches state outcomes)))"
  proof (cases par)
    case (Some bs)
    have "completes (\<lambda>st. frame (touches ?step) (es_acc state) (es_acc st))
        (bind (join_all (run_branches sv bs state)) (\<lambda>outcomes. Ret (join_branches state outcomes)))"
      by (rule completes_join [OF 1 [OF Some]])
         (auto intro: frame_mono [OF join_branches_frame] simp: Some)
    with Some show ?thesis by simp
  qed simp
  show ?case
    unfolding run_step.simps
    by (rule completes_try [OF completes_any], rule completes_try [OF completes_any],
        rule completes_try [OF par], rule own_frame) auto
next
  case (3 sv steps branches state)
  have "completes (\<lambda>st. frame (insert ''each'' (set (concat (map branch_ids (CompiledBranch steps # branches)))))
      (branch_from (es_acc state)) (es_acc st)) (run_branch_steps sv steps (branch_state state))"
    by (rule completes_mono [OF 3(1)]) (rule frame_mono, auto simp: branch_state_def)
  moreover have "list_all (completes (\<lambda>st. frame (insert ''each'' (set (concat (map branch_ids (CompiledBranch steps # branches)))))
      (branch_from (es_acc state)) (es_acc st))) (run_branches sv branches state)"
    using 3(2) unfolding list_all_iff
    by (intro ballI, elim ballE) (erule completes_mono, erule frame_mono, auto)
  ultimately show ?case by simp
next
  case (5 sv step steps state)
  have "completes (\<lambda>st'. frame (insert ''each'' (set (concat (map plan_ids (step # steps))))) (es_acc state) (es_acc st'))
     (run_branch_steps sv steps st)"
    if "frame (touches step) (es_acc state) (es_acc st)" "cs_next step = None" for st
    by (rule completes_mono [OF 5(2)]) (use that in \<open>auto intro: frame_trans [OF frame_mono frame_mono]\<close>)
  with 5(1) show ?case by (auto intro!: completes_try)
qed simp_all

text \<open>Branches add entries and never change one that was there.\<close>

lemma run_step_keeps_existing:
  "completes (\<lambda>state'. frame ({k. acc_get (es_acc state) k = None} \<union> {cs_id step, ''each''}) (es_acc state) (es_acc state'))
     (run_step sv step state mode)"
proof -
  obtain sid label target input config each par nxt
    where step: "step = CompiledStep sid label target input config each par nxt" by (cases step)
  let ?S = "{k. acc_get (es_acc state) k = None} \<union> {cs_id step, ''each''}"
  have join: "frame ?S (es_acc state) (es_acc st)" if "join_branches state outcomes = Inr st" for outcomes st
  proof -
    have "st = state\<lparr>es_acc := fold (\<lambda>delta acc. acc_merge acc delta)
            (map (new_entries (es_acc state)) (branch_deltas outcomes)) (es_acc state)\<rparr>"
      using that by (simp add: join_branches_def split: option.splits)
    then show ?thesis by (auto intro!: frame_merges simp: new_entries_def split: if_splits)
  qed
  have par: "completes (\<lambda>st. frame ?S (es_acc state) (es_acc st))
     (case par of None \<Rightarrow> Ret (Inr state)
      | Some branches \<Rightarrow> bind (join_all (run_branches sv branches state)) (\<lambda>outcomes. Ret (join_branches state outcomes)))"
    using join by (auto intro!: completes_bind split: option.split)
  show ?thesis
    unfolding step run_step.simps
    by (rule completes_try [OF completes_any], rule completes_try [OF completes_any],
        rule completes_try [OF par], rule own_frame) (simp_all add: step)
qed

text \<open>C13: A completed step changes an entry of the accumulator only if it is the step's own entry
  or the transient \<^verbatim>\<open>each\<close> binding, or is a new entry written by a step inside its parallel
  branches: an entry that existed at the fork is never changed by a branch.  This holds
  whatever the blocks answer and however the branches interleave.\<close>

theorem step_writes_its_own_entries:
  assumes "exec env (run_step sv step state mode) m = (Inr state', m')"
    and "k \<noteq> cs_id step" and "k \<noteq> ''each''"
    and "k \<notin> set (plan_ids step) \<or> acc_get (es_acc state) k \<noteq> None"
  shows "acc_get (es_acc state') k = acc_get (es_acc state) k"
proof -
  have "frame (touches step) (es_acc state) (es_acc state')"
    and "frame ({k. acc_get (es_acc state) k = None} \<union> {cs_id step, ''each''}) (es_acc state) (es_acc state')"
    by (rule completes_exec [OF steps_frame(1) assms(1)], rule completes_exec [OF run_step_keeps_existing assms(1)])
  with assms(2-4) show ?thesis by (auto dest: frame_get)
qed

text \<open>A step with an input template and one parallel branch, run over an accumulator that holds the
  flow input.\<close>

definition sample_leaf :: "string \<Rightarrow> compiled_branch list option \<Rightarrow> compiled_step" where
  "sample_leaf sid branches =
     CompiledStep sid ''x/y'' (Some ''x/y'') (Some (CompiledTemplate (TLiteral Null))) Map.empty None branches None"

definition sample_env :: step_env where
  "sample_env = \<lparr>sv_flow = looping_plan, sv_chain = \<lparr>tc_max_steps = 9, tc_deadline = None\<rparr>,
     sv_json = \<lparr>jc_from_slice = \<lambda>_. None, jc_to_vec = \<lambda>_. Inr []\<rparr>, sv_flow_plan = Map.empty\<rparr>"

definition sample_state :: exec_state where
  "sample_state = \<lparr>es_acc = acc_set acc_new ''input'' (Bool True), es_body = [],
     es_msg = \<lparr>msg_kind = ''q'', msg_meta = []\<rparr>, es_record = Map.empty\<rparr>"

abbreviation sample_exec where
  "sample_exec \<equiv> exec passing_env (run_step sample_env
     (sample_leaf ''s'' (Some [CompiledBranch [sample_leaf ''t'' None]])) sample_state Collect_output) (fresh_machine ())"

theorem step_writes_its_own_entries_witness:
  "fst sample_exec = Inr (projr (fst sample_exec))
   \<and> acc_get (es_acc (projr (fst sample_exec))) ''input'' = Some (Bool True)"
proof -
  have "\<not> isl (fst sample_exec)" by code_simp
  then have ok: "fst sample_exec = Inr (projr (fst sample_exec))" by (rule Inr_projr)
  have "acc_get (es_acc (projr (fst sample_exec))) ''input'' = acc_get (es_acc sample_state) ''input''"
  proof (rule step_writes_its_own_entries)
    show "sample_exec = (Inr (projr (fst sample_exec)), snd sample_exec)"
      by (subst ok [symmetric]) (rule prod.collapse [symmetric])
  qed (simp_all add: sample_leaf_def)
  with ok show ?thesis by (simp add: sample_state_def)
qed

end
