(* ===== verification/Flow_Streaming.thy ===== *)
theory Flow_Streaming
  imports Flow_Frame
begin

text \<open>
  The streamed response of a terminal step: what a consumer that collects it sees, compared with
  the response the flow gives when the output of the step is collected first.
\<close>

abbreviation produced :: "meta_entry list \<Rightarrow> string \<Rightarrow> output_stream \<Rightarrow> output_stream" where
  "produced c step out \<equiv> rewrite_produced (\<lambda>_ e. ((), after_head c step e)) () out"

text \<open>The errors of a streamed response: whatever the step's block raised, the carried entries of
  the flow are laid under its meta.\<close>

definition carried_error :: "meta_entry list \<Rightarrow> terminal_not_response + buffered_response \<Rightarrow> bool" where
  "carried_error c r \<longleftrightarrow> (\<exists>e own. r = Inl (TError (e\<lparr>we_meta := fst (overlay c own)\<rparr>)))"

lemma produced_simps [simp]:
  "produced c step (Chunk bs # s) = Chunk bs # produced c step s"
  "produced c step (Meta e # s) = produced c step s"
  "produced c step (Complete m # s) = Complete [] # produced c step s"
  by (simp_all add: after_head_def)

lemma produced_failure:
  assumes "\<not> is_body_event e" and "\<And>m. e \<noteq> Complete m"
  shows "carried_error c (collect_loop body meta b (produced c step (e # s)))"
  using assms by (cases e) (auto simp: after_head_def Let_def carried_error_def split: option.splits)

text \<open>What the relayed stream collects to, from what the stream itself collects to.\<close>

definition relays :: "meta_entry list \<Rightarrow> meta_entry list \<Rightarrow> terminal_not_response + buffered_response
    \<Rightarrow> terminal_not_response + buffered_response \<Rightarrow> bool" where
  "relays c head r relayed \<longleftrightarrow>
     (case r of
        Inr response \<Rightarrow> relayed = Inr \<lparr>br_body = br_body response, br_meta = head\<rparr>
      | Inl TMalformed \<Rightarrow> relayed = Inl TMalformed
      | Inl _ \<Rightarrow> carried_error c relayed)"

lemma relays_iff:
  "relays c head r relayed \<longleftrightarrow>
     (\<forall>response. r = Inr response \<longrightarrow> relayed = Inr \<lparr>br_body = br_body response, br_meta = head\<rparr>)
   \<and> (r = Inl TMalformed \<longrightarrow> relayed = Inl TMalformed)
   \<and> (\<forall>t. r = Inl t \<and> t \<noteq> TMalformed \<longrightarrow> carried_error c relayed)"
  by (auto simp: relays_def split: sum.splits terminal_not_response.splits)

lemma collect_produced:
  "relays c head (collect_loop body meta True out) (collect_loop body head True (produced c step out))"
proof (induction out arbitrary: body meta)
  case (Cons e out)
  show ?case
  proof (cases e)
    case (Chunk bs)
    then show ?thesis using Cons.IH [of "body @ bs"] unfolding Chunk produced_simps collect_loop_Chunk by blast
  next
    case (Meta m)
    show ?thesis unfolding Meta produced_simps collect_loop.simps by (rule Cons.IH)
  qed (use produced_failure [of e c body head True step out] in \<open>simp_all add: relays_def after_head_def Let_def\<close>)
qed (simp add: relays_def)

lemma opened_streaming:
  assumes "open_terminal_output out = Streaming ms rest"
  obtains bs more where "rest = Chunk bs # more" and "out = map Meta ms @ rest" and "declares_streaming ms"
  using assms take_leading_meta_split [of out ms rest]
  by (cases rest) (auto simp: open_terminal_output_def peek_def split: prod.splits if_splits stream_event.splits)

lemma relayed_output:
  assumes "open_terminal_output out = Streaming ms rest"
  shows "relays (carried (msg_meta (es_msg state)) (es_record state)) (response_meta_of (es_msg state))
    (collect_buffered out) (collect_buffered (into_output (SC_stream rest lbl) state))"
proof -
  obtain bs more where o: "rest = Chunk bs # more" "out = map Meta ms @ rest" by (rule opened_streaming [OF assms])
  show ?thesis
    unfolding o into_output_def short_circuit.case prepend_def collect_leading_meta produced_simps collect_loop_Chunk
    by (rule collect_produced)
qed

text \<open>Streaming changes when the bytes of a terminal step leave, not what they are.  If the
  output of a terminal step opens as a stream whose leading meta can be sent, a consumer that
  collects the forwarded stream gets the same body as one that collects the step's output, under
  the response meta of the flow after the leading entries were applied to it; a stream that breaks
  off is seen as one that breaks off, and every other ending reaches the consumer as an error that
  has the carried entries of the flow (cookies, security headers, request id) under its meta.\<close>

theorem forwarded_stream_relays_the_body:
  assumes "open_terminal_output out = Streaming ms rest" and "first_unsendable ms = None"
  shows "\<exists>relayed. collect_buffered (case forward_stream step state ms rest of (sc, st) \<Rightarrow> into_output sc st) = relayed
    \<and> (let st = apply_to_state state ms; c = carried (msg_meta (es_msg st)) (es_record st) in
       (\<forall>response. collect_buffered out = Inr response \<longrightarrow>
          relayed = Inr \<lparr>br_body = br_body response, br_meta = response_meta_of (es_msg st)\<rparr>)
     \<and> (collect_buffered out = Inl TMalformed \<longrightarrow> relayed = Inl TMalformed)
     \<and> (\<forall>t. collect_buffered out = Inl t \<and> t \<noteq> TMalformed \<longrightarrow>
          (\<exists>e own. relayed = Inl (TError (e\<lparr>we_meta := fst (overlay c own)\<rparr>)))))"
  using relayed_output [OF assms(1), of "apply_to_state state ms" "block_in_step step"] assms(2)
  by (auto simp: forward_stream_def relays_iff carried_error_def Let_def)

definition sse_output :: output_stream where
  "sse_output = [Meta \<lparr>me_key = ''resp.content_type'', me_value = ''text/event-stream''\<rparr>,
     Chunk ''data: '', Chunk ''1'', Complete []]"

definition plain_step :: compiled_step where
  "plain_step = CompiledStep ''feed'' ''x/feed'' (Some ''x/feed'') None Map.empty None None None"

definition plain_state :: exec_state where
  "plain_state = \<lparr>es_acc = acc_new, es_body = [], es_msg = \<lparr>msg_kind = ''http.request'', msg_meta = []\<rparr>,
     es_record = Map.empty\<rparr>"

lemma sse_opens:
  "open_terminal_output sse_output
     = Streaming [\<lparr>me_key = ''resp.content_type'', me_value = ''text/event-stream''\<rparr>] [Chunk ''data: '', Chunk ''1'', Complete []]"
  by code_simp

lemma sse_sendable: "first_unsendable [\<lparr>me_key = ''resp.content_type'', me_value = ''text/event-stream''\<rparr>] = None"
  by code_simp

theorem forwarded_stream_relays_the_body_witness:
  "\<exists>m. collect_buffered (case forward_stream plain_step plain_state
        [\<lparr>me_key = ''resp.content_type'', me_value = ''text/event-stream''\<rparr>] [Chunk ''data: '', Chunk ''1'', Complete []]
      of (sc, st) \<Rightarrow> into_output sc st) = Inr \<lparr>br_body = ''data: 1'', br_meta = m\<rparr>"
proof -
  have "collect_buffered sse_output
      = Inr \<lparr>br_body = ''data: 1'', br_meta = [\<lparr>me_key = ''resp.content_type'', me_value = ''text/event-stream''\<rparr>]\<rparr>"
    by (simp add: sse_output_def collect_buffered_def)
  then show ?thesis
    using forwarded_stream_relays_the_body [OF sse_opens sse_sendable, of plain_step plain_state]
    by (auto simp: Let_def)
qed



end
