(* ===== verification/Flow_Routing.thy ===== *)
theory Flow_Routing
  imports Flow_Streaming
begin

text \<open>
  Routing in accepted flows: what \<^verbatim>\<open>validate.rs\<close> checks of a document, \<^verbatim>\<open>plan.rs\<close> resolves once and
  \<^verbatim>\<open>executor.rs\<close> relies on when it takes a \<^verbatim>\<open>next\<close> entry.
\<close>

section \<open>Entries of a compiled step\<close>

lemma compile_step_simps [simp]:
  "cs_id (compile_step pe rc index s) = s_id s"
  "cs_next (compile_step pe rc index s) = map_option (map (compile_next pe index)) (s_next s)"
  "cs_parallel (compile_step pe rc index s) = map_option (map (compile_branch pe rc index)) (s_parallel s)"
  by (cases s; simp)+

lemma compile_next_when:
  "cn_when (compile_next pe index e) = map_option (\<lambda>w. (w, compile_condition (pe_from_str pe) w)) (ne_when e)"
  by (simp add: compile_next_def)

lemma top_level_in_all_steps: "s \<in> set steps \<Longrightarrow> (b, s) \<in> set (all_steps b steps)"
proof (induction steps)
  case (Cons t steps)
  then show ?case by (cases t) auto
qed simp

text \<open>What the taken entry of a \<^verbatim>\<open>next\<close> list may lead to.\<close>

definition routes_well :: "wafer_flow \<Rightarrow> next_entry list \<Rightarrow> routing \<Rightarrow> bool" where
  "routes_well flow entries r \<longleftrightarrow>
     (case r of
        Jump i \<Rightarrow> i < length (wf_steps flow) \<and> Some (s_id (wf_steps flow ! i)) \<in> ne_step ` set entries
      | Leave f \<Rightarrow> f \<noteq> wf_id flow \<and> Some f \<in> ne_flow ` set entries
      | Route_error e \<Rightarrow> we_code e = InvalidArgument
      | Fall_through \<Rightarrow> False)"

lemma routes_well_mono: "routes_well flow es r \<Longrightarrow> set es \<subseteq> set es' \<Longrightarrow> routes_well flow es' r"
  by (auto simp: routes_well_def split: routing.splits)

lemma take_next_routes_well:
  assumes "\<And>e. e \<in> set entries \<Longrightarrow> entry_ok js (wf_id flow) (s_id ` set (wf_steps flow)) e"
    and "\<exists>e \<in> set entries. ne_when e = None"
  shows "routes_well flow entries
    (take_next env step acc (map (compile_next pe (step_index (wf_steps flow))) entries))"
  using assms
proof (induction entries)
  case (Cons e entries)
  let ?index = "step_index (wf_steps flow)"
  let ?next = "take_next env step acc (map (compile_next pe ?index) entries)"
  have target: "routes_well flow (e # entries)
      (case cn_target (compile_next pe ?index e) of
         To_step i \<Rightarrow> Jump i
       | Missing_step target \<Rightarrow> Route_error (wafer_error_new Unimplemented
           (Text ''next target step '{target_step}' does not exist'' [A_str target]))
       | To_flow f \<Rightarrow> Leave f
       | No_target \<Rightarrow> Fall_through)"
    using Cons.prems(1) [of e] step_index_Some [of "wf_steps flow"] step_index_None [of "wf_steps flow"]
    by (auto simp: entry_ok_def compile_next_def routes_well_def split: option.splits)
  have rest: "routes_well flow (e # entries) ?next" if "ne_when e \<noteq> None"
    by (rule routes_well_mono [OF Cons.IH]) (use that Cons.prems in auto)
  have failed: "routes_well flow es (Route_error (wafer_error_new InvalidArgument m))" for es m
    by (simp add: routes_well_def wafer_error_new_def)
  show ?case
  proof (cases "ne_when e")
    case None
    then show ?thesis using target by (simp add: compile_next_when)
  next
    case (Some c)
    show ?thesis
    proof (cases "condition_eval (compile_condition (pe_from_str pe) c) acc")
      case (Inl err)
      then show ?thesis using Some failed by (simp add: compile_next_when)
    next
      case (Inr taken)
      then show ?thesis using Some target rest by (cases taken) (simp_all add: compile_next_when)
    qed
  qed
qed simp

text \<open>C15: Routing in an accepted flow always leads somewhere.  When the runtime has accepted a flow,
  taking the \<^verbatim>\<open>next\<close> list of any of its steps, in any state, either jumps to an existing step that
  the list names, leaves for a different flow that the list names, or reports that a condition
  could not be evaluated; it never misses a target and never falls through without one.\<close>

theorem accepted_flows_route:
  assumes "add_flow w flow = Inr w'"
    and "plan = compile_flow pe rc flow" and "i < length (cf_steps plan)"
    and "cs_next (cf_steps plan ! i) = Some entries"
  shows "case take_next env step acc entries of
      Jump j \<Rightarrow> j < length (cf_steps plan)
        \<and> (\<exists>es. s_next (wf_steps flow ! i) = Some es \<and> Some (cs_id (cf_steps plan ! j)) \<in> ne_step ` set es)
    | Leave f \<Rightarrow> f \<noteq> cf_id plan \<and> (\<exists>es. s_next (wf_steps flow ! i) = Some es \<and> Some f \<in> ne_flow ` set es)
    | Route_error e \<Rightarrow> we_code e = InvalidArgument
    | Fall_through \<Rightarrow> False"
proof -
  let ?s = "wf_steps flow ! i"
  have i: "i < length (wf_steps flow)" using assms(2,3) by (simp add: compile_flow_def Let_def)
  then obtain es where es: "s_next ?s = Some es"
      "entries = map (compile_next pe (step_index (wf_steps flow))) es"
    using assms(2,4) by (auto simp: compile_flow_def Let_def)
  have "validate (pe_from_str (wa_env w)) flow = Inr ()"
    using assms(1) by (auto simp: add_flow_def result_simps)
  then have "flow_ok (pe_from_str (wa_env w)) flow" by (simp add: validate_flow_ok)
  then have "step_ok (pe_from_str (wa_env w)) (wf_id flow) (s_id ` set (wf_steps flow)) (False, ?s)"
    using top_level_in_all_steps [of ?s "wf_steps flow" False] i by (auto simp: flow_ok_def)
  then have "routes_well flow es (take_next env step acc entries)"
    unfolding es(2) by (intro take_next_routes_well) (use es(1) in \<open>auto simp: step_ok_def\<close>)
  then show ?thesis
    using es(1) assms(2) by (auto simp: routes_well_def compile_flow_def Let_def split: routing.splits)
qed

section \<open>A condition on the input of a flow without templates\<close>

text \<open>A flow of middleware steps that routes on its input.\<close>

definition gate_flow :: wafer_flow where
  "gate_flow = \<lparr>wf_id = ''site'', wf_name = ''site'', wf_version = ''1'', wf_description = None, wf_input = None,
     wf_output = None,
     wf_steps = [Step ''gate'' ''x/gate'' None
         (Some [\<lparr>ne_when = Some ''$.input.go'', ne_step = Some ''yes'', ne_flow = None\<rparr>,
                \<lparr>ne_when = None, ne_step = Some ''no'', ne_flow = None\<rparr>]) None None None None,
       Step ''no'' ''x/no'' None None None None None None,
       Step ''yes'' ''x/yes'' None None None None None None],
     wf_config = None, wf_blocks = None, wf_config_map = None, wf_config_defaults = None\<rparr>"

lemma gate_flow_valid: "validate (\<lambda>_. None) gate_flow = Inr ()"
  by code_simp

lemma gate_added: "add_flow bare_wafer gate_flow = Inr (bare_wafer\<lparr>wa_flows := [(''site'', gate_flow)]\<rparr>)"
  using gate_flow_valid by (simp add: add_flow_def bare_wafer_def gate_flow_def)

theorem accepted_flows_route_witness:
  "let plan = compile_flow (wa_env bare_wafer) registration_new gate_flow;
       entries = map (compile_next (wa_env bare_wafer) (step_index (wf_steps gate_flow)))
         (the (s_next (wf_steps gate_flow ! 0)))
   in case take_next (step_env_of bare_wafer plan chain_new) plain_step acc_new entries of
        Jump j \<Rightarrow> j < length (cf_steps plan) | Leave f \<Rightarrow> f \<noteq> cf_id plan
      | Route_error e \<Rightarrow> we_code e = InvalidArgument | Fall_through \<Rightarrow> False"
proof -
  have "0 < length (cf_steps (compile_flow (wa_env bare_wafer) registration_new gate_flow))"
    "cs_next (cf_steps (compile_flow (wa_env bare_wafer) registration_new gate_flow) ! 0)
      = Some (map (compile_next (wa_env bare_wafer) (step_index (wf_steps gate_flow))) (the (s_next (wf_steps gate_flow ! 0))))"
    by (simp_all add: compile_flow_def gate_flow_def Let_def)
  from accepted_flows_route [OF gate_added refl this,
      of "step_env_of bare_wafer (compile_flow (wa_env bare_wafer) registration_new gate_flow) chain_new" plain_step acc_new]
  show ?thesis by (simp add: Let_def split: routing.splits)
qed

lemma gate_condition:
  "condition_eval (compile_condition js ''$.input.go'') acc_new = Inl (UnresolvedReference (MissingReference [''input'']))"
  by code_simp

lemma gate_plan:
  "compile_flow pe rc gate_flow =
     \<lparr>cf_id = ''site'', cf_timeout = None, cf_max_steps = DEFAULT_MAX_STEPS, cf_on_error = Stop, cf_uses_accumulator = False,
      cf_steps = [CompiledStep ''gate'' ''x/gate'' (map_option fst (lookup_with_alias rc ''x/gate'')) None Map.empty None None
          (Some [\<lparr>cn_when = Some (''$.input.go'', compile_condition (pe_from_str pe) ''$.input.go''), cn_target = To_step 2\<rparr>,
                 \<lparr>cn_when = None, cn_target = To_step 1\<rparr>]),
        CompiledStep ''no'' ''x/no'' (map_option fst (lookup_with_alias rc ''x/no'')) None Map.empty None None None,
        CompiledStep ''yes'' ''x/yes'' (map_option fst (lookup_with_alias rc ''x/yes'')) None Map.empty None None None]\<rparr>"
  by (simp add: compile_flow_def gate_flow_def Let_def config_timeout_def config_on_error_def default_config_def
      steps_use_accumulator_def step_index_def compile_next_def)

text \<open>A middleware step whose block passes the message on leaves the accumulator alone.\<close>

lemma passing_step:
  assumes "tc_deadline (sv_chain env) = None" and "mc_used m < tc_max_steps (sv_chain env)" and "\<not> mc_cancelled m"
  shows "\<exists>m'. exec passing_env (run_step env (CompiledStep sid label (Some target) None config None None nxt) state mode) m
    = (Inr (state\<lparr>es_record := after_continue (es_record state) (msg_meta (es_msg state)) (msg_meta (es_msg state))\<rparr>), m')"
proof -
  have unsendable: "first_unsendable [] = None" by (simp add: first_unsendable_def)
  have opened: "(case mode of Collect_output \<Rightarrow> Collected (collect_buffered [stream_event.Continue msg])
      | Forward_stream \<Rightarrow> open_terminal_output [stream_event.Continue msg]) = Collected (Inl (TContinue msg))" for msg
    by (cases mode) (simp_all add: collect_buffered_def open_terminal_output_def prepend_def peek_def)
  show ?thesis
    using assms
    by (simp add: exec_bind exec_try_bind check_budget_def check_cancel_deadline_def in_state_def run_invocation_def
        resolve_step_input_def run_resolved_def step_call_def passing_env_def Let_def opened process_result_def
        produced_meta_def unsendable)
qed

text \<open>A flow whose steps take no templates cannot route on its input.  The plan records that
  such a flow does not use the accumulator, without looking at its \<^verbatim>\<open>next\<close> conditions, so \<^verbatim>\<open>$.input\<close>
  is never set: the accepted flow \<open>gate_flow\<close> answers every request, whatever its body, with
  \<^verbatim>\<open>InvalidArgument\<close>, although its first step passes the request on.\<close>

theorem middleware_flow_cannot_route_on_input:
  assumes "lookup_with_alias rc ''x/gate'' = Some (target, b)"
  shows "validate (\<lambda>_. None) gate_flow = Inr ()
    \<and> (\<exists>e m. exec passing_env (run_plan (Suc fuel) w (compile_flow pe rc gate_flow) msg (Inr body)) (fresh_machine ())
          = (Some [stream_event.Error e], m) \<and> we_code e = InvalidArgument)"
proof -
  let ?env = "step_env_of w (compile_flow pe rc gate_flow) (chain_enter chain_new (compile_flow pe rc gate_flow) 0)"
  let ?m = "(fresh_machine ())\<lparr>mc_observed := [Flow_start ''site'' msg]\<rparr>"
  let ?state = "initial_state ?env msg body Map.empty"
  have limits: "tc_deadline (sv_chain ?env) = None" "mc_used ?m < tc_max_steps (sv_chain ?env)" "\<not> mc_cancelled ?m"
    by (simp_all add: step_env_of_def chain_enter_def chain_new_def gate_plan fresh_machine_def DEFAULT_MAX_STEPS_def u64_max_def)
  have acc: "es_acc ?state = acc_new"
    by (simp add: initial_state_def step_env_of_def gate_plan)
  have loop: "\<exists>e m'. exec passing_env (step_loop (Suc fuel) ?env 0 False ?state) ?m = (Done [stream_event.Error e], m')
      \<and> we_code e = InvalidArgument"
    using passing_step [OF limits, of "''gate''" "''x/gate''" target Map.empty
        "cs_next (cf_steps (sv_flow ?env) ! 0)" ?state Collect_output] assms acc
    by (auto simp: exec_bind step_env_of_def gate_plan is_terminal_step_def Let_def gate_condition into_output_def
        out_error_def wafer_error_new_def)
  have clock: "re_clock passing_env u = (0, u)" for u by (simp add: passing_env_def)
  from loop show ?thesis
    using gate_flow_valid
    by (auto simp: run_plan_def execute_def exec_bind clock Let_def fire_flow_ends_def fresh_machine_def gate_plan(1) [THEN arg_cong [of _ _ cf_id]]
        simp del: step_loop.simps)
qed

definition gate_registry :: registration_core where
  "gate_registry = registration_new\<lparr>rc_all_blocks := [''x/gate'' \<mapsto>
     \<lparr>rb_info = \<lparr>bi_name = ''x/gate'', bi_requires = [], bi_optional_requires = [], bi_config_keys = [], bi_flow_config = [],
        bi_grants = [], bi_endpoints = [], bi_init_timeout_ms = None\<rparr>, rb_call_allowlist = None\<rparr>]\<rparr>"

theorem middleware_flow_cannot_route_on_input_witness:
  "\<exists>e m. exec passing_env (run_plan 1 bare_wafer (compile_flow (wa_env bare_wafer) gate_registry gate_flow)
        \<lparr>msg_kind = ''http.request'', msg_meta = []\<rparr> (Inr ''{}'')) (fresh_machine ())
      = (Some [stream_event.Error e], m) \<and> we_code e = InvalidArgument"
proof -
  obtain b where "lookup_with_alias gate_registry ''x/gate'' = Some (''x/gate'', b)"
    by (simp add: lookup_with_alias_def canonicalize_def gate_registry_def registration_new_def Let_def)
  from middleware_flow_cannot_route_on_input [OF this, of 0] show ?thesis by auto
qed

end
