(* ===== verification/Transitions.thy ===== *)
theory Transitions
  imports Wafer_Prelude
begin

text \<open>
  The contract of a state machine: an initial state, a step relation and an invariant the steps
  keep.  The state machines of the runtime (init slots, the wait graph, attempt records)
  interpret it on their own step relations.
\<close>

locale transition_invariant =
  fixes initial :: 's and step :: "'s \<Rightarrow> 's \<Rightarrow> bool" and inv :: "'s \<Rightarrow> bool"
  assumes inv_initial: "inv initial" and inv_step: "inv s \<Longrightarrow> step s s' \<Longrightarrow> inv s'"
begin

lemma inv_steps: "step\<^sup>*\<^sup>* s s' \<Longrightarrow> inv s \<Longrightarrow> inv s'"
  by (induction rule: rtranclp_induct) (auto intro: inv_step)

lemma inv_reachable: "step\<^sup>*\<^sup>* initial s \<Longrightarrow> inv s"
  using inv_steps inv_initial by blast

end

text \<open>A machine that refines a specification: the abstraction of every step is a step of the
  specification or no step at all.\<close>

locale step_refinement =
  fixes step :: "'s \<Rightarrow> 's \<Rightarrow> bool" and spec :: "'a \<Rightarrow> 'a \<Rightarrow> bool" and abs :: "'s \<Rightarrow> 'a" and inv :: "'s \<Rightarrow> bool"
  assumes keeps: "inv s \<Longrightarrow> step s s' \<Longrightarrow> inv s'"
    and simulates: "inv s \<Longrightarrow> step s s' \<Longrightarrow> spec\<^sup>*\<^sup>* (abs s) (abs s')"
begin

lemma simulation: "step\<^sup>*\<^sup>* s s' \<Longrightarrow> inv s \<Longrightarrow> spec\<^sup>*\<^sup>* (abs s) (abs s') \<and> inv s'"
  by (induction rule: rtranclp_induct) (auto dest: simulates keeps intro: rtranclp_trans)

end

end
