(* ===== verification/Init_Attempt.thy ===== *)
theory Init_Attempt
  imports Transitions "HOL-Library.Option_ord" "HOL-Library.Multiset"
begin

text \<open>
  \<^verbatim>\<open>crates/wafer-block/src/init_attempt.rs\<close>: what the database calls of an init attempt saw.  The
  shared records (\<^verbatim>\<open>Arc\<close>) live in a store, a list indexed by creation; a parent is created before
  its children.  The locks of the source make every operation one step.
\<close>

section \<open>Answers\<close>

datatype database_answer = Contended | CallBudgetExhausted | DatabaseUnavailable

text \<open>The derived order: the order of the constructors.\<close>

fun answer_rank :: "database_answer \<Rightarrow> nat" where
  "answer_rank Contended = 0"
| "answer_rank CallBudgetExhausted = 1"
| "answer_rank DatabaseUnavailable = 2"

lemma answer_rank_inj: "answer_rank a = answer_rank b \<longleftrightarrow> a = b"
  by (cases a; cases b) simp_all

instantiation database_answer :: linorder
begin

definition less_eq_database_answer :: "database_answer \<Rightarrow> database_answer \<Rightarrow> bool" where
  "less_eq_database_answer a b = (answer_rank a \<le> answer_rank b)"

definition less_database_answer :: "database_answer \<Rightarrow> database_answer \<Rightarrow> bool" where
  "less_database_answer a b = (answer_rank a < answer_rank b)"

instance
  by standard (auto simp: less_eq_database_answer_def less_database_answer_def answer_rank_inj [symmetric])

end

definition DATABASE_UNAVAILABLE :: string where "DATABASE_UNAVAILABLE = ''database.unavailable''"
definition DATABASE_CONTENDED :: string where "DATABASE_CONTENDED = ''database.contended''"
definition CALL_BUDGET_EXHAUSTED :: string where "CALL_BUDGET_EXHAUSTED = ''database.call_budget_exhausted''"

fun answer_detail_code :: "database_answer \<Rightarrow> string" where
  "answer_detail_code Contended = DATABASE_CONTENDED"
| "answer_detail_code CallBudgetExhausted = CALL_BUDGET_EXHAUSTED"
| "answer_detail_code DatabaseUnavailable = DATABASE_UNAVAILABLE"

definition answer_from_detail_code :: "string \<Rightarrow> database_answer option" where
  "answer_from_detail_code code =
     List.find (\<lambda>a. answer_detail_code a = code) [Contended, CallBudgetExhausted, DatabaseUnavailable]"

lemma answer_from_to: "answer_from_detail_code (answer_detail_code a) = Some a"
  by (cases a) (simp_all add: answer_from_detail_code_def DATABASE_CONTENDED_def DATABASE_UNAVAILABLE_def CALL_BUDGET_EXHAUSTED_def)

section \<open>Records\<close>

record attempt_record =
  ar_parent :: "nat option"
  ar_worst :: "database_answer option"
  ar_in_flight :: nat
  ar_closed :: bool

type_synonym record_store = "attempt_record list"

definition record_new :: "nat option \<Rightarrow> attempt_record" where
  "record_new parent = \<lparr>ar_parent = parent, ar_worst = None, ar_in_flight = 0, ar_closed = False\<rparr>"

lemma record_new_simps [simp]:
  "ar_parent (record_new p) = p" "ar_worst (record_new p) = None" "ar_in_flight (record_new p) = 0" "\<not> ar_closed (record_new p)"
  by (simp_all add: record_new_def)

text \<open>A record and the attempts it runs inside, inner to outer.  The guard holds of every store:
  a parent is an earlier record.\<close>

function lineage :: "record_store \<Rightarrow> nat \<Rightarrow> nat list" where
  "lineage rs i = i # (case ar_parent (rs ! i) of
      None \<Rightarrow> [] | Some p \<Rightarrow> if p < i then lineage rs p else [])"
  by pat_completeness auto
termination by (relation "measure snd") auto

declare lineage.simps [simp del]

definition update_lineage :: "(attempt_record \<Rightarrow> attempt_record) \<Rightarrow> record_store \<Rightarrow> nat \<Rightarrow> bool \<times> record_store" where
  "update_lineage f rs i =
     (if ar_closed (rs ! i) then (False, rs)
      else (True, fold (\<lambda>j rs. if ar_closed (rs ! j) then rs else rs[j := f (rs ! j)]) (lineage rs i) rs))"

definition record_call :: "record_store \<Rightarrow> nat \<Rightarrow> bool \<times> record_store" where
  "record_call rs i = update_lineage (\<lambda>r. r\<lparr>ar_in_flight := ar_in_flight r + 1\<rparr>) rs i"

definition note_answer :: "record_store \<Rightarrow> nat \<Rightarrow> database_answer \<Rightarrow> bool \<times> record_store" where
  "note_answer rs i answer = update_lineage (\<lambda>r. r\<lparr>ar_worst := max (ar_worst r) (Some answer)\<rparr>) rs i"

definition note_unanswered :: "record_store \<Rightarrow> nat \<Rightarrow> bool \<times> record_store" where
  "note_unanswered rs i = (if ar_in_flight (rs ! i) > 0 then note_answer rs i DatabaseUnavailable else (False, rs))"

definition close :: "record_store \<Rightarrow> nat \<Rightarrow> database_answer option \<times> record_store" where
  "close rs i = (ar_worst (rs ! i), rs[i := (rs ! i)\<lparr>ar_closed := True\<rparr>])"

text \<open>\<^verbatim>\<open>DatabaseCall\<close>'s drop of a call that was counted.\<close>

definition call_drop :: "record_store \<Rightarrow> nat \<Rightarrow> record_store" where
  "call_drop rs i = fold (\<lambda>j rs. rs[j := (rs ! j)\<lparr>ar_in_flight := ar_in_flight (rs ! j) - 1\<rparr>]) (lineage rs i) rs"

section \<open>Folding over a lineage\<close>

lemma lineage_bound: "j \<in> set (lineage rs i) \<Longrightarrow> j \<le> i"
  by (induction rs i rule: lineage.induct) (subst (asm) (2) lineage.simps, force split: option.splits if_splits)

lemma lineage_distinct: "distinct (lineage rs i)"
proof (induction rs i rule: lineage.induct)
  case (1 rs i)
  then show ?case using lineage_bound by (subst lineage.simps) (force split: option.splits)
qed

lemma lineage_cong:
  assumes "\<And>j. j \<le> i \<Longrightarrow> ar_parent (rs ! j) = ar_parent (rs' ! j)"
  shows "lineage rs i = lineage rs' i"
  using assms
proof (induction rs i rule: lineage.induct)
  case (1 rs i)
  then show ?case by (subst (1 2) lineage.simps) (auto split: option.splits)
qed

text \<open>One pass over distinct indices changes each of them once.\<close>

lemma fold_update:
  assumes "distinct is" and "\<And>i. i \<in> set is \<Longrightarrow> i < length rs"
  shows "length (fold (\<lambda>j rs. if P (rs ! j) then rs else rs[j := f (rs ! j)]) is rs) = length rs
    \<and> (\<forall>k. fold (\<lambda>j rs. if P (rs ! j) then rs else rs[j := f (rs ! j)]) is rs ! k =
         (if k \<in> set is \<and> \<not> P (rs ! k) then f (rs ! k) else rs ! k))"
  using assms
proof (induction "is" arbitrary: rs)
  case (Cons i "is")
  let ?rs = "if P (rs ! i) then rs else rs[i := f (rs ! i)]"
  have "length ?rs = length rs" by simp
  moreover have "?rs ! k = (if k = i \<and> \<not> P (rs ! i) then f (rs ! i) else rs ! k)" for k
    using Cons.prems(2) [of i] by (auto simp: nth_list_update)
  ultimately show ?case using Cons.IH [of ?rs] Cons.prems by auto
qed simp

lemma update_lineage_nth:
  assumes "i < length rs" and "update_lineage f rs i = (accepted, rs')"
  shows "length rs' = length rs" and "accepted \<longleftrightarrow> \<not> ar_closed (rs ! i)"
    and "rs' ! k = (if accepted \<and> k \<in> set (lineage rs i) \<and> \<not> ar_closed (rs ! k) then f (rs ! k) else rs ! k)"
proof -
  have "j < length rs" if "j \<in> set (lineage rs i)" for j using lineage_bound [OF that] assms(1) by simp
  note f = fold_update [where P = ar_closed and f = f, OF lineage_distinct this]
  show "length rs' = length rs" "accepted \<longleftrightarrow> \<not> ar_closed (rs ! i)"
    "rs' ! k = (if accepted \<and> k \<in> set (lineage rs i) \<and> \<not> ar_closed (rs ! k) then f (rs ! k) else rs ! k)"
    using assms(2) f by (auto simp: update_lineage_def split: if_splits)
qed

lemma call_drop_nth:
  assumes "i < length rs"
  shows "length (call_drop rs i) = length rs"
    and "call_drop rs i ! k = (if k \<in> set (lineage rs i)
      then (rs ! k)\<lparr>ar_in_flight := ar_in_flight (rs ! k) - 1\<rparr> else rs ! k)"
proof -
  have "j < length rs" if "j \<in> set (lineage rs i)" for j using lineage_bound [OF that] assms by simp
  note f = fold_update [where P = "\<lambda>_. False" and f = "\<lambda>r. r\<lparr>ar_in_flight := ar_in_flight r - 1\<rparr>",
      OF lineage_distinct this]
  show "length (call_drop rs i) = length rs"
    "call_drop rs i ! k = (if k \<in> set (lineage rs i)
      then (rs ! k)\<lparr>ar_in_flight := ar_in_flight (rs ! k) - 1\<rparr> else rs ! k)"
    using f by (auto simp: call_drop_def)
qed

section \<open>What an open record knows\<close>

text \<open>The store with its history: the calls counted and not yet answered, by the record they were made
  through, and the answers noted.\<close>

record attempts =
  at_records :: record_store
  at_calls :: "nat multiset"
  at_notes :: "(nat \<times> database_answer) list"

definition attempts_new :: attempts where
  "attempts_new = \<lparr>at_records = [], at_calls = {#}, at_notes = []\<rparr>"

text \<open>Applying a store operation: what it accepts becomes history.\<close>

definition started_call :: "nat \<Rightarrow> bool \<times> record_store \<Rightarrow> attempts \<Rightarrow> attempts" where
  "started_call i r s = s\<lparr>at_records := snd r, at_calls := (if fst r then add_mset i (at_calls s) else at_calls s)\<rparr>"

definition noted :: "nat \<Rightarrow> database_answer \<Rightarrow> bool \<times> record_store \<Rightarrow> attempts \<Rightarrow> attempts" where
  "noted i a r s = s\<lparr>at_records := snd r, at_notes := (if fst r then at_notes s @ [(i, a)] else at_notes s)\<rparr>"

inductive attempts_step :: "attempts \<Rightarrow> attempts \<Rightarrow> bool" where
  at_new: "(\<And>p. parent = Some p \<Longrightarrow> p < length (at_records s))
    \<Longrightarrow> attempts_step s (s\<lparr>at_records := at_records s @ [record_new parent]\<rparr>)"
| at_call: "i < length (at_records s) \<Longrightarrow> attempts_step s (started_call i (record_call (at_records s) i) s)"
| at_answered: "i \<in># at_calls s
    \<Longrightarrow> attempts_step s (s\<lparr>at_records := call_drop (at_records s) i, at_calls := at_calls s - {#i#}\<rparr>)"
| at_note: "i < length (at_records s) \<Longrightarrow> attempts_step s (noted i a (note_answer (at_records s) i a) s)"
| at_unanswered: "i < length (at_records s)
    \<Longrightarrow> attempts_step s (noted i DatabaseUnavailable (note_unanswered (at_records s) i) s)"
| at_close: "i < length (at_records s) \<Longrightarrow> attempts_step s (s\<lparr>at_records := snd (close (at_records s) i)\<rparr>)"

text \<open>The greatest of some answers.\<close>

definition greatest :: "database_answer list \<Rightarrow> database_answer option" where
  "greatest as = fold (\<lambda>a w. max w (Some a)) as None"

lemma greatest_simps [simp]: "greatest [] = None" "greatest (as @ [a]) = max (greatest as) (Some a)"
  by (simp_all add: greatest_def)

abbreviation inside :: "record_store \<Rightarrow> nat \<Rightarrow> nat \<Rightarrow> bool" where
  "inside rs k i \<equiv> k \<in> set (lineage rs i)"

definition attempts_inv :: "attempts \<Rightarrow> bool" where
  "attempts_inv s \<longleftrightarrow>
     (\<forall>i \<in># at_calls s. i < length (at_records s)) \<and> (\<forall>(i, _) \<in> set (at_notes s). i < length (at_records s))
   \<and> (\<forall>k < length (at_records s). \<not> ar_closed (at_records s ! k) \<longrightarrow>
        ar_in_flight (at_records s ! k) = size (filter_mset (inside (at_records s) k) (at_calls s))
      \<and> ar_worst (at_records s ! k) = greatest (map snd (filter (\<lambda>(i, _). inside (at_records s) k i) (at_notes s))))"

text \<open>An operation that keeps the parents keeps every lineage.\<close>

lemma lineage_same_parents:
  assumes "\<And>k. ar_parent (rs' ! k) = ar_parent (rs ! k)"
  shows "lineage rs' = lineage rs"
  by (rule ext, rule lineage_cong) (simp add: assms)

lemma lineage_append: "i < length rs \<Longrightarrow> lineage (rs @ rs2) i = lineage rs i"
  by (rule lineage_cong) (simp add: nth_append)

lemma update_lineage_parent:
  assumes "i < length rs" and "update_lineage f rs i = (acc, rs')" and "\<And>r. ar_parent (f r) = ar_parent r"
  shows "lineage rs' = lineage rs"
  by (rule lineage_same_parents) (use update_lineage_nth(3) [OF assms(1,2)] assms(3) in simp)

lemma call_drop_parent: "i < length rs \<Longrightarrow> lineage (call_drop rs i) = lineage rs"
  by (rule lineage_same_parents) (simp add: call_drop_nth(2))

lemma close_nth: "snd (close rs i) ! k = (if k = i \<and> i < length rs then (rs ! i)\<lparr>ar_closed := True\<rparr> else rs ! k)"
  by (cases "i < length rs") (auto simp: close_def nth_list_update list_update_beyond)

lemma close_parent: "lineage (snd (close rs i)) = lineage rs"
  by (rule lineage_same_parents) (simp add: close_nth)

lemma noted_inv:
  assumes inv: "attempts_inv s" and i: "i < length (at_records s)"
  shows "attempts_inv (noted i a (note_answer (at_records s) i a) s)"
proof -
  obtain acc rs' where u: "note_answer (at_records s) i a = (acc, rs')" by fastforce
  note u' = u [unfolded note_answer_def]
  have l: "lineage rs' = lineage (at_records s)" by (rule update_lineage_parent [OF i u']) simp
  show ?thesis
    using inv i update_lineage_nth [OF i u']
    by (auto simp: attempts_inv_def noted_def u l)
qed

lemma attempts_inv_step:
  assumes inv: "attempts_inv s" and "attempts_step s s'"
  shows "attempts_inv s'"
  using assms(2)
proof cases
  case (at_new parent)
  have old: "lineage (at_records s @ [record_new parent]) i = lineage (at_records s) i" if "i < length (at_records s)" for i
    using that by (rule lineage_append)
  have fresh: "length (at_records s) \<notin> set (lineage (at_records s) i)" if "i < length (at_records s)" for i
    using lineage_bound [of "length (at_records s)" "at_records s" i] that by auto
  have calls: "filter_mset (inside (at_records s @ [record_new parent]) k) (at_calls s) =
      (if k = length (at_records s) then {#} else filter_mset (inside (at_records s) k) (at_calls s))" for k
  proof (cases "k = length (at_records s)")
    case True
    have "filter_mset (inside (at_records s @ [record_new parent]) k) (at_calls s) = filter_mset (\<lambda>_. False) (at_calls s)"
      by (rule filter_mset_cong) (use inv old fresh True in \<open>auto simp: attempts_inv_def\<close>)
    then show ?thesis using True by simp
  next
    case False
    then show ?thesis using inv old by (auto simp: attempts_inv_def intro!: filter_mset_cong)
  qed
  have noted: "filter (\<lambda>(i, _). inside (at_records s @ [record_new parent]) k i) (at_notes s) =
      (if k = length (at_records s) then [] else filter (\<lambda>(i, _). inside (at_records s) k i) (at_notes s))" for k
    using inv old fresh by (force simp: attempts_inv_def filter_empty_conv intro!: filter_cong)
  show ?thesis
    using inv at_new unfolding attempts_inv_def
    by (auto simp: calls noted nth_append less_Suc_eq)
next
  case (at_call i)
  obtain acc rs' where u: "record_call (at_records s) i = (acc, rs')" by fastforce
  note u' = u [unfolded record_call_def]
  have l: "lineage rs' = lineage (at_records s)" by (rule update_lineage_parent [OF at_call(2) u']) simp
  show ?thesis
    using inv at_call update_lineage_nth [OF at_call(2) u'] by (auto simp: attempts_inv_def started_call_def u l)
next
  case (at_answered i)
  then have i: "i < length (at_records s)" using inv by (auto simp: attempts_inv_def)
  have "size (filter_mset P (at_calls s) - {#i#}) = size (filter_mset P (at_calls s)) - 1" if "P i" for P
    using at_answered(2) that by (simp add: size_Diff_singleton)
  then show ?thesis
    using inv at_answered call_drop_nth [OF i] by (auto simp: attempts_inv_def call_drop_parent [OF i] dest: in_diffD)
next
  case (at_note i a)
  then show ?thesis using noted_inv [OF inv] by simp
next
  case (at_unanswered i)
  then show ?thesis using noted_inv [OF inv, of i DatabaseUnavailable] inv
    by (auto simp: note_unanswered_def noted_def attempts_inv_def)
next
  case (at_close i)
  have "length (snd (close (at_records s) i)) = length (at_records s)" by (simp add: close_def)
  then show ?thesis using inv at_close by (auto simp: attempts_inv_def close_parent close_nth)
qed

interpretation records: transition_invariant attempts_new attempts_step attempts_inv
  by unfold_locales (simp add: attempts_new_def attempts_inv_def, rule attempts_inv_step)

text \<open>C20: An open attempt knows what its database calls met.  However attempts are nested, started,
  settled and left behind with calls in flight, an attempt that has not settled counts in flight
  exactly the calls made through it or through attempts inside it that are not answered yet, and
  closing it returns the greatest answer noted by any of them: unavailable over a spent call
  budget over contention, or nothing.\<close>

theorem open_attempt_is_exact:
  assumes "attempts_step\<^sup>*\<^sup>* attempts_new s" and "k < length (at_records s)" and "\<not> ar_closed (at_records s ! k)"
  shows "ar_in_flight (at_records s ! k) = size (filter_mset (\<lambda>i. k \<in> set (lineage (at_records s) i)) (at_calls s))
    \<and> fst (close (at_records s) k)
       = fold (\<lambda>a w. max w (Some a)) (map snd (filter (\<lambda>(i, _). k \<in> set (lineage (at_records s) i)) (at_notes s))) None"
  using records.inv_reachable [OF assms(1)] assms(2,3) by (simp add: attempts_inv_def close_def greatest_def)

theorem open_attempt_is_exact_witness:
  "\<exists>s. attempts_step\<^sup>*\<^sup>* attempts_new s \<and> at_notes s = [(1, Contended), (1, DatabaseUnavailable)]
     \<and> fst (close (at_records s) 0) = Some DatabaseUnavailable"
proof -
  define s1 where "s1 = attempts_new\<lparr>at_records := at_records attempts_new @ [record_new None]\<rparr>"
  define s2 where "s2 = s1\<lparr>at_records := at_records s1 @ [record_new (Some 0)]\<rparr>"
  define s3 where "s3 = noted 1 Contended (note_answer (at_records s2) 1 Contended) s2"
  define s4 where "s4 = noted 1 DatabaseUnavailable (note_answer (at_records s3) 1 DatabaseUnavailable) s3"
  have len: "length (at_records s1) = 1" "length (at_records s2) = 2" by (simp_all add: s1_def s2_def attempts_new_def)
  have "attempts_step attempts_new s1" unfolding s1_def by (rule at_new) simp
  moreover have "attempts_step s1 s2" unfolding s2_def by (rule at_new) (simp add: len)
  moreover have "attempts_step s2 s3" unfolding s3_def by (rule at_note) (simp add: len)
  moreover have rs3: "at_records s3 = [(record_new None)\<lparr>ar_worst := Some Contended\<rparr>, (record_new (Some 0))\<lparr>ar_worst := Some Contended\<rparr>]"
    "at_notes s3 = [(1, Contended)]"
    by (simp_all add: s3_def s2_def s1_def attempts_new_def noted_def note_answer_def update_lineage_def lineage.simps record_new_def)
  moreover have "attempts_step s3 s4" unfolding s4_def by (rule at_note) (simp add: rs3)
  ultimately have r: "attempts_step\<^sup>*\<^sup>* attempts_new s4" by (meson rtranclp.rtrancl_into_rtrancl rtranclp.rtrancl_refl)
  have rs4: "at_records s4 = [(record_new None)\<lparr>ar_worst := Some DatabaseUnavailable\<rparr>, (record_new (Some 0))\<lparr>ar_worst := Some DatabaseUnavailable\<rparr>]"
    "at_notes s4 = [(1, Contended), (1, DatabaseUnavailable)]"
    by (simp_all add: s4_def rs3 noted_def note_answer_def update_lineage_def lineage.simps record_new_def max_def
        less_eq_database_answer_def)
  moreover have "lineage (at_records s4) 1 = [1, 0]" by (simp add: rs4 lineage.simps record_new_def)
  ultimately have "fst (close (at_records s4) 0) = Some DatabaseUnavailable"
    using open_attempt_is_exact [OF r, of 0] by (simp add: record_new_def max_def less_eq_database_answer_def)
  then show ?thesis using r rs4(2) by blast
qed

end
