(* ===== verification/Init_Slot.thy ===== *)
theory Init_Slot
  imports Init_Attempt Core_Types "HOL-Library.Word"
begin

text \<open>
  \<^verbatim>\<open>crates/wafer-run/src/runtime/slot.rs\<close> and \<^verbatim>\<open>crates/wafer-block/src/init_state.rs\<close>: the slot that
  keeps the outcome of a block's init.

  Instants and durations are nanoseconds.  \<^verbatim>\<open>get_or_init\<close> is modelled by its two critical sections,
  \<open>enter_attempt\<close> and \<open>record_outcome\<close>, with the init in between; \<open>slot_step\<close> interleaves any
  number of callers, each of which may be cancelled.
\<close>

section \<open>Failures\<close>

text \<open>The message of a failure, by the \<^verbatim>\<open>format!\<close> that makes it.\<close>

datatype failure_text =
    Said msg_text
  | Lifecycle_failed wafer_error
  | Backing_off failure_text nat
  | Over_budget string nat bool "init_error option"
and init_error =
    Permanent failure_text
  | Transient transient_failure
  | Init_cycle "string list"
and transient_failure = TransientFailure (tf_message: failure_text) (tf_detail_code: "string option")

definition init_failure_is_transient :: "error_code \<Rightarrow> string option \<Rightarrow> bool" where
  "init_failure_is_transient code detail \<longleftrightarrow>
     detail = Some CALL_BUDGET_EXHAUSTED \<or> code \<in> {Unavailable, DeadlineExceeded, Cancelled, Aborted}"

definition from_lifecycle_error :: "wafer_error \<Rightarrow> init_error" where
  "from_lifecycle_error e =
     (if init_failure_is_transient (we_code e) (detail_code e)
      then Transient (TransientFailure (Lifecycle_failed e) (detail_code e))
      else Permanent (Lifecycle_failed e))"

section \<open>The slot\<close>

abbreviation nanos_per_milli :: nat where "nanos_per_milli \<equiv> 1000000"

definition TRANSIENT_RETRY_BASE :: nat where "TRANSIENT_RETRY_BASE = 100 * nanos_per_milli"
definition TRANSIENT_RETRY_MAX :: nat where "TRANSIENT_RETRY_MAX = 30000 * nanos_per_milli"

datatype cached_outcome = Cached_ok | Cached_permanent failure_text

text \<open>The counter is a \<^verbatim>\<open>u32\<close>.\<close>

record transient_backoff =
  tb_failures :: "32 word"
  tb_retry_at :: nat
  tb_failure :: transient_failure

definition backoff_delay :: "32 word \<Rightarrow> nat" where
  "backoff_delay failures =
     (let doublings = min (unat failures - 1) 16
      in min (TRANSIENT_RETRY_BASE * 2 ^ doublings) TRANSIENT_RETRY_MAX)"

definition backoff_pending :: "transient_backoff \<Rightarrow> nat \<Rightarrow> init_error option" where
  "backoff_pending b now =
     (if now < tb_retry_at b
      then Some (Transient (TransientFailure
             (Backing_off (tf_message (tb_failure b)) ((tb_retry_at b - now) div nanos_per_milli))
             (tf_detail_code (tb_failure b))))
      else None)"

record slot_state =
  ss_outcome :: "cached_outcome option"
  ss_backoff :: "transient_backoff option"
  ss_in_flight :: bool

definition slot_new :: slot_state where
  "slot_new = \<lparr>ss_outcome = None, ss_backoff = None, ss_in_flight = False\<rparr>"

fun cached_result :: "cached_outcome \<Rightarrow> init_error + unit" where
  "cached_result Cached_ok = Inr ()"
| "cached_result (Cached_permanent msg) = Inl (Permanent msg)"

definition slot_settled :: "slot_state \<Rightarrow> nat \<Rightarrow> (init_error + unit) option" where
  "slot_settled st now =
     (case ss_outcome st of
        Some cached \<Rightarrow> Some (cached_result cached)
      | None \<Rightarrow> (case ss_backoff st of None \<Rightarrow> None | Some b \<Rightarrow> map_option Inl (backoff_pending b now)))"

definition try_cached :: "slot_state \<Rightarrow> nat \<Rightarrow> (init_error + unit) option" where
  "try_cached st now = slot_settled st now"

definition pending_retry_in :: "slot_state \<Rightarrow> nat \<Rightarrow> nat option" where
  "pending_retry_in st now =
     (if ss_outcome st \<noteq> None then None
      else (case ss_backoff st of
              Some b \<Rightarrow> if now < tb_retry_at b then Some (tb_retry_at b - now) else None
            | None \<Rightarrow> None))"

datatype block_init_state =
    NotInitialized
  | Initializing
  | Ready
  | Retrying transient_failure nat
  | Failed failure_text

fun init_state_str :: "block_init_state \<Rightarrow> string" where
  "init_state_str NotInitialized = ''not_initialized''"
| "init_state_str Initializing = ''initializing''"
| "init_state_str Ready = ''ready''"
| "init_state_str (Retrying _ _) = ''retrying''"
| "init_state_str (Failed _) = ''failed''"

definition is_ready :: "block_init_state \<Rightarrow> bool" where
  "is_ready st \<longleftrightarrow> st = Ready"

definition slot_init_state :: "slot_state \<Rightarrow> nat \<Rightarrow> block_init_state" where
  "slot_init_state st now =
     (case ss_outcome st of
        Some Cached_ok \<Rightarrow> Ready
      | Some (Cached_permanent reason) \<Rightarrow> Failed reason
      | None \<Rightarrow>
          (case ss_backoff st of
             Some b \<Rightarrow>
               if now < tb_retry_at b then Retrying (tb_failure b) (tb_retry_at b - now)
               else if ss_in_flight st then Initializing
               else Retrying (tb_failure b) 0
           | None \<Rightarrow> if ss_in_flight st then Initializing else NotInitialized))"

text \<open>The critical section that starts an attempt, or answers without one.\<close>

definition enter_attempt :: "slot_state \<Rightarrow> nat \<Rightarrow> (init_error + unit) + slot_state" where
  "enter_attempt st now =
     (case slot_settled st now of
        Some answer \<Rightarrow> Inl answer
      | None \<Rightarrow> Inr (st\<lparr>ss_in_flight := True\<rparr>))"

text \<open>The critical section that records the outcome; \<open>now\<close> is read there.\<close>

definition record_outcome :: "slot_state \<Rightarrow> nat \<Rightarrow> init_error + unit \<Rightarrow> slot_state" where
  "record_outcome st now outcome =
     (let st = st\<lparr>ss_in_flight := False\<rparr> in
      case outcome of
        Inr _ \<Rightarrow> st\<lparr>ss_outcome := Some Cached_ok, ss_backoff := None\<rparr>
      | Inl (Permanent msg) \<Rightarrow> st\<lparr>ss_outcome := Some (Cached_permanent msg), ss_backoff := None\<rparr>
      | Inl (Transient failure) \<Rightarrow>
          (let failures = (case ss_backoff st of None \<Rightarrow> 0 | Some b \<Rightarrow> tb_failures b) + 1
           in st\<lparr>ss_backoff := Some \<lparr>tb_failures = failures, tb_retry_at = now + backoff_delay failures, tb_failure = failure\<rparr>\<rparr>)
      | Inl (Init_cycle _) \<Rightarrow> st)"

text \<open>\<^verbatim>\<open>InFlight\<close>'s drop: a cancelled attempt.\<close>

definition in_flight_drop :: "slot_state \<Rightarrow> slot_state" where
  "in_flight_drop st = st\<lparr>ss_in_flight := False\<rparr>"

section \<open>Concurrent callers\<close>

datatype caller_phase = Away | Queued | Running_init | Answered "init_error + unit"

datatype slot_event =
    Started nat
  | Ended nat "init_error + unit"
  | Abandoned

record slot_system =
  sl_slot :: slot_state
  sl_holder :: "nat option"
  sl_phase :: "nat \<Rightarrow> caller_phase"
  sl_now :: nat
  sl_log :: "slot_event list"

definition slot_system_new :: slot_system where
  "slot_system_new = \<lparr>sl_slot = slot_new, sl_holder = None, sl_phase = \<lambda>_. Away, sl_now = 0, sl_log = []\<rparr>"

text \<open>\<open>sl_holder\<close> is the caller with the attempt lock.  A caller with the lock that finds the slot
  settled answers and lets go of it.  The log, newest first, is a history variable.\<close>

inductive slot_step :: "slot_system \<Rightarrow> slot_system \<Rightarrow> bool" where
  sl_call: "sl_phase s c \<noteq> Queued \<Longrightarrow> sl_phase s c \<noteq> Running_init
    \<Longrightarrow> slot_step s (s\<lparr>sl_phase := (sl_phase s)(c := Queued)\<rparr>)"
| sl_settled: "sl_phase s c = Queued \<Longrightarrow> sl_holder s = None \<Longrightarrow> enter_attempt (sl_slot s) (sl_now s) = Inl answer
    \<Longrightarrow> slot_step s (s\<lparr>sl_phase := (sl_phase s)(c := Answered answer)\<rparr>)"
| sl_start: "sl_phase s c = Queued \<Longrightarrow> sl_holder s = None \<Longrightarrow> enter_attempt (sl_slot s) (sl_now s) = Inr st
    \<Longrightarrow> slot_step s (s\<lparr>sl_slot := st, sl_holder := Some c, sl_phase := (sl_phase s)(c := Running_init),
          sl_log := Started (sl_now s) # sl_log s\<rparr>)"
| sl_finish: "sl_holder s = Some c
    \<Longrightarrow> slot_step s (s\<lparr>sl_slot := record_outcome (sl_slot s) (sl_now s) outcome, sl_holder := None,
          sl_phase := (sl_phase s)(c := Answered outcome), sl_log := Ended (sl_now s) outcome # sl_log s\<rparr>)"
| sl_cancel: "sl_holder s = Some c
    \<Longrightarrow> slot_step s (s\<lparr>sl_slot := in_flight_drop (sl_slot s), sl_holder := None, sl_phase := (sl_phase s)(c := Away),
          sl_log := Abandoned # sl_log s\<rparr>)"
| sl_leave: "sl_phase s c = Queued \<Longrightarrow> slot_step s (s\<lparr>sl_phase := (sl_phase s)(c := Away)\<rparr>)"
| sl_tick: "sl_now s \<le> t \<Longrightarrow> slot_step s (s\<lparr>sl_now := t\<rparr>)"

section \<open>What an init history may look like\<close>

fun is_transient_end :: "slot_event \<Rightarrow> bool" where
  "is_transient_end (Ended _ (Inl (Transient _))) = True"
| "is_transient_end _ = False"

text \<open>The answer that is final once an attempt has ended with it.\<close>

fun final_answer :: "slot_event \<Rightarrow> (init_error + unit) option" where
  "final_answer (Ended _ (Inr u)) = Some (Inr u)"
| "final_answer (Ended _ (Inl (Permanent msg))) = Some (Inl (Permanent msg))"
| "final_answer _ = None"

definition attempt_running :: "slot_event list \<Rightarrow> bool" where
  "attempt_running h \<longleftrightarrow> (case h of Started _ # _ \<Rightarrow> True | _ \<Rightarrow> False)"

text \<open>When the last transient failure was, and how many there have been.\<close>

fun last_transient :: "slot_event list \<Rightarrow> (nat \<times> transient_failure) option" where
  "last_transient [] = None"
| "last_transient (Ended t (Inl (Transient f)) # h) = Some (t, f)"
| "last_transient (_ # h) = last_transient h"

definition transient_failures :: "slot_event list \<Rightarrow> nat" where
  "transient_failures h = length (filter is_transient_end h)"

text \<open>Init may start when none is running, none has given a final answer, and the backoff after the
  last transient failure is over.\<close>

definition may_start :: "slot_event list \<Rightarrow> nat \<Rightarrow> bool" where
  "may_start h now \<longleftrightarrow> \<not> attempt_running h \<and> (\<forall>e \<in> set h. final_answer e = None)
     \<and> (\<forall>t f. last_transient h = Some (t, f) \<longrightarrow> t + backoff_delay (of_nat (transient_failures h)) \<le> now)"

inductive init_history :: "slot_event list \<Rightarrow> slot_event list \<Rightarrow> bool" where
  ih_start: "may_start h now \<Longrightarrow> init_history h (Started now # h)"
| ih_end: "attempt_running h \<Longrightarrow> init_history h (Ended now outcome # h)"
| ih_abandon: "attempt_running h \<Longrightarrow> init_history h (Abandoned # h)"

section \<open>The slot follows its history\<close>

definition backoff_of :: "slot_event list \<Rightarrow> transient_backoff option" where
  "backoff_of h = map_option (\<lambda>(t, f).
     \<lparr>tb_failures = of_nat (transient_failures h),
      tb_retry_at = t + backoff_delay (of_nat (transient_failures h)), tb_failure = f\<rparr>) (last_transient h)"

definition slot_inv :: "slot_system \<Rightarrow> bool" where
  "slot_inv s \<longleftrightarrow>
     (sl_holder s \<noteq> None \<longleftrightarrow> attempt_running (sl_log s)) \<and> (ss_in_flight (sl_slot s) \<longleftrightarrow> attempt_running (sl_log s))
   \<and> (case ss_outcome (sl_slot s) of
        None \<Rightarrow> (\<forall>e \<in> set (sl_log s). final_answer e = None) \<and> ss_backoff (sl_slot s) = backoff_of (sl_log s)
      | Some cached \<Rightarrow> \<not> attempt_running (sl_log s)
          \<and> (\<forall>e \<in> set (sl_log s). \<forall>a. final_answer e = Some a \<longrightarrow> a = cached_result cached))"

lemma attempt_running_simps [simp]:
  "attempt_running (Started t # h)" "\<not> attempt_running (Ended t r # h)" "\<not> attempt_running (Abandoned # h)" "\<not> attempt_running []"
  by (simp_all add: attempt_running_def)

lemma transient_failures_simps [simp]:
  "transient_failures (e # h) = (if is_transient_end e then Suc (transient_failures h) else transient_failures h)"
  "transient_failures [] = 0"
  by (simp_all add: transient_failures_def)

lemma no_last_transient: "last_transient h = None \<Longrightarrow> transient_failures h = 0"
  by (induction h rule: last_transient.induct) auto

lemma backoff_of_simps:
  "backoff_of (Started t # h) = backoff_of h" "backoff_of (Abandoned # h) = backoff_of h" "backoff_of [] = None"
  "backoff_of (Ended t (Inl (Init_cycle p)) # h) = backoff_of h"
  "backoff_of (Ended t (Inl (Transient f)) # h) =
     (let failures = (case backoff_of h of None \<Rightarrow> 0 | Some b \<Rightarrow> tb_failures b) + 1
      in Some \<lparr>tb_failures = failures, tb_retry_at = t + backoff_delay failures, tb_failure = f\<rparr>)"
  using no_last_transient [of h] by (auto simp: backoff_of_def Let_def add.commute split: option.splits)

lemma enter_attempt_Inr:
  "enter_attempt st now = Inr st' \<longleftrightarrow> st' = st\<lparr>ss_in_flight := True\<rparr> \<and> ss_outcome st = None
     \<and> (\<forall>b. ss_backoff st = Some b \<longrightarrow> tb_retry_at b \<le> now)"
  by (auto simp: enter_attempt_def slot_settled_def backoff_pending_def split: option.splits if_splits)

lemma slot_inv_step:
  assumes inv: "slot_inv s" and "slot_step s s'"
  shows "slot_inv s'"
  using assms(2)
proof cases
  case (sl_finish c outcome)
  have none: "ss_outcome (sl_slot s) = None" using inv sl_finish by (auto simp: slot_inv_def split: option.splits)
  show ?thesis
  proof (cases outcome)
    case (Inl e)
    then show ?thesis
      using inv sl_finish none
      by (cases e) (auto simp: slot_inv_def record_outcome_def Let_def backoff_of_simps)
  next
    case (Inr u)
    then show ?thesis using inv sl_finish none by (auto simp: slot_inv_def record_outcome_def Let_def)
  qed
qed (use inv in \<open>auto simp: slot_inv_def enter_attempt_Inr in_flight_drop_def backoff_of_simps split: option.splits\<close>)

lemma slot_step_history:
  assumes inv: "slot_inv s" and "slot_step s s'"
  shows "init_history\<^sup>*\<^sup>* (sl_log s) (sl_log s')"
  using assms(2)
proof cases
  case (sl_start c st)
  then have "may_start (sl_log s) (sl_now s)"
    using inv by (auto simp: slot_inv_def may_start_def enter_attempt_Inr backoff_of_def split: option.splits)
  then show ?thesis using sl_start by (auto intro: ih_start)
next
  case (sl_finish c outcome)
  then show ?thesis using inv by (auto simp: slot_inv_def intro: ih_end)
next
  case (sl_cancel c)
  then show ?thesis using inv by (auto simp: slot_inv_def intro: ih_abandon)
qed simp_all

interpretation slot: transition_invariant slot_system_new slot_step slot_inv
  by unfold_locales
     (simp add: slot_inv_def slot_system_new_def slot_new_def backoff_of_simps, rule slot_inv_step)

interpretation slot_history: step_refinement slot_step init_history sl_log slot_inv
  by unfold_locales (fact slot_inv_step, fact slot_step_history)

lemma backoff_delay_bounds:
  "TRANSIENT_RETRY_BASE \<le> backoff_delay n \<and> backoff_delay n \<le> TRANSIENT_RETRY_MAX"
  by (simp add: backoff_delay_def Let_def TRANSIENT_RETRY_BASE_def TRANSIENT_RETRY_MAX_def)

text \<open>C19: A block's init runs at most once successfully and never more often than its backoff allows.
  However many callers reach the slot, wait for it and are cancelled, its attempts form a history
  in which an attempt starts only while none is running, never after one that succeeded or failed
  permanently, and only once the delay after the last transient failure (100 ms, doubled per
  failure, 30 s at most) has passed; and once an attempt has given a final answer, the slot gives
  that answer to every later caller.\<close>

theorem slot_attempts_follow_the_backoff:
  assumes "slot_step\<^sup>*\<^sup>* slot_system_new s"
  shows "init_history\<^sup>*\<^sup>* [] (sl_log s)
    \<and> (\<forall>e \<in> set (sl_log s). \<forall>answer. final_answer e = Some answer \<longrightarrow> try_cached (sl_slot s) now = Some answer)"
proof -
  have new: "slot_inv slot_system_new" "sl_log slot_system_new = []"
    by (rule slot.inv_initial, simp add: slot_system_new_def)
  have "slot_inv s" using slot.inv_reachable [OF assms] .
  then have "try_cached (sl_slot s) now = Some answer" if "e \<in> set (sl_log s)" "final_answer e = Some answer" for e answer
    using that by (cases "ss_outcome (sl_slot s)") (auto simp: slot_inv_def try_cached_def slot_settled_def)
  then show ?thesis using slot_history.simulation [OF assms new(1)] new(2) by auto
qed

theorem slot_attempts_follow_the_backoff_witness:
  "\<exists>s. slot_step\<^sup>*\<^sup>* slot_system_new s \<and> sl_log s = [Ended 0 (Inr ()), Started 0]
     \<and> try_cached (sl_slot s) 5 = Some (Inr ())"
proof -
  define s1 where "s1 = slot_system_new\<lparr>sl_phase := (sl_phase slot_system_new)(0 := Queued)\<rparr>"
  define s2 where "s2 = s1\<lparr>sl_slot := (sl_slot s1)\<lparr>ss_in_flight := True\<rparr>, sl_holder := Some 0,
    sl_phase := (sl_phase s1)(0 := Running_init), sl_log := Started (sl_now s1) # sl_log s1\<rparr>"
  define s3 where "s3 = s2\<lparr>sl_slot := record_outcome (sl_slot s2) (sl_now s2) (Inr ()), sl_holder := None,
    sl_phase := (sl_phase s2)(0 := Answered (Inr ())), sl_log := Ended (sl_now s2) (Inr ()) # sl_log s2\<rparr>"
  have "slot_step slot_system_new s1" unfolding s1_def by (rule sl_call) (simp_all add: slot_system_new_def)
  moreover have "slot_step s1 s2"
    unfolding s2_def by (rule sl_start) (simp_all add: s1_def slot_system_new_def slot_new_def enter_attempt_Inr)
  moreover have "slot_step s2 s3" unfolding s3_def by (rule sl_finish) (simp add: s2_def)
  ultimately have r: "slot_step\<^sup>*\<^sup>* slot_system_new s3" by (meson rtranclp.rtrancl_into_rtrancl rtranclp.rtrancl_refl)
  moreover have log: "sl_log s3 = [Ended 0 (Inr ()), Started 0]" by (simp add: s3_def s2_def s1_def slot_system_new_def)
  ultimately show ?thesis using slot_attempts_follow_the_backoff [OF r, of 5] by auto
qed

end
