(* ===== verification/Init_Waits.thy ===== *)
theory Init_Waits
  imports Transitions
begin

text \<open>
  \<^verbatim>\<open>crates/wafer-run/src/runtime/init_waits.rs\<close>: the runtime-wide graph of which init attempt owns
  which block and waits for which blocks, and the search that refuses a wait that would close a
  cycle.

  A hash map is an association list without duplicate keys; the locks of the source make every
  operation one step.  Guards are the operations their \<^verbatim>\<open>Drop\<close> runs.
\<close>

section \<open>The graph\<close>

record wait_graph =
  wg_owners :: "(string \<times> nat) list"
  wg_waits :: "nat \<Rightarrow> string list"

record init_attempt =
  ia_id :: nat
  ia_block :: string

abbreviation owner :: "wait_graph \<Rightarrow> string \<Rightarrow> nat option" where
  "owner g b \<equiv> map_of (wg_owners g) b"

text \<open>An attempt without an entry in \<^verbatim>\<open>waits\<close> waits for nothing: an empty list.\<close>

definition wait_graph_new :: wait_graph where
  "wait_graph_new = \<lparr>wg_owners = [], wg_waits = \<lambda>_. []\<rparr>"

text \<open>\<^verbatim>\<open>WaitGraph::reaches\<close>; the second function is its loop over the blocks an owner waits for.
  Path and visited set are returned with the answer.\<close>

function reaches :: "wait_graph \<Rightarrow> string \<Rightarrow> nat \<Rightarrow> string list \<Rightarrow> nat set \<Rightarrow> bool \<times> string list \<times> nat set"
  and reaches_any :: "wait_graph \<Rightarrow> string list \<Rightarrow> nat \<Rightarrow> string list \<Rightarrow> nat set \<Rightarrow> bool \<times> string list \<times> nat set" where
  "reaches g block goal path seen =
     (case owner g block of
        None \<Rightarrow> (False, path, seen)
      | Some ow \<Rightarrow>
          if ow = goal then (True, path, seen)
          else if ow \<in> seen then (False, path, seen)
          else reaches_any g (wg_waits g ow) goal path (insert ow seen))"
| "reaches_any g [] goal path seen = (False, path, seen)"
| "reaches_any g (nxt # rest) goal path seen =
     (case reaches g nxt goal (path @ [nxt]) seen of
        (True, path', seen') \<Rightarrow> (True, path', seen')
      | (False, path', seen') \<Rightarrow> reaches_any g rest goal (butlast path') seen')"
  by pat_completeness auto

text \<open>The visited set only grows, whenever the search ends.\<close>

lemma reaches_grows:
  "reaches_reaches_any_dom (Inl (g, block, goal, path, seen)) \<Longrightarrow> seen \<subseteq> snd (snd (reaches g block goal path seen))"
  "reaches_reaches_any_dom (Inr (g, blocks, goal, path, seen)) \<Longrightarrow> seen \<subseteq> snd (snd (reaches_any g blocks goal path seen))"
proof (induction g block goal path seen and g blocks goal path seen rule: reaches_reaches_any.pinduct)
  case (1 g block goal path seen)
  then show ?case by (auto simp: reaches.psimps split: option.splits)
next
  case (3 g nxt rest goal path seen)
  then show ?case by (force simp: reaches_any.psimps split: prod.splits bool.splits)
qed (simp add: reaches_any.psimps)

definition unseen :: "wait_graph \<Rightarrow> nat set \<Rightarrow> nat" where
  "unseen g seen = card (snd ` set (wg_owners g) - seen)"

lemma unseen_mono: "seen \<subseteq> seen' \<Longrightarrow> unseen g seen' \<le> unseen g seen"
  unfolding unseen_def by (rule card_mono) auto

lemma unseen_visit: "owner g b = Some ow \<Longrightarrow> ow \<notin> seen \<Longrightarrow> unseen g (insert ow seen) < unseen g seen"
  unfolding unseen_def using image_eqI [of ow snd "(b, ow)" "set (wg_owners g)"]
  by (intro psubset_card_mono) (auto dest!: map_of_SomeD)

termination reaches
proof (relation "measures [\<lambda>x. case x of Inl (g, b, goal, path, seen) \<Rightarrow> unseen g seen | Inr (g, bs, goal, path, seen) \<Rightarrow> unseen g seen,
    \<lambda>x. case x of Inl _ \<Rightarrow> 0 | Inr (g, bs, goal, path, seen) \<Rightarrow> Suc (length bs)]", goal_cases)
  case (2 g block goal path seen ow)
  then show ?case using unseen_visit [of g block ow seen] by simp
next
  case (4 g nxt rest goal path seen r y path' seen')
  then have "seen \<subseteq> seen'"
    using reaches_grows(1) [of g nxt goal "path @ [nxt]" seen] by (metis snd_conv)
  then show ?case using unseen_mono [of seen seen' g] by auto
qed auto

section \<open>Operations\<close>

text \<open>\<^verbatim>\<open>InitWaits\<close>: the graph and the counter of attempts.\<close>

record init_waits =
  iw_graph :: wait_graph
  iw_next_attempt :: nat

definition init_waits_new :: init_waits where
  "init_waits_new = \<lparr>iw_graph = wait_graph_new, iw_next_attempt = 0\<rparr>"

definition attempt :: "init_waits \<Rightarrow> string \<Rightarrow> init_attempt \<times> init_waits" where
  "attempt iw block = (\<lparr>ia_id = iw_next_attempt iw, ia_block = block\<rparr>, iw\<lparr>iw_next_attempt := Suc (iw_next_attempt iw)\<rparr>)"

definition is_running :: "init_waits \<Rightarrow> init_attempt \<Rightarrow> bool" where
  "is_running iw a \<longleftrightarrow> owner (iw_graph iw) (ia_block a) = Some (ia_id a)"

definition own :: "init_waits \<Rightarrow> init_attempt \<Rightarrow> init_waits" where
  "own iw a = iw\<lparr>iw_graph := (iw_graph iw)\<lparr>wg_owners := AList.update (ia_block a) (ia_id a) (wg_owners (iw_graph iw))\<rparr>\<rparr>"

definition wait_for :: "init_waits \<Rightarrow> init_attempt \<Rightarrow> string \<Rightarrow> string list + init_waits" where
  "wait_for iw waiter target =
     (let g = iw_graph iw in
      case reaches g target (ia_id waiter) [ia_block waiter, target] {} of
        (True, path, _) \<Rightarrow> Inl path
      | (False, _, _) \<Rightarrow>
          Inr (iw\<lparr>iw_graph := g\<lparr>wg_waits := (wg_waits g)(ia_id waiter := wg_waits g (ia_id waiter) @ [target])\<rparr>\<rparr>))"

definition owner_drop :: "init_waits \<Rightarrow> init_attempt \<Rightarrow> init_waits" where
  "owner_drop iw a =
     (if owner (iw_graph iw) (ia_block a) = Some (ia_id a)
      then iw\<lparr>iw_graph := (iw_graph iw)\<lparr>wg_owners := AList.delete (ia_block a) (wg_owners (iw_graph iw))\<rparr>\<rparr>
      else iw)"

text \<open>\<^verbatim>\<open>Vec::swap_remove\<close>: the last element takes the place of the removed one.\<close>

definition swap_remove :: "'a list \<Rightarrow> nat \<Rightarrow> 'a list" where
  "swap_remove xs i = butlast (xs[i := last xs])"

definition wait_drop :: "init_waits \<Rightarrow> nat \<Rightarrow> string \<Rightarrow> init_waits" where
  "wait_drop iw waiter target =
     (let g = iw_graph iw; targets = wg_waits g waiter in
      case position (\<lambda>t. t = target) targets of
        None \<Rightarrow> iw
      | Some pos \<Rightarrow> iw\<lparr>iw_graph := g\<lparr>wg_waits := (wg_waits g)(waiter := swap_remove targets pos)\<rparr>\<rparr>)"

section \<open>The search finds exactly the cycles\<close>

text \<open>\<open>waits_on g\<close> relates an attempt to the attempts it waits for.\<close>

definition waits_on :: "wait_graph \<Rightarrow> (nat \<times> nat) set" where
  "waits_on g = {(a, o'). \<exists>b \<in> set (wg_waits g a). owner g b = Some o'}"

text \<open>A chain of waits from the owner of a block to an attempt, by the blocks walked.\<close>

fun wait_chain :: "wait_graph \<Rightarrow> string \<Rightarrow> string list \<Rightarrow> nat \<Rightarrow> bool" where
  "wait_chain g b [] goal = (owner g b = Some goal)"
| "wait_chain g b (c # cs) goal = (\<exists>a. owner g b = Some a \<and> c \<in> set (wg_waits g a) \<and> wait_chain g c cs goal)"

text \<open>What a failed search has established: the owners it has visited beyond \<open>seen\<close> lead to visited
  owners only, and none of them is the goal.\<close>

definition visited :: "wait_graph \<Rightarrow> nat \<Rightarrow> nat set \<Rightarrow> string \<Rightarrow> bool" where
  "visited g goal seen b \<longleftrightarrow> (\<forall>a. owner g b = Some a \<longrightarrow> a \<noteq> goal \<and> a \<in> seen)"

definition explored :: "wait_graph \<Rightarrow> nat \<Rightarrow> nat set \<Rightarrow> nat set \<Rightarrow> bool" where
  "explored g goal seen seen' \<longleftrightarrow>
     seen \<subseteq> seen' \<and> (\<forall>a \<in> seen' - seen. \<forall>b \<in> set (wg_waits g a). visited g goal seen' b)"

lemma visited_mono: "visited g goal seen b \<Longrightarrow> seen \<subseteq> seen' \<Longrightarrow> visited g goal seen' b"
  by (auto simp: visited_def)

lemma explored_refl: "explored g goal seen seen"
  by (simp add: explored_def)

lemma explored_trans: "explored g goal s1 s2 \<Longrightarrow> explored g goal s2 s3 \<Longrightarrow> explored g goal s1 s3"
  unfolding explored_def by (blast intro: visited_mono)

lemma explored_owner:
  "explored g goal (insert a seen) seen' \<Longrightarrow> (\<And>b. b \<in> set (wg_waits g a) \<Longrightarrow> visited g goal seen' b)
    \<Longrightarrow> explored g goal seen seen'"
  unfolding explored_def by blast

lemma reaches_result:
  "case reaches g block goal path seen of
     (True, path', _) \<Rightarrow> \<exists>cs. path' = path @ cs \<and> wait_chain g block cs goal
   | (False, path', seen') \<Rightarrow> path' = path \<and> explored g goal seen seen' \<and> visited g goal seen' block"
  "case reaches_any g blocks goal path seen of
     (True, path', _) \<Rightarrow> \<exists>c cs. c \<in> set blocks \<and> path' = path @ c # cs \<and> wait_chain g c cs goal
   | (False, path', seen') \<Rightarrow> path' = path \<and> explored g goal seen seen' \<and> (\<forall>b \<in> set blocks. visited g goal seen' b)"
proof (induction g block goal path seen and g blocks goal path seen rule: reaches_reaches_any.induct)
  case (1 g block goal path seen)
  show ?case
  proof (cases "owner g block")
    case None
    then show ?thesis by (simp add: visited_def explored_refl)
  next
    case (Some a)
    show ?thesis
    proof (cases "a = goal \<or> a \<in> seen")
      case True
      then show ?thesis using Some by (auto simp: visited_def explored_refl intro: exI [of _ "[]"])
    next
      case False
      obtain found p s where r: "reaches_any g (wg_waits g a) goal path (insert a seen) = (found, p, s)"
        by (cases "reaches_any g (wg_waits g a) goal path (insert a seen)")
      have "reaches g block goal path seen = (found, p, s)" using Some False r by simp
      moreover have "a \<in> s" if "explored g goal (insert a seen) s" using that by (auto simp: explored_def)
      ultimately show ?thesis
        using 1 [OF Some] False r Some
        by (cases found) (auto simp: visited_def intro: explored_owner)
    qed
  qed
next
  case (3 g nxt rest goal path seen)
  obtain found p s where r: "reaches g nxt goal (path @ [nxt]) seen = (found, p, s)"
    by (cases "reaches g nxt goal (path @ [nxt]) seen")
  show ?case
  proof (cases found)
    case True
    then show ?thesis using 3(1) r by auto
  next
    case False
    then have p: "p = path @ [nxt]" "explored g goal seen s" "visited g goal s nxt" using 3(1) r by auto
    obtain found' p' s' where r': "reaches_any g rest goal path s = (found', p', s')"
      by (cases "reaches_any g rest goal path s")
    have "reaches_any g (nxt # rest) goal path seen = (found', p', s')" using r r' False p(1) by simp
    moreover have "explored g goal s s' \<Longrightarrow> visited g goal s' nxt"
      using p(3) by (auto simp: explored_def intro: visited_mono)
    ultimately show ?thesis
      using 3(2) [OF r [symmetric]] False p r' by (cases found') (auto intro: explored_trans)
  qed
qed (simp add: explored_refl)

lemma explored_closed:
  assumes "explored g goal {} s" and "(a, b) \<in> (waits_on g)\<^sup>*" and "a \<in> s" and "a \<noteq> goal"
  shows "b \<in> s \<and> b \<noteq> goal"
  using assms(2-)
proof (induction rule: rtrancl_induct)
  case (step b c)
  then show ?case using assms(1) by (auto simp: explored_def visited_def waits_on_def)
qed simp

lemma wait_chain_rtrancl:
  "wait_chain g b cs goal \<Longrightarrow> \<exists>a. owner g b = Some a \<and> (a, goal) \<in> (waits_on g)\<^sup>*"
proof (induction cs arbitrary: b)
  case (Cons c cs)
  then obtain a a' where "owner g b = Some a" "c \<in> set (wg_waits g a)" "owner g c = Some a'" "(a', goal) \<in> (waits_on g)\<^sup>*"
    by fastforce
  moreover have "(a, a') \<in> waits_on g" using calculation by (auto simp: waits_on_def)
  ultimately show ?case by (blast intro: converse_rtrancl_into_rtrancl)
qed simp

text \<open>A wait is refused exactly when the owner of the target already waits, directly or not, for the
  waiter; the path it is refused with walks such a chain of waits back to the waiter.\<close>

lemma wait_for_refuses:
  "(\<exists>path. wait_for iw a target = Inl path) \<longleftrightarrow>
     (\<exists>ow. owner (iw_graph iw) target = Some ow \<and> (ow, ia_id a) \<in> (waits_on (iw_graph iw))\<^sup>*)"
proof -
  obtain found p s where r: "reaches (iw_graph iw) target (ia_id a) [ia_block a, target] {} = (found, p, s)"
    by (cases "reaches (iw_graph iw) target (ia_id a) [ia_block a, target] {}")
  then have "isl (wait_for iw a target) \<longleftrightarrow> found" by (cases found) (simp_all add: wait_for_def Let_def del: reaches.simps)
  moreover have "found \<longleftrightarrow> (\<exists>ow. owner (iw_graph iw) target = Some ow \<and> (ow, ia_id a) \<in> (waits_on (iw_graph iw))\<^sup>*)"
  proof (cases found)
    case True
    then show ?thesis
      using reaches_result(1) [where g = "iw_graph iw" and block = target and goal = "ia_id a"
          and path = "[ia_block a, target]" and seen = "{}"] r wait_chain_rtrancl by fastforce
  next
    case False
    then have "explored (iw_graph iw) (ia_id a) {} s" "visited (iw_graph iw) (ia_id a) s target"
      using reaches_result(1) [where g = "iw_graph iw" and block = target and goal = "ia_id a"
          and path = "[ia_block a, target]" and seen = "{}"] r by auto
    then show ?thesis using explored_closed False by (fastforce simp: visited_def)
  qed
  ultimately show ?thesis by (metis isl_def)
qed

section \<open>Inits never deadlock\<close>

text \<open>The graph as \<^verbatim>\<open>run_init_pipeline\<close> of \<^verbatim>\<open>runtime.rs\<close> uses it.  An attempt owns its block once, when it has taken
  the attempt lock of the block's slot, so the block has no owner then; its context reaches code
  only after that, so only a started attempt waits.  Guards drop at any time.\<close>

record wait_system =
  wy_waits :: init_waits
  wy_started :: "nat set"

definition wait_system_new :: wait_system where
  "wait_system_new = \<lparr>wy_waits = init_waits_new, wy_started = {}\<rparr>"

inductive wait_step :: "wait_system \<Rightarrow> wait_system \<Rightarrow> bool" where
  step_attempt: "attempt (wy_waits s) block = (a, iw) \<Longrightarrow> wait_step s (s\<lparr>wy_waits := iw\<rparr>)"
| step_own: "ia_id a < iw_next_attempt (wy_waits s) \<Longrightarrow> ia_id a \<notin> wy_started s
    \<Longrightarrow> owner (iw_graph (wy_waits s)) (ia_block a) = None
    \<Longrightarrow> wait_step s (s\<lparr>wy_waits := own (wy_waits s) a, wy_started := insert (ia_id a) (wy_started s)\<rparr>)"
| step_wait: "ia_id a \<in> wy_started s \<Longrightarrow> wait_for (wy_waits s) a target = Inr iw \<Longrightarrow> wait_step s (s\<lparr>wy_waits := iw\<rparr>)"
| step_owner_drop: "wait_step s (s\<lparr>wy_waits := owner_drop (wy_waits s) a\<rparr>)"
| step_wait_drop: "wait_step s (s\<lparr>wy_waits := wait_drop (wy_waits s) waiter target\<rparr>)"

definition no_deadlock :: "wait_system \<Rightarrow> bool" where
  "no_deadlock s \<longleftrightarrow> acyclic (waits_on (iw_graph (wy_waits s)))
     \<and> (\<forall>x. x \<notin> wy_started s \<longrightarrow> wg_waits (iw_graph (wy_waits s)) x = [])"

lemma set_swap_remove: "i < length xs \<Longrightarrow> set (swap_remove xs i) \<subseteq> set xs"
proof -
  assume "i < length xs"
  then have "last xs \<in> set xs" by (intro last_in_set) auto
  then show ?thesis
    unfolding swap_remove_def using set_update_subset_insert [of xs i "last xs"] by (auto dest!: in_set_butlastD)
qed

lemma waits_on_mono:
  "(\<And>a. set (wg_waits g a) \<subseteq> set (wg_waits h a)) \<Longrightarrow> (\<And>b a. owner g b = Some a \<Longrightarrow> owner h b = Some a)
    \<Longrightarrow> waits_on g \<subseteq> waits_on h"
  unfolding waits_on_def by blast

lemma waits_on_drop:
  "waits_on (iw_graph (owner_drop iw a)) \<subseteq> waits_on (iw_graph iw)"
  "waits_on (iw_graph (wait_drop iw w t)) \<subseteq> waits_on (iw_graph iw)"
  by (rule waits_on_mono; auto simp: owner_drop_def delete_conv split: if_splits)
     (rule waits_on_mono; auto simp: wait_drop_def Let_def dest!: set_swap_remove position_Some split: option.splits if_splits)

lemma waits_on_iff: "(x, y) \<in> waits_on g \<longleftrightarrow> (\<exists>b. b \<in> set (wg_waits g x) \<and> owner g b = Some y)"
  by (auto simp: waits_on_def)

lemma wait_for_Inr:
  "wait_for iw a t = Inr iw' \<Longrightarrow> iw_graph iw' = (iw_graph iw)\<lparr>wg_waits := (wg_waits (iw_graph iw))
     (ia_id a := wg_waits (iw_graph iw) (ia_id a) @ [t])\<rparr> \<and> iw_next_attempt iw' = iw_next_attempt iw"
  by (auto simp: wait_for_def Let_def simp del: reaches.simps split: prod.splits bool.splits)

lemma waits_on_wait:
  "wait_for iw a t = Inr iw' \<Longrightarrow> waits_on (iw_graph iw') =
     waits_on (iw_graph iw) \<union> {(ia_id a, ow) | ow. owner (iw_graph iw) t = Some ow}"
  by (drule wait_for_Inr) (auto simp: waits_on_iff set_eq_iff)

lemma waits_on_own:
  "owner (iw_graph iw) (ia_block a) = None \<Longrightarrow> waits_on (iw_graph (own iw a)) =
     waits_on (iw_graph iw) \<union> {(x, ia_id a) | x. ia_block a \<in> set (wg_waits (iw_graph iw) x)}"
proof -
  assume none: "owner (iw_graph iw) (ia_block a) = None"
  have "owner (iw_graph (own iw a)) b = Some y \<longleftrightarrow> owner (iw_graph iw) b = Some y \<or> (b = ia_block a \<and> y = ia_id a)" for b y
    using none by (auto simp: own_def update_conv)
  moreover have "wg_waits (iw_graph (own iw a)) = wg_waits (iw_graph iw)" by (simp add: own_def)
  ultimately show ?thesis by (auto simp: waits_on_iff set_eq_iff)
qed

text \<open>Edges into a node without outgoing edges close no cycle.\<close>

lemma acyclic_sink:
  assumes "acyclic r" and "\<And>y. (b, y) \<notin> r" and "b \<notin> X"
  shows "acyclic (r \<union> X \<times> {b})"
proof -
  have "(x, y) \<in> (r \<union> X \<times> {b})\<^sup>+ \<Longrightarrow> x \<noteq> b \<and> (y \<noteq> b \<longrightarrow> (x, y) \<in> r\<^sup>+)" for x y
  proof (induction rule: trancl_induct)
    case (base y)
    then show ?case using assms(2,3) by auto
  next
    case (step y z)
    then show ?case using assms(2,3) by (cases "y = b") (auto intro: trancl_into_trancl)
  qed
  then show ?thesis using assms(1) unfolding acyclic_def by blast
qed

lemma no_deadlock_step:
  assumes inv: "no_deadlock s" and "wait_step s s'"
  shows "no_deadlock s'"
  using assms(2)
proof cases
  case (step_attempt block a iw)
  then show ?thesis using inv by (auto simp: no_deadlock_def attempt_def)
next
  case (step_own a)
  let ?g = "iw_graph (wy_waits s)"
  have "acyclic (waits_on ?g \<union> {x. ia_block a \<in> set (wg_waits ?g x)} \<times> {ia_id a})"
    by (rule acyclic_sink) (use inv step_own in \<open>auto simp: no_deadlock_def waits_on_def\<close>)
  moreover have "{x. ia_block a \<in> set (wg_waits ?g x)} \<times> {ia_id a} = {(x, ia_id a) | x. ia_block a \<in> set (wg_waits ?g x)}" by auto
  ultimately have "acyclic (waits_on (iw_graph (own (wy_waits s) a)))" using step_own by (simp add: waits_on_own)
  then show ?thesis using inv step_own by (simp add: no_deadlock_def own_def)
next
  case (step_wait a target iw)
  let ?g = "iw_graph (wy_waits s)"
  have "(ow, ia_id a) \<notin> (waits_on ?g)\<^sup>*" if "owner ?g target = Some ow" for ow
    using wait_for_refuses [of "wy_waits s" a target] step_wait that by auto
  then have "acyclic (waits_on (iw_graph iw))"
    using inv step_wait by (cases "owner ?g target") (auto simp: waits_on_wait no_deadlock_def)
  then show ?thesis
    using inv step_wait wait_for_Inr [OF step_wait(3)] by (auto simp: no_deadlock_def)
next
  case (step_owner_drop a)
  then have "acyclic (waits_on (iw_graph (wy_waits s')))"
    using inv acyclic_subset [OF _ waits_on_drop(1)] by (simp add: no_deadlock_def)
  then show ?thesis using inv step_owner_drop by (simp add: no_deadlock_def owner_drop_def)
next
  case (step_wait_drop waiter target)
  then have "acyclic (waits_on (iw_graph (wy_waits s')))"
    using inv acyclic_subset [OF _ waits_on_drop(2)] by (simp add: no_deadlock_def)
  then show ?thesis
    using inv step_wait_drop by (auto simp: no_deadlock_def wait_drop_def Let_def swap_remove_def split: option.splits)
qed

lemma no_deadlock_new: "no_deadlock wait_system_new"
  by (simp add: no_deadlock_def wait_system_new_def init_waits_new_def wait_graph_new_def waits_on_def acyclic_def)

interpretation waits: transition_invariant wait_system_new wait_step no_deadlock
  by unfold_locales (fact no_deadlock_new, rule no_deadlock_step)

text \<open>Among finitely many running attempts one waits for no running attempt.\<close>

lemma some_owner_unblocked:
  assumes "acyclic (waits_on g)" and "wg_owners g \<noteq> []"
  shows "\<exists>b a. owner g b = Some a \<and> (\<forall>t \<in> set (wg_waits g a). owner g t = None)"
proof -
  let ?A = "ran (owner g)"
  have fin: "finite ?A" by (rule finite_ran) (rule finite_dom_map_of)
  have "finite (waits_on g \<inter> ?A \<times> ?A)" using fin by simp
  then have wf: "wf ((waits_on g \<inter> ?A \<times> ?A)\<inverse>)"
    by (rule finite_acyclic_wf_converse) (use assms(1) in \<open>auto intro: acyclic_subset\<close>)
  obtain b0 a0 os where "wg_owners g = (b0, a0) # os" using assms(2) by (metis neq_Nil_conv surj_pair)
  then have "owner g b0 = Some a0" by simp
  then have "a0 \<in> ?A" by (rule ranI)
  then obtain a where "a \<in> ?A" and top: "\<And>y. (y, a) \<in> (waits_on g \<inter> ?A \<times> ?A)\<inverse> \<Longrightarrow> y \<notin> ?A"
    using wfE_min [OF wf] by metis
  have "owner g t = None" if "t \<in> set (wg_waits g a)" for t
  proof (cases "owner g t")
    case (Some y)
    then have "y \<in> ?A" "(a, y) \<in> waits_on g" using that by (auto simp: waits_on_iff intro: ranI)
    then show ?thesis using top [of y] \<open>a \<in> ?A\<close> by simp
  qed
  moreover obtain b where "owner g b = Some a" using \<open>a \<in> ?A\<close> by (auto simp: ran_def)
  ultimately show ?thesis by blast
qed

text \<open>C18: Block inits cannot deadlock.  However dispatches start inits, wait for the inits of other
  blocks, are cancelled and retried, at every moment where some block's init is running there is
  a running init that waits for no running init.  And waits are refused only where they must be:
  a wait is refused exactly when the running init of the target already waits, directly or
  through others, for the waiter.\<close>

theorem inits_never_deadlock:
  assumes "wait_step\<^sup>*\<^sup>* wait_system_new s"
  shows "let g = iw_graph (wy_waits s) in
     (wg_owners g \<noteq> [] \<longrightarrow> (\<exists>b a. owner g b = Some a \<and> (\<forall>t \<in> set (wg_waits g a). owner g t = None)))
   \<and> (\<forall>a target. (\<exists>path. wait_for (wy_waits s) a target = Inl path) \<longleftrightarrow>
        (\<exists>ow. owner g target = Some ow \<and> (ow, ia_id a) \<in> {(x, y). \<exists>b \<in> set (wg_waits g x). owner g b = Some y}\<^sup>*))"
  using some_owner_unblocked [of "iw_graph (wy_waits s)"] waits.inv_reachable [OF assms]
    wait_for_refuses [of "wy_waits s"]
  by (simp add: Let_def no_deadlock_def waits_on_def)

text \<open>Two inits, the first waiting for the second.\<close>

definition two_inits :: wait_system where
  "two_inits = \<lparr>wy_waits = \<lparr>iw_graph = \<lparr>wg_owners = [(''t/a'', 0), (''t/b'', 1)], wg_waits = (\<lambda>_. [])(0 := [''t/b''])\<rparr>,
     iw_next_attempt = 2\<rparr>, wy_started = {0, 1}\<rparr>"

theorem inits_never_deadlock_witness:
  "wait_step\<^sup>*\<^sup>* wait_system_new two_inits
   \<and> (\<exists>b a. owner (iw_graph (wy_waits two_inits)) b = Some a
        \<and> (\<forall>t \<in> set (wg_waits (iw_graph (wy_waits two_inits)) a). owner (iw_graph (wy_waits two_inits)) t = None))
   \<and> (\<exists>path. wait_for (wy_waits two_inits) \<lparr>ia_id = 1, ia_block = ''t/b''\<rparr> ''t/a'' = Inl path)"
proof -
  let ?a = "\<lparr>ia_id = 0, ia_block = ''t/a''\<rparr>" and ?b = "\<lparr>ia_id = 1, ia_block = ''t/b''\<rparr>"
  define s1 where "s1 = wait_system_new\<lparr>wy_waits := snd (attempt (wy_waits wait_system_new) ''t/a'')\<rparr>"
  define s2 where "s2 = s1\<lparr>wy_waits := snd (attempt (wy_waits s1) ''t/b'')\<rparr>"
  define s3 where "s3 = s2\<lparr>wy_waits := own (wy_waits s2) ?a, wy_started := insert 0 (wy_started s2)\<rparr>"
  define s4 where "s4 = s3\<lparr>wy_waits := own (wy_waits s3) ?b, wy_started := insert 1 (wy_started s3)\<rparr>"
  note defs = s1_def s2_def s3_def s4_def wait_system_new_def init_waits_new_def wait_graph_new_def attempt_def own_def
  have "wait_step wait_system_new s1" "wait_step s1 s2"
    unfolding s1_def s2_def by (rule step_attempt [OF prod.collapse [symmetric]])+
  moreover have "wait_step s2 s3" using step_own [of ?a s2] by (simp add: defs)
  moreover have "wait_step s3 s4" using step_own [of ?b s3] by (simp add: defs)
  moreover have "wait_for (wy_waits s4) ?a ''t/b'' = Inr (wy_waits two_inits)"
    by (simp add: defs wait_for_def two_inits_def Let_def)
  then have "wait_step s4 two_inits"
    using step_wait [of ?a s4 "''t/b''" "wy_waits two_inits"] by (simp add: defs two_inits_def insert_commute)
  ultimately have r: "wait_step\<^sup>*\<^sup>* wait_system_new two_inits"
    by (meson rtranclp.rtrancl_into_rtrancl rtranclp.rtrancl_refl)
  moreover have "\<exists>path. wait_for (wy_waits two_inits) ?b ''t/a'' = Inl path"
    by (simp add: wait_for_def two_inits_def Let_def)
  ultimately show ?thesis using inits_never_deadlock [OF r] by (simp add: Let_def two_inits_def)
qed

end
