(* ===== verification/Init_Dispatch.thy ===== *)
theory Init_Dispatch
  imports Init_Slot Init_Waits Registration Http_Codec
begin

text \<open>
  The init pipeline of \<^verbatim>\<open>crates/wafer-run/src/runtime.rs\<close> (\<^verbatim>\<open>run_init_pipeline\<close>, \<^verbatim>\<open>InitBudget\<close>, the errors a refused
  dispatch answers) and the decision \<^verbatim>\<open>run_resolved\<close> of \<^verbatim>\<open>runtime/runner.rs\<close> makes before it runs it.

  What an attempt meets is an argument: whether its timer fired first, the instant it ended, its
  result, and the answers its database calls noted (theory \<open>Init_Attempt\<close>).  The fresh correlation
  id of an error is an argument too.
\<close>

section \<open>The budget of an attempt\<close>

record init_budget =
  ib_limit :: nat
  ib_capped :: bool

definition budget_of :: "nat option \<Rightarrow> nat option \<Rightarrow> init_budget option" where
  "budget_of declared_ms cap =
     (case (map_option (\<lambda>ms. ms * nanos_per_milli) declared_ms, cap) of
        (Some declared, Some cap) \<Rightarrow>
          (if cap < declared then Some \<lparr>ib_limit = cap, ib_capped = True\<rparr>
           else Some \<lparr>ib_limit = declared, ib_capped = False\<rparr>)
      | (Some declared, None) \<Rightarrow> Some \<lparr>ib_limit = declared, ib_capped = False\<rparr>
      | (None, Some cap) \<Rightarrow> Some \<lparr>ib_limit = cap, ib_capped = True\<rparr>
      | (None, None) \<Rightarrow> None)"

definition exceeded :: "init_budget \<Rightarrow> string \<Rightarrow> init_error option \<Rightarrow> init_error" where
  "exceeded budget name failed =
     Transient (TransientFailure (Over_budget name (ib_limit budget) (ib_capped budget) failed)
       (case failed of Some (Transient failure) \<Rightarrow> tf_detail_code failure | _ \<Rightarrow> None))"

text \<open>The outcome of an attempt started at \<open>start\<close>: the result it ends with at \<open>now\<close>, unless its budget's
  timer fires first.\<close>

definition attempt_outcome :: "init_budget option \<Rightarrow> string \<Rightarrow> nat \<Rightarrow> bool \<Rightarrow> nat \<Rightarrow> init_error + unit \<Rightarrow> init_error + unit" where
  "attempt_outcome budget name start timer_fired now result =
     (case budget of
        None \<Rightarrow> result
      | Some b \<Rightarrow>
          if timer_fired then Inl (exceeded b name None)
          else (case result of
                  Inl e \<Rightarrow> if start + ib_limit b \<le> now then Inl (exceeded b name (Some e)) else Inl e
                | Inr u \<Rightarrow> Inr u))"

definition settle_attempt :: "database_answer option \<Rightarrow> init_error + unit \<Rightarrow> init_error + unit" where
  "settle_attempt seen outcome =
     (case (outcome, seen) of
        (Inl (Transient failure), Some seen) \<Rightarrow>
          (let block_class = (case tf_detail_code failure of None \<Rightarrow> None | Some code \<Rightarrow> answer_from_detail_code code);
               cls = (case block_class of None \<Rightarrow> seen | Some c \<Rightarrow> max c seen)
           in Inl (Transient (TransientFailure (tf_message failure) (Some (answer_detail_code cls)))))
      | _ \<Rightarrow> outcome)"

section \<open>Errors of a refused dispatch\<close>

datatype init_wait = Await | Refuse

definition refusal_detail :: "string option \<Rightarrow> string option" where
  "refusal_detail code = (if code = Some DATABASE_UNAVAILABLE then Some DATABASE_UNAVAILABLE else None)"

definition with_optional_detail_code :: "wafer_error \<Rightarrow> string option \<Rightarrow> wafer_error" where
  "with_optional_detail_code e code = (case code of None \<Rightarrow> e | Some c \<Rightarrow> with_detail_code e c)"

definition unavailable_message :: "string \<Rightarrow> string \<Rightarrow> msg_text" where
  "unavailable_message block reference =
     Text ''block `{block}` is temporarily unavailable (ref: {reference})'' [A_str block, A_str reference]"

definition failed_message :: "string \<Rightarrow> string \<Rightarrow> msg_text" where
  "failed_message block reference =
     Text ''block `{block}` failed to initialize (ref: {reference})'' [A_str block, A_str reference]"

definition nanos_per_second :: nat where "nanos_per_second = 1000000000"

definition retry_after_seconds :: "nat \<Rightarrow> nat" where
  "retry_after_seconds retry_in = max ((retry_in + nanos_per_second - 1) div nanos_per_second) 1"

definition retry_after_meta :: "nat \<Rightarrow> meta_entry" where
  "retry_after_meta retry_in =
     \<lparr>me_key = META_RESP_HEADER_PREFIX @ ''Retry-After'', me_value = show_nat (retry_after_seconds retry_in)\<rparr>"

definition init_error_to_wafer_error :: "string \<Rightarrow> string \<Rightarrow> init_error \<Rightarrow> nat option \<Rightarrow> wafer_error" where
  "init_error_to_wafer_error reference block e retry_in =
     (case e of
        Permanent cause \<Rightarrow> wafer_error_new FailedPrecondition (failed_message block reference)
      | Transient failure \<Rightarrow>
          (let err = with_optional_detail_code (wafer_error_new Unavailable (unavailable_message block reference))
                       (refusal_detail (tf_detail_code failure))
           in err\<lparr>we_meta := we_meta err @ (case retry_in of None \<Rightarrow> [] | Some d \<Rightarrow> [retry_after_meta d])\<rparr>)
      | Init_cycle path \<Rightarrow> wafer_error_new FailedPrecondition (failed_message block reference))"

definition not_initialized_error :: "string \<Rightarrow> string \<Rightarrow> block_init_state \<Rightarrow> wafer_error" where
  "not_initialized_error reference block st =
     with_optional_detail_code (wafer_error_new Unavailable (unavailable_message block reference))
       (refusal_detail (case st of Retrying failure _ \<Rightarrow> tf_detail_code failure | _ \<Rightarrow> None))"

definition init_failure :: "string \<Rightarrow> string \<Rightarrow> init_wait \<Rightarrow> slot_state \<Rightarrow> nat \<Rightarrow> init_error \<Rightarrow> wafer_error" where
  "init_failure reference block mode st now e =
     init_error_to_wafer_error reference block e
       (case (e, mode) of (Transient _, Await) \<Rightarrow> pending_retry_in st now | _ \<Rightarrow> None)"

text \<open>What \<^verbatim>\<open>run_resolved\<close> does about init: go on to the block, answer an error, or run the pipeline.\<close>

datatype init_decision = Proceed | Answer wafer_error | Run_pipeline

definition dispatch_init :: "string \<Rightarrow> string \<Rightarrow> init_wait \<Rightarrow> bool \<Rightarrow> slot_state \<Rightarrow> nat \<Rightarrow> init_decision" where
  "dispatch_init reference block mode inside_running_init st now =
     (case try_cached st now of
        Some (Inr _) \<Rightarrow> Proceed
      | Some (Inl e) \<Rightarrow> Answer (init_failure reference block mode st now e)
      | None \<Rightarrow>
          if mode = Refuse \<and> \<not> inside_running_init
          then Answer (not_initialized_error reference block (slot_init_state st now))
          else Run_pipeline)"

section \<open>What a refused dispatch tells\<close>

lemma retry_after_bounds:
  "retry_in \<le> retry_after_seconds retry_in * nanos_per_second"
  "0 < retry_in \<Longrightarrow> retry_after_seconds retry_in * nanos_per_second < retry_in + nanos_per_second"
  "1 \<le> retry_after_seconds retry_in"
proof -
  let ?q = "(retry_in + nanos_per_second - 1) div nanos_per_second"
  have n: "nanos_per_second > 0" by (simp add: nanos_per_second_def)
  have "?q * nanos_per_second + (retry_in + nanos_per_second - 1) mod nanos_per_second = retry_in + nanos_per_second - 1"
    by (rule div_mult_mod_eq)
  moreover have "(retry_in + nanos_per_second - 1) mod nanos_per_second < nanos_per_second" using n by simp
  ultimately have q: "retry_in \<le> ?q * nanos_per_second" "?q * nanos_per_second \<le> retry_in + nanos_per_second - 1"
    by linarith+
  have "?q * nanos_per_second \<le> retry_after_seconds retry_in * nanos_per_second"
    unfolding retry_after_seconds_def by (rule mult_le_mono1) simp
  then show "retry_in \<le> retry_after_seconds retry_in * nanos_per_second" using q(1) by linarith
  show "retry_after_seconds retry_in * nanos_per_second < retry_in + nanos_per_second" if "0 < retry_in"
  proof (cases "?q \<le> 1")
    case True
    then show ?thesis using that by (simp add: retry_after_seconds_def max_def)
  next
    case False
    then have "retry_after_seconds retry_in = ?q" by (simp add: retry_after_seconds_def max_def)
    then show ?thesis using q(2) n by (simp only:)
  qed
qed (simp add: retry_after_seconds_def)

lemma detail_code_optional:
  "we_meta e = [] \<Longrightarrow> detail_code (with_optional_detail_code e c) = c"
  "we_code (with_optional_detail_code e c) = we_code e" "we_message (with_optional_detail_code e c) = we_message e"
  by (simp_all add: with_optional_detail_code_def detail_code_def with_detail_code_def meta_get_def split: option.splits)

text \<open>The \<^verbatim>\<open>Retry-After\<close> values of an error.\<close>

definition retry_afters :: "wafer_error \<Rightarrow> string list" where
  "retry_afters e = map me_value (filter (\<lambda>m. me_key m = META_RESP_HEADER_PREFIX @ ''Retry-After'') (we_meta e))"

lemma transient_error:
  fixes reference block failure retry_in
  defines "e \<equiv> init_error_to_wafer_error reference block (Transient failure) retry_in"
  shows "we_code e = Unavailable" "we_message e = unavailable_message block reference"
    "detail_code e = refusal_detail (tf_detail_code failure)"
    "retry_afters e = (case retry_in of None \<Rightarrow> [] | Some d \<Rightarrow> [show_nat (retry_after_seconds d)])"
  unfolding e_def
  by (auto simp: init_error_to_wafer_error_def Let_def with_optional_detail_code_def with_detail_code_def detail_code_def
      meta_get_def retry_after_meta_def retry_afters_def META_RESP_HEADER_PREFIX_def refusal_detail_def split: option.splits)

lemma not_initialized:
  fixes reference block st
  defines "e \<equiv> not_initialized_error reference block st"
  shows "we_code e = Unavailable" "we_message e = unavailable_message block reference"
    "detail_code e \<in> {None, Some DATABASE_UNAVAILABLE}" "retry_afters e = []"
  unfolding e_def
  by (auto simp: not_initialized_error_def with_optional_detail_code_def with_detail_code_def detail_code_def
      meta_get_def retry_afters_def META_RESP_HEADER_PREFIX_def refusal_detail_def split: option.splits)


definition backing_off_slot :: slot_state where
  "backing_off_slot = \<lparr>ss_outcome = None, ss_backoff = Some \<lparr>tb_failures = 1, tb_retry_at = TRANSIENT_RETRY_BASE,
     tb_failure = TransientFailure (Said (Text ''relation acme__users does not exist'' [])) (Some DATABASE_UNAVAILABLE)\<rparr>,
     ss_in_flight = False\<rparr>"


end
