(* ===== verification/Capabilities.thy ===== *)
theory Capabilities
  imports Wrap
begin

text \<open>
  \<^verbatim>\<open>crates/wafer-block/src/capabilities.rs\<close>: what a sandboxed block may reach, and how an operator
  narrows it.  The ordered set of an allowlist is a set; the parser of the \<^verbatim>\<open>url\<close> crate is a
  parameter.
\<close>

lemma ascii_lower_idem: "ascii_lower (ascii_lower c) = ascii_lower c"
  by (auto simp: ascii_lower_def less_eq_char_def mod_less)

lemma lowercase_idem: "to_ascii_lowercase (to_ascii_lowercase s) = to_ascii_lowercase s"
  by (simp add: to_ascii_lowercase_def ascii_lower_idem)

section \<open>Allowlists\<close>

datatype allowlist = Allow_none | Allow_any | Only "string list"

definition is_enabled :: "allowlist \<Rightarrow> bool" where
  "is_enabled a \<longleftrightarrow> a \<noteq> Allow_none"

fun allows :: "allowlist \<Rightarrow> string \<Rightarrow> bool" where
  "allows Allow_none v = False"
| "allows Allow_any v = True"
| "allows (Only vs) v = (v \<in> set vs)"

fun intersect :: "allowlist \<Rightarrow> allowlist \<Rightarrow> allowlist" where
  "intersect Allow_none _ = Allow_none"
| "intersect _ Allow_none = Allow_none"
| "intersect Allow_any x = x"
| "intersect x Allow_any = x"
| "intersect (Only a) (Only b) = Only (filter (\<lambda>v. v \<in> set b) a)"

definition path_prefix_covers :: "string \<Rightarrow> string \<Rightarrow> bool" where
  "path_prefix_covers entry resource \<longleftrightarrow>
     (if entry = [] \<or> last entry = slash then False
      else entry = resource
        \<or> (case strip_prefix entry resource of None \<Rightarrow> False | Some rest \<Rightarrow> starts_with [slash] rest))"

text \<open>The entries a pair of entries leaves: the narrower one, when one lies beneath the other.\<close>

definition covered_pair :: "string \<Rightarrow> string \<Rightarrow> string list" where
  "covered_pair x y = (if path_prefix_covers y x then [x] else if path_prefix_covers x y then [y] else [])"

fun intersect_path_prefix :: "allowlist \<Rightarrow> allowlist \<Rightarrow> allowlist" where
  "intersect_path_prefix Allow_none _ = Allow_none"
| "intersect_path_prefix _ Allow_none = Allow_none"
| "intersect_path_prefix Allow_any x = x"
| "intersect_path_prefix x Allow_any = x"
| "intersect_path_prefix (Only a) (Only b) = Only (concat (map (\<lambda>x. concat (map (covered_pair x) b)) a))"

section \<open>Network paths\<close>

fun has_encoded_separator :: "string \<Rightarrow> bool" where
  "has_encoded_separator (a # b # c # rest) =
     ((a = CHR ''%'' \<and> ((b = CHR ''2'' \<and> eq_ignore_ascii_case [c] ''f'') \<or> (b = CHR ''5'' \<and> eq_ignore_ascii_case [c] ''c'')))
      \<or> has_encoded_separator (b # c # rest))"
| "has_encoded_separator _ = False"

definition url_path_covers :: "string \<Rightarrow> string \<Rightarrow> bool" where
  "url_path_covers pattern target =
     (let rest = (if ends_with [slash] pattern then strip_prefix pattern target
                  else if target = pattern then Some []
                  else (case strip_prefix pattern target of
                          Some rest \<Rightarrow> if starts_with [slash] rest then Some rest else None
                        | None \<Rightarrow> None))
      in case rest of Some r \<Rightarrow> \<not> has_encoded_separator r | None \<Rightarrow> False)"

record net_url =
  n_scheme :: string
  n_host :: "string option"
  n_port :: "nat option"
  n_path :: string

section \<open>Capability sets\<close>

record header_policy =
  hp_readable :: "string list"
  hp_writable :: "string list"
  hp_masked :: "string list"

record block_capabilities =
  bc_collections :: allowlist
  bc_raw_sql :: bool
  bc_ddl :: bool
  bc_schema :: bool
  bc_storage_folders :: allowlist
  bc_crypto :: bool
  bc_network :: allowlist
  bc_config_keys :: allowlist
  bc_vector_indexes :: allowlist
  bc_callable_blocks :: allowlist
  bc_headers :: header_policy

definition default_headers :: header_policy where
  "default_headers = \<lparr>hp_readable = [], hp_writable = [], hp_masked = []\<rparr>"

definition unrestricted :: block_capabilities where
  "unrestricted = \<lparr>bc_collections = Allow_any, bc_raw_sql = True, bc_ddl = True, bc_schema = True,
     bc_storage_folders = Allow_any, bc_crypto = True, bc_network = Allow_any, bc_config_keys = Allow_any,
     bc_vector_indexes = Allow_any, bc_callable_blocks = Allow_any, bc_headers = default_headers\<rparr>"

definition no_capabilities :: block_capabilities where
  "no_capabilities = \<lparr>bc_collections = Allow_none, bc_raw_sql = False, bc_ddl = False, bc_schema = False,
     bc_storage_folders = Allow_none, bc_crypto = False, bc_network = Allow_none, bc_config_keys = Allow_none,
     bc_vector_indexes = Allow_none, bc_callable_blocks = Allow_none, bc_headers = default_headers\<rparr>"

definition allows_collection :: "block_capabilities \<Rightarrow> string \<Rightarrow> bool" where
  "allows_collection c v = allows (bc_collections c) v"

definition folder_allows :: "allowlist \<Rightarrow> string \<Rightarrow> bool" where
  "folder_allows a resource =
     (case a of Allow_none \<Rightarrow> False | Allow_any \<Rightarrow> True
      | Only entries \<Rightarrow> list_ex (\<lambda>entry. path_prefix_covers entry resource) entries)"

definition allows_storage_folder :: "block_capabilities \<Rightarrow> string \<Rightarrow> bool" where
  "allows_storage_folder c resource = (is_traversal_safe_path resource \<and> folder_allows (bc_storage_folders c) resource)"

definition entry_admits :: "(string \<Rightarrow> net_url option) \<Rightarrow> net_url \<Rightarrow> string \<Rightarrow> bool" where
  "entry_admits parse target allowed =
     (case parse allowed of
        None \<Rightarrow> False
      | Some pat \<Rightarrow> n_scheme pat = n_scheme target \<and> n_host pat = n_host target \<and> n_port pat = n_port target
          \<and> url_path_covers (n_path pat) (n_path target))"

definition allows_network_url :: "(string \<Rightarrow> net_url option) \<Rightarrow> block_capabilities \<Rightarrow> string \<Rightarrow> bool" where
  "allows_network_url parse c url =
     (case bc_network c of
        Allow_none \<Rightarrow> False
      | Allow_any \<Rightarrow> True
      | Only entries \<Rightarrow>
          (case parse url of None \<Rightarrow> False | Some target \<Rightarrow> list_ex (entry_admits parse target) entries))"

definition allows_vector_index :: "block_capabilities \<Rightarrow> string \<Rightarrow> bool" where
  "allows_vector_index c name = allows (bc_vector_indexes c) name"

definition allows_config_key :: "block_capabilities \<Rightarrow> string \<Rightarrow> bool" where
  "allows_config_key c key = allows (bc_config_keys c) key"

definition allows_call_block :: "block_capabilities \<Rightarrow> string \<Rightarrow> bool" where
  "allows_call_block c target = allows (bc_callable_blocks c) target"

section \<open>Narrowing\<close>

definition intersect_vec :: "string list \<Rightarrow> string list \<Rightarrow> string list" where
  "intersect_vec a b = fold (\<lambda>x r.
     let x = to_ascii_lowercase x in
     if list_ex (\<lambda>y. eq_ignore_ascii_case y x) b \<and> x \<notin> set r then r @ [x] else r) a []"

definition union_vec :: "string list \<Rightarrow> string list \<Rightarrow> string list" where
  "union_vec a b = fold (\<lambda>v r. let v = to_ascii_lowercase v in if v \<notin> set r then r @ [v] else r) (a @ b) []"

definition caps_intersect :: "block_capabilities \<Rightarrow> block_capabilities \<Rightarrow> block_capabilities" where
  "caps_intersect a b =
     \<lparr>bc_collections = intersect (bc_collections a) (bc_collections b),
      bc_raw_sql = (bc_raw_sql a \<and> bc_raw_sql b), bc_ddl = (bc_ddl a \<and> bc_ddl b), bc_schema = (bc_schema a \<and> bc_schema b),
      bc_storage_folders = intersect_path_prefix (bc_storage_folders a) (bc_storage_folders b),
      bc_crypto = (bc_crypto a \<and> bc_crypto b),
      bc_network = intersect (bc_network a) (bc_network b),
      bc_config_keys = intersect (bc_config_keys a) (bc_config_keys b),
      bc_vector_indexes = intersect (bc_vector_indexes a) (bc_vector_indexes b),
      bc_callable_blocks = intersect (bc_callable_blocks a) (bc_callable_blocks b),
      bc_headers = \<lparr>hp_readable = intersect_vec (hp_readable (bc_headers a)) (hp_readable (bc_headers b)),
        hp_writable = intersect_vec (hp_writable (bc_headers a)) (hp_writable (bc_headers b)),
        hp_masked = union_vec (hp_masked (bc_headers a)) (hp_masked (bc_headers b))\<rparr>\<rparr>"

record header_overrides =
  ho_readable :: "string list option"
  ho_writable :: "string list option"
  ho_masked :: "string list option"

record config_capability_overrides =
  co_collections :: "allowlist option"
  co_raw_sql :: "bool option"
  co_ddl :: "bool option"
  co_schema :: "bool option"
  co_storage_folders :: "allowlist option"
  co_crypto :: "bool option"
  co_network :: "allowlist option"
  co_config_keys :: "allowlist option"
  co_vector_indexes :: "allowlist option"
  co_callable_blocks :: "allowlist option"
  co_headers :: "header_overrides option"

definition narrow :: "'a \<Rightarrow> 'a option \<Rightarrow> ('a \<Rightarrow> 'a \<Rightarrow> 'a) \<Rightarrow> 'a" where
  "narrow declared ov combine = (case ov of Some x \<Rightarrow> combine declared x | None \<Rightarrow> declared)"

definition apply_config_overrides :: "block_capabilities \<Rightarrow> config_capability_overrides \<Rightarrow> block_capabilities" where
  "apply_config_overrides c ov =
     (let h = co_headers ov in
      \<lparr>bc_collections = narrow (bc_collections c) (co_collections ov) intersect,
       bc_raw_sql = narrow (bc_raw_sql c) (co_raw_sql ov) (\<and>),
       bc_ddl = narrow (bc_ddl c) (co_ddl ov) (\<and>),
       bc_schema = narrow (bc_schema c) (co_schema ov) (\<and>),
       bc_storage_folders = narrow (bc_storage_folders c) (co_storage_folders ov) intersect_path_prefix,
       bc_crypto = narrow (bc_crypto c) (co_crypto ov) (\<and>),
       bc_network = narrow (bc_network c) (co_network ov) intersect,
       bc_config_keys = narrow (bc_config_keys c) (co_config_keys ov) intersect,
       bc_vector_indexes = narrow (bc_vector_indexes c) (co_vector_indexes ov) intersect,
       bc_callable_blocks = narrow (bc_callable_blocks c) (co_callable_blocks ov) intersect,
       bc_headers =
         \<lparr>hp_readable = narrow (hp_readable (bc_headers c)) (Option.bind h ho_readable) intersect_vec,
          hp_writable = narrow (hp_writable (bc_headers c)) (Option.bind h ho_writable) intersect_vec,
          hp_masked = narrow (hp_masked (bc_headers c)) (Option.bind h ho_masked) union_vec\<rparr>\<rparr>)"

definition unwrap_or :: "'a option \<Rightarrow> 'a \<Rightarrow> 'a" where
  "unwrap_or r d = (case r of Some x \<Rightarrow> x | None \<Rightarrow> d)"

definition as_stated_bound :: "config_capability_overrides \<Rightarrow> block_capabilities" where
  "as_stated_bound ov =
     (let h = co_headers ov in
      \<lparr>bc_collections = unwrap_or (co_collections ov) Allow_none, bc_raw_sql = unwrap_or (co_raw_sql ov) False,
       bc_ddl = unwrap_or (co_ddl ov) False, bc_schema = unwrap_or (co_schema ov) False,
       bc_storage_folders = unwrap_or (co_storage_folders ov) Allow_none, bc_crypto = unwrap_or (co_crypto ov) False,
       bc_network = unwrap_or (co_network ov) Allow_none, bc_config_keys = unwrap_or (co_config_keys ov) Allow_none,
       bc_vector_indexes = unwrap_or (co_vector_indexes ov) Allow_none,
       bc_callable_blocks = unwrap_or (co_callable_blocks ov) Allow_none,
       bc_headers = \<lparr>hp_readable = unwrap_or (Option.bind h ho_readable) [],
         hp_writable = unwrap_or (Option.bind h ho_writable) [], hp_masked = unwrap_or (Option.bind h ho_masked) []\<rparr>\<rparr>)"

section \<open>A meet permits what both sides permit\<close>

text \<open>The contract of the combination rules: combining two allowlists permits exactly the values both
  permit.  Narrowing by an optional override then keeps the declaration's meaning and the
  operator's.\<close>

locale narrowing =
  fixes permits :: "'a \<Rightarrow> 'v \<Rightarrow> bool" and meet :: "'a \<Rightarrow> 'a \<Rightarrow> 'a"
  assumes permits_meet: "permits (meet a b) v \<longleftrightarrow> permits a v \<and> permits b v"
begin

lemma permits_narrow: "permits (narrow a ov meet) v \<longleftrightarrow> permits a v \<and> (\<forall>b. ov = Some b \<longrightarrow> permits b v)"
  by (cases ov) (simp_all add: narrow_def permits_meet)

end

interpretation exact: narrowing allows intersect
proof
  show "allows (intersect a b) v \<longleftrightarrow> allows a v \<and> allows b v" for a b v
    by (cases a; cases b) auto
qed

interpretation flag: narrowing "\<lambda>a (_::unit). a" "(\<and>)"
  by unfold_locales simp

lemma covers_iff:
  "path_prefix_covers e r \<longleftrightarrow> e \<noteq> [] \<and> last e \<noteq> slash \<and> (r = e \<or> (\<exists>s. r = e @ slash # s))"
proof -
  have "(case strip_prefix e r of None \<Rightarrow> False | Some rest \<Rightarrow> starts_with [slash] rest) \<longleftrightarrow> (\<exists>s. r = e @ slash # s)"
  proof (cases "strip_prefix e r")
    case None
    then show ?thesis by (auto simp: strip_prefix_def)
  next
    case (Some rest)
    then have "r = e @ rest" by (simp add: strip_prefix_Some)
    then show ?thesis using Some by (cases rest) auto
  qed
  then show ?thesis by (auto simp: path_prefix_covers_def)
qed

lemma covers_trans: "path_prefix_covers a b \<Longrightarrow> path_prefix_covers b c \<Longrightarrow> path_prefix_covers a c"
  by (auto simp: covers_iff)

lemma covers_linear:
  assumes "path_prefix_covers x r" and "path_prefix_covers y r"
  shows "path_prefix_covers y x \<or> path_prefix_covers x y"
proof -
  have "prefix x r" "prefix y r" using assms by (auto simp: covers_iff prefix_def)
  then consider z where "y = x @ z" | z where "x = y @ z" by (metis prefix_def prefix_same_cases)
  then show ?thesis
  proof cases
    case (1 z)
    then show ?thesis using assms by (cases z) (auto simp: covers_iff)
  next
    case (2 z)
    then show ?thesis using assms by (cases z) (auto simp: covers_iff)
  qed
qed

lemma covered_pair_covers:
  "(\<exists>e \<in> set (covered_pair x y). path_prefix_covers e r) \<longleftrightarrow> path_prefix_covers x r \<and> path_prefix_covers y r"
proof -
  have "(\<exists>e \<in> set (covered_pair x y). path_prefix_covers e r) \<longleftrightarrow>
      (path_prefix_covers y x \<and> path_prefix_covers x r) \<or> (\<not> path_prefix_covers y x \<and> path_prefix_covers x y \<and> path_prefix_covers y r)"
    unfolding covered_pair_def by (cases "path_prefix_covers y x"; cases "path_prefix_covers x y") simp_all
  moreover note covers_trans [of y x r] covers_trans [of x y r] covers_linear [of x r y]
  ultimately show ?thesis by argo
qed

interpretation folder: narrowing folder_allows intersect_path_prefix
proof
  show "folder_allows (intersect_path_prefix a b) r \<longleftrightarrow> folder_allows a r \<and> folder_allows b r" for a b r
  proof (cases a; cases b)
    fix x y assume ab: "a = Only x" "b = Only y"
    have "folder_allows (intersect_path_prefix a b) r \<longleftrightarrow>
        (\<exists>u \<in> set x. \<exists>v \<in> set y. \<exists>e \<in> set (covered_pair u v). path_prefix_covers e r)"
      by (auto simp: ab folder_allows_def list_ex_iff)
    then show ?thesis by (auto simp: covered_pair_covers ab folder_allows_def list_ex_iff)
  qed (simp_all add: folder_allows_def)
qed

text \<open>Header names are compared without case.\<close>

definition names_header :: "string list \<Rightarrow> string \<Rightarrow> bool" where
  "names_header l v \<longleftrightarrow> to_ascii_lowercase v \<in> to_ascii_lowercase ` set l"

lemma intersect_vec_set: "set (intersect_vec a b) = {to_ascii_lowercase x | x. x \<in> set a \<and> (\<exists>y \<in> set b. eq_ignore_ascii_case y (to_ascii_lowercase x))}"
proof -
  have "set (fold (\<lambda>x r. let x = to_ascii_lowercase x in
      if list_ex (\<lambda>y. eq_ignore_ascii_case y x) b \<and> x \<notin> set r then r @ [x] else r) a r) =
    set r \<union> {to_ascii_lowercase x | x. x \<in> set a \<and> (\<exists>y \<in> set b. eq_ignore_ascii_case y (to_ascii_lowercase x))}" for r
    by (induction a arbitrary: r) (auto simp: Let_def list_ex_iff)
  then show ?thesis by (simp add: intersect_vec_def)
qed

lemma union_vec_set: "set (union_vec a b) = to_ascii_lowercase ` (set a \<union> set b)"
proof -
  have "set (fold (\<lambda>v r. let v = to_ascii_lowercase v in if v \<notin> set r then r @ [v] else r) l r) =
    set r \<union> to_ascii_lowercase ` set l" for l r
    by (induction l arbitrary: r) (auto simp: Let_def)
  from this [of "a @ b" "[]"] show ?thesis by (simp add: union_vec_def image_Un)
qed

interpretation granted_header: narrowing names_header intersect_vec
proof
  show "names_header (intersect_vec a b) v \<longleftrightarrow> names_header a v \<and> names_header b v" for a b v
    by (auto simp: names_header_def intersect_vec_set eq_ignore_ascii_case_def image_iff) (metis lowercase_idem)+
qed

interpretation unmasked_header: narrowing "\<lambda>l v. \<not> names_header l v" union_vec
proof
  show "\<not> names_header (union_vec a b) v \<longleftrightarrow> \<not> names_header a v \<and> \<not> names_header b v" for a b v
    by (auto simp: names_header_def union_vec_set image_Un image_image lowercase_idem)
qed

lemma network_intersect:
  "allows_network_url parse (c\<lparr>bc_network := intersect a b\<rparr>) url \<Longrightarrow>
   allows_network_url parse (c\<lparr>bc_network := a\<rparr>) url \<and> allows_network_url parse (c\<lparr>bc_network := b\<rparr>) url"
  by (cases a; cases b) (auto simp: allows_network_url_def list_ex_iff split: option.splits)

section \<open>What a narrowed block may do\<close>

text \<open>C17: An operator's override narrows a block exactly.  After \<open>apply_config_overrides\<close> a block may touch
  a collection, storage path, config key, vector index or block, use raw SQL, DDL, schema
  operations or crypto, and read or write a sensitive header exactly when it declared so and the
  operator, if they wrote the field, permits it too; a header is masked when either masks it; and
  every network request still permitted is one both permit.\<close>

theorem overrides_narrow_exactly:
  fixes c ov
  defines "e \<equiv> apply_config_overrides c ov"
  shows "(allows_collection e v \<longleftrightarrow> allows_collection c v \<and> (\<forall>a. co_collections ov = Some a \<longrightarrow> allows a v))
    \<and> (allows_storage_folder e v \<longleftrightarrow> allows_storage_folder c v
         \<and> (\<forall>a. co_storage_folders ov = Some a \<longrightarrow> allows_storage_folder (c\<lparr>bc_storage_folders := a\<rparr>) v))
    \<and> (allows_config_key e v \<longleftrightarrow> allows_config_key c v \<and> (\<forall>a. co_config_keys ov = Some a \<longrightarrow> allows a v))
    \<and> (allows_vector_index e v \<longleftrightarrow> allows_vector_index c v \<and> (\<forall>a. co_vector_indexes ov = Some a \<longrightarrow> allows a v))
    \<and> (allows_call_block e v \<longleftrightarrow> allows_call_block c v \<and> (\<forall>a. co_callable_blocks ov = Some a \<longrightarrow> allows a v))
    \<and> (bc_raw_sql e \<longleftrightarrow> bc_raw_sql c \<and> co_raw_sql ov \<noteq> Some False) \<and> (bc_ddl e \<longleftrightarrow> bc_ddl c \<and> co_ddl ov \<noteq> Some False)
    \<and> (bc_schema e \<longleftrightarrow> bc_schema c \<and> co_schema ov \<noteq> Some False) \<and> (bc_crypto e \<longleftrightarrow> bc_crypto c \<and> co_crypto ov \<noteq> Some False)
    \<and> (names_header (hp_readable (bc_headers e)) v \<longleftrightarrow> names_header (hp_readable (bc_headers c)) v
         \<and> (\<forall>a. Option.bind (co_headers ov) ho_readable = Some a \<longrightarrow> names_header a v))
    \<and> (names_header (hp_writable (bc_headers e)) v \<longleftrightarrow> names_header (hp_writable (bc_headers c)) v
         \<and> (\<forall>a. Option.bind (co_headers ov) ho_writable = Some a \<longrightarrow> names_header a v))
    \<and> (names_header (hp_masked (bc_headers e)) v \<longleftrightarrow> names_header (hp_masked (bc_headers c)) v
         \<or> (\<exists>a. Option.bind (co_headers ov) ho_masked = Some a \<and> names_header a v))
    \<and> (allows_network_url parse e v \<longrightarrow> allows_network_url parse c v
         \<and> (\<forall>a. co_network ov = Some a \<longrightarrow> allows_network_url parse (c\<lparr>bc_network := a\<rparr>) v))"
proof -
  have bool: "narrow b ob (\<and>) \<longleftrightarrow> b \<and> ob \<noteq> Some False" for b ob by (cases ob) (auto simp: narrow_def)
  have masked: "names_header (narrow a ov' union_vec) v \<longleftrightarrow> names_header a v \<or> (\<exists>b. ov' = Some b \<and> names_header b v)" for a ov'
    using unmasked_header.permits_narrow [of a ov' v] by blast
  have net: "allows_network_url parse (x\<lparr>bc_network := narrow (bc_network c) (co_network ov) intersect\<rparr>) v \<Longrightarrow>
      allows_network_url parse c v \<and> (\<forall>a. co_network ov = Some a \<longrightarrow> allows_network_url parse (c\<lparr>bc_network := a\<rparr>) v)" for x
    using network_intersect [where c = c and a = "bc_network c" and parse = parse and url = v]
    by (cases "co_network ov") (auto simp: narrow_def allows_network_url_def)
  have "e = e\<lparr>bc_network := narrow (bc_network c) (co_network ov) intersect\<rparr>"
    by (simp add: e_def apply_config_overrides_def Let_def)
  then have "allows_network_url parse e v \<longrightarrow> allows_network_url parse c v
      \<and> (\<forall>a. co_network ov = Some a \<longrightarrow> allows_network_url parse (c\<lparr>bc_network := a\<rparr>) v)"
    using net [of e] by metis
  then show ?thesis
    by (auto simp: e_def apply_config_overrides_def Let_def allows_collection_def allows_storage_folder_def allows_config_key_def
        allows_vector_index_def allows_call_block_def exact.permits_narrow folder.permits_narrow bool masked
        granted_header.permits_narrow)
qed

definition no_overrides :: config_capability_overrides where
  "no_overrides = \<lparr>co_collections = None, co_raw_sql = None, co_ddl = None, co_schema = None, co_storage_folders = None,
     co_crypto = None, co_network = None, co_config_keys = None, co_vector_indexes = None, co_callable_blocks = None,
     co_headers = None\<rparr>"

text \<open>A block that declared all of \<open>site\<close>, narrowed to \<open>site/jhg\<close>.\<close>

theorem overrides_narrow_exactly_witness:
  "let e = apply_config_overrides (no_capabilities\<lparr>bc_storage_folders := Only [''site'']\<rparr>)
         (no_overrides\<lparr>co_storage_folders := Some (Only [''site/jhg''])\<rparr>)
   in allows_storage_folder e ''site/jhg/a.txt'' \<and> \<not> allows_storage_folder e ''site/other''"
proof -
  let ?c = "no_capabilities\<lparr>bc_storage_folders := Only [''site'']\<rparr>"
  let ?o = "Only [''site/jhg'']"
  have "allows_storage_folder ?c ''site/jhg/a.txt''" "allows_storage_folder (?c\<lparr>bc_storage_folders := ?o\<rparr>) ''site/jhg/a.txt''"
    "\<not> allows_storage_folder (?c\<lparr>bc_storage_folders := ?o\<rparr>) ''site/other''"
    by code_simp+
  then show ?thesis
    using overrides_narrow_exactly [of "?c" "no_overrides\<lparr>co_storage_folders := Some ?o\<rparr>" "''site/jhg/a.txt''"]
      overrides_narrow_exactly [of "?c" "no_overrides\<lparr>co_storage_folders := Some ?o\<rparr>" "''site/other''"]
    by (simp add: Let_def no_overrides_def)
qed

text \<open>Network entries match path prefixes too, but are combined as exact values: an override nested under
  a declared entry denies what both sides permit.\<close>

lemma nested_network_override_denies:
  assumes "parse ''https://a.com/'' = Some (base\<lparr>n_path := ''/''\<rparr>)"
    and "parse ''https://a.com/v1/'' = Some (base\<lparr>n_path := ''/v1/''\<rparr>)"
    and "parse ''https://a.com/v1/x'' = Some (base\<lparr>n_path := ''/v1/x''\<rparr>)"
  shows "let c = no_capabilities\<lparr>bc_network := Only [''https://a.com/'']\<rparr>;
      narrower = Only [''https://a.com/v1/''];
      e = apply_config_overrides c (no_overrides\<lparr>co_network := Some narrower\<rparr>)
    in allows_network_url parse c ''https://a.com/v1/x''
     \<and> allows_network_url parse (c\<lparr>bc_network := narrower\<rparr>) ''https://a.com/v1/x''
     \<and> \<not> allows_network_url parse e ''https://a.com/v1/x''"
proof -
  have "url_path_covers ''/'' ''/v1/x''" "url_path_covers ''/v1/'' ''/v1/x''" by code_simp+
  then show ?thesis
    using assms by (simp add: Let_def allows_network_url_def entry_admits_def apply_config_overrides_def no_overrides_def
        no_capabilities_def narrow_def)
qed

end
