(* ===== verification/Call_Context.thy ===== *)
theory Call_Context
  imports Capabilities Registration_Authority Wrap_Policy
begin

text \<open>
  \<^verbatim>\<open>crates/wafer-run/src/runtime/call_gates.rs\<close>, \<^verbatim>\<open>runtime/validation.rs\<close> and the parts of \<^verbatim>\<open>context.rs\<close> that decide
  calls and resource access: the gates a \<^verbatim>\<open>call_block\<close> passes, the context its callee runs on, and the
  authorization of a resource on behalf of the caller.

  What blocks themselves answer is gathered in \<open>call_env\<close>: the capabilities a block enforces
  (\<^verbatim>\<open>Block::block_capabilities\<close>, \<open>None\<close> for native blocks) and its declared interface.  The flag of a
  cancelled execution and the set of blocks already warned about are shared by all frames, and
  are threaded as \<open>call_state\<close>.  Depths are \<^verbatim>\<open>u32\<close>; an admitted call is below the maximum, so adding
  one does not wrap.
\<close>

section \<open>Actions\<close>

datatype action_check = Valid_action | Invalid_action msg_text | Unknown_interface

definition check_action_interface :: "string \<Rightarrow> string \<Rightarrow> string \<Rightarrow> (string \<Rightarrow> string set option) \<Rightarrow> action_check" where
  "check_action_interface block_name interface_name action specs =
     (case specs interface_name of
        None \<Rightarrow> Unknown_interface
      | Some actions \<Rightarrow>
          if actions = {} then Valid_action
          else if action \<in> actions then Valid_action
          else Invalid_action (Text (''block '{block_name}' with interface '{interface_name}' does not expose action '{action}'' @ [squote])
                 [A_str block_name, A_str interface_name, A_str action]))"

definition META_REQ_ACTION :: string where "META_REQ_ACTION = ''req.action''"

definition get_meta :: "message \<Rightarrow> string \<Rightarrow> string" where
  "get_meta msg key = (case meta_get (msg_meta msg) key of Some v \<Rightarrow> v | None \<Rightarrow> [])"

definition msg_action :: "message \<Rightarrow> string" where
  "msg_action msg = get_meta msg META_REQ_ACTION"

section \<open>Contexts\<close>

record call_env =
  cv_registration :: registration_core
  cv_capabilities :: "string \<Rightarrow> block_capabilities option"
  cv_interface :: "string \<Rightarrow> string"
  cv_specs :: "string \<Rightarrow> string set option"
  cv_wrap :: wrap_env
  cv_net_parse :: "string \<Rightarrow> net_url option"

record runtime_context =
  cx_node_id :: string
  cx_caller_id :: "string option"
  cx_caller_requires :: "string list option"
  cx_call_depth :: nat
  cx_max_call_depth :: nat
  cx_deadline :: "nat option"

record call_state =
  cs_cancelled :: bool
  cs_warned :: "string set"

definition DEFAULT_MAX_CALL_DEPTH :: nat where "DEFAULT_MAX_CALL_DEPTH = 16"

definition make_context :: "string \<Rightarrow> nat option \<Rightarrow> runtime_context" where
  "make_context node deadline =
     \<lparr>cx_node_id = node, cx_caller_id = None, cx_caller_requires = None, cx_call_depth = 0,
      cx_max_call_depth = DEFAULT_MAX_CALL_DEPTH, cx_deadline = deadline\<rparr>"

definition resolve_block_requires :: "registration_core \<Rightarrow> string \<Rightarrow> string list option" where
  "resolve_block_requires rc name =
     (case map_of (rc_blocks rc) name of None \<Rightarrow> None | Some b \<Rightarrow> rb_call_allowlist b)"

definition make_block_context :: "call_env \<Rightarrow> string \<Rightarrow> nat option \<Rightarrow> runtime_context" where
  "make_block_context env name deadline =
     (make_context name deadline)\<lparr>cx_caller_requires := resolve_block_requires (cv_registration env) name\<rparr>"

text \<open>\<^verbatim>\<open>for_init\<close>; the deadline of the init budget is set by the pipeline.\<close>

definition for_init :: "runtime_context \<Rightarrow> string \<Rightarrow> registered_block \<Rightarrow> runtime_context" where
  "for_init ctx name registered =
     ctx\<lparr>cx_node_id := name, cx_deadline := None, cx_call_depth := 0,
        cx_caller_requires := rb_call_allowlist registered, cx_caller_id := None\<rparr>"

section \<open>Admission\<close>

record admitted_call =
  ac_resolved :: string
  ac_block :: registered_block
  ac_requires :: "string list option"

definition caller_capabilities :: "call_env \<Rightarrow> runtime_context \<Rightarrow> block_capabilities option" where
  "caller_capabilities env ctx =
     (case rc_all_blocks (cv_registration env) (cx_node_id ctx) of
        None \<Rightarrow> None | Some _ \<Rightarrow> cv_capabilities env (cx_node_id ctx))"

definition admit_call :: "call_env \<Rightarrow> runtime_context \<Rightarrow> call_state \<Rightarrow> nat \<Rightarrow> string \<Rightarrow> message
    \<Rightarrow> call_state \<times> (wafer_error + admitted_call)" where
  "admit_call env ctx st now name msg =
     (let refuse = (\<lambda>code text. Inl (wafer_error_new code text)) in
      if cx_call_depth ctx \<ge> cx_max_call_depth ctx then
        (st, refuse ResourceExhausted (Text (''call_block depth exceeded maximum of {max} (calling '{name}'' @ [squote] @ '')'')
               [A_nat (cx_max_call_depth ctx), A_str name]))
      else if (case cx_deadline ctx of None \<Rightarrow> False | Some deadline \<Rightarrow> now \<ge> deadline) then
        (st\<lparr>cs_cancelled := True\<rparr>,
         refuse DeadlineExceeded (Text (''deadline exceeded before calling '{name}'' @ [squote]) [A_str name]))
      else if cs_cancelled st then (st, refuse Cancelled (Text ''execution cancelled'' []))
      else
        (let resolved = canonicalize (cv_registration env) name in
         if (case cx_caller_requires ctx of None \<Rightarrow> False
             | Some requires \<Rightarrow> \<not> list_ex (\<lambda>r. r = name \<or> r = resolved) requires) then
           (st, refuse PermissionDenied (Text (''block '{name}' not in requires list '' @ [CHR 0xE2, CHR 0x80, CHR 0x94]
                  @ '' call_block denied'') [A_str name]))
         else if (case caller_capabilities env ctx of None \<Rightarrow> False | Some caps \<Rightarrow> \<not> allows_call_block caps resolved) then
           (st, refuse PermissionDenied (Text (''block capability denies call to '{name}'' @ [squote]) [A_str name]))
         else
           (case rc_all_blocks (cv_registration env) resolved of
              None \<Rightarrow> (st, refuse Unimplemented (Text ''block '{name}' is not registered'' [A_str name]))
            | Some block \<Rightarrow>
                (let action = (if msg_action msg = [] then msg_kind msg else msg_action msg);
                     admitted = \<lparr>ac_resolved = resolved, ac_block = block, ac_requires = rb_call_allowlist block\<rparr>
                 in case check_action_interface resolved (cv_interface env resolved) action (cv_specs env) of
                      Valid_action \<Rightarrow> (st, Inr admitted)
                    | Invalid_action message \<Rightarrow> (st, refuse Unimplemented message)
                    | Unknown_interface \<Rightarrow> (st\<lparr>cs_warned := insert resolved (cs_warned st)\<rparr>, Inr admitted)))))"

text \<open>The context \<^verbatim>\<open>dispatch_call\<close> gives the callee.\<close>

definition sub_context :: "runtime_context \<Rightarrow> admitted_call \<Rightarrow> runtime_context" where
  "sub_context ctx call =
     ctx\<lparr>cx_node_id := ac_resolved call, cx_caller_requires := ac_requires call,
        cx_caller_id := Some (cx_node_id ctx), cx_call_depth := cx_call_depth ctx + 1\<rparr>"

definition is_cancelled :: "runtime_context \<Rightarrow> call_state \<Rightarrow> nat \<Rightarrow> bool \<times> call_state" where
  "is_cancelled ctx st now =
     (if cs_cancelled st then (True, st)
      else case cx_deadline ctx of
        Some deadline \<Rightarrow> if now \<ge> deadline then (True, st\<lparr>cs_cancelled := True\<rparr>) else (False, st)
      | None \<Rightarrow> (False, st))"

section \<open>Resource access\<close>

definition capability_permits :: "(string \<Rightarrow> net_url option) \<Rightarrow> block_capabilities \<Rightarrow> string \<Rightarrow> resource_type \<Rightarrow> bool" where
  "capability_permits parse caps resource rt =
     (case rt of
        Db \<Rightarrow>
          if resource = RAW_SQL_RESOURCE then bc_raw_sql caps
          else if resource = DDL_RESOURCE then bc_ddl caps
          else if resource = SCHEMA_RESOURCE then bc_schema caps
          else allows_collection caps resource
      | Storage \<Rightarrow> allows_storage_folder caps resource
      | Config \<Rightarrow> allows_config_key caps resource
      | Crypto \<Rightarrow> bc_crypto caps
      | Network \<Rightarrow> allows_network_url parse caps resource
      | Vector \<Rightarrow> allows_vector_index caps resource
      | _ \<Rightarrow> True)"

definition authorize_resource :: "call_env \<Rightarrow> runtime_context \<Rightarrow> string \<Rightarrow> resource_type \<Rightarrow> resource_access
    \<Rightarrow> wafer_error + unit" where
  "authorize_resource env ctx resource rt access =
     (let rc = cv_registration env; caller = cx_caller_id ctx in
      and_then (check_access (cv_wrap env) caller resource access (Some rt) (ws_grants (rc_wrap rc)) (ws_admin_block (rc_wrap rc))) (\<lambda>_.
      case (case caller of None \<Rightarrow> None
            | Some c \<Rightarrow> (case rc_all_blocks rc c of None \<Rightarrow> None | Some _ \<Rightarrow> cv_capabilities env c)) of
        None \<Rightarrow> Inr ()
      | Some caps \<Rightarrow>
          if capability_permits (cv_net_parse env) caps resource rt then Inr ()
          else Inl (wafer_error_new PermissionDenied
                 (Text (''block capability denies access to {resource_type} '{resource}'' @ [squote])
                   [A_str (resource_type_str rt), A_str resource]))))"

section \<open>Call stacks\<close>

text \<open>The frames of an execution, the innermost first.\<close>

inductive call_stack :: "call_env \<Rightarrow> runtime_context list \<Rightarrow> bool" for env where
  dispatched: "call_stack env [make_block_context env name deadline]"
| called: "call_stack env (ctx # frames) \<Longrightarrow> admit_call env ctx st now name msg = (st', Inr adm)
    \<Longrightarrow> call_stack env (sub_context ctx adm # ctx # frames)"

inductive_cases call_stackE: "call_stack env (ctx # frames)"

text \<open>A block may call another when its own requirements name the callee, directly or by an alias, and
  the capabilities it is held to admit it.\<close>

definition may_call :: "call_env \<Rightarrow> runtime_context \<Rightarrow> string \<Rightarrow> bool" where
  "may_call env caller callee \<longleftrightarrow>
     (\<forall>requires. cx_caller_requires caller = Some requires
        \<longrightarrow> (\<exists>r \<in> set requires. r = callee \<or> canonicalize (cv_registration env) r = callee))
     \<and> (\<forall>caps. caller_capabilities env caller = Some caps \<longrightarrow> allows_call_block caps callee)"

lemma admit_call_Inr:
  assumes "admit_call env ctx st now name msg = (st', Inr adm)"
  shows "cx_call_depth ctx < cx_max_call_depth ctx"
    and "\<not> cs_cancelled st" and "cs_cancelled st' = cs_cancelled st"
    and "\<And>deadline. cx_deadline ctx = Some deadline \<Longrightarrow> now < deadline"
    and "ac_resolved adm = canonicalize (cv_registration env) name"
    and "rc_all_blocks (cv_registration env) (ac_resolved adm) = Some (ac_block adm)"
    and "ac_requires adm = rb_call_allowlist (ac_block adm)"
    and "may_call env ctx (ac_resolved adm)"
  using assms
  by (auto simp: admit_call_def Let_def may_call_def list_ex_iff
        split: if_splits option.splits action_check.splits)

lemma sub_context_simps [simp]:
  "cx_node_id (sub_context ctx adm) = ac_resolved adm"
  "cx_caller_id (sub_context ctx adm) = Some (cx_node_id ctx)"
  "cx_caller_requires (sub_context ctx adm) = ac_requires adm"
  "cx_call_depth (sub_context ctx adm) = Suc (cx_call_depth ctx)"
  "cx_max_call_depth (sub_context ctx adm) = cx_max_call_depth ctx"
  "cx_deadline (sub_context ctx adm) = cx_deadline ctx"
  by (simp_all add: sub_context_def)

lemma make_block_context_simps [simp]:
  "cx_node_id (make_block_context env name deadline) = name"
  "cx_caller_id (make_block_context env name deadline) = None"
  "cx_call_depth (make_block_context env name deadline) = 0"
  "cx_max_call_depth (make_block_context env name deadline) = DEFAULT_MAX_CALL_DEPTH"
  by (simp_all add: make_block_context_def make_context_def)

lemma call_stack_depth:
  "call_stack env (ctx # frames) \<Longrightarrow>
     cx_call_depth ctx = length frames \<and> cx_max_call_depth ctx = DEFAULT_MAX_CALL_DEPTH
     \<and> length frames \<le> DEFAULT_MAX_CALL_DEPTH"
proof (induction "ctx # frames" arbitrary: ctx frames rule: call_stack.induct)
  case (called ctx frames st now name msg st' adm)
  then show ?case using admit_call_Inr(1) [OF called(3)] by simp
qed simp

lemma call_stack_deadline:
  "call_stack env (ctx # frames) \<Longrightarrow> \<forall>frame \<in> set frames. cx_deadline frame = cx_deadline ctx"
  by (induction "ctx # frames" arbitrary: ctx frames rule: call_stack.induct) auto

lemma authorize_resource_Inr:
  "authorize_resource env ctx resource rt access = Inr () \<longleftrightarrow>
     check_access (cv_wrap env) (cx_caller_id ctx) resource access (Some rt)
       (ws_grants (rc_wrap (cv_registration env))) (ws_admin_block (rc_wrap (cv_registration env))) = Inr ()
     \<and> (\<forall>caller caps. cx_caller_id ctx = Some caller \<and> rc_all_blocks (cv_registration env) caller \<noteq> None
          \<and> cv_capabilities env caller = Some caps \<longrightarrow> capability_permits (cv_net_parse env) caps resource rt)"
  by (auto simp: authorize_resource_def Let_def and_then_def split: sum.splits option.splits)

lemma access_names_a_caller:
  "check_access env caller resource access rt grants admin = Inr () \<Longrightarrow> caller \<noteq> None"
  unfolding check_Inr some_grant_def by (auto split: if_splits)

lemma call_stack_attributed:
  assumes "call_stack env (ctx # frames)"
  shows "case frames of
           [] \<Rightarrow> cx_caller_id ctx = None
         | caller # _ \<Rightarrow>
             cx_caller_id ctx = Some (cx_node_id caller)
             \<and> (\<exists>block. rc_all_blocks (cv_registration env) (cx_node_id ctx) = Some block
                    \<and> cx_caller_requires ctx = rb_call_allowlist block)
             \<and> may_call env caller (cx_node_id ctx)"
  using assms by (cases rule: call_stackE) (auto simp: admit_call_Inr(6-8))

lemma access_is_attributed:
  assumes stack: "call_stack env (ctx # frames)" and granted: "authorize_resource env ctx resource rt access = Inr ()"
  shows "\<exists>caller rest. frames = caller # rest
     \<and> check_access (cv_wrap env) (Some (cx_node_id caller)) resource access (Some rt)
         (ws_grants (rc_wrap (cv_registration env))) (ws_admin_block (rc_wrap (cv_registration env))) = Inr ()
     \<and> (\<forall>caps. caller_capabilities env caller = Some caps
           \<longrightarrow> capability_permits (cv_net_parse env) caps resource rt)"
proof -
  obtain caller where "cx_caller_id ctx = Some caller"
    using granted access_names_a_caller unfolding authorize_resource_Inr by blast
  then obtain frame rest where "frames = frame # rest" "cx_caller_id ctx = Some (cx_node_id frame)"
    using call_stack_attributed [OF stack] by (cases frames) auto
  then show ?thesis
    using granted unfolding authorize_resource_Inr caller_capabilities_def by (auto split: option.splits)
qed

text \<open>C16: Every frame of an execution is attributed to the frame that called it, and to nothing else: the
  stack is at most \<^verbatim>\<open>DEFAULT_MAX_CALL_DEPTH\<close> calls deep and keeps the deadline of the execution; a
  dispatched block has no caller; a callee is registered, carries the requirements it declared itself,
  and was named by the requirements and admitted by the capabilities of its caller.  Access to a resource is
  granted only inside a call, and only when WRAP admits the calling block and the capabilities that
  block is held to permit the resource.\<close>

theorem calls_are_attributed:
  assumes "call_stack env (ctx # frames)"
  shows "length frames \<le> DEFAULT_MAX_CALL_DEPTH
    \<and> (\<forall>frame \<in> set frames. cx_deadline frame = cx_deadline ctx)
    \<and> (case frames of
           [] \<Rightarrow> cx_caller_id ctx = None
         | caller # _ \<Rightarrow>
             cx_caller_id ctx = Some (cx_node_id caller)
             \<and> (\<exists>block. rc_all_blocks (cv_registration env) (cx_node_id ctx) = Some block
                    \<and> cx_caller_requires ctx = rb_call_allowlist block)
             \<and> may_call env caller (cx_node_id ctx))
    \<and> (\<forall>resource rt access. authorize_resource env ctx resource rt access = Inr () \<longrightarrow>
           (\<exists>caller rest. frames = caller # rest
              \<and> check_access (cv_wrap env) (Some (cx_node_id caller)) resource access (Some rt)
                  (ws_grants (rc_wrap (cv_registration env)))
                  (ws_admin_block (rc_wrap (cv_registration env))) = Inr ()
              \<and> (\<forall>caps. caller_capabilities env caller = Some caps
                    \<longrightarrow> capability_permits (cv_net_parse env) caps resource rt)))"
  using call_stack_depth [OF assms] call_stack_deadline [OF assms] call_stack_attributed [OF assms]
    access_is_attributed [OF assms] by blast

text \<open>A block that reads its own table through the database block.\<close>

definition sample_block :: "string \<Rightarrow> string list \<Rightarrow> registered_block" where
  "sample_block name requires =
     registered_block_new
       \<lparr>bi_name = name, bi_requires = requires, bi_optional_requires = [], bi_config_keys = [],
        bi_flow_config = [], bi_grants = [], bi_endpoints = [], bi_init_timeout_ms = None\<rparr>"

definition sample_call_env :: call_env where
  "sample_call_env =
     (let auth = sample_block ''my-org/auth'' [''wafer-run/database'']; db = sample_block ''wafer-run/database'' [] in
      \<lparr>cv_registration = registration_new
         \<lparr>rc_blocks := [(''my-org/auth'', auth), (''wafer-run/database'', db)],
          rc_all_blocks := [''my-org/auth'' \<mapsto> auth, ''wafer-run/database'' \<mapsto> db]\<rparr>,
       cv_capabilities = Map.empty, cv_interface = \<lambda>_. ''database@v1'',
       cv_specs = [''database@v1'' \<mapsto> {''database.get'', ''database.list''}],
       cv_wrap = \<lparr>lower = to_ascii_lowercase, url_parse = \<lambda>_. None\<rparr>, cv_net_parse = \<lambda>_. None\<rparr>)"

definition sample_frame :: runtime_context where
  "sample_frame = make_block_context sample_call_env ''my-org/auth'' None"

definition sample_callee :: runtime_context where
  "sample_callee =
     sample_frame\<lparr>cx_node_id := ''wafer-run/database'', cx_caller_requires := rb_call_allowlist (sample_block ''wafer-run/database'' []),
       cx_caller_id := Some ''my-org/auth'', cx_call_depth := 1\<rparr>"

lemma sample_call_stack: "call_stack sample_call_env [sample_callee, sample_frame]"
proof -
  let ?adm = "\<lparr>ac_resolved = ''wafer-run/database'', ac_block = sample_block ''wafer-run/database'' [],
      ac_requires = rb_call_allowlist (sample_block ''wafer-run/database'' [])\<rparr>"
  let ?idle = "\<lparr>cs_cancelled = False, cs_warned = {}\<rparr>"
  have "admit_call sample_call_env sample_frame ?idle 0 ''wafer-run/database'' \<lparr>msg_kind = ''database.get'', msg_meta = []\<rparr>
      = (?idle, Inr ?adm)"
    by (simp add: admit_call_def sample_call_env_def sample_frame_def make_block_context_def make_context_def
        DEFAULT_MAX_CALL_DEPTH_def Let_def canonicalize_def registration_new_def caller_capabilities_def
        resolve_block_requires_def sample_block_def registered_block_new_def call_allowlist_def
        check_action_interface_def msg_action_def get_meta_def meta_get_def)
  moreover have "sub_context sample_frame ?adm = sample_callee"
    by (simp add: sub_context_def sample_callee_def sample_frame_def make_block_context_def make_context_def)
  ultimately show ?thesis
    using call_stack.called [OF call_stack.dispatched] unfolding sample_frame_def by metis
qed

theorem calls_are_attributed_witness:
  "call_stack sample_call_env [sample_callee, sample_frame]
   \<and> authorize_resource sample_call_env sample_callee ''my_org__auth__users'' Db Read = Inr ()
   \<and> may_call sample_call_env sample_frame ''wafer-run/database''
   \<and> check_access (cv_wrap sample_call_env) (Some ''my-org/auth'') ''my_org__auth__users'' Read (Some Db) [] [] = Inr ()"
proof -
  have granted: "authorize_resource sample_call_env sample_callee ''my_org__auth__users'' Db Read = Inr ()"
    by code_simp
  show ?thesis
    using granted sample_call_stack calls_are_attributed [OF sample_call_stack]
    by (fastforce simp: sample_callee_def sample_frame_def sample_call_env_def Let_def registration_new_def wrap_state_new_def)
qed

end
