(* ===== verification/Ip_Addr.thy ===== *)
theory Ip_Addr
  imports Wafer_Prelude "HOL-Library.Word"
begin

text \<open>
  The parts of \<^verbatim>\<open>std::net\<close> the network code uses: addresses as words of 32 and 128 bits, their
  octets and segments, and the parser behind \<^verbatim>\<open>parse::<IpAddr>()\<close> and \<^verbatim>\<open>parse::<SocketAddr>()\<close>.
\<close>

unbundle bit_operations_syntax

section \<open>Addresses\<close>

type_synonym ipv4 = "32 word"
type_synonym ipv6 = "128 word"

datatype ip_addr = V4 ipv4 | V6 ipv6

definition octet :: "ipv4 \<Rightarrow> nat \<Rightarrow> 8 word" where
  "octet a i = ucast (drop_bit (24 - 8 * i) a)"

definition segment :: "ipv6 \<Rightarrow> nat \<Rightarrow> 16 word" where
  "segment a i = ucast (drop_bit (112 - 16 * i) a)"

definition ipv4_new :: "8 word \<Rightarrow> 8 word \<Rightarrow> 8 word \<Rightarrow> 8 word \<Rightarrow> ipv4" where
  "ipv4_new a b c d = push_bit 24 (ucast a) OR push_bit 16 (ucast b) OR push_bit 8 (ucast c) OR ucast d"

definition ipv6_new :: "16 word list \<Rightarrow> ipv6" where
  "ipv6_new segments = fold (\<lambda>s a. push_bit 16 a OR ucast s) segments 0"

text \<open>\<^verbatim>\<open>Ipv6Addr::to_ipv4_mapped\<close>: \<^verbatim>\<open>::ffff:a.b.c.d\<close>.\<close>

definition to_ipv4_mapped :: "ipv6 \<Rightarrow> ipv4 option" where
  "to_ipv4_mapped a = (if drop_bit 32 a = 0xFFFF then Some (ucast a) else None)"

definition v4_is_multicast :: "ipv4 \<Rightarrow> bool" where
  "v4_is_multicast a \<longleftrightarrow> 224 \<le> octet a 0 \<and> octet a 0 \<le> 239"

definition v6_is_multicast :: "ipv6 \<Rightarrow> bool" where
  "v6_is_multicast a \<longleftrightarrow> segment a 0 AND 0xFF00 = 0xFF00"

section \<open>Networks\<close>

text \<open>Membership of a network written as its address and prefix length.\<close>

definition in_net :: "'a::len word \<Rightarrow> nat \<Rightarrow> 'a word \<Rightarrow> bool" where
  "in_net net len a \<longleftrightarrow> drop_bit (LENGTH('a) - len) a = drop_bit (LENGTH('a) - len) net"

lemma unat_octet: "i < 4 \<Longrightarrow> unat (octet a i) = unat a div 2 ^ (24 - 8 * i) mod 256"
  unfolding octet_def unsigned_ucast_eq unat_drop_bit_eq by (simp add: drop_bit_eq_div take_bit_eq_mod)

lemma unat_segment: "i < 8 \<Longrightarrow> unat (segment a i) = unat a div 2 ^ (112 - 16 * i) mod 65536"
  unfolding segment_def unsigned_ucast_eq unat_drop_bit_eq by (simp add: drop_bit_eq_div take_bit_eq_mod)

lemma in_net_unat:
  "in_net net len (a :: 'a::len word) \<longleftrightarrow> unat a div 2 ^ (LENGTH('a) - len) = unat net div 2 ^ (LENGTH('a) - len)"
  unfolding in_net_def word_unat_eq_iff unat_drop_bit_eq by (simp add: drop_bit_eq_div)

section \<open>Parsing\<close>

text \<open>A parser returns the value read and the rest; \<^verbatim>\<open>read_atomically\<close> restores the input on failure, so
  a failed parser is \<open>None\<close> and its caller goes on from where it stood.\<close>

type_synonym 'a parser = "string \<Rightarrow> ('a \<times> string) option"

definition read_given_char :: "char \<Rightarrow> unit parser" where
  "read_given_char c s = (case s of x # rest \<Rightarrow> if x = c then Some ((), rest) else None | [] \<Rightarrow> None)"

definition to_digit :: "nat \<Rightarrow> char \<Rightarrow> nat option" where
  "to_digit radix c =
     (let n = of_char c :: nat;
          d = (if 48 \<le> n \<and> n \<le> 57 then n - 48 else if 97 \<le> n \<and> n \<le> 122 then n - 87
               else if 65 \<le> n \<and> n \<le> 90 then n - 55 else radix)
      in if d < radix then Some d else None)"

fun read_digits :: "nat \<Rightarrow> nat \<Rightarrow> nat \<Rightarrow> string \<Rightarrow> nat \<times> nat \<times> string" where
  "read_digits radix result digits [] = (result, digits, [])"
| "read_digits radix result digits (c # s) =
     (case to_digit radix c of
        None \<Rightarrow> (result, digits, c # s)
      | Some d \<Rightarrow> read_digits radix (result * radix + d) (digits + 1) s)"

text \<open>\<^verbatim>\<open>read_number\<close>: \<open>max_digits\<close> bounds the digits of a \<^verbatim>\<open>u8\<close> or \<^verbatim>\<open>u16\<close> group, without it the value is
  checked against the type at every digit; either way a value beyond \<open>mx\<close> is refused.\<close>

definition read_number :: "nat \<Rightarrow> nat option \<Rightarrow> bool \<Rightarrow> nat \<Rightarrow> nat parser" where
  "read_number radix max_digits allow_zero_prefix mx s =
     (case read_digits radix 0 0 s of (result, digits, rest) \<Rightarrow>
        if (case max_digits of Some m \<Rightarrow> digits > m | None \<Rightarrow> False) then None
        else if digits = 0 then None
        else if \<not> allow_zero_prefix \<and> s \<noteq> [] \<and> hd s = CHR ''0'' \<and> digits > 1 then None
        else if result > mx then None
        else Some (result, rest))"

definition read_separator :: "char \<Rightarrow> nat \<Rightarrow> 'a parser \<Rightarrow> 'a parser" where
  "read_separator sep index inner s =
     (if index > 0
      then (case read_given_char sep s of None \<Rightarrow> None | Some (_, rest) \<Rightarrow> inner rest)
      else inner s)"

definition read_octet :: "nat \<Rightarrow> nat parser" where
  "read_octet i = read_separator CHR ''.'' i (read_number 10 (Some 3) False 255)"

definition read_ipv4_addr :: "ipv4 parser" where
  "read_ipv4_addr s =
     (case read_octet 0 s of None \<Rightarrow> None | Some (a, s1) \<Rightarrow>
     (case read_octet 1 s1 of None \<Rightarrow> None | Some (b, s2) \<Rightarrow>
     (case read_octet 2 s2 of None \<Rightarrow> None | Some (c, s3) \<Rightarrow>
     (case read_octet 3 s3 of None \<Rightarrow> None | Some (d, s4) \<Rightarrow>
        Some (ipv4_new (of_nat a) (of_nat b) (of_nat c) (of_nat d), s4)))))"

text \<open>\<^verbatim>\<open>read_groups\<close> from group \<open>i\<close> on: the groups read, whether they end in an embedded IPv4 address, and
  the rest.\<close>

function read_groups :: "nat \<Rightarrow> nat \<Rightarrow> string \<Rightarrow> 16 word list \<times> bool \<times> string" where
  "read_groups limit i s =
     (if i \<ge> limit then ([], False, s)
      else
        case (if i + 1 < limit then read_separator CHR '':'' i read_ipv4_addr s else None) of
          Some (v4, rest) \<Rightarrow> ([ucast (drop_bit 16 v4), ucast v4], True, rest)
        | None \<Rightarrow>
            (case read_separator CHR '':'' i (read_number 16 (Some 4) True 65535) s of
               None \<Rightarrow> ([], False, s)
             | Some (g, rest) \<Rightarrow>
                 (case read_groups limit (i + 1) rest of (gs, v4, rest') \<Rightarrow> (of_nat g # gs, v4, rest'))))"
  by pat_completeness auto
termination by (relation "measure (\<lambda>(limit, i, s). limit - i)") auto

definition read_ipv6_addr :: "ipv6 parser" where
  "read_ipv6_addr s =
     (case read_groups 8 0 s of (head, head_v4, s1) \<Rightarrow>
        if length head = 8 then Some (ipv6_new head, s1)
        else if head_v4 then None
        else (case read_given_char CHR '':'' s1 of None \<Rightarrow> None | Some (_, s2) \<Rightarrow>
             (case read_given_char CHR '':'' s2 of None \<Rightarrow> None | Some (_, s3) \<Rightarrow>
             (case read_groups (8 - (length head + 1)) 0 s3 of (tail, _, s4) \<Rightarrow>
               Some (ipv6_new (head @ replicate (8 - (length head + length tail)) 0 @ tail), s4)))))"

definition read_ip_addr :: "ip_addr parser" where
  "read_ip_addr s =
     (case read_ipv4_addr s of Some (a, rest) \<Rightarrow> Some (V4 a, rest)
      | None \<Rightarrow> (case read_ipv6_addr s of Some (a, rest) \<Rightarrow> Some (V6 a, rest) | None \<Rightarrow> None))"

definition read_port :: "nat parser" where
  "read_port s = (case read_given_char CHR '':'' s of None \<Rightarrow> None | Some (_, rest) \<Rightarrow> read_number 10 None True 65535 rest)"

definition read_scope_id :: "nat parser" where
  "read_scope_id s = (case read_given_char CHR ''%'' s of None \<Rightarrow> None | Some (_, rest) \<Rightarrow> read_number 10 None True (2 ^ 32 - 1) rest)"

text \<open>The address of a socket address; port and scope are read and dropped.\<close>

definition read_socket_addr :: "ip_addr parser" where
  "read_socket_addr s =
     (case (case read_ipv4_addr s of None \<Rightarrow> None
            | Some (a, s1) \<Rightarrow> map_option (\<lambda>(_, rest). (V4 a, rest)) (read_port s1)) of
        Some r \<Rightarrow> Some r
      | None \<Rightarrow>
          (case read_given_char CHR ''['' s of None \<Rightarrow> None | Some (_, s1) \<Rightarrow>
          (case read_ipv6_addr s1 of None \<Rightarrow> None | Some (a, s2) \<Rightarrow>
          (case read_given_char CHR '']'' (case read_scope_id s2 of None \<Rightarrow> s2 | Some (_, s3) \<Rightarrow> s3) of
             None \<Rightarrow> None
           | Some (_, s4) \<Rightarrow> map_option (\<lambda>(_, rest). (V6 a, rest)) (read_port s4)))))"

definition parse_with :: "'a parser \<Rightarrow> string \<Rightarrow> 'a option" where
  "parse_with p s = (case p s of Some (v, rest) \<Rightarrow> if rest = [] then Some v else None | None \<Rightarrow> None)"

definition parse_ip_addr :: "string \<Rightarrow> ip_addr option" where
  "parse_ip_addr = parse_with read_ip_addr"

definition parse_socket_addr :: "string \<Rightarrow> ip_addr option" where
  "parse_socket_addr = parse_with read_socket_addr"

end
