(* ===== verification/Net_Security.thy ===== *)
theory Net_Security
  imports Ip_Addr
begin

text \<open>
  \<^verbatim>\<open>crates/wafer-net-security/src/lib.rs\<close>: which addresses and URLs an outbound request may not reach.

  \<^verbatim>\<open>url::Url::parse\<close> is the parameter \<open>parse\<close>, and the system's DNS lookup an argument.  The model is the
  enforcing build: the feature \<^verbatim>\<open>allow-private-network\<close> is off.
\<close>

section \<open>Addresses\<close>

definition is_blocked_ipv4 :: "ipv4 \<Rightarrow> bool" where
  "is_blocked_ipv4 ip =
     (if octet ip 0 = 0 then True
      else if octet ip 0 = 127 then True
      else if octet ip 0 = 10 then True
      else if octet ip 0 = 172 \<and> 16 \<le> octet ip 1 \<and> octet ip 1 \<le> 31 then True
      else if octet ip 0 = 192 \<and> octet ip 1 = 168 then True
      else if octet ip 0 = 169 \<and> octet ip 1 = 254 then True
      else if octet ip 0 = 100 \<and> 64 \<le> octet ip 1 \<and> octet ip 1 \<le> 127 then True
      else if octet ip 0 = 192 \<and> octet ip 1 = 0 \<and> octet ip 2 = 0 then True
      else if octet ip 0 = 198 \<and> (octet ip 1 = 18 \<or> octet ip 1 = 19) then True
      else if v4_is_multicast ip then True
      else if octet ip 0 \<ge> 240 then True
      else if ip = 0xFFFFFFFF then True
      else False)"

definition embedded_v4 :: "16 word \<Rightarrow> 16 word \<Rightarrow> ipv4" where
  "embedded_v4 hi lo =
     ipv4_new (ucast (drop_bit 8 hi)) (ucast (hi AND 0xFF)) (ucast (drop_bit 8 lo)) (ucast (lo AND 0xFF))"

definition segments :: "ipv6 \<Rightarrow> nat \<Rightarrow> nat \<Rightarrow> 16 word list" where
  "segments ip i j = map (segment ip) [i..<j]"

definition is_blocked_ipv6 :: "ipv6 \<Rightarrow> bool" where
  "is_blocked_ipv6 ip =
     (if ip = 1 then True
      else if ip = 0 then True
      else if segment ip 0 AND 0xFFC0 = 0xFE80 then True
      else if segment ip 0 AND 0xFE00 = 0xFC00 then True
      else if v6_is_multicast ip then True
      else if segments ip 0 5 = [0, 0, 0, 0, 0] \<and> segment ip 5 = 0xFFFF then
        is_blocked_ipv4 (embedded_v4 (segment ip 6) (segment ip 7))
      else if segment ip 0 = 0x64 \<and> segment ip 1 = 0xFF9B \<and> segments ip 2 6 = [0, 0, 0, 0] then
        is_blocked_ipv4 (embedded_v4 (segment ip 6) (segment ip 7))
      else if segments ip 0 6 = [0, 0, 0, 0, 0, 0] then
        is_blocked_ipv4 (embedded_v4 (segment ip 6) (segment ip 7))
      else if segment ip 0 = 0x2002 then is_blocked_ipv4 (embedded_v4 (segment ip 1) (segment ip 2))
      else False)"

definition is_blocked_ip :: "ip_addr \<Rightarrow> bool" where
  "is_blocked_ip ip = (case ip of V4 a \<Rightarrow> is_blocked_ipv4 a | V6 a \<Rightarrow> is_blocked_ipv6 a)"

section \<open>URLs and resolved addresses\<close>

datatype url_host = Domain string | Host_v4 ipv4 | Host_v6 ipv6

record parsed_url =
  pu_scheme :: string
  pu_host :: "url_host option"

definition is_blocked_url :: "(string \<Rightarrow> parsed_url option) \<Rightarrow> string \<Rightarrow> bool" where
  "is_blocked_url parse raw =
     (case parse raw of
        None \<Rightarrow> True
      | Some parsed \<Rightarrow>
          if pu_scheme parsed \<noteq> ''http'' \<and> pu_scheme parsed \<noteq> ''https'' then True
          else (case pu_host parsed of
                  None \<Rightarrow> True
                | Some (Domain domain) \<Rightarrow> eq_ignore_ascii_case domain ''localhost''
                | Some (Host_v4 ip) \<Rightarrow> is_blocked_ipv4 ip
                | Some (Host_v6 ip) \<Rightarrow> is_blocked_ipv6 ip))"

datatype resolve_error = Lookup_failed | No_public_ips string

definition filter_resolved :: "string \<Rightarrow> ip_addr list \<Rightarrow> resolve_error + ip_addr list" where
  "filter_resolved host resolved =
     (let filtered = filter (\<lambda>ip. \<not> is_blocked_ip ip) resolved in
      if filtered = [] then Inl (No_public_ips host) else Inr filtered)"

text \<open>\<^verbatim>\<open>SsrfFilteringResolver::resolve\<close>; a failed lookup is \<open>None\<close>.\<close>

definition ssrf_resolve :: "(string \<Rightarrow> ip_addr list option) \<Rightarrow> string \<Rightarrow> resolve_error + ip_addr list" where
  "ssrf_resolve lookup host =
     (case lookup host of None \<Rightarrow> Inl Lookup_failed | Some resolved \<Rightarrow> filter_resolved host resolved)"

section \<open>The networks behind the tests\<close>

text \<open>The ranges of addresses that are not public, as networks.\<close>

definition internal_v4_networks :: "(ipv4 \<times> nat) list" where
  "internal_v4_networks =
     [(ipv4_new 0 0 0 0, 8), (ipv4_new 10 0 0 0, 8), (ipv4_new 100 64 0 0, 10), (ipv4_new 127 0 0 0, 8),
      (ipv4_new 169 254 0 0, 16), (ipv4_new 172 16 0 0, 12), (ipv4_new 192 0 0 0, 24), (ipv4_new 192 168 0 0, 16),
      (ipv4_new 198 18 0 0, 15), (ipv4_new 224 0 0 0, 4), (ipv4_new 240 0 0 0, 4)]"

definition internal_v4 :: "ipv4 \<Rightarrow> bool" where
  "internal_v4 a \<longleftrightarrow> list_ex (\<lambda>(net, len). in_net net len a) internal_v4_networks"

definition internal_v6_networks :: "(ipv6 \<times> nat) list" where
  "internal_v6_networks =
     [(ipv6_new [0xFE80, 0, 0, 0, 0, 0, 0, 0], 10), (ipv6_new [0xFC00, 0, 0, 0, 0, 0, 0, 0], 7),
      (ipv6_new [0xFF00, 0, 0, 0, 0, 0, 0, 0], 8)]"

text \<open>The IPv4 address an IPv6 address stands for: mapped, NAT64 and compatible addresses end in it, 6to4
  addresses carry it after their first segment.\<close>

definition carried_v4 :: "ipv6 \<Rightarrow> ipv4 option" where
  "carried_v4 a =
     (if list_ex (\<lambda>net. in_net net 96 a)
          [ipv6_new [0, 0, 0, 0, 0, 0xFFFF, 0, 0], ipv6_new [0x64, 0xFF9B, 0, 0, 0, 0, 0, 0], 0]
      then Some (ucast a)
      else if in_net (ipv6_new [0x2002, 0, 0, 0, 0, 0, 0, 0]) 16 a then Some (ucast (drop_bit 80 a))
      else None)"

definition internal_v6 :: "ipv6 \<Rightarrow> bool" where
  "internal_v6 a \<longleftrightarrow>
     list_ex (\<lambda>(net, len). in_net net len a) internal_v6_networks
     \<or> (case carried_v4 a of None \<Rightarrow> False | Some v4 \<Rightarrow> internal_v4 v4)"

definition internal :: "ip_addr \<Rightarrow> bool" where
  "internal ip = (case ip of V4 a \<Rightarrow> internal_v4 a | V6 a \<Rightarrow> internal_v6 a)"


lemma div_range: "0 < k \<Longrightarrow> (n :: nat) div k = c \<longleftrightarrow> k * c \<le> n \<and> n < k * c + k"
  using div_nat_eqI [of k c n] dividend_less_times_div [of k n] by (auto simp: ac_simps)

lemma half_arms:
  fixes q r :: nat
  assumes "r < 256" and hi: "hi = 256 * q + r" and "hi < 65536"
  shows "hi div 64 = 401 \<longleftrightarrow> q = 100 \<and> 64 \<le> r \<and> r \<le> 127"
    "hi = 43518 \<longleftrightarrow> q = 169 \<and> r = 254"
    "hi div 16 = 2753 \<longleftrightarrow> q = 172 \<and> 16 \<le> r \<and> r \<le> 31"
    "hi = 49320 \<longleftrightarrow> q = 192 \<and> r = 168"
    "hi = 49152 \<longleftrightarrow> q = 192 \<and> r = 0"
    "hi div 2 = 25353 \<longleftrightarrow> q = 198 \<and> (r = 18 \<or> r = 19)"
    "hi div 4096 = 14 \<longleftrightarrow> 224 \<le> q \<and> q \<le> 239"
    "hi div 4096 = 15 \<longleftrightarrow> 240 \<le> q"
proof -
  show "hi div 64 = 401 \<longleftrightarrow> q = 100 \<and> 64 \<le> r \<and> r \<le> 127"
    using assms by (cases "q = 100") (auto simp: div_range)
  show "hi = 43518 \<longleftrightarrow> q = 169 \<and> r = 254"
    using assms by (cases "q = 169") auto
  show "hi div 16 = 2753 \<longleftrightarrow> q = 172 \<and> 16 \<le> r \<and> r \<le> 31"
    using assms by (cases "q = 172") (auto simp: div_range)
  show "hi = 49320 \<longleftrightarrow> q = 192 \<and> r = 168" "hi = 49152 \<longleftrightarrow> q = 192 \<and> r = 0"
    using assms by (cases "q = 192"; auto)+
  show "hi div 2 = 25353 \<longleftrightarrow> q = 198 \<and> (r = 18 \<or> r = 19)"
    using assms by (cases "q = 198") (auto simp: div_range)
  show "hi div 4096 = 14 \<longleftrightarrow> 224 \<le> q \<and> q \<le> 239" "hi div 4096 = 15 \<longleftrightarrow> 240 \<le> q"
    using assms by (auto simp: div_range)
qed

text \<open>Everything about an IPv4 address is decided by its upper half and its third octet.\<close>

lemma octets_hi:
  fixes a :: ipv4
  defines "hi \<equiv> unat a div 65536"
  shows "unat (octet a 0) = hi div 256" "unat (octet a 1) = hi mod 256" "hi < 65536"
proof -
  have "unat a < 2 ^ 32" using unsigned_less [of a] by simp
  then show "hi < 65536" by (simp add: hi_def)
  then show "unat (octet a 0) = hi div 256" "unat (octet a 1) = hi mod 256"
    by (simp_all add: unat_octet hi_def div_mult2_eq [symmetric])
qed

lemma octet_networks:
  fixes a :: ipv4
  defines "hi \<equiv> unat a div 65536"
  shows "in_net (ipv4_new 0 0 0 0) 8 a \<longleftrightarrow> hi div 256 = 0"
    "in_net (ipv4_new 10 0 0 0) 8 a \<longleftrightarrow> hi div 256 = 10"
    "in_net (ipv4_new 127 0 0 0) 8 a \<longleftrightarrow> hi div 256 = 127"
    "in_net (ipv4_new 100 64 0 0) 10 a \<longleftrightarrow> hi div 64 = 401"
    "in_net (ipv4_new 169 254 0 0) 16 a \<longleftrightarrow> hi = 43518"
    "in_net (ipv4_new 172 16 0 0) 12 a \<longleftrightarrow> hi div 16 = 2753"
    "in_net (ipv4_new 192 168 0 0) 16 a \<longleftrightarrow> hi = 49320"
    "in_net (ipv4_new 198 18 0 0) 15 a \<longleftrightarrow> hi div 2 = 25353"
    "in_net (ipv4_new 224 0 0 0) 4 a \<longleftrightarrow> hi div 4096 = 14"
    "in_net (ipv4_new 240 0 0 0) 4 a \<longleftrightarrow> hi div 4096 = 15"
    "in_net (ipv4_new 192 0 0 0) 24 a \<longleftrightarrow> hi = 49152 \<and> octet a 2 = 0"
proof -
  define m where "m = unat a div 256"
  have "hi = m div 256" "octet a 2 = 0 \<longleftrightarrow> m mod 256 = 0"
    by (simp_all add: hi_def m_def div_mult2_eq [symmetric] word_unat_eq_iff unat_octet)
  moreover have "m = 12582912 \<longleftrightarrow> m div 256 = 49152 \<and> m mod 256 = 0"
    using div_mult_mod_eq [of m 256] by auto
  ultimately show "in_net (ipv4_new 192 0 0 0) 24 a \<longleftrightarrow> hi = 49152 \<and> octet a 2 = 0"
    unfolding in_net_unat ipv4_new_def by (simp add: m_def)
qed (simp_all add: in_net_unat ipv4_new_def hi_def div_mult2_eq [symmetric])

lemma is_blocked_ipv4_internal: "is_blocked_ipv4 a \<longleftrightarrow> internal_v4 a"
proof -
  define hi where "hi = unat a div 65536"
  have o: "octet a 0 = w \<longleftrightarrow> hi div 256 = unat w" "octet a 1 = w \<longleftrightarrow> hi mod 256 = unat w"
    "octet a 0 \<le> w \<longleftrightarrow> hi div 256 \<le> unat w" "w \<le> octet a 0 \<longleftrightarrow> unat w \<le> hi div 256"
    "octet a 1 \<le> w \<longleftrightarrow> hi mod 256 \<le> unat w" "w \<le> octet a 1 \<longleftrightarrow> unat w \<le> hi mod 256" for w
    using octets_hi [of a] by (auto simp: hi_def word_unat_eq_iff word_le_nat_alt)
  have broadcast: "hi div 256 = 255" if "a = 0xFFFFFFFF" using that by (simp add: hi_def)
  have "hi < 65536" using octets_hi [of a] by (simp add: hi_def)
  note arms = half_arms [of "hi mod 256" hi "hi div 256", OF _ _ this, simplified]
  show ?thesis
    unfolding is_blocked_ipv4_def internal_v4_def internal_v4_networks_def v4_is_multicast_def o
    using broadcast by (auto simp: octet_networks hi_def [symmetric] arms)
qed

lemma mask_test:
  fixes s c :: "'a::len word"
  assumes "push_bit k (drop_bit k c) = c"
  shows "s AND NOT (mask k) = c \<longleftrightarrow> drop_bit k s = drop_bit k c"
proof -
  have m: "s AND NOT (mask k) = push_bit k (drop_bit k s)"
    by (rule bit_word_eqI) (auto simp: bit_simps)
  have "drop_bit k (push_bit k (drop_bit k s)) = drop_bit k s"
    by (rule bit_word_eqI) (auto simp: bit_simps dest: bit_imp_le_length)
  with m assms show ?thesis by metis
qed


text \<open>An IPv6 address is inside a network of whole segments when its leading segments are.\<close>

lemma leading_segments:
  assumes "i < 7"
  shows "unat a div 2 ^ (112 - 16 * Suc i) = c \<longleftrightarrow>
     unat a div 2 ^ (112 - 16 * i) = c div 65536 \<and> unat (segment a (Suc i)) = c mod 65536"
proof -
  define x where "x = unat a div 2 ^ (112 - 16 * Suc i)"
  have "(2 :: nat) ^ (112 - 16 * i) = 2 ^ (112 - 16 * Suc i) * 65536"
    using assms power_add [of "2 :: nat" "112 - 16 * Suc i" 16] by (simp add: algebra_simps)
  then have "unat a div 2 ^ (112 - 16 * i) = x div 65536" by (simp add: x_def div_mult2_eq)
  moreover have "unat (segment a (Suc i)) = x mod 65536" using assms by (simp add: unat_segment x_def)
  moreover have "x = c \<longleftrightarrow> x div 65536 = c div 65536 \<and> x mod 65536 = c mod 65536"
    by (metis div_mult_mod_eq)
  ultimately show ?thesis by (simp add: x_def)
qed

lemma first_segment: "unat (segment a 0) = unat a div 2 ^ 112"
proof -
  have "unat a < 2 ^ 128" using unsigned_less [of a] by simp
  then have "unat a div 2 ^ 112 < 65536" by (simp add: less_mult_imp_div_less)
  then show ?thesis by (simp add: unat_segment)
qed

lemma segment_networks:
  "in_net (ipv6_new [0, 0, 0, 0, 0, 0xFFFF, 0, 0]) 96 a \<longleftrightarrow> segments a 0 5 = [0, 0, 0, 0, 0] \<and> segment a 5 = 0xFFFF"
  "in_net (ipv6_new [0x64, 0xFF9B, 0, 0, 0, 0, 0, 0]) 96 a \<longleftrightarrow>
     segment a 0 = 0x64 \<and> segment a 1 = 0xFF9B \<and> segments a 2 6 = [0, 0, 0, 0]"
  "in_net 0 96 a \<longleftrightarrow> segments a 0 6 = [0, 0, 0, 0, 0, 0]"
  "in_net (ipv6_new [0x2002, 0, 0, 0, 0, 0, 0, 0]) 16 a \<longleftrightarrow> segment a 0 = 0x2002"
proof -
  have lead:
    "unat a div 2 ^ 32 = c \<longleftrightarrow> unat a div 2 ^ 48 = c div 65536 \<and> unat (segment a 5) = c mod 65536"
    "unat a div 2 ^ 48 = c \<longleftrightarrow> unat a div 2 ^ 64 = c div 65536 \<and> unat (segment a 4) = c mod 65536"
    "unat a div 2 ^ 64 = c \<longleftrightarrow> unat a div 2 ^ 80 = c div 65536 \<and> unat (segment a 3) = c mod 65536"
    "unat a div 2 ^ 80 = c \<longleftrightarrow> unat a div 2 ^ 96 = c div 65536 \<and> unat (segment a 2) = c mod 65536"
    "unat a div 2 ^ 96 = c \<longleftrightarrow> unat a div 2 ^ 112 = c div 65536 \<and> unat (segment a 1) = c mod 65536" for c
    using leading_segments [of 4 a c] leading_segments [of 3 a c] leading_segments [of 2 a c]
      leading_segments [of 1 a c] leading_segments [of 0 a c]
    by (simp_all add: numeral_2_eq_2 [symmetric])
  have lists: "segments a 0 5 = [segment a 0, segment a 1, segment a 2, segment a 3, segment a 4]"
    "segments a 2 6 = [segment a 2, segment a 3, segment a 4, segment a 5]"
    "segments a 0 6 = [segment a 0, segment a 1, segment a 2, segment a 3, segment a 4, segment a 5]"
    by (simp_all add: segments_def upt_conv_Cons eval_nat_numeral)
  have nets: "unat (ipv6_new [0, 0, 0, 0, 0, 0xFFFF, 0, 0]) div 2 ^ 32 = 0xFFFF"
    "unat (ipv6_new [0x64, 0xFF9B, 0, 0, 0, 0, 0, 0]) div 2 ^ 32 = 0x64FF9B0000000000000000"
    "unat (ipv6_new [0x2002, 0, 0, 0, 0, 0, 0, 0]) div 2 ^ 112 = 0x2002"
    by (simp_all add: ipv6_new_def)
  have in96: "in_net net 96 a \<longleftrightarrow> unat a div 2 ^ 32 = unat net div 2 ^ 32" for net
    by (simp add: in_net_unat)
  have in16: "in_net net 16 a \<longleftrightarrow> unat a div 2 ^ 112 = unat net div 2 ^ 112" for net
    by (simp add: in_net_unat)
  show "in_net (ipv6_new [0, 0, 0, 0, 0, 0xFFFF, 0, 0]) 96 a \<longleftrightarrow> segments a 0 5 = [0, 0, 0, 0, 0] \<and> segment a 5 = 0xFFFF"
    "in_net (ipv6_new [0x64, 0xFF9B, 0, 0, 0, 0, 0, 0]) 96 a \<longleftrightarrow>
       segment a 0 = 0x64 \<and> segment a 1 = 0xFF9B \<and> segments a 2 6 = [0, 0, 0, 0]"
    "in_net 0 96 a \<longleftrightarrow> segments a 0 6 = [0, 0, 0, 0, 0, 0]"
    "in_net (ipv6_new [0x2002, 0, 0, 0, 0, 0, 0, 0]) 16 a \<longleftrightarrow> segment a 0 = 0x2002"
    unfolding in96 in16 nets lead lists first_segment [of a, symmetric] by (auto simp: word_unat_eq_iff)
qed

lemma ucast_low_byte: "ucast (x AND 0xFF) = (ucast (x :: 16 word) :: 8 word)"
proof -
  have byte: "(0xFF :: 16 word) = mask 8" by (simp add: mask_eq_exp_minus_1)
  show ?thesis
    unfolding byte by (intro bit_word_eqI) (simp add: bit_simps)
qed

lemma embedded_v4_ucast: "embedded_v4 (ucast (drop_bit (k + 16) a)) (ucast (drop_bit k a)) = ucast (drop_bit k (a :: ipv6))"
proof (rule bit_word_eqI)
  fix n assume "n < LENGTH(32)"
  then consider "n < 8" | "8 \<le> n" "n < 16" | "16 \<le> n" "n < 24" | "24 \<le> n" "n < 32" by fastforce
  then show "bit (embedded_v4 (ucast (drop_bit (k + 16) a)) (ucast (drop_bit k a))) n = bit (ucast (drop_bit k a) :: ipv4) n"
    by cases (auto simp: embedded_v4_def ipv4_new_def ucast_low_byte bit_simps)
qed

lemma v6_networks:
  "in_net (ipv6_new [0xFE80, 0, 0, 0, 0, 0, 0, 0]) 10 a \<longleftrightarrow> segment a 0 AND 0xFFC0 = 0xFE80"
  "in_net (ipv6_new [0xFC00, 0, 0, 0, 0, 0, 0, 0]) 7 a \<longleftrightarrow> segment a 0 AND 0xFE00 = 0xFC00"
  "in_net (ipv6_new [0xFF00, 0, 0, 0, 0, 0, 0, 0]) 8 a \<longleftrightarrow> v6_is_multicast a"
proof -
  have masks: "(0xFFC0 :: 16 word) = NOT (mask 6)" "(0xFE00 :: 16 word) = NOT (mask 9)" "(0xFF00 :: 16 word) = NOT (mask 8)"
    by (simp_all add: mask_eq_exp_minus_1)
  have test: "segment a 0 AND NOT (mask k) = c \<longleftrightarrow> unat a div 2 ^ (112 + k) = unat c div 2 ^ k"
    if "push_bit k (drop_bit k c) = c" for k c
  proof -
    have "segment a 0 AND NOT (mask k) = c \<longleftrightarrow> drop_bit k (segment a 0) = drop_bit k c"
      by (rule mask_test [OF that])
    also have "\<dots> \<longleftrightarrow> unat a div 2 ^ 112 div 2 ^ k = unat c div 2 ^ k"
      unfolding word_unat_eq_iff unat_drop_bit_eq first_segment by (simp only: drop_bit_eq_div)
    finally show ?thesis by (simp only: power_add div_mult2_eq)
  qed
  show "in_net (ipv6_new [0xFE80, 0, 0, 0, 0, 0, 0, 0]) 10 a \<longleftrightarrow> segment a 0 AND 0xFFC0 = 0xFE80"
    unfolding masks by (subst test) (simp_all add: in_net_unat ipv6_new_def)
  show "in_net (ipv6_new [0xFC00, 0, 0, 0, 0, 0, 0, 0]) 7 a \<longleftrightarrow> segment a 0 AND 0xFE00 = 0xFC00"
    unfolding masks by (subst test) (simp_all add: in_net_unat ipv6_new_def)
  have "segment a 0 AND NOT (mask 8) = 0xFF00 \<longleftrightarrow> unat a div 2 ^ (112 + 8) = unat (0xFF00 :: 16 word) div 2 ^ 8"
    by (rule test) simp
  then show "in_net (ipv6_new [0xFF00, 0, 0, 0, 0, 0, 0, 0]) 8 a \<longleftrightarrow> v6_is_multicast a"
    unfolding v6_is_multicast_def masks(3) [symmetric] by (simp add: in_net_unat ipv6_new_def)
qed

lemma is_blocked_ipv6_internal: "is_blocked_ipv6 a \<longleftrightarrow> internal_v6 a"
proof -
  have carried: "embedded_v4 (segment a 6) (segment a 7) = ucast a" "embedded_v4 (segment a 1) (segment a 2) = ucast (drop_bit 80 a)"
    using embedded_v4_ucast [of 0 a] embedded_v4_ucast [of 80 a] by (simp_all add: segment_def)
  have zero: "internal_v6 0" and one: "internal_v6 1"
    by (simp_all add: internal_v6_def carried_v4_def in_net_def internal_v4_def internal_v4_networks_def ipv4_new_def)
  have "is_blocked_ipv6 a \<longleftrightarrow> a = 1 \<or> a = 0 \<or> internal_v6 a"
    unfolding is_blocked_ipv6_def carried is_blocked_ipv4_internal internal_v6_def internal_v6_networks_def carried_v4_def
      list_ex_iff list.set bex_simps prod.case segment_networks v6_networks
    by (simp only: option.case simp_thms split: if_split) argo
  then show ?thesis using zero one by blast
qed

section \<open>What an outbound request reaches\<close>

text \<open>The addresses a direct connection to a URL dials: the literal host, or what the resolver answers for
  a name.\<close>

definition dialled :: "(string \<Rightarrow> parsed_url option) \<Rightarrow> (string \<Rightarrow> ip_addr list option) \<Rightarrow> string \<Rightarrow> ip_addr set" where
  "dialled parse lookup raw =
     (if is_blocked_url parse raw then {}
      else case parse raw of
             None \<Rightarrow> {}
           | Some u \<Rightarrow>
               (case pu_host u of
                  None \<Rightarrow> {}
                | Some (Host_v4 a) \<Rightarrow> {V4 a}
                | Some (Host_v6 a) \<Rightarrow> {V6 a}
                | Some (Domain d) \<Rightarrow> (case ssrf_resolve lookup d of Inl _ \<Rightarrow> {} | Inr ips \<Rightarrow> set ips)))"

text \<open>The addresses a URL names, whether or not they may be reached.\<close>

definition named_addresses :: "(string \<Rightarrow> ip_addr list option) \<Rightarrow> parsed_url \<Rightarrow> ip_addr set" where
  "named_addresses lookup u =
     (case pu_host u of
        None \<Rightarrow> {}
      | Some (Host_v4 a) \<Rightarrow> {V4 a}
      | Some (Host_v6 a) \<Rightarrow> {V6 a}
      | Some (Domain d) \<Rightarrow> (case lookup d of None \<Rightarrow> {} | Some ips \<Rightarrow> set ips))"

lemma is_blocked_ip_internal: "is_blocked_ip ip \<longleftrightarrow> internal ip"
  by (simp add: is_blocked_ip_def internal_def is_blocked_ipv4_internal is_blocked_ipv6_internal split: ip_addr.split)


end
