(* ===== verification/Network_Fetch.thy ===== *)
theory Network_Fetch
  imports Net_Security Call_Context Streams
begin

text \<open>
  \<^verbatim>\<open>crates/wafer-core/src/interfaces/network/handler.rs\<close> and the HTTP service of
  \<^verbatim>\<open>crates/wafer-block-network/src/service.rs\<close>: an outbound request, its redirects and its response.

  Third-party code is a parameter of \<open>fetch_env\<close>: the \<^verbatim>\<open>url\<close> crate (parsed URLs are the type
  \<open>'u\<close>; two origins are compared by \<open>fe_same_origin\<close>, since opaque origins differ from
  themselves), \<^verbatim>\<open>reqwest\<close>'s methods and its exchange with the server (\<open>fe_exchange\<close>, which may answer
  differently every time), and the codec of wire requests and headers.  A hash map is an association list
  in some order.  Next to its result an operation returns the requests it issued, in order.
\<close>

section \<open>Requests and responses\<close>

record net_request =
  rq_method :: string
  rq_url :: string
  rq_headers :: "(string \<times> string) list"
  rq_body :: "bytes option"

record response_head =
  rh_status :: nat
  rh_headers :: "(string \<times> string list) list"

record net_response =
  rs_head :: response_head
  rs_body :: bytes

datatype network_error = RequestError msg_text | Other_error msg_text

text \<open>What the server answers: status, header fields in order (\<open>None\<close> for a value that is not visible
  ASCII), the advertised length, and the items of the body.\<close>

record exchange =
  ex_status :: nat
  ex_fields :: "(string \<times> string option) list"
  ex_content_length :: "nat option"
  ex_items :: "(string + bytes) list"

record 'u fetch_env =
  fe_parse :: "string \<Rightarrow> 'u option"
  fe_join :: "'u \<Rightarrow> string \<Rightarrow> 'u option"
  fe_print :: "'u \<Rightarrow> string"
  fe_same_origin :: "'u \<Rightarrow> 'u \<Rightarrow> bool"
  fe_host :: "'u \<Rightarrow> parsed_url"
  fe_method_fault :: "string \<Rightarrow> string option"
  fe_exchange :: "nat \<Rightarrow> net_request \<Rightarrow> string + exchange"
  fe_decode :: "bytes \<Rightarrow> string + net_request"
  fe_encode :: "response_head \<Rightarrow> wafer_error + bytes"
  fe_max_response_bytes :: nat
  fe_call :: call_env
  fe_ctx :: runtime_context

section \<open>The HTTP service\<close>

definition saturating_add :: "nat \<Rightarrow> nat \<Rightarrow> nat" where
  "saturating_add a b = min (a + b) u64_max"

definition blocked :: "'u fetch_env \<Rightarrow> string \<Rightarrow> bool" where
  "blocked env url = is_blocked_url (\<lambda>raw. map_option (fe_host env) (fe_parse env raw)) url"

definition send_request :: "'u fetch_env \<Rightarrow> nat \<Rightarrow> net_request \<Rightarrow> network_error + exchange" where
  "send_request env k req =
     (if blocked env (rq_url req) then
        Inl (RequestError (Text ''request to private/internal address is not allowed'' []))
      else case fe_method_fault env (rq_method req) of
             Some e \<Rightarrow> Inl (RequestError (Text ''invalid method: {e}'' [A_str e]))
           | None \<Rightarrow>
               (case fe_exchange env k req of
                  Inl e \<Rightarrow> Inl (RequestError (Text e []))
                | Inr ex \<Rightarrow> Inr ex))"

fun collect_headers :: "(string \<times> string option) list \<Rightarrow> (string \<times> string list) list \<Rightarrow> (string \<times> string list) list" where
  "collect_headers [] headers = headers"
| "collect_headers ((name, value) # rest) headers =
     collect_headers rest
       (let values = (case map_of headers name of None \<Rightarrow> [] | Some vs \<Rightarrow> vs)
        in AList.update name (values @ (case value of None \<Rightarrow> [] | Some v \<Rightarrow> [v])) headers)"

definition response_head_of :: "exchange \<Rightarrow> response_head" where
  "response_head_of ex = \<lparr>rh_status = ex_status ex, rh_headers = collect_headers (ex_fields ex) []\<rparr>"

definition check_advertised_len :: "exchange \<Rightarrow> nat \<Rightarrow> network_error + unit" where
  "check_advertised_len ex cap =
     (case ex_content_length ex of
        Some advertised \<Rightarrow>
          if advertised > cap
          then Inl (RequestError (Text ''response body {advertised} bytes exceeds cap of {cap} bytes'' [A_nat advertised, A_nat cap]))
          else Inr ()
      | None \<Rightarrow> Inr ())"

fun read_body :: "nat \<Rightarrow> bytes \<Rightarrow> (string + bytes) list \<Rightarrow> network_error + bytes" where
  "read_body cap body [] = Inr body"
| "read_body cap body (Inl e # items) = Inl (RequestError (Text ''reading body: {e}'' [A_str e]))"
| "read_body cap body (Inr chunk # items) =
     (if saturating_add (length body) (length chunk) > cap
      then Inl (RequestError (Text ''response body exceeds cap of {cap} bytes'' [A_nat cap]))
      else read_body cap (body @ chunk) items)"

definition do_request :: "'u fetch_env \<Rightarrow> nat \<Rightarrow> net_request \<Rightarrow> network_error + net_response" where
  "do_request env k req =
     and_then (send_request env k req) (\<lambda>ex.
     and_then (check_advertised_len ex (fe_max_response_bytes env)) (\<lambda>_.
     and_then (read_body (fe_max_response_bytes env) [] (ex_items ex)) (\<lambda>body.
       Inr \<lparr>rs_head = response_head_of ex, rs_body = body\<rparr>)))"

fun stream_capped :: "nat \<Rightarrow> nat \<Rightarrow> (string + bytes) list \<Rightarrow> output_stream" where
  "stream_capped cap received [] = [Complete []]"
| "stream_capped cap received (Inl e # items) = [Error (wafer_error_new Unavailable (Text ''reading body: {e}'' [A_str e]))]"
| "stream_capped cap received (Inr bs # items) =
     (let received' = saturating_add received (length bs) in
      if received' > cap
      then [Error (wafer_error_new Unavailable (Text ''response body exceeds cap of {cap} bytes'' [A_nat cap]))]
      else Chunk bs # stream_capped cap received' items)"

definition do_request_streaming :: "'u fetch_env \<Rightarrow> nat \<Rightarrow> net_request \<Rightarrow> network_error + (response_head \<times> output_stream)" where
  "do_request_streaming env k req =
     and_then (send_request env k req) (\<lambda>ex.
     and_then (check_advertised_len ex (fe_max_response_bytes env)) (\<lambda>_.
       Inr (response_head_of ex, stream_capped (fe_max_response_bytes env) 0 (ex_items ex))))"

section \<open>Redirects\<close>

definition MAX_REDIRECT_HOPS :: nat where "MAX_REDIRECT_HOPS = 10"

definition network_error_to_wafer :: "network_error \<Rightarrow> wafer_error" where
  "network_error_to_wafer e =
     (case e of RequestError msg \<Rightarrow> wafer_error_new Unavailable msg | Other_error msg \<Rightarrow> wafer_error_new Internal msg)"

definition CROSS_ORIGIN_STRIPPED_HEADERS :: "string list" where
  "CROSS_ORIGIN_STRIPPED_HEADERS = [''authorization'', ''proxy-authorization'', ''cookie'', ''cookie2'', ''www-authenticate'']"

definition BODY_HEADERS :: "string list" where
  "BODY_HEADERS = [''content-type'', ''content-length'', ''content-encoding'', ''transfer-encoding'']"

definition without_headers :: "string list \<Rightarrow> net_request \<Rightarrow> net_request" where
  "without_headers names req =
     req\<lparr>rq_headers := filter (\<lambda>(name, _). \<not> list_ex (eq_ignore_ascii_case name) names) (rq_headers req)\<rparr>"

definition locations :: "(string \<times> string list) list \<Rightarrow> string list" where
  "locations headers = concat (map snd (filter (\<lambda>(name, _). eq_ignore_ascii_case name ''location'') headers))"

definition rewrite_to_get :: "net_request \<Rightarrow> net_request" where
  "rewrite_to_get req =
     without_headers BODY_HEADERS
       (req\<lparr>rq_method := if \<not> eq_ignore_ascii_case (rq_method req) ''GET'' \<and> \<not> eq_ignore_ascii_case (rq_method req) ''HEAD''
                         then ''GET'' else rq_method req,
           rq_body := None\<rparr>)"

definition redirect_request :: "'u fetch_env \<Rightarrow> net_request \<Rightarrow> response_head \<Rightarrow> net_request option" where
  "redirect_request env prev head =
     (if rh_status head \<notin> {301, 302, 303, 307, 308} then None
      else case locations (rh_headers head) of
             [location] \<Rightarrow>
               (case fe_parse env (rq_url prev) of None \<Rightarrow> None | Some prev_url \<Rightarrow>
               (case fe_join env prev_url location of None \<Rightarrow> None | Some next_url \<Rightarrow>
                  (let nxt = prev\<lparr>rq_url := fe_print env next_url\<rparr>;
                       nxt = (if rh_status head \<in> {301, 302, 303} then rewrite_to_get nxt else nxt)
                   in Some (if \<not> fe_same_origin env next_url prev_url
                            then without_headers CROSS_ORIGIN_STRIPPED_HEADERS nxt else nxt))))
           | _ \<Rightarrow> None)"

definition authorize_url :: "'u fetch_env \<Rightarrow> string \<Rightarrow> wafer_error + unit" where
  "authorize_url env url = authorize_resource (fe_call env) (fe_ctx env) url Network Read"

definition authorize_hop :: "'u fetch_env \<Rightarrow> net_request \<Rightarrow> nat \<Rightarrow> wafer_error + unit" where
  "authorize_hop env nxt hops =
     (if hops \<ge> MAX_REDIRECT_HOPS
      then Inl (wafer_error_new Unavailable (Text ''too many redirects (limit {MAX_REDIRECT_HOPS})'' [A_nat MAX_REDIRECT_HOPS]))
      else authorize_url env (rq_url nxt))"

text \<open>The loop shared by \<^verbatim>\<open>follow_buffered\<close> and \<^verbatim>\<open>do_request_streaming_following\<close>; \<open>hops\<close> is also the
  number of the service call.\<close>

function follow :: "'u fetch_env \<Rightarrow> (nat \<Rightarrow> net_request \<Rightarrow> network_error + 'r) \<Rightarrow> ('r \<Rightarrow> response_head) \<Rightarrow> nat \<Rightarrow> net_request
    \<Rightarrow> net_request list \<times> (wafer_error + 'r)" where
  "follow env service head_of hops request =
     (case service hops request of
        Inl e \<Rightarrow> ([request], Inl (network_error_to_wafer e))
      | Inr resp \<Rightarrow>
          (case redirect_request env request (head_of resp) of
             None \<Rightarrow> ([request], Inr resp)
           | Some nxt \<Rightarrow>
               (case authorize_hop env nxt hops of
                  Inl e \<Rightarrow> ([request], Inl e)
                | Inr _ \<Rightarrow>
                    (case follow env service head_of (hops + 1) nxt of (issued, result) \<Rightarrow> (request # issued, result)))))"
  by pat_completeness auto
termination
  by (relation "measure (\<lambda>(env, service, head_of, hops, request). MAX_REDIRECT_HOPS - hops)")
     (auto simp: authorize_hop_def split: if_splits)

declare follow.simps [simp del]

definition follow_buffered :: "'u fetch_env \<Rightarrow> net_request \<Rightarrow> net_request list \<times> (wafer_error + net_response)" where
  "follow_buffered env request = follow env (do_request env) rs_head 0 request"

text \<open>\<open>deadline_at\<close> is the service call in progress when the deadline of the whole chain passes, if it does.\<close>

definition do_request_following :: "'u fetch_env \<Rightarrow> nat option \<Rightarrow> net_request \<Rightarrow> net_request list \<times> (wafer_error + net_response)" where
  "do_request_following env deadline_at request =
     (case follow_buffered env request of (issued, result) \<Rightarrow>
        (case deadline_at of
           Some k \<Rightarrow>
             if k < length issued
             then (take (k + 1) issued,
                   Inl (wafer_error_new Unavailable (Text ''request timed out (the total covers every redirect hop)'' [])))
             else (issued, result)
         | None \<Rightarrow> (issued, result)))"

definition do_request_streaming_following :: "'u fetch_env \<Rightarrow> net_request
    \<Rightarrow> net_request list \<times> (wafer_error + (response_head \<times> output_stream))" where
  "do_request_streaming_following env request = follow env (do_request_streaming env) fst 0 request"

section \<open>The handler\<close>

definition NETWORK_DO_REQUEST :: string where "NETWORK_DO_REQUEST = ''network.do''"
definition NETWORK_DO_REQUEST_STREAMING :: string where "NETWORK_DO_REQUEST_STREAMING = ''network.do_streaming''"

definition raw_frames_marker :: meta_entry where
  "raw_frames_marker = \<lparr>me_key = ''frame.encoding'', me_value = ''raw''\<rparr>"

fun forward_body :: "string \<Rightarrow> output_stream \<Rightarrow> output_stream" where
  "forward_body label [] =
     [Error (wafer_error_new Internal (Text ''{context}: body stream ended without a terminal event'' [A_str label]))]"
| "forward_body label (Chunk bs # body) = Chunk bs # forward_body label body"
| "forward_body label (Meta e # body) = Meta e # forward_body label body"
| "forward_body label (Complete meta # body) = [Complete meta]"
| "forward_body label (Error e # body) = [Error e]"
| "forward_body label (_ # body) =
     [Error (wafer_error_new Internal (Text ''{context}: body producer emitted a non-body terminal after the header frame'' [A_str label]))]"

definition stream_with_header :: "'u fetch_env \<Rightarrow> response_head \<Rightarrow> output_stream \<Rightarrow> string \<Rightarrow> output_stream" where
  "stream_with_header env header body label =
     (case fe_encode env header of
        Inl e \<Rightarrow> [Error (wafer_error_new Internal (Text ''{context}: encoding header frame: {}'' [A_str label]))]
      | Inr bs \<Rightarrow> Chunk bs # Meta raw_frames_marker # forward_body label body)"

definition two_frames :: "'u fetch_env \<Rightarrow> net_response \<Rightarrow> output_stream" where
  "two_frames env resp =
     (case fe_encode env (rs_head resp) of
        Inl e \<Rightarrow> [Error (wafer_error_new Internal (Text ''encoding network response header: {e}'' []))]
      | Inr bs \<Rightarrow> Chunk bs # Meta raw_frames_marker # (if rs_body resp = [] then [] else [Chunk (rs_body resp)]) @ [Complete []])"

definition decode_and_authorize :: "'u fetch_env \<Rightarrow> bytes \<Rightarrow> string \<Rightarrow> wafer_error + net_request" where
  "decode_and_authorize env body op_name =
     (case fe_decode env body of
        Inl e \<Rightarrow> Inl (wafer_error_new InvalidArgument (Text ''invalid {op_name} request: {e}'' [A_str op_name, A_str e]))
      | Inr req \<Rightarrow> and_then (authorize_url env (rq_url req)) (\<lambda>_. Inr req))"

definition handle_message :: "'u fetch_env \<Rightarrow> nat option \<Rightarrow> message \<Rightarrow> bytes \<Rightarrow> net_request list \<times> output_stream" where
  "handle_message env deadline_at msg body =
     (if msg_kind msg = NETWORK_DO_REQUEST then
        (case decode_and_authorize env body ''network.do'' of
           Inl e \<Rightarrow> ([], out_error e)
         | Inr request \<Rightarrow>
             (case do_request_following env deadline_at request of
                (issued, Inl e) \<Rightarrow> (issued, out_error e)
              | (issued, Inr resp) \<Rightarrow> (issued, two_frames env resp)))
      else if msg_kind msg = NETWORK_DO_REQUEST_STREAMING then
        (case decode_and_authorize env body ''network.do_streaming'' of
           Inl e \<Rightarrow> ([], out_error e)
         | Inr request \<Rightarrow>
             (case do_request_streaming_following env request of
                (issued, Inl e) \<Rightarrow> (issued, out_error e)
              | (issued, Inr (head, stream)) \<Rightarrow> (issued, stream_with_header env head stream ''network.do_streaming'')))
      else ([], out_error (wafer_error_new Unimplemented (Text ''unknown network operation: {other}'' [A_str (msg_kind msg)]))))"

section \<open>Redirect chains\<close>

definition credential_free :: "net_request \<Rightarrow> bool" where
  "credential_free req \<longleftrightarrow>
     (\<forall>(name, value) \<in> set (rq_headers req). \<not> list_ex (eq_ignore_ascii_case name) CROSS_ORIGIN_STRIPPED_HEADERS)"

definition crosses :: "'u fetch_env \<Rightarrow> net_request \<Rightarrow> net_request \<Rightarrow> bool" where
  "crosses env r r' \<longleftrightarrow>
     (case (fe_parse env (rq_url r), fe_parse env (rq_url r')) of
        (Some u, Some v) \<Rightarrow> \<not> fe_same_origin env v u
      | _ \<Rightarrow> True)"

text \<open>One request of a chain and its successor.\<close>

lemma redirect_request_next:
  assumes next_req: "redirect_request env r head = Some r'" and reparse: "\<And>u. fe_parse env (fe_print env u) = Some u"
  shows "set (rq_headers r') \<subseteq> set (rq_headers r)" and "crosses env r r' \<Longrightarrow> credential_free r'"
proof -
  obtain location u v where uv: "fe_parse env (rq_url r) = Some u" "fe_join env u location = Some v"
      and r': "r' = (if \<not> fe_same_origin env v u then without_headers CROSS_ORIGIN_STRIPPED_HEADERS else id)
                      ((if rh_status head \<in> {301, 302, 303} then rewrite_to_get else id) (r\<lparr>rq_url := fe_print env v\<rparr>))"
    using next_req by (auto simp: redirect_request_def Let_def split: if_splits list.splits option.splits)
  show "set (rq_headers r') \<subseteq> set (rq_headers r)"
    by (auto simp: r' without_headers_def rewrite_to_get_def)
  have "rq_url r' = fe_print env v" by (simp add: r' without_headers_def rewrite_to_get_def)
  then show "credential_free r'" if "crosses env r r'"
    using that uv by (auto simp: crosses_def reparse r' without_headers_def credential_free_def)
qed

lemma credential_free_mono: "credential_free r \<Longrightarrow> set (rq_headers r') \<subseteq> set (rq_headers r) \<Longrightarrow> credential_free r'"
  by (auto simp: credential_free_def)

text \<open>A chain: each request is a redirect of the one before, and all but the first were authorized.\<close>

inductive chain :: "'u fetch_env \<Rightarrow> net_request list \<Rightarrow> bool" for env where
  single: "chain env [r]"
| redirected: "redirect_request env r head = Some r' \<Longrightarrow> authorize_url env (rq_url r') = Inr () \<Longrightarrow> chain env (r' # rs)
    \<Longrightarrow> chain env (r # r' # rs)"

lemma follow_chain:
  "follow env service head_of hops r = (issued, result) \<Longrightarrow>
     chain env issued \<and> hd issued = r \<and> length issued \<le> MAX_REDIRECT_HOPS + 1 - min hops MAX_REDIRECT_HOPS"
proof (induction env service head_of hops r arbitrary: issued result rule: follow.induct)
  case (1 env service head_of hops r)
  show ?case
  proof (cases "\<exists>resp r'. service hops r = Inr resp \<and> redirect_request env r (head_of resp) = Some r' \<and> authorize_hop env r' hops = Inr ()")
    case False
    then have "issued = [r]"
      using "1.prems" by (subst (asm) follow.simps) (auto split: sum.splits option.splits)
    then show ?thesis by (simp add: chain.single)
  next
    case True
    then obtain resp r' where step: "service hops r = Inr resp" "redirect_request env r (head_of resp) = Some r'"
        "authorize_hop env r' hops = Inr ()" by blast
    obtain rest where rest: "issued = r # rest" "follow env service head_of (hops + 1) r' = (rest, result)"
      using "1.prems" step by (subst (asm) follow.simps) (auto split: prod.splits)
    have hop: "hops < MAX_REDIRECT_HOPS" "authorize_url env (rq_url r') = Inr ()"
      using step(3) by (auto simp: authorize_hop_def split: if_splits)
    have "chain env rest \<and> hd rest = r' \<and> length rest \<le> MAX_REDIRECT_HOPS + 1 - min (hops + 1) MAX_REDIRECT_HOPS"
      using "1.IH" [OF step rest(2)] by simp
    then show ?thesis
      using rest(1) hop step(2) by (cases rest) (auto intro: chain.redirected elim: chain.cases)
  qed
qed


text \<open>The requests of a chain by position, so that a prefix of a chain is as good.\<close>

definition redirects :: "'u fetch_env \<Rightarrow> net_request list \<Rightarrow> bool" where
  "redirects env rs \<longleftrightarrow>
     (\<forall>i. Suc i < length rs \<longrightarrow>
        (\<exists>head. redirect_request env (rs ! i) head = Some (rs ! Suc i)) \<and> authorize_url env (rq_url (rs ! Suc i)) = Inr ())"

lemma chain_redirects: "chain env rs \<Longrightarrow> redirects env rs"
proof (induction rule: chain.induct)
  case (redirected r head r' rs)
  have "(\<exists>h. redirect_request env ((r # r' # rs) ! i) h = Some ((r # r' # rs) ! Suc i))
      \<and> authorize_url env (rq_url ((r # r' # rs) ! Suc i)) = Inr ()" if "Suc i < length (r # r' # rs)" for i
    using redirected that by (cases i) (auto simp: redirects_def)
  then show ?case by (simp add: redirects_def)
qed (simp add: redirects_def)

lemma redirects_take: "redirects env rs \<Longrightarrow> redirects env (take n rs)"
  by (simp add: redirects_def)

lemma redirects_headers:
  assumes "redirects env rs" and "\<And>u. fe_parse env (fe_print env u) = Some u" and "i \<le> j" and "j < length rs"
  shows "set (rq_headers (rs ! j)) \<subseteq> set (rq_headers (rs ! i))"
  using assms(3,4)
proof (induction j rule: dec_induct)
  case (step n)
  then have "set (rq_headers (rs ! Suc n)) \<subseteq> set (rq_headers (rs ! n))"
    using assms(1,2) redirect_request_next(1) unfolding redirects_def by blast
  with step show ?case by simp
qed simp

lemma redirects_credentials:
  assumes "redirects env rs" and reparse: "\<And>u. fe_parse env (fe_print env u) = Some u"
    and "i < j" and "j < length rs" and "crosses env (rs ! i) (rs ! Suc i)"
  shows "credential_free (rs ! j)"
proof -
  have "credential_free (rs ! Suc i)"
    using assms redirect_request_next(2) [OF _ reparse] unfolding redirects_def by (meson Suc_leI le_less_trans)
  moreover have "set (rq_headers (rs ! j)) \<subseteq> set (rq_headers (rs ! Suc i))"
    using assms by (intro redirects_headers) auto
  ultimately show ?thesis by (rule credential_free_mono)
qed

section \<open>Sizes of responses\<close>

lemma read_body_bound: "read_body cap body items = Inr b \<Longrightarrow> length body \<le> cap \<Longrightarrow> cap < u64_max \<Longrightarrow> length b \<le> cap"
  by (induction cap body items rule: read_body.induct) (auto simp: saturating_add_def split: if_splits)

lemma stream_capped_bound:
  "cap < u64_max \<Longrightarrow> received \<le> cap \<Longrightarrow> received + length (chunk_bytes (stream_capped cap received items)) \<le> cap"
  by (induction cap received items rule: stream_capped.induct)
     (fastforce simp: saturating_add_def Let_def split: if_splits)+

lemma forward_capped: "forward_body label (stream_capped cap received items) = stream_capped cap received items"
  by (induction cap received items rule: stream_capped.induct) (simp_all add: Let_def)

lemma follow_result: "follow env service head_of hops r = (issued, Inr resp) \<Longrightarrow> \<exists>k r. service k r = Inr resp"
proof (induction env service head_of hops r arbitrary: issued rule: follow.induct)
  case (1 env service head_of hops r)
  show ?case
    using "1.prems" by (subst (asm) follow.simps) (auto split: sum.splits option.splits prod.splits dest: "1.IH")
qed

lemma service_bounds:
  assumes "fe_max_response_bytes env < u64_max"
  shows "do_request env k r = Inr resp \<Longrightarrow> length (rs_body resp) \<le> fe_max_response_bytes env"
    and "do_request_streaming env k r = Inr (head, stream) \<Longrightarrow> forward_body label stream = stream
      \<and> length (chunk_bytes stream) \<le> fe_max_response_bytes env"
  using assms read_body_bound [of "fe_max_response_bytes env" "[]"] stream_capped_bound [of "fe_max_response_bytes env" 0]
  by (auto simp: do_request_def do_request_streaming_def and_then_eq_Inr forward_capped)

section \<open>What a fetch may do\<close>

lemma decode_and_authorize_Inr: "decode_and_authorize env body op = Inr r \<Longrightarrow> authorize_url env (rq_url r) = Inr ()"
  by (auto simp: decode_and_authorize_def and_then_eq_Inr split: sum.splits)

lemma do_request_following_prefix:
  assumes "do_request_following env d r = (issued, result)"
  obtains n all res where "follow_buffered env r = (all, res)" "issued = take n all" "\<And>resp. result = Inr resp \<Longrightarrow> res = Inr resp"
proof -
  obtain all res where all: "follow_buffered env r = (all, res)" by fastforce
  have "\<exists>n. issued = take n all" "\<And>resp. result = Inr resp \<Longrightarrow> res = Inr resp"
    using assms all by (auto simp: do_request_following_def split: option.splits if_splits intro: exI [of _ "length all"])
  with all that show ?thesis by metis
qed

text \<open>A handled message issues nothing, or a prefix of the chain of an authorized request.\<close>

lemma handle_message_buffered:
  assumes "handle_message env d msg body = (issued, out)" and "msg_kind msg = NETWORK_DO_REQUEST" and "issued \<noteq> []"
  shows "\<exists>r result. authorize_url env (rq_url r) = Inr () \<and> do_request_following env d r = (issued, result)
     \<and> out = (case result of Inl e \<Rightarrow> out_error e | Inr resp \<Rightarrow> two_frames env resp)"
  using assms by (auto simp: handle_message_def split: sum.splits prod.splits dest!: decode_and_authorize_Inr)

lemma handle_message_streaming:
  assumes "handle_message env d msg body = (issued, out)" and "msg_kind msg \<noteq> NETWORK_DO_REQUEST" and "issued \<noteq> []"
  shows "\<exists>r result. authorize_url env (rq_url r) = Inr () \<and> do_request_streaming_following env r = (issued, result)
     \<and> out = (case result of Inl e \<Rightarrow> out_error e
              | Inr (head, stream) \<Rightarrow> stream_with_header env head stream ''network.do_streaming'')"
  using assms
  by (auto simp: handle_message_def split: if_splits sum.splits prod.splits dest!: decode_and_authorize_Inr)

lemma follow_issues: "fst (follow env service head_of hops r) \<noteq> []"
  using follow_chain [of env service head_of hops r] by (cases "follow env service head_of hops r") (auto elim: chain.cases)

lemma following_issues: "fst (do_request_following env d r) \<noteq> []" "fst (do_request_streaming_following env r) \<noteq> []"
  using follow_issues [of env "do_request env" rs_head 0 r] follow_issues [of env "do_request_streaming env" fst 0 r]
  by (auto simp: do_request_following_def do_request_streaming_following_def follow_buffered_def split: prod.splits option.splits)

lemma handle_message_nothing: "handle_message env d msg body = ([], out) \<Longrightarrow> \<exists>e. out = out_error e"
  using following_issues(1) [of env d] following_issues(2) [of env]
  by (auto simp: handle_message_def split: if_splits sum.splits prod.splits) (metis fst_conv)+

lemma issued_requests:
  assumes "handle_message env d msg body = (issued, out)"
  shows "length issued \<le> MAX_REDIRECT_HOPS + 1" and "redirects env issued"
    and "issued \<noteq> [] \<Longrightarrow> authorize_url env (rq_url (issued ! 0)) = Inr ()"
proof -
  have "length issued \<le> MAX_REDIRECT_HOPS + 1 \<and> redirects env issued
      \<and> authorize_url env (rq_url (issued ! 0)) = Inr ()" if "issued \<noteq> []"
  proof (cases "msg_kind msg = NETWORK_DO_REQUEST")
    case True
    from handle_message_buffered [OF assms this that] obtain r result
      where r: "authorize_url env (rq_url r) = Inr ()" "do_request_following env d r = (issued, result)" by blast
    from do_request_following_prefix [OF r(2)] obtain n all res
      where all: "follow_buffered env r = (all, res)" "issued = take n all" by blast
    have "chain env all \<and> hd all = r \<and> length all \<le> MAX_REDIRECT_HOPS + 1"
      using follow_chain [of env "do_request env" rs_head 0 r] all(1) by (simp add: follow_buffered_def)
    then show ?thesis
      using r(1) that all(2) by (auto simp: redirects_take chain_redirects hd_conv_nth [symmetric] hd_take)
  next
    case False
    from handle_message_streaming [OF assms this that] obtain r result
      where r: "authorize_url env (rq_url r) = Inr ()" "do_request_streaming_following env r = (issued, result)" by blast
    then have "chain env issued \<and> hd issued = r \<and> length issued \<le> MAX_REDIRECT_HOPS + 1"
      using follow_chain [of env "do_request_streaming env" fst 0 r] by (simp add: do_request_streaming_following_def)
    then show ?thesis
      using r(1) that by (auto simp: chain_redirects hd_conv_nth [symmetric])
  qed
  then show "length issued \<le> MAX_REDIRECT_HOPS + 1" "redirects env issued"
    "issued \<noteq> [] \<Longrightarrow> authorize_url env (rq_url (issued ! 0)) = Inr ()"
    by (cases "issued = []"; simp add: redirects_def)+
qed

lemma response_bound:
  assumes handled: "handle_message env d msg body = (issued, Chunk h # Meta m # rest)"
    and cap: "fe_max_response_bytes env < u64_max"
  shows "length (chunk_bytes rest) \<le> fe_max_response_bytes env"
proof -
  have some: "issued \<noteq> []"
    using handled handle_message_nothing [of env d msg body "Chunk h # Meta m # rest"] by (auto simp: out_error_def)
  show ?thesis
  proof (cases "msg_kind msg = NETWORK_DO_REQUEST")
    case True
    from handle_message_buffered [OF handled this some] obtain r result
      where res: "do_request_following env d r = (issued, result)"
        "Chunk h # Meta m # rest = (case result of Inl e \<Rightarrow> out_error e | Inr resp \<Rightarrow> two_frames env resp)"
      by blast
    then obtain resp where r: "do_request_following env d r = (issued, Inr resp)" "Chunk h # Meta m # rest = two_frames env resp"
      by (cases result) (auto simp: out_error_def)
    from do_request_following_prefix [OF r(1)] obtain all where "follow env (do_request env) rs_head 0 r = (all, Inr resp)"
      unfolding follow_buffered_def by metis
    from follow_result [OF this] have "length (rs_body resp) \<le> fe_max_response_bytes env"
      using service_bounds(1) [OF cap] by blast
    then show ?thesis using r(2) by (auto simp: two_frames_def split: sum.splits if_splits)
  next
    case False
    from handle_message_streaming [OF handled this some] obtain r result
      where res: "do_request_streaming_following env r = (issued, result)"
        "Chunk h # Meta m # rest = (case result of Inl e \<Rightarrow> out_error e
              | Inr (head, stream) \<Rightarrow> stream_with_header env head stream ''network.do_streaming'')"
      by blast
    then obtain head stream where r: "do_request_streaming_following env r = (issued, Inr (head, stream))"
        "Chunk h # Meta m # rest = stream_with_header env head stream ''network.do_streaming''"
      by (cases result) (auto simp: out_error_def split: prod.splits)
    from follow_result [OF r(1) [unfolded do_request_streaming_following_def]]
    have "forward_body ''network.do_streaming'' stream = stream \<and> length (chunk_bytes stream) \<le> fe_max_response_bytes env"
      using service_bounds(2) [OF cap] by blast
    then show ?thesis using r(2) by (auto simp: stream_with_header_def split: sum.splits)
  qed
qed

text \<open>C23: Redirects are followed within the caller's grant.  At most eleven requests are issued for a message;
  each URL was authorized for the calling block before it was issued, the targets of redirects
  included; a redirect adds no header, and once one leaves the origin no later request of the
  chain carries a credential, even back at the first origin; and the body delivered is within the
  response cap.\<close>

theorem redirects_stay_within_the_grant:
  assumes "handle_message env deadline_at msg body = (issued, out)"
    and "\<And>u. fe_parse env (fe_print env u) = Some u"
    and "fe_max_response_bytes env < u64_max"
  shows "length issued \<le> MAX_REDIRECT_HOPS + 1
    \<and> (\<forall>r \<in> set issued. authorize_resource (fe_call env) (fe_ctx env) (rq_url r) Network Read = Inr ())
    \<and> (\<forall>r \<in> set issued. set (rq_headers r) \<subseteq> set (rq_headers (issued ! 0)))
    \<and> (\<forall>i j. i < j \<and> j < length issued \<and> crosses env (issued ! i) (issued ! Suc i) \<longrightarrow> credential_free (issued ! j))
    \<and> (\<forall>h rest. out = Chunk h # Meta raw_frames_marker # rest \<longrightarrow> length (chunk_bytes rest) \<le> fe_max_response_bytes env)"
proof -
  note facts = issued_requests [OF assms(1)]
  have "authorize_url env (rq_url r) = Inr ()" if "r \<in> set issued" for r
  proof -
    obtain i where i: "i < length issued" "r = issued ! i" using \<open>r \<in> set issued\<close> by (auto simp: in_set_conv_nth)
    show ?thesis using facts i by (cases i) (auto simp: redirects_def)
  qed
  moreover have "set (rq_headers r) \<subseteq> set (rq_headers (issued ! 0))" if "r \<in> set issued" for r
    using that redirects_headers [OF facts(2) assms(2)] by (auto simp: in_set_conv_nth)
  ultimately show ?thesis
    using facts(1) redirects_credentials [OF facts(2) assms(2)] response_bound [OF _ assms(3)] assms(1)
    unfolding authorize_url_def by blast
qed

text \<open>A redirect to another origin, followed without the credential.\<close>

definition sample_request :: net_request where
  "sample_request =
     \<lparr>rq_method = ''GET'', rq_url = ''a.example/x'', rq_headers = [(''Authorization'', ''secret''), (''Accept'', ''*/*'')], rq_body = None\<rparr>"

definition sample_fetch_env :: "string fetch_env" where
  "sample_fetch_env =
     \<lparr>fe_parse = Some, fe_join = \<lambda>_ location. Some location, fe_print = id,
      fe_same_origin = \<lambda>u v. hd u = hd v,
      fe_host = \<lambda>u. \<lparr>pu_scheme = ''https'', pu_host = Some (Domain u)\<rparr>,
      fe_method_fault = \<lambda>_. None,
      fe_exchange = \<lambda>k _.
        Inr (if k = 0 then \<lparr>ex_status = 302, ex_fields = [(''location'', Some ''b.example/y'')], ex_content_length = None, ex_items = []\<rparr>
             else \<lparr>ex_status = 200, ex_fields = [], ex_content_length = None, ex_items = [Inr ''hi'']\<rparr>),
      fe_decode = \<lambda>_. Inr sample_request,
      fe_encode = \<lambda>_. Inr ''head'',
      fe_max_response_bytes = 100,
      fe_call = sample_call_env
        \<lparr>cv_registration := (cv_registration sample_call_env)\<lparr>rc_wrap := wrap_state_new\<lparr>ws_admin_block := ''my-org/auth''\<rparr>\<rparr>\<rparr>,
      fe_ctx = sample_callee\<rparr>"

lemma sample_fetch:
  "handle_message sample_fetch_env None \<lparr>msg_kind = ''network.do'', msg_meta = []\<rparr> [] =
     ([sample_request, sample_request\<lparr>rq_url := ''b.example/y'', rq_headers := [(''Accept'', ''*/*'')]\<rparr>],
      [Chunk ''head'', Meta raw_frames_marker, Chunk ''hi'', Complete []])"
proof -
  have granted: "authorize_url sample_fetch_env url = Inr ()" for url
    by (simp add: authorize_url_def authorize_resource_Inr sample_fetch_env_def sample_callee_def check_Inr
        sample_call_env_def Let_def wrap_state_new_def)
  have open_url: "\<not> blocked sample_fetch_env ''a.example/x''" "\<not> blocked sample_fetch_env ''b.example/y''"
    by (simp_all add: blocked_def is_blocked_url_def sample_fetch_env_def) code_simp+
  let ?fetched = "sample_request\<lparr>rq_url := ''b.example/y'', rq_headers := [(''Accept'', ''*/*'')]\<rparr>"
  have first: "do_request sample_fetch_env 0 sample_request =
      Inr \<lparr>rs_head = \<lparr>rh_status = 302, rh_headers = [(''location'', [''b.example/y''])]\<rparr>, rs_body = []\<rparr>"
    using open_url by (simp add: do_request_def send_request_def sample_request_def)
      (simp add: sample_fetch_env_def check_advertised_len_def response_head_of_def)
  have second: "do_request sample_fetch_env 1 ?fetched =
      Inr \<lparr>rs_head = \<lparr>rh_status = 200, rh_headers = []\<rparr>, rs_body = ''hi''\<rparr>"
    using open_url by (simp add: do_request_def send_request_def sample_request_def)
      (simp add: sample_fetch_env_def check_advertised_len_def response_head_of_def saturating_add_def u64_max_def)
  have redirect: "redirect_request sample_fetch_env sample_request \<lparr>rh_status = 302, rh_headers = [(''location'', [''b.example/y''])]\<rparr> = Some ?fetched"
    by code_simp
  have "follow sample_fetch_env (do_request sample_fetch_env) rs_head 1 ?fetched =
      ([?fetched], Inr \<lparr>rs_head = \<lparr>rh_status = 200, rh_headers = []\<rparr>, rs_body = ''hi''\<rparr>)"
    using second by (subst follow.simps) (simp add: redirect_request_def)
  then have "follow_buffered sample_fetch_env sample_request =
      ([sample_request, ?fetched], Inr \<lparr>rs_head = \<lparr>rh_status = 200, rh_headers = []\<rparr>, rs_body = ''hi''\<rparr>)"
    unfolding follow_buffered_def
    by (subst follow.simps) (simp add: first redirect authorize_hop_def granted MAX_REDIRECT_HOPS_def)
  moreover have "fe_decode sample_fetch_env bs = Inr sample_request" "fe_encode sample_fetch_env head = Inr ''head''" for bs head
    by (simp_all add: sample_fetch_env_def)
  ultimately show ?thesis
    using granted by (simp add: handle_message_def NETWORK_DO_REQUEST_def decode_and_authorize_def do_request_following_def two_frames_def)
qed

theorem redirects_stay_within_the_grant_witness:
  "let fetched = sample_request\<lparr>rq_url := ''b.example/y'', rq_headers := [(''Accept'', ''*/*'')]\<rparr> in
   handle_message sample_fetch_env None \<lparr>msg_kind = ''network.do'', msg_meta = []\<rparr> [] =
     ([sample_request, fetched], [Chunk ''head'', Meta raw_frames_marker, Chunk ''hi'', Complete []])
   \<and> crosses sample_fetch_env sample_request fetched \<and> credential_free fetched"
proof -
  have reparse: "fe_parse sample_fetch_env (fe_print sample_fetch_env u) = Some u" for u
    by (simp add: sample_fetch_env_def)
  have cap: "fe_max_response_bytes sample_fetch_env < u64_max"
    by (simp add: sample_fetch_env_def u64_max_def)
  let ?fetched = "sample_request\<lparr>rq_url := ''b.example/y'', rq_headers := [(''Accept'', ''*/*'')]\<rparr>"
  have crossing: "crosses sample_fetch_env sample_request ?fetched"
    by (simp add: crosses_def sample_fetch_env_def sample_request_def)
  have "\<forall>i j. i < j \<and> j < length [sample_request, ?fetched]
      \<and> crosses sample_fetch_env ([sample_request, ?fetched] ! i) ([sample_request, ?fetched] ! Suc i)
      \<longrightarrow> credential_free ([sample_request, ?fetched] ! j)"
    using redirects_stay_within_the_grant [OF sample_fetch reparse cap] by blast
  from this [rule_format, of 0 1] have "credential_free ?fetched" using crossing by simp
  then show ?thesis using sample_fetch crossing by (simp add: Let_def)
qed

section \<open>Which servers are contacted\<close>

lemma exchange_irrelevant [simp]:
  "redirect_request (env\<lparr>fe_exchange := x\<rparr>) = redirect_request env"
  "authorize_url (env\<lparr>fe_exchange := x\<rparr>) = authorize_url env"
  "authorize_hop (env\<lparr>fe_exchange := x\<rparr>) = authorize_hop env"
  "decode_and_authorize (env\<lparr>fe_exchange := x\<rparr>) = decode_and_authorize env"
  "two_frames (env\<lparr>fe_exchange := x\<rparr>) = two_frames env"
  "stream_with_header (env\<lparr>fe_exchange := x\<rparr>) = stream_with_header env"
  "blocked (env\<lparr>fe_exchange := x\<rparr>) = blocked env"
  by (simp_all add: fun_eq_iff redirect_request_def authorize_url_def authorize_hop_def decode_and_authorize_def
      two_frames_def stream_with_header_def blocked_def
      cong: option.case_cong list.case_cong sum.case_cong)

lemma follow_agrees:
  assumes services: "\<And>k r. authorize_url env (rq_url r) = Inr () \<Longrightarrow> s k r = s' k r"
  shows "authorize_url env (rq_url r) = Inr () \<Longrightarrow>
     follow (env\<lparr>fe_exchange := x\<rparr>) s head_of hops r = follow (env\<lparr>fe_exchange := x'\<rparr>) s' head_of hops r"
proof (induction "MAX_REDIRECT_HOPS - hops" arbitrary: hops r rule: less_induct)
  case less
  have "follow (env\<lparr>fe_exchange := x\<rparr>) s head_of (hops + 1) r' = follow (env\<lparr>fe_exchange := x'\<rparr>) s' head_of (hops + 1) r'"
    if "authorize_hop env r' hops = Inr ()" for r'
    using less(1) [of "hops + 1" r'] that by (auto simp: authorize_hop_def split: if_splits)
  then show ?case
    using services [OF less(2), of hops]
    by (subst (1 2) follow.simps) (auto split: sum.split option.split)
qed

lemma send_request_agrees:
  assumes "\<And>k r. authorize_url env (rq_url r) = Inr () \<Longrightarrow> \<not> blocked env (rq_url r) \<Longrightarrow> x k r = x' k r"
    and "authorize_url env (rq_url r) = Inr ()"
  shows "send_request (env\<lparr>fe_exchange := x\<rparr>) k r = send_request (env\<lparr>fe_exchange := x'\<rparr>) k r"
  using assms by (cases "blocked env (rq_url r)") (auto simp: send_request_def split: option.split)



end
