(* ===== verification/Rate_Limit.thy ===== *)
theory Rate_Limit
  imports Ip_Addr Flow_Plan Streams Call_Context Transitions "HOL-Library.Product_Lexorder"
begin

text \<open>
  \<^verbatim>\<open>crates/wafer-block-ip-rate-limit/src/lib.rs\<close>: fixed-window rate limiting per client network.

  A shard's hash map is an association list with distinct keys; the order of its entries decides
  nothing, because eviction sorts.  The hash of a client is the parameter \<open>hash\<close>, instants and
  durations are nanoseconds, and every operation on a shard is one step under its lock.
\<close>

section \<open>Settings\<close>

definition DEFAULT_MAX_REQUESTS :: nat where "DEFAULT_MAX_REQUESTS = 1000"
definition DEFAULT_WINDOW_SECONDS :: nat where "DEFAULT_WINDOW_SECONDS = 60"
definition DEFAULT_IPV6_PREFIX :: nat where "DEFAULT_IPV6_PREFIX = 64"

record limits =
  lm_max_requests :: "32 word"
  lm_window :: nat
  lm_ipv6_prefix :: nat

definition invalid_config :: "msg_text \<Rightarrow> wafer_error" where
  "invalid_config detail = wafer_error_new InvalidArgument detail"

text \<open>\<open>mx\<close> is the largest value of the type parsed.\<close>

definition setting :: "string option \<Rightarrow> string \<Rightarrow> nat \<Rightarrow> nat \<Rightarrow> (nat \<Rightarrow> bool) \<Rightarrow> string \<Rightarrow> wafer_error + nat" where
  "setting raw key mx dflt admissible expected =
     (case map_option str_trim raw of
        None \<Rightarrow> Inr dflt
      | Some value \<Rightarrow>
          if value = [] then Inr dflt
          else (case parse_unsigned mx value of
                  Some v \<Rightarrow> if admissible v then Inr v
                    else Inl (invalid_config (Text ''wafer-run/ip-rate-limit: `{key}` must be {expected}, got {value:?}''
                                [A_str key, A_str expected, A_str value]))
                | None \<Rightarrow> Inl (invalid_config (Text ''wafer-run/ip-rate-limit: `{key}` must be {expected}, got {value:?}''
                                [A_str key, A_str expected, A_str value]))))"

definition limits_read :: "(string \<Rightarrow> string option) \<Rightarrow> wafer_error + limits" where
  "limits_read get =
     and_then (setting (get ''max_requests'') ''max_requests'' (2 ^ 32 - 1) DEFAULT_MAX_REQUESTS (\<lambda>_. True)
                 ''a non-negative integer (0 disables the limiter)'') (\<lambda>max_requests.
     and_then (setting (get ''window_seconds'') ''window_seconds'' u64_max DEFAULT_WINDOW_SECONDS (\<lambda>secs. secs > 0)
                 ''a positive integer number of seconds'') (\<lambda>secs.
     and_then (setting (get ''ipv6_prefix'') ''ipv6_prefix'' 255 DEFAULT_IPV6_PREFIX (\<lambda>len. 1 \<le> len \<and> len \<le> 128)
                 ''an integer prefix length from 1 to 128'') (\<lambda>len.
       Inr \<lparr>lm_max_requests = of_nat max_requests, lm_window = secs * 1000000000, lm_ipv6_prefix = len\<rparr>)))"

section \<open>Clients\<close>

definition show_ipv4 :: "ipv4 \<Rightarrow> string" where
  "show_ipv4 a = join_with ''.'' (map (\<lambda>i. show_nat (unat (octet a i))) [0, 1, 2, 3])"

fun show_hex :: "nat \<Rightarrow> string" where
  "show_hex n =
     (let digit = char_of (if n mod 16 < 10 then 48 + n mod 16 else 87 + n mod 16)
      in if n < 16 then [digit] else show_hex (n div 16) @ [digit])"

declare show_hex.simps [simp del]

text \<open>The longest run of zero segments, the first of several: start and length.\<close>

fun zero_span :: "nat \<Rightarrow> nat \<times> nat \<Rightarrow> nat \<times> nat \<Rightarrow> 16 word list \<Rightarrow> nat \<times> nat" where
  "zero_span i current longest [] = longest"
| "zero_span i (start, len) longest (s # rest) =
     (if s = 0
      then (let current = (if len = 0 then i else start, len + 1)
            in zero_span (i + 1) current (if snd current > snd longest then current else longest) rest)
      else zero_span (i + 1) (0, 0) longest rest)"

definition show_segments :: "16 word list \<Rightarrow> string" where
  "show_segments segs = join_with '':'' (map (\<lambda>s. show_hex (unat s)) segs)"

definition show_ipv6 :: "ipv6 \<Rightarrow> string" where
  "show_ipv6 a =
     (case to_ipv4_mapped a of
        Some v4 \<Rightarrow> ''::ffff:'' @ show_ipv4 v4
      | None \<Rightarrow>
          (let segs = map (segment a) [0..<8]; (start, len) = zero_span 0 (0, 0) (0, 0) segs
           in if len > 1 then show_segments (take start segs) @ ''::'' @ show_segments (drop (start + len) segs)
              else show_segments segs))"

definition ipv6_network :: "ipv6 \<Rightarrow> nat \<Rightarrow> ipv6" where
  "ipv6_network a len = a AND push_bit (128 - len) (- 1)"

definition client_network :: "string \<Rightarrow> nat \<Rightarrow> string option" where
  "client_network remote_addr ipv6_prefix =
     (let value = str_trim remote_addr in
      case (case parse_ip_addr value of Some ip \<Rightarrow> Some ip | None \<Rightarrow> parse_socket_addr value) of
        None \<Rightarrow> None
      | Some (V4 v4) \<Rightarrow> Some (show_ipv4 v4)
      | Some (V6 v6) \<Rightarrow>
          (case to_ipv4_mapped v6 of
             Some v4 \<Rightarrow> Some (show_ipv4 v4)
           | None \<Rightarrow> Some (show_ipv6 (ipv6_network v6 ipv6_prefix) @ ''/'' @ show_nat ipv6_prefix)))"

section \<open>Buckets\<close>

text \<open>A key is the client, the budget and the window; tuples order lexicographically like the derived
  \<^verbatim>\<open>Ord\<close>.\<close>

type_synonym bucket_key = "string \<times> 32 word \<times> nat"

record rate_bucket =
  bu_count :: "32 word"
  bu_window_start :: nat

type_synonym shard = "(bucket_key \<times> rate_bucket) list"

definition expired :: "bucket_key \<Rightarrow> rate_bucket \<Rightarrow> nat \<Rightarrow> bool" where
  "expired key b now = (case key of (_, _, window) \<Rightarrow> now - bu_window_start b > window)"

definition throttled :: "bucket_key \<Rightarrow> rate_bucket \<Rightarrow> bool" where
  "throttled key b = (case key of (_, max_requests, _) \<Rightarrow> bu_count b \<ge> max_requests)"

definition SHARD_COUNT :: nat where "SHARD_COUNT = 16"
definition HARD_CAP :: nat where "HARD_CAP = 100000"

record sharded_buckets =
  sb_shards :: "shard list"
  sb_shard_capacity :: nat

definition with_shard_capacity :: "nat \<Rightarrow> sharded_buckets" where
  "with_shard_capacity capacity = \<lparr>sb_shards = replicate SHARD_COUNT [], sb_shard_capacity = capacity\<rparr>"

definition sharded_buckets_new :: sharded_buckets where
  "sharded_buckets_new = with_shard_capacity (HARD_CAP div SHARD_COUNT)"

definition shard_index :: "(string \<Rightarrow> nat) \<Rightarrow> string \<Rightarrow> nat" where
  "shard_index hash client = hash client mod SHARD_COUNT"

definition victim :: "bucket_key \<times> rate_bucket \<Rightarrow> bool \<times> 32 word \<times> nat \<times> bucket_key" where
  "victim kb = (case kb of (key, b) \<Rightarrow> (throttled key b, bu_count b, bu_window_start b, key))"

definition evict_for_new_key :: "shard \<Rightarrow> nat \<Rightarrow> nat \<Rightarrow> shard" where
  "evict_for_new_key buckets capacity now =
     (let live = filter (\<lambda>(key, b). \<not> expired key b now) buckets;
          target = capacity - capacity div 10
      in if length live < target then live
         else let excess = length live + 1 - target;
                  victims = take excess (sort (map victim live))
              in filter (\<lambda>(key, _). key \<notin> (\<lambda>(_, _, _, k). k) ` set victims) live)"

text \<open>\<^verbatim>\<open>ShardedBuckets::record\<close> on the client's shard.\<close>

definition shard_record :: "nat \<Rightarrow> shard \<Rightarrow> bucket_key \<Rightarrow> nat \<Rightarrow> shard \<times> 32 word \<times> nat" where
  "shard_record capacity buckets key now =
     (let buckets = (if length buckets \<ge> capacity \<and> map_of buckets key = None
                     then evict_for_new_key buckets capacity now else buckets);
          bucket = (case map_of buckets key of
                      Some b \<Rightarrow> if expired key b now then \<lparr>bu_count = 0, bu_window_start = now\<rparr> else b
                    | None \<Rightarrow> \<lparr>bu_count = 0, bu_window_start = now\<rparr>);
          bucket = bucket\<lparr>bu_count := bu_count bucket + 1\<rparr>
      in (AList.update key bucket buckets, bu_count bucket, bu_window_start bucket))"

definition bucket_record :: "(string \<Rightarrow> nat) \<Rightarrow> sharded_buckets \<Rightarrow> string \<Rightarrow> nat \<Rightarrow> limits
    \<Rightarrow> sharded_buckets \<times> 32 word \<times> nat" where
  "bucket_record hash sb client now lm =
     (let i = shard_index hash client in
      case shard_record (sb_shard_capacity sb) (sb_shards sb ! i) (client, lm_max_requests lm, lm_window lm) now of
        (shard, num, start) \<Rightarrow> (sb\<lparr>sb_shards := (sb_shards sb)[i := shard]\<rparr>, num, start))"

section \<open>The block\<close>

definition remote_addr :: "message \<Rightarrow> string" where
  "remote_addr msg = get_meta msg ''req.client.ip''"

definition set_meta :: "message \<Rightarrow> string \<Rightarrow> string \<Rightarrow> message" where
  "set_meta msg key value = msg\<lparr>msg_meta := meta_set (msg_meta msg) key value\<rparr>"

definition too_many_requests :: "limits \<Rightarrow> nat \<Rightarrow> nat \<Rightarrow> wafer_error" where
  "too_many_requests lm now window_start =
     (wafer_error_new ResourceExhausted (Text ''Too many requests'' []))\<lparr>we_meta :=
        [\<lparr>me_key = ''resp.header.Retry-After'', me_value = show_nat ((lm_window lm - (now - window_start)) div 1000000000)\<rparr>,
         \<lparr>me_key = ''resp.header.X-RateLimit-Limit'', me_value = show_nat (unat (lm_max_requests lm))\<rparr>,
         \<lparr>me_key = ''resp.header.X-RateLimit-Remaining'', me_value = ''0''\<rparr>]\<rparr>"

definition rate_limit_handle :: "(string \<Rightarrow> nat) \<Rightarrow> sharded_buckets \<Rightarrow> (string \<Rightarrow> string option) \<Rightarrow> nat \<Rightarrow> message
    \<Rightarrow> sharded_buckets \<times> output_stream" where
  "rate_limit_handle hash sb config now msg =
     (case limits_read config of
        Inl e \<Rightarrow> (sb, out_error e)
      | Inr lm \<Rightarrow>
          if lm_max_requests lm = 0 then (sb, continue_with msg)
          else
            (case client_network (remote_addr msg) (lm_ipv6_prefix lm) of
               None \<Rightarrow> (sb, out_error (wafer_error_new InvalidArgument (Text ''Client IP could not be determined'' [])))
             | Some client \<Rightarrow>
                 (case bucket_record hash sb client now lm of (sb', num, window_start) \<Rightarrow>
                    if num > lm_max_requests lm then (sb', out_error (too_many_requests lm now window_start))
                    else (sb', continue_with
                            (set_meta (set_meta msg ''resp.header.X-RateLimit-Limit'' (show_nat (unat (lm_max_requests lm))))
                               ''resp.header.X-RateLimit-Remaining'' (show_nat (unat (lm_max_requests lm - num))))))))"

text \<open>\<^verbatim>\<open>lifecycle(Init)\<close> of a config value; only its refusals matter.\<close>

definition rate_limit_init :: "plan_env \<Rightarrow> json \<Rightarrow> wafer_error + unit" where
  "rate_limit_init pe config =
     (let value = (\<lambda>key. case config of Object obj \<Rightarrow> map_of obj key | _ \<Rightarrow> None);
          fault = find (\<lambda>key. case value key of
                          None \<Rightarrow> False | Some (String _) \<Rightarrow> False | Some (Number _) \<Rightarrow> False | Some (Bool _) \<Rightarrow> False | Some _ \<Rightarrow> True)
                    [''max_requests'', ''window_seconds'', ''ipv6_prefix'']
      in case fault of
           Some key \<Rightarrow> Inl (invalid_config (Text ''wafer-run/ip-rate-limit: `{key}` must be a number, got {other}'' [A_str key]))
         | None \<Rightarrow> and_then (limits_read (parse_config_map pe config)) (\<lambda>_. Inr ()))"

section \<open>Eviction\<close>

lemma sorted_take_le_drop: "sorted xs \<Longrightarrow> x \<in> set (take n xs) \<Longrightarrow> y \<in> set (drop n xs) \<Longrightarrow> x \<le> y"
  using sorted_append [of "take n xs" "drop n xs"] by simp

lemma length_filter_sort: "length (filter P (sort xs)) = length (filter P xs)"
  by (rule mset_eq_length) simp

lemma victim_fst [simp]: "fst (victim kb) = throttled (fst kb) (snd kb)"
  by (cases kb) (simp add: victim_def)

definition victim_key :: "bool \<times> 32 word \<times> nat \<times> bucket_key \<Rightarrow> bucket_key" where
  "victim_key v = (case v of (_, _, _, k) \<Rightarrow> k)"

lemma victim_key [simp]: "victim_key (victim kb) = fst kb"
  by (cases kb) (simp add: victim_def victim_key_def)

definition eviction_target :: "nat \<Rightarrow> nat" where
  "eviction_target capacity = capacity - capacity div 10"

lemma eviction_target_pos: "0 < capacity \<Longrightarrow> 0 < eviction_target capacity \<and> eviction_target capacity \<le> capacity"
  by (auto simp: eviction_target_def)

lemma evict_alt:
  "evict_for_new_key buckets capacity now =
     (let live = filter (\<lambda>(key, b). \<not> expired key b now) buckets
      in if length live < eviction_target capacity then live
         else filter (\<lambda>kb. fst kb \<notin> victim_key ` set (take (length live + 1 - eviction_target capacity) (sort (map victim live)))) live)"
  by (simp add: evict_for_new_key_def Let_def eviction_target_def case_prod_unfold victim_key_def)

lemma set_evict: "set (evict_for_new_key buckets capacity now) \<subseteq> set buckets"
  by (auto simp: evict_alt Let_def)

lemma distinct_evict: "distinct (map fst buckets) \<Longrightarrow> distinct (map fst (evict_for_new_key buckets capacity now))"
  by (simp add: evict_alt Let_def distinct_map_filter)

lemma filter_keys_length:
  assumes "distinct (map fst xs)" and "K \<subseteq> fst ` set xs"
  shows "length (filter (\<lambda>kb. fst kb \<notin> K) xs) + card K = length xs"
proof -
  have "fst ` set (filter (\<lambda>kb. fst kb \<notin> K) xs) = fst ` set xs - K" by auto
  moreover have "card (fst ` set (filter (\<lambda>kb. fst kb \<notin> K) xs)) = length (filter (\<lambda>kb. fst kb \<notin> K) xs)"
    using assms(1) by (metis distinct_card distinct_map_filter length_map set_map)
  moreover have "card (fst ` set xs) = length xs"
    using assms(1) by (metis distinct_card length_map set_map)
  moreover have "card K \<le> card (fst ` set xs)" using assms(2) by (simp add: card_mono)
  ultimately show ?thesis using assms(2) by (simp add: card_Diff_subset finite_subset)
qed

text \<open>Eviction leaves fewer buckets than its target.\<close>

lemma length_evict:
  assumes "distinct (map fst buckets)" and "0 < capacity"
  shows "length (evict_for_new_key buckets capacity now) < eviction_target capacity"
proof -
  define live where "live = filter (\<lambda>(key, b). \<not> expired key b now) buckets"
  define excess where "excess = length live + 1 - eviction_target capacity"
  let ?K = "victim_key ` set (take excess (sort (map victim live)))"
  have target: "0 < eviction_target capacity" using eviction_target_pos assms(2) by simp
  show ?thesis
  proof (cases "length live < eviction_target capacity")
    case True
    then show ?thesis by (simp add: evict_alt live_def [symmetric])
  next
    case False
    have keys: "distinct (map fst live)" using assms(1) by (simp add: live_def distinct_map_filter)
    have "mset (map victim_key (sort (map victim live))) = mset (map fst live)"
      by (simp add: multiset.map_comp comp_def)
    then have sorted_keys: "distinct (map victim_key (sort (map victim live)))" "victim_key ` set (sort (map victim live)) = fst ` set live"
      using keys mset_eq_imp_distinct_iff [of "map victim_key (sort (map victim live))" "map fst live"] by (simp_all add: image_image)
    then have "distinct (map victim_key (take excess (sort (map victim live))))"
      by (metis distinct_take take_map)
    from distinct_card [OF this] have "card ?K = min excess (length live)" by (simp add: min.commute)
    moreover have "?K \<subseteq> fst ` set live"
      unfolding sorted_keys(2) [symmetric] by (intro image_mono set_take_subset)
    ultimately have "length (filter (\<lambda>kb. fst kb \<notin> ?K) live) + min excess (length live) = length live"
      using filter_keys_length [OF keys] by metis
    with False target show ?thesis
      by (simp add: evict_alt live_def [symmetric] excess_def [symmetric]) (simp add: excess_def)
  qed
qed

text \<open>A live throttled bucket is evicted only from a shard that holds a target's worth of them.\<close>

lemma evict_keeps_throttled:
  assumes "distinct (map fst buckets)" and "(k, b) \<in> set buckets" and "throttled k b" and "\<not> expired k b now"
    and few: "length (filter (\<lambda>(k, b). throttled k b) buckets) < eviction_target capacity"
  shows "(k, b) \<in> set (evict_for_new_key buckets capacity now)"
proof -
  define live where "live = filter (\<lambda>(key, b). \<not> expired key b now) buckets"
  define excess where "excess = length live + 1 - eviction_target capacity"
  let ?vs = "sort (map victim live)"
  have mem: "(k, b) \<in> set live" using assms by (simp add: live_def)
  have keys: "distinct (map fst live)" using assms(1) by (simp add: live_def distinct_map_filter)
  show ?thesis
  proof (cases "length live < eviction_target capacity")
    case True
    with mem show ?thesis by (simp add: evict_alt live_def [symmetric])
  next
    case False
    have "length (filter fst ?vs) = length (filter fst (map victim live))"
      by (rule length_filter_sort)
    also have "\<dots> = length (filter (\<lambda>(k, b). throttled k b) live)"
      by (simp add: filter_map comp_def case_prod_unfold)
    also have "\<dots> \<le> length (filter (\<lambda>(k, b). throttled k b) buckets)"
      unfolding live_def by (induction buckets) auto
    finally have count: "length (filter fst ?vs) < eviction_target capacity" using few by simp
    have "k \<notin> victim_key ` set (take excess ?vs)"
    proof
      assume "k \<in> victim_key ` set (take excess ?vs)"
      then obtain v where v: "v \<in> set (take excess ?vs)" "victim_key v = k" by auto
      have "v \<in> set ?vs" using v(1) by (rule in_set_takeD)
      then obtain kb where "kb \<in> set live" "v = victim kb" unfolding set_sort set_map by blast
      with v(2) have "v = victim (k, b)"
        using keys mem by (metis (no_types, lifting) eq_key_imp_eq_value prod.collapse victim_key)
      then have throttled_v: "fst v" using assms(3) by simp
      have "\<forall>w \<in> set (drop excess ?vs). fst w"
      proof
        fix w assume "w \<in> set (drop excess ?vs)"
        then have "v \<le> w" using v(1) by (intro sorted_take_le_drop [of ?vs]) simp_all
        then show "fst w" using throttled_v by (auto simp: less_eq_prod_def less_bool_def)
      qed
      then have "length (filter fst (drop excess ?vs)) = length live - excess" by (simp add: filter_id_conv)
      moreover have "0 < length (filter fst (take excess ?vs))"
        using v(1) throttled_v by (auto simp: length_greater_0_conv filter_empty_conv)
      moreover have "length (filter fst ?vs) = length (filter fst (take excess ?vs)) + length (filter fst (drop excess ?vs))"
        by (metis append_take_drop_id filter_append length_append)
      moreover have "length live - excess + 1 = eviction_target capacity" using False count by (simp add: excess_def)
      ultimately show False using count by linarith
    qed
    with mem False show ?thesis
      by (simp add: evict_alt live_def [symmetric] excess_def)
  qed
qed

section \<open>Charging a request\<close>

definition shard_inv :: "nat \<Rightarrow> shard \<Rightarrow> bool" where
  "shard_inv capacity buckets \<longleftrightarrow> distinct (map fst buckets) \<and> length buckets \<le> capacity"

lemma length_update: "length (AList.update k v xs) = (if k \<in> fst ` set xs then length xs else length xs + 1)"
  by (induction xs) auto

lemma shard_record_inv:
  assumes "shard_inv capacity buckets" and "0 < capacity" and "shard_record capacity buckets key now = (buckets', num, start)"
  shows "shard_inv capacity buckets'" and "fst ` set buckets' \<subseteq> insert key (fst ` set buckets)"
proof -
  define room where "room = (if length buckets \<ge> capacity \<and> map_of buckets key = None
      then evict_for_new_key buckets capacity now else buckets)"
  have room_inv: "distinct (map fst room)" "set room \<subseteq> set buckets"
    using assms(1) set_evict [of buckets capacity now] by (auto simp: room_def shard_inv_def distinct_evict)
  have room_len: "length room \<le> capacity" "key \<notin> fst ` set room \<Longrightarrow> length room < capacity"
  proof -
    have "length (evict_for_new_key buckets capacity now) < capacity"
      using assms(1,2) length_evict [of buckets capacity now] eviction_target_pos [OF assms(2)]
      unfolding shard_inv_def by linarith
    moreover have "map_of buckets key = None" if "key \<notin> fst ` set buckets"
      using that unfolding map_of_eq_None_iff .
    ultimately show "length room \<le> capacity" "key \<notin> fst ` set room \<Longrightarrow> length room < capacity"
      using assms(1) unfolding room_def shard_inv_def
      by (cases "capacity \<le> length buckets \<and> map_of buckets key = None"; simp; linarith?)+
  qed
  obtain b where b: "buckets' = AList.update key b room"
    using assms(3) by (auto simp: shard_record_def Let_def room_def)
  show "shard_inv capacity buckets'"
    using room_inv(1) room_len by (auto simp: b shard_inv_def length_update distinct_update)
  have "fst ` set buckets' = insert key (fst ` set room)"
    by (simp add: b dom_update [symmetric] dom_map_of_conv_image_fst [symmetric] update_conv')
  then show "fst ` set buckets' \<subseteq> insert key (fst ` set buckets)"
    using room_inv(2) by auto
qed

text \<open>A throttled bucket outlives the requests of others, and refuses its own, until its window ends.\<close>

lemma shard_record_throttled:
  assumes inv: "shard_inv capacity buckets" and has: "map_of buckets k = Some b" "throttled k b" "\<not> expired k b now"
    and few: "length (filter (\<lambda>(k, b). throttled k b) buckets) < eviction_target capacity"
    and rec: "shard_record capacity buckets key now = (buckets', num, start)"
  shows "map_of buckets' k = Some (if key = k then b\<lparr>bu_count := bu_count b + 1\<rparr> else b)"
    and "key = k \<Longrightarrow> num = bu_count b + 1 \<and> start = bu_window_start b"
proof -
  have d: "distinct (map fst buckets)" using inv by (simp add: shard_inv_def)
  have "(k, b) \<in> set (evict_for_new_key buckets capacity now)"
    using has few by (intro evict_keeps_throttled [OF d]) (auto dest: map_of_SomeD)
  then have "map_of (evict_for_new_key buckets capacity now) k = Some b"
    by (simp add: distinct_evict [OF d])
  then show "map_of buckets' k = Some (if key = k then b\<lparr>bu_count := bu_count b + 1\<rparr> else b)"
    "key = k \<Longrightarrow> num = bu_count b + 1 \<and> start = bu_window_start b"
    using rec has by (auto simp: shard_record_def Let_def update_conv' split: if_splits)
qed

section \<open>The limiter\<close>

text \<open>The bucket a request is charged to.\<close>

definition request_key :: "(string \<Rightarrow> string option) \<Rightarrow> message \<Rightarrow> bucket_key option" where
  "request_key config msg =
     (case limits_read config of
        Inl _ \<Rightarrow> None
      | Inr lm \<Rightarrow>
          if lm_max_requests lm = 0 then None
          else map_option (\<lambda>client. (client, lm_max_requests lm, lm_window lm))
                 (client_network (remote_addr msg) (lm_ipv6_prefix lm)))"

lemma handle_uncharged:
  "request_key config msg = None \<Longrightarrow> fst (rate_limit_handle hash sb config now msg) = sb"
  by (auto simp: request_key_def rate_limit_handle_def split: sum.splits option.splits if_splits)

lemma handle_charged:
  assumes "request_key config msg = Some (client, mx, window)"
    and "shard_record (sb_shard_capacity sb) (sb_shards sb ! shard_index hash client) (client, mx, window) now = (shard, num, start)"
  shows "fst (rate_limit_handle hash sb config now msg) = sb\<lparr>sb_shards := (sb_shards sb)[shard_index hash client := shard]\<rparr>"
    and "num > mx \<Longrightarrow> \<exists>e. snd (rate_limit_handle hash sb config now msg) = out_error e \<and> we_code e = ResourceExhausted"
  using assms
  by (auto simp: request_key_def rate_limit_handle_def bucket_record_def Let_def too_many_requests_def
      split: sum.splits option.splits if_splits)

definition limiter_step :: "(string \<Rightarrow> nat) \<Rightarrow> sharded_buckets \<Rightarrow> sharded_buckets \<Rightarrow> bool" where
  "limiter_step hash sb sb' \<longleftrightarrow> (\<exists>config now msg. sb' = fst (rate_limit_handle hash sb config now msg))"

definition limiter_inv :: "(string \<Rightarrow> nat) \<Rightarrow> sharded_buckets \<Rightarrow> bool" where
  "limiter_inv hash sb \<longleftrightarrow>
     length (sb_shards sb) = SHARD_COUNT \<and> sb_shard_capacity sb = HARD_CAP div SHARD_COUNT
     \<and> (\<forall>i < SHARD_COUNT. shard_inv (HARD_CAP div SHARD_COUNT) (sb_shards sb ! i)
          \<and> (\<forall>key \<in> fst ` set (sb_shards sb ! i). shard_index hash (fst key) = i))"

lemma limiter_inv_step:
  assumes inv: "limiter_inv hash sb" and step: "limiter_step hash sb sb'"
  shows "limiter_inv hash sb'"
proof -
  obtain config now msg where sb': "sb' = fst (rate_limit_handle hash sb config now msg)"
    using step by (auto simp: limiter_step_def)
  show ?thesis
  proof (cases "request_key config msg")
    case None
    then show ?thesis using inv by (simp add: sb' handle_uncharged)
  next
    case (Some key)
    obtain client mx window where key: "key = (client, mx, window)" by (cases key) auto
    let ?i = "shard_index hash client"
    obtain shard num start where rec: "shard_record (sb_shard_capacity sb) (sb_shards sb ! ?i) key now = (shard, num, start)"
      by (cases "shard_record (sb_shard_capacity sb) (sb_shards sb ! ?i) key now") auto
    have i: "?i < SHARD_COUNT" by (simp add: shard_index_def SHARD_COUNT_def)
    have cap: "0 < HARD_CAP div SHARD_COUNT" "sb_shard_capacity sb = HARD_CAP div SHARD_COUNT"
      using inv by (simp_all add: limiter_inv_def HARD_CAP_def SHARD_COUNT_def)
    have old: "shard_inv (HARD_CAP div SHARD_COUNT) (sb_shards sb ! ?i)"
      "\<forall>k \<in> fst ` set (sb_shards sb ! ?i). shard_index hash (fst k) = ?i"
      using inv i unfolding limiter_inv_def by blast+
    note new = shard_record_inv [OF old(1) cap(1) rec [unfolded cap(2)]]
    have home: "\<forall>k \<in> fst ` set shard. shard_index hash (fst k) = ?i"
    proof
      fix k assume "k \<in> fst ` set shard"
      then have "k = key \<or> k \<in> fst ` set (sb_shards sb ! ?i)" using new(2) by blast
      then show "shard_index hash (fst k) = ?i" using old(2) key by auto
    qed
    have "sb' = sb\<lparr>sb_shards := (sb_shards sb)[?i := shard]\<rparr>"
      unfolding sb' by (rule handle_charged(1) [OF Some [unfolded key] rec [unfolded key]])
    moreover have "shard_inv (HARD_CAP div SHARD_COUNT) ((sb_shards sb)[?i := shard] ! j)
        \<and> (\<forall>k \<in> fst ` set ((sb_shards sb)[?i := shard] ! j). shard_index hash (fst k) = j)" if "j < SHARD_COUNT" for j
    proof (cases "j = ?i")
      case True
      then show ?thesis using new(1) home inv that by (simp only: limiter_inv_def nth_list_update_eq)
    next
      case False
      then have same: "(sb_shards sb)[?i := shard] ! j = sb_shards sb ! j" by simp
      show ?thesis using inv that unfolding limiter_inv_def same by blast
    qed
    ultimately show ?thesis using inv by (simp add: limiter_inv_def)
  qed
qed

interpretation limiter: transition_invariant sharded_buckets_new "limiter_step hash" "limiter_inv hash" for hash
  by unfold_locales
     (simp add: limiter_inv_def sharded_buckets_new_def with_shard_capacity_def shard_inv_def, rule limiter_inv_step)

lemma sum_lengths_bound: "\<forall>x \<in> set xs. length x \<le> c \<Longrightarrow> sum_list (map length xs) \<le> length xs * c"
  by (induction xs) auto


text \<open>A limiter that has served one request.\<close>

definition sample_config :: "string \<Rightarrow> string option" where
  "sample_config = [''max_requests'' \<mapsto> ''1'']"

definition sample_msg :: message where
  "sample_msg = \<lparr>msg_kind = ''http.request'', msg_meta = [\<lparr>me_key = ''req.client.ip'', me_value = ''203.0.113.9:4431''\<rparr>]\<rparr>"

definition sample_limiter :: sharded_buckets where
  "sample_limiter = fst (rate_limit_handle (\<lambda>_. 3) sharded_buckets_new sample_config 5 sample_msg)"

definition sample_key :: bucket_key where
  "sample_key = (''203.0.113.9'', 1, 60000000000)"

lemma sample_limits: "limits_read sample_config = Inr \<lparr>lm_max_requests = 1, lm_window = 60000000000, lm_ipv6_prefix = 64\<rparr>"
proof -
  have "str_trim ''1'' = ''1''" by code_simp
  moreover have "parse_unsigned 4294967295 ''1'' = Some 1"
    by (simp add: parse_unsigned_def Let_def all_digits_def nat_of_digits_def is_ascii_digit_def digit_val_def less_eq_char_def)
  ultimately show ?thesis
    by (simp add: limits_read_def setting_def sample_config_def DEFAULT_WINDOW_SECONDS_def DEFAULT_IPV6_PREFIX_def)
qed

lemma sample_client: "client_network (remote_addr sample_msg) 64 = Some ''203.0.113.9''"
proof -
  have trimmed: "str_trim ''203.0.113.9:4431'' = ''203.0.113.9:4431''" by code_simp
  have "read_ipv4_addr ''203.0.113.9:4431'' = Some (0xCB007109, '':4431'')"
    by (simp add: read_ipv4_addr_def read_octet_def read_separator_def read_given_char_def read_number_def to_digit_def
        ipv4_new_def)
  then have "parse_ip_addr ''203.0.113.9:4431'' = None" "parse_socket_addr ''203.0.113.9:4431'' = Some (V4 0xCB007109)"
    by (simp_all add: parse_ip_addr_def parse_socket_addr_def parse_with_def read_ip_addr_def read_socket_addr_def
        read_port_def read_given_char_def read_number_def to_digit_def)
  moreover have "show_ipv4 0xCB007109 = ''203.0.113.9''"
    by (simp add: show_ipv4_def octet_def show_nat.simps) (simp add: char_of_def bit_iff_odd)
  ultimately show ?thesis
    by (simp add: client_network_def remote_addr_def get_meta_def meta_get_def sample_msg_def trimmed)
qed

lemma sample_request_key: "request_key sample_config sample_msg = Some sample_key"
  by (simp add: request_key_def sample_limits sample_client sample_key_def)

lemma sample_limiter_shards:
  "sample_limiter = sharded_buckets_new\<lparr>sb_shards := (replicate 16 [])[3 := [(sample_key, \<lparr>bu_count = 1, bu_window_start = 5\<rparr>)]]\<rparr>"
  unfolding sample_limiter_def
  by (subst handle_charged(1) [OF sample_request_key [unfolded sample_key_def],
        where shard = "[(sample_key, \<lparr>bu_count = 1, bu_window_start = 5\<rparr>)]" and num = 1 and start = 5])
     (simp_all add: sharded_buckets_new_def with_shard_capacity_def SHARD_COUNT_def HARD_CAP_def shard_index_def
       shard_record_def Let_def sample_key_def)

lemma sample_limiter_reachable: "(limiter_step (\<lambda>_. 3))\<^sup>*\<^sup>* sharded_buckets_new sample_limiter"
  unfolding sample_limiter_def by (rule r_into_rtranclp) (auto simp: limiter_step_def)


section \<open>Throttled clients\<close>

type_synonym limiter_request = "(string \<Rightarrow> string option) \<times> nat \<times> message"

fun answers :: "(string \<Rightarrow> nat) \<Rightarrow> sharded_buckets \<Rightarrow> limiter_request list \<Rightarrow> output_stream list" where
  "answers hash sb [] = []"
| "answers hash sb ((config, now, msg) # requests) =
     snd (rate_limit_handle hash sb config now msg) # answers hash (fst (rate_limit_handle hash sb config now msg)) requests"

text \<open>Through the requests, shard \<open>i\<close> holds fewer throttled buckets than an eviction leaves: 5,625 at the
  production capacity.\<close>

fun uncrowded :: "(string \<Rightarrow> nat) \<Rightarrow> nat \<Rightarrow> sharded_buckets \<Rightarrow> limiter_request list \<Rightarrow> bool" where
  "uncrowded hash i sb [] = True"
| "uncrowded hash i sb ((config, now, msg) # requests) =
     (length (filter (\<lambda>(k, b). throttled k b) (sb_shards sb ! i)) < eviction_target (sb_shard_capacity sb)
      \<and> uncrowded hash i (fst (rate_limit_handle hash sb config now msg)) requests)"

lemma throttled_Suc: "throttled k b \<Longrightarrow> unat (bu_count b) + 1 < 2 ^ 32 \<Longrightarrow>
    throttled k (b\<lparr>bu_count := bu_count b + 1\<rparr>) \<and> fst (snd k) < bu_count b + 1 \<and> unat (bu_count b + 1) = unat (bu_count b) + 1"
proof -
  assume "throttled k b" and bound: "unat (bu_count b) + 1 < 2 ^ 32"
  then have le: "unat (fst (snd k)) \<le> unat (bu_count b)" by (auto simp: throttled_def word_le_nat_alt split: prod.splits)
  have suc: "unat (bu_count b + 1) = unat (bu_count b) + 1" using bound by (simp add: unat_word_ariths)
  with le show ?thesis by (auto simp: throttled_def word_le_nat_alt word_less_nat_alt split: prod.splits)
qed

text \<open>One request, whoever sends it.\<close>

lemma handle_keeps_throttled:
  assumes inv: "limiter_inv hash sb" and i: "i = shard_index hash (fst k)"
    and has: "map_of (sb_shards sb ! i) k = Some b" "throttled k b" "\<not> expired k b now"
    and few: "length (filter (\<lambda>(k, b). throttled k b) (sb_shards sb ! i)) < eviction_target (sb_shard_capacity sb)"
  shows "map_of (sb_shards (fst (rate_limit_handle hash sb config now msg)) ! i) k =
     Some (if request_key config msg = Some k then b\<lparr>bu_count := bu_count b + 1\<rparr> else b)"
    and "request_key config msg = Some k \<Longrightarrow> fst (snd k) < bu_count b + 1 \<Longrightarrow>
     \<exists>e. snd (rate_limit_handle hash sb config now msg) = out_error e \<and> we_code e = ResourceExhausted"
proof -
  have shard_i: "shard_inv (sb_shard_capacity sb) (sb_shards sb ! i)" "i < length (sb_shards sb)"
    using inv i by (auto simp: limiter_inv_def shard_index_def SHARD_COUNT_def)
  have charged: "map_of (sb_shards (fst (rate_limit_handle hash sb config now msg)) ! i) k =
      Some (if key = k then b\<lparr>bu_count := bu_count b + 1\<rparr> else b)
    \<and> (key = k \<and> fst (snd k) < bu_count b + 1 \<longrightarrow>
       (\<exists>e. snd (rate_limit_handle hash sb config now msg) = out_error e \<and> we_code e = ResourceExhausted))"
    if key: "request_key config msg = Some key" for key
  proof -
    obtain client mx window where k: "key = (client, mx, window)" by (cases key) auto
    obtain shard num start where rec: "shard_record (sb_shard_capacity sb) (sb_shards sb ! shard_index hash client) key now = (shard, num, start)"
      by (cases "shard_record (sb_shard_capacity sb) (sb_shards sb ! shard_index hash client) key now") auto
    note out = handle_charged [OF key [unfolded k] rec [unfolded k]]
    show ?thesis
    proof (cases "shard_index hash client = i")
      case True
      note kept = shard_record_throttled [OF shard_i(1) has few rec [unfolded True]]
      show ?thesis using kept out shard_i(2) True k by auto
    next
      case False
      then have "key \<noteq> k" using i k by auto
      then show ?thesis using out(1) False has(1) by simp
    qed
  qed
  show "map_of (sb_shards (fst (rate_limit_handle hash sb config now msg)) ! i) k =
     Some (if request_key config msg = Some k then b\<lparr>bu_count := bu_count b + 1\<rparr> else b)"
    using charged handle_uncharged [of config msg hash sb now] has(1) by (cases "request_key config msg") auto
  show "request_key config msg = Some k \<Longrightarrow> fst (snd k) < bu_count b + 1 \<Longrightarrow>
     \<exists>e. snd (rate_limit_handle hash sb config now msg) = out_error e \<and> we_code e = ResourceExhausted"
    using charged by blast
qed

lemma throttled_refused:
  assumes "limiter_inv hash sb" and "map_of (sb_shards sb ! shard_index hash (fst k)) k = Some b" and "throttled k b"
    and "\<forall>(config, now, msg) \<in> set requests. now \<le> bu_window_start b + snd (snd k)"
    and "unat (bu_count b) + length requests < 2 ^ 32"
    and "uncrowded hash (shard_index hash (fst k)) sb requests"
  shows "\<forall>((config, now, msg), out) \<in> set (zip requests (answers hash sb requests)).
     request_key config msg = Some k \<longrightarrow> (\<exists>e. out = out_error e \<and> we_code e = ResourceExhausted)"
  using assms
proof (induction requests arbitrary: sb b)
  case (Cons r requests)
  obtain config now msg where r: "r = (config, now, msg)" by (cases r) auto
  let ?sb = "fst (rate_limit_handle hash sb config now msg)"
  let ?b = "if request_key config msg = Some k then b\<lparr>bu_count := bu_count b + 1\<rparr> else b"
  have live: "\<not> expired k b now" using Cons.prems(4) by (auto simp: r expired_def split: prod.splits)
  have few: "length (filter (\<lambda>(k, b). throttled k b) (sb_shards sb ! shard_index hash (fst k)))
      < eviction_target (sb_shard_capacity sb)" using Cons.prems(6) by (simp add: r)
  note kept = handle_keeps_throttled [OF Cons.prems(1) refl Cons.prems(2,3) live few, of config msg]
  have inv: "limiter_inv hash ?sb"
    using Cons.prems(1) by (rule limiter_inv_step) (auto simp: limiter_step_def)
  have suc: "throttled k (b\<lparr>bu_count := bu_count b + 1\<rparr>)" "fst (snd k) < bu_count b + 1"
      "unat (bu_count b + 1) = unat (bu_count b) + 1"
    using throttled_Suc [OF Cons.prems(3)] Cons.prems(5) by simp_all
  have next_b: "throttled k ?b" "bu_window_start ?b = bu_window_start b" "unat (bu_count ?b) \<le> unat (bu_count b) + 1"
    using suc Cons.prems(3) by simp_all
  have "\<forall>((config, now, msg), out) \<in> set (zip requests (answers hash ?sb requests)).
     request_key config msg = Some k \<longrightarrow> (\<exists>e. out = out_error e \<and> we_code e = ResourceExhausted)"
    using Cons.prems(4-6) next_b by (intro Cons.IH [OF inv kept(1) next_b(1)]) (auto simp: r)
  then show ?case using kept(2) suc(2) by (simp add: r)
qed simp

text \<open>C26: A flood does not free a throttled client.  Once a client's bucket has reached its budget, every
  further request charged to it until its window ends is refused with \<^verbatim>\<open>ResourceExhausted\<close>, whatever
  other requests arrive in between, under whatever settings and however many new clients they fill
  the shard with, as long as the shard is not full of throttled buckets and the requests do not
  wrap the 32-bit counter.\<close>

theorem throttled_clients_stay_refused:
  assumes "(limiter_step hash)\<^sup>*\<^sup>* sharded_buckets_new sb"
    and "map_of (sb_shards sb ! shard_index hash client) (client, budget, window) = Some b"
    and "throttled (client, budget, window) b"
    and "\<forall>(config, now, msg) \<in> set requests. now \<le> bu_window_start b + window"
    and "unat (bu_count b) + length requests < 2 ^ 32"
    and "uncrowded hash (shard_index hash client) sb requests"
  shows "\<forall>((config, now, msg), out) \<in> set (zip requests (answers hash sb requests)).
     request_key config msg = Some (client, budget, window) \<longrightarrow>
       (\<exists>e. out = out_error e \<and> we_code e = ResourceExhausted)"
  using assms limiter.inv_reachable [OF assms(1)] by (intro throttled_refused) simp_all

theorem throttled_clients_stay_refused_witness:
  "\<exists>e. answers (\<lambda>_. 3) sample_limiter [(sample_config, 9, sample_msg)] = [out_error e] \<and> we_code e = ResourceExhausted"
proof -
  let ?b = "\<lparr>bu_count = 1, bu_window_start = 5\<rparr> :: rate_bucket"
  have shard: "sb_shards sample_limiter ! 3 = [(sample_key, ?b)]" by (simp add: sample_limiter_shards)
  have "map_of (sb_shards sample_limiter ! shard_index (\<lambda>_. 3) ''203.0.113.9'') (''203.0.113.9'', 1, 60000000000) = Some ?b"
    "throttled (''203.0.113.9'', 1, 60000000000) ?b"
    "uncrowded (\<lambda>_. 3) (shard_index (\<lambda>_. 3) ''203.0.113.9'') sample_limiter [(sample_config, 9, sample_msg)]"
    using shard by (simp_all add: shard_index_def SHARD_COUNT_def sample_key_def throttled_def eviction_target_def)
      (simp add: sample_limiter_shards sharded_buckets_new_def with_shard_capacity_def HARD_CAP_def SHARD_COUNT_def)
  from throttled_clients_stay_refused [OF sample_limiter_reachable this(1,2) _ _ this(3)]
  show ?thesis using sample_request_key by (auto simp: sample_key_def)
qed

end
