(* ===== verification/Sql_Lex.thy ===== *)
theory Sql_Lex
  imports Wafer_Prelude
begin

text \<open>
  How the two SQL dialects read the text of a statement, as far as generated DDL needs it: a reference
  lexer for SQLite and PostgreSQL, and the rules by which the tokens of a text are the tokens of its
  pieces.  It specifies what the builders of \<^verbatim>\<open>crates/wafer-sql-utils\<close> have to produce; nothing here
  models their code, the dialect apart.
\<close>

section \<open>Tokens\<close>

datatype backend = Sqlite | Postgres

datatype token = Quoted string | Literal string | Word string | Sym char | Bad

abbreviation newline :: char where "newline \<equiv> CHR 0x0A"

text \<open>Words are keywords, bare names and numbers.\<close>

definition is_word :: "char \<Rightarrow> bool" where
  "is_word c \<longleftrightarrow> is_ascii_alphanumeric c \<or> c = CHR ''_'' \<or> c = CHR ''.''"

text \<open>The content of a quoted token, a doubled quote standing for one, and what follows it.\<close>

fun read_quoted :: "char \<Rightarrow> string \<Rightarrow> (string \<times> string) option" where
  "read_quoted q [] = None"
| "read_quoted q [c] = (if c = q then Some ([], []) else None)"
| "read_quoted q (c # d # s) =
     (if c = q
      then if d = q then map_option (\<lambda>(content, rest). (q # content, rest)) (read_quoted q s)
           else Some ([], d # s)
      else map_option (\<lambda>(content, rest). (c # content, rest)) (read_quoted q (d # s)))"

text \<open>The content of a PostgreSQL escape string.\<close>

definition escaped :: "char \<Rightarrow> char" where
  "escaped c =
     (if c = CHR ''b'' then CHR 0x08 else if c = CHR ''f'' then CHR 0x0C else if c = CHR ''n'' then CHR 0x0A
      else if c = CHR ''r'' then CHR 0x0D else if c = CHR ''t'' then CHR 0x09 else c)"

fun read_escape :: "string \<Rightarrow> (string \<times> string) option" where
  "read_escape [] = None"
| "read_escape [c] = (if c = squote then Some ([], []) else None)"
| "read_escape (c # d # s) =
     (if c = backslash then map_option (\<lambda>(content, rest). (escaped d # content, rest)) (read_escape s)
      else if c = squote
      then if d = squote then map_option (\<lambda>(content, rest). (squote # content, rest)) (read_escape s)
           else Some ([], d # s)
      else map_option (\<lambda>(content, rest). (c # content, rest)) (read_escape (d # s)))"

lemma read_quoted_length: "read_quoted q s = Some (content, rest) \<Longrightarrow> length rest < length s"
  by (induction q s arbitrary: content rest rule: read_quoted.induct) (force split: if_splits)+

lemma read_escape_length: "read_escape s = Some (content, rest) \<Longrightarrow> length rest < length s"
  by (induction s arbitrary: content rest rule: read_escape.induct) (force split: if_splits)+

function tokens :: "backend \<Rightarrow> string \<Rightarrow> token list" where
  "tokens b [] = []"
| "tokens b (c # s) =
     (if c = CHR '' '' \<or> c = newline then tokens b s
      else if is_word c then
        (let w = c # takeWhile is_word s; rest = dropWhile is_word s in
         if b = Postgres \<and> w \<in> {''E'', ''e''} \<and> rest \<noteq> [] \<and> hd rest = squote
         then (case read_escape (tl rest) of None \<Rightarrow> [Bad] | Some (content, rest') \<Rightarrow> Literal content # tokens b rest')
         else Word w # tokens b rest)
      else if c = dquote then (case read_quoted dquote s of None \<Rightarrow> [Bad] | Some (content, rest) \<Rightarrow> Quoted content # tokens b rest)
      else if c = squote then (case read_quoted squote s of None \<Rightarrow> [Bad] | Some (content, rest) \<Rightarrow> Literal content # tokens b rest)
      else Sym c # tokens b s)"
  by pat_completeness auto
termination
proof (relation "measure (length \<circ> snd)", goal_cases)
  case (3 b c s w rest x content rest')
  have "length rest \<le> length s" using 3 by (simp add: length_dropWhile_le)
  moreover have "length rest' < length (tl rest)" using 3 read_escape_length by blast
  ultimately show ?case by (simp add: le_diff_conv)
next
  case (4 b c s w rest)
  then show ?case using length_dropWhile_le [of is_word s] by (simp add: le_imp_less_Suc)
qed (auto dest: read_quoted_length)

declare tokens.simps [simp del]

section \<open>Pieces of a statement\<close>

definition is_separator :: "char \<Rightarrow> bool" where
  "is_separator c \<longleftrightarrow> c \<in> {CHR '' '', newline, CHR ''('', CHR '')'', CHR '',''}"

definition boundary :: "string \<Rightarrow> bool" where
  "boundary s \<longleftrightarrow> s = [] \<or> is_separator (hd s)"

definition unquoted :: "string \<Rightarrow> bool" where
  "unquoted s \<longleftrightarrow> list_all (\<lambda>c. c \<noteq> dquote \<and> c \<noteq> squote) s"

lemma separator_not_word: "is_separator c \<Longrightarrow> \<not> is_word c \<and> c \<noteq> squote \<and> c \<noteq> dquote"
  by (auto simp: is_separator_def is_word_def is_ascii_alphanumeric_def is_ascii_digit_def less_eq_char_def)

lemma boundary_word:
  assumes "boundary rest"
  shows "takeWhile is_word (s @ rest) = takeWhile is_word s" "dropWhile is_word (s @ rest) = dropWhile is_word s @ rest"
proof -
  have "takeWhile is_word rest = []" "dropWhile is_word rest = rest"
    using assms separator_not_word by (cases rest; auto simp: boundary_def)+
  then show "takeWhile is_word (s @ rest) = takeWhile is_word s" "dropWhile is_word (s @ rest) = dropWhile is_word s @ rest"
    by (induction s) auto
qed

text \<open>Fixed text reads the same in both dialects, whatever comes after it.\<close>

lemma lex_unquoted:
  "unquoted s \<Longrightarrow> boundary rest \<Longrightarrow> tokens b (s @ rest) = tokens Sqlite s @ tokens b rest"
proof (induction "length s" arbitrary: s rule: less_induct)
  case less
  show ?case
  proof (cases s)
    case Nil
    then show ?thesis by (simp add: tokens.simps)
  next
    case (Cons c s')
    have dropped: "unquoted (dropWhile is_word s')" "length (dropWhile is_word s') < length s"
      using less.prems(1) by (auto simp: Cons unquoted_def list_all_iff length_dropWhile_le le_imp_less_Suc dest: set_dropWhileD)
    have "\<not> (dropWhile is_word s' @ rest \<noteq> [] \<and> hd (dropWhile is_word s' @ rest) = squote)"
    proof (cases "dropWhile is_word s'")
      case Nil
      show ?thesis using less.prems(2) separator_not_word [of "hd rest"] unfolding Nil boundary_def by auto
    next
      case (Cons d ds)
      show ?thesis using dropped(1) unfolding Cons unquoted_def by simp
    qed
    then show ?thesis
      using less.prems less.hyps [of s'] less.hyps [OF dropped(2,1)]
      by (simp add: Cons tokens.simps(2) boundary_word Let_def unquoted_def) blast
  qed
qed

lemma lex_separator: "is_separator c \<Longrightarrow> tokens b (c # rest) = tokens Sqlite [c] @ tokens b rest"
  using separator_not_word [of c] by (auto simp: tokens.simps is_separator_def)

lemma lex_unquoted_closed:
  assumes "unquoted s" and "s \<noteq> []" and "is_separator (last s)"
  shows "tokens b (s @ rest) = tokens Sqlite s @ tokens b rest"
proof -
  have s: "s = butlast s @ [last s]" and "unquoted (butlast s)"
    using assms by (auto simp: unquoted_def list_all_iff dest: in_set_butlastD)
  then have split: "tokens b' (butlast s @ last s # rest') = tokens Sqlite (butlast s) @ tokens Sqlite [last s] @ tokens b' rest'" for b' rest'
    using assms(3) by (simp add: lex_unquoted boundary_def lex_separator [of "last s" b'])
  show ?thesis
    using split [of b rest] split [of Sqlite "[]"] s by (metis append.assoc append_Cons append_Nil tokens.simps(1) append_Nil2)
qed

lemma lex_word:
  assumes "w \<noteq> []" and "list_all is_word w" and "boundary rest"
  shows "tokens b (w @ rest) = Word w # tokens b rest"
proof -
  have "unquoted w" using assms(2) by (auto simp: unquoted_def list_all_iff is_word_def is_ascii_alphanumeric_def is_ascii_digit_def less_eq_char_def)
  moreover have "tokens Sqlite w = [Word w]"
  proof (cases w)
    case (Cons c w')
    with assms(2) have word: "is_word c" "\<forall>x \<in> set w'. is_word x" by (auto simp: list_all_iff)
    moreover have "c \<noteq> CHR '' ''" "c \<noteq> newline"
      using word(1) by (auto simp: is_word_def is_ascii_alphanumeric_def is_ascii_digit_def less_eq_char_def)
    moreover have "dropWhile is_word w' = []" "takeWhile is_word w' = w'" using word(2) by (simp_all add: dropWhile_eq_Nil_conv takeWhile_eq_all_conv)
    ultimately show ?thesis by (simp add: Cons tokens.simps del: dropWhile_eq_Nil_conv takeWhile_eq_all_conv)
  qed (use assms(1) in simp)
  ultimately show ?thesis using lex_unquoted assms(3) by simp
qed

lemma read_quoted_plain: "q \<notin> set s \<Longrightarrow> boundary rest \<Longrightarrow> q \<in> {dquote, squote} \<Longrightarrow> read_quoted q (s @ q # rest) = Some (s, rest)"
proof (induction s)
  case Nil
  then show ?case using separator_not_word by (cases rest) (auto simp: boundary_def)
next
  case (Cons c s)
  then show ?case by (cases "s @ q # rest") auto
qed

lemma lex_quoted: "dquote \<notin> set s \<Longrightarrow> boundary rest \<Longrightarrow> tokens b ((dquote # s @ [dquote]) @ rest) = Quoted s # tokens b rest"
  by (simp add: tokens.simps(2) read_quoted_plain is_word_def is_ascii_alphanumeric_def is_ascii_digit_def less_eq_char_def)

text \<open>Doubling a quote, and for escape strings the backslash too, writes any content.\<close>

lemma read_quoted_doubled:
  "boundary rest \<Longrightarrow>
     read_quoted squote (concat (map (\<lambda>c. if c = squote then [squote, squote] else [c]) s) @ squote # rest) = Some (s, rest)"
proof (induction s)
  case Nil
  then show ?case using separator_not_word by (cases rest) (auto simp: boundary_def)
next
  case (Cons c s)
  then show ?case
    by (cases "concat (map (\<lambda>c. if c = squote then [squote, squote] else [c]) s) @ squote # rest") auto
qed

lemma read_escape_doubled:
  "boundary rest \<Longrightarrow>
     read_escape (concat (map (\<lambda>c. if c = squote then [squote, squote] else if c = backslash then [backslash, backslash] else [c]) s) @ squote # rest)
     = Some (s, rest)"
proof (induction s)
  case Nil
  then show ?case using separator_not_word by (cases rest) (auto simp: boundary_def)
next
  case (Cons c s)
  then show ?case
    by (cases "concat (map (\<lambda>c. if c = squote then [squote, squote] else if c = backslash then [backslash, backslash] else [c]) s) @ squote # rest")
       (auto simp: escaped_def)
qed

end
