(* ===== verification/Sql_Ddl.thy ===== *)
theory Sql_Ddl
  imports Sql_Lex "HOL-Library.Word"
begin

text \<open>
  \<^verbatim>\<open>crates/wafer-sql-utils/src/ddl.rs\<close> and \<^verbatim>\<open>ident.rs\<close> over the schema types of \<^verbatim>\<open>crates/wafer-schema\<close>: the text
  of \<^verbatim>\<open>CREATE TABLE\<close>, \<^verbatim>\<open>CREATE INDEX\<close>, \<^verbatim>\<open>ALTER TABLE ADD COLUMN\<close> and \<^verbatim>\<open>DROP TABLE\<close>.

  A float default is its 64 bits; \<^verbatim>\<open>f64\<close>'s \<^verbatim>\<open>Display\<close>, whose shortest-digits algorithm is not modelled, is the
  parameter \<open>show_f64\<close>.
\<close>

section \<open>Schemas\<close>

datatype data_type = TString | TText | TInt | TInt64 | TFloat | TBool | TDateTime | TJson | TBlob

datatype default_val = DString string | DInt int | DFloat "64 word" | DBool bool

datatype default_value = DNull | DNow | DValue default_val

definition default_now :: default_value where "default_now = DNow"
definition default_null :: default_value where "default_null = DNull"
definition default_zero :: default_value where "default_zero = DValue (DInt 0)"
definition default_empty :: default_value where "default_empty = DValue (DString [])"
definition default_false :: default_value where "default_false = DValue (DBool False)"
definition default_true :: default_value where "default_true = DValue (DBool True)"
definition default_int :: "int \<Rightarrow> default_value" where "default_int v = DValue (DInt v)"
definition default_string :: "string \<Rightarrow> default_value" where "default_string v = DValue (DString v)"

record reference =
  rf_table :: string
  rf_column :: string
  rf_on_delete :: string
  rf_on_update :: string

record sql_index =
  ix_name :: string
  ix_columns :: "string list"
  ix_unique :: bool

record column =
  cl_name :: string
  cl_data_type :: data_type
  cl_nullable :: bool
  cl_primary_key :: bool
  cl_auto_increment :: bool
  cl_unique :: bool
  cl_default :: "default_value option"
  cl_references :: "reference option"

record table =
  tb_name :: string
  tb_columns :: "column list"
  tb_indexes :: "sql_index list"
  tb_primary_key :: "string list"
  tb_unique_keys :: "string list list"

definition column_new :: "string \<Rightarrow> data_type \<Rightarrow> column" where
  "column_new name dt =
     \<lparr>cl_name = name, cl_data_type = dt, cl_nullable = False, cl_primary_key = False, cl_auto_increment = False,
      cl_unique = False, cl_default = None, cl_references = None\<rparr>"

definition not_null :: "column \<Rightarrow> column" where "not_null c = c\<lparr>cl_nullable := False\<rparr>"
definition null_column :: "column \<Rightarrow> column" where "null_column c = c\<lparr>cl_nullable := True\<rparr>"
definition def_column :: "column \<Rightarrow> default_value \<Rightarrow> column" where "def_column c d = c\<lparr>cl_default := Some d\<rparr>"

definition reference_column :: "column \<Rightarrow> string \<Rightarrow> string \<Rightarrow> column" where
  "reference_column c tb col =
     c\<lparr>cl_references := Some \<lparr>rf_table = tb, rf_column = col, rf_on_delete = ''CASCADE'', rf_on_update = []\<rparr>\<rparr>"

definition pk :: "string \<Rightarrow> column" where
  "pk name = (column_new name TString)\<lparr>cl_primary_key := True\<rparr>"

definition pk_int :: "string \<Rightarrow> column" where
  "pk_int name = (column_new name TInt)\<lparr>cl_primary_key := True, cl_auto_increment := True\<rparr>"

definition col_string :: "string \<Rightarrow> column" where "col_string name = column_new name TString"
definition col_text :: "string \<Rightarrow> column" where "col_text name = column_new name TText"
definition col_int :: "string \<Rightarrow> column" where "col_int name = column_new name TInt"
definition col_int64 :: "string \<Rightarrow> column" where "col_int64 name = column_new name TInt64"
definition col_float :: "string \<Rightarrow> column" where "col_float name = column_new name TFloat"
definition col_bool :: "string \<Rightarrow> column" where "col_bool name = column_new name TBool"
definition col_datetime :: "string \<Rightarrow> column" where "col_datetime name = column_new name TDateTime"
definition col_json :: "string \<Rightarrow> column" where "col_json name = column_new name TJson"
definition col_blob :: "string \<Rightarrow> column" where "col_blob name = column_new name TBlob"

definition timestamps :: "column list" where
  "timestamps =
     [def_column (not_null (col_datetime ''created_at'')) default_now,
      def_column (not_null (col_datetime ''updated_at'')) default_now]"

definition soft_delete :: column where
  "soft_delete = null_column (col_datetime ''deleted_at'')"

definition table_new :: "string \<Rightarrow> table" where
  "table_new name = \<lparr>tb_name = name, tb_columns = [], tb_indexes = [], tb_primary_key = [], tb_unique_keys = []\<rparr>"

section \<open>Identifiers\<close>

datatype sql_build_error =
    InvalidFkAction string
  | InvalidIdentifier string
  | InvalidDefault string
  | ZeroLimit
  | OffsetWithoutLimit int
  | DuplicateColumn string
  | InvalidHaving string

text \<open>A DDL statement binds no parameters, so the values of \<^verbatim>\<open>Statement\<close> are always empty and left out.\<close>

record statement =
  st_sql :: string
  st_collection :: string

definition MAX_IDENT_LEN :: nat where "MAX_IDENT_LEN = 63"

definition is_plain_ident :: "string \<Rightarrow> bool" where
  "is_plain_ident name \<longleftrightarrow>
     name \<noteq> [] \<and> length name \<le> MAX_IDENT_LEN
     \<and> list_all (\<lambda>b. (CHR ''a'' \<le> b \<and> b \<le> CHR ''z'') \<or> is_ascii_digit b \<or> b = CHR ''_'') name"

definition validate_ident :: "string \<Rightarrow> sql_build_error + string" where
  "validate_ident name = (if \<not> is_plain_ident name then Inl (InvalidIdentifier name) else Inr name)"

definition quote_ident :: "string \<Rightarrow> sql_build_error + string" where
  "quote_ident name = and_then (validate_ident name) (\<lambda>n. Inr (dquote # n @ [dquote]))"

definition ascii_upper :: "char \<Rightarrow> char" where
  "ascii_upper c = (if CHR ''a'' \<le> c \<and> c \<le> CHR ''z'' then char_of (of_char c - 32 :: nat) else c)"

definition validate_fk_action :: "string \<Rightarrow> sql_build_error + string" where
  "validate_fk_action action =
     (let canonical = map ascii_upper (str_trim action) in
      if canonical = ''CASCADE'' then Inr ''CASCADE''
      else if canonical = ''SET NULL'' then Inr ''SET NULL''
      else if canonical = ''SET DEFAULT'' then Inr ''SET DEFAULT''
      else if canonical = ''NO ACTION'' then Inr ''NO ACTION''
      else if canonical = ''RESTRICT'' then Inr ''RESTRICT''
      else Inl (InvalidFkAction action))"

section \<open>Columns\<close>

definition SQLITE_JSON_TYPE :: string where "SQLITE_JSON_TYPE = ''JSON TEXT''"

fun data_type_to_sql :: "data_type \<Rightarrow> backend \<Rightarrow> string" where
  "data_type_to_sql dt Sqlite =
     (case dt of TString \<Rightarrow> ''TEXT'' | TText \<Rightarrow> ''TEXT'' | TInt \<Rightarrow> ''INTEGER'' | TInt64 \<Rightarrow> ''INTEGER'' | TFloat \<Rightarrow> ''REAL''
      | TBool \<Rightarrow> ''INTEGER'' | TDateTime \<Rightarrow> ''DATETIME'' | TJson \<Rightarrow> SQLITE_JSON_TYPE | TBlob \<Rightarrow> ''BLOB'')"
| "data_type_to_sql dt Postgres =
     (case dt of TString \<Rightarrow> ''TEXT'' | TText \<Rightarrow> ''TEXT'' | TInt \<Rightarrow> ''INTEGER'' | TInt64 \<Rightarrow> ''BIGINT'' | TFloat \<Rightarrow> ''DOUBLE PRECISION''
      | TBool \<Rightarrow> ''BOOLEAN'' | TDateTime \<Rightarrow> ''TIMESTAMPTZ'' | TJson \<Rightarrow> ''JSONB'' | TBlob \<Rightarrow> ''BYTEA'')"

definition string_literal :: "string \<Rightarrow> backend \<Rightarrow> sql_build_error + string" where
  "string_literal s b =
     (if CHR 0x00 \<in> set s then Inl (InvalidDefault ''a string default cannot contain a NUL character'')
      else Inr (case b of
                  Sqlite \<Rightarrow> [squote] @ replace_char squote [squote, squote] s @ [squote]
                | Postgres \<Rightarrow> ''E'' @ [squote]
                    @ replace_char squote [squote, squote] (replace_char backslash [backslash, backslash] s) @ [squote]))"

definition show_int :: "int \<Rightarrow> string" where
  "show_int i = (if i < 0 then ''-'' @ show_nat (nat (- i)) else show_nat (nat i))"

text \<open>\<^verbatim>\<open>f64::is_finite\<close>: the exponent is not all ones.\<close>

definition f64_is_finite :: "64 word \<Rightarrow> bool" where
  "f64_is_finite f \<longleftrightarrow> take_bit 11 (drop_bit 52 f) \<noteq> 2047"

definition default_to_sql :: "(64 word \<Rightarrow> string) \<Rightarrow> default_value \<Rightarrow> backend \<Rightarrow> sql_build_error + string" where
  "default_to_sql show_f64 d b =
     (case d of
        DNull \<Rightarrow> Inr ''NULL''
      | DNow \<Rightarrow> Inr (case b of Sqlite \<Rightarrow> ''CURRENT_TIMESTAMP'' | Postgres \<Rightarrow> ''NOW()'')
      | DValue (DString s) \<Rightarrow> string_literal s b
      | DValue (DInt i) \<Rightarrow> Inr (show_int i)
      | DValue (DFloat f) \<Rightarrow>
          (if f64_is_finite f then Inr (show_f64 f) else Inl (InvalidDefault (show_f64 f @ '' has no SQL literal'')))
      | DValue (DBool v) \<Rightarrow>
          Inr (case b of Sqlite \<Rightarrow> if v then ''1'' else ''0'' | Postgres \<Rightarrow> if v then ''TRUE'' else ''FALSE''))"

definition column_to_sql :: "(64 word \<Rightarrow> string) \<Rightarrow> column \<Rightarrow> backend \<Rightarrow> sql_build_error + string" where
  "column_to_sql show_f64 col b =
     and_then (quote_ident (cl_name col)) (\<lambda>qname.
       let sql = qname @ '' '' @ data_type_to_sql (cl_data_type col) b;
           sql = (if cl_primary_key col \<and> \<not> cl_auto_increment col then sql @ '' PRIMARY KEY'' else sql)
       in if cl_auto_increment col \<and> b = Postgres
          then (let s = qname @ '' SERIAL PRIMARY KEY'' in
                case cl_default col of
                  Some d \<Rightarrow> and_then (default_to_sql show_f64 d b) (\<lambda>v. Inr (s @ '' DEFAULT '' @ v))
                | None \<Rightarrow> Inr s)
          else
            (let sql = (if cl_auto_increment col then qname @ '' INTEGER PRIMARY KEY AUTOINCREMENT'' else sql);
                 sql = (if \<not> cl_nullable col \<and> \<not> cl_primary_key col then sql @ '' NOT NULL'' else sql);
                 sql = (if cl_unique col \<and> \<not> cl_primary_key col then sql @ '' UNIQUE'' else sql)
             in case cl_default col of
                  Some d \<Rightarrow> and_then (default_to_sql show_f64 d b) (\<lambda>v. Inr (sql @ '' DEFAULT '' @ v))
                | None \<Rightarrow> Inr sql))"

section \<open>Statements\<close>

definition quoted_list :: "string list \<Rightarrow> sql_build_error + string" where
  "quoted_list names = and_then (traverse quote_ident names) (\<lambda>quoted. Inr (join_with '', '' quoted))"

definition unique_key_sql :: "string list \<Rightarrow> sql_build_error + string" where
  "unique_key_sql uk = and_then (quoted_list uk) (\<lambda>q. Inr ('','' @ [newline] @ ''    UNIQUE('' @ q @ '')''))"

definition fk_clause :: "string \<Rightarrow> string \<Rightarrow> sql_build_error + string" where
  "fk_clause keyword action =
     (if action = [] then Inr [] else and_then (validate_fk_action action) (\<lambda>a. Inr (keyword @ a)))"

definition foreign_key_sql :: "column \<Rightarrow> sql_build_error + string" where
  "foreign_key_sql col =
     (case cl_references col of
        None \<Rightarrow> Inr []
      | Some refs \<Rightarrow>
          and_then (quote_ident (cl_name col)) (\<lambda>c.
          and_then (quote_ident (rf_table refs)) (\<lambda>t.
          and_then (quote_ident (rf_column refs)) (\<lambda>rc.
          and_then (fk_clause '' ON DELETE '' (rf_on_delete refs)) (\<lambda>del.
          and_then (fk_clause '' ON UPDATE '' (rf_on_update refs)) (\<lambda>upd.
            Inr ('','' @ [newline] @ ''    FOREIGN KEY ('' @ c @ '') REFERENCES '' @ t @ ''('' @ rc @ '')'' @ del @ upd)))))))"

definition build_create_table :: "(64 word \<Rightarrow> string) \<Rightarrow> table \<Rightarrow> backend \<Rightarrow> sql_build_error + statement" where
  "build_create_table show_f64 tb b =
     and_then (quote_ident (tb_name tb)) (\<lambda>qtable.
     and_then (traverse (\<lambda>c. column_to_sql show_f64 c b) (tb_columns tb)) (\<lambda>cols.
     and_then (if tb_primary_key tb = [] then Inr []
               else and_then (quoted_list (tb_primary_key tb)) (\<lambda>q.
                      Inr ('','' @ [newline] @ ''    PRIMARY KEY('' @ q @ '')''))) (\<lambda>pks.
     and_then (traverse unique_key_sql (tb_unique_keys tb)) (\<lambda>uks.
     and_then (traverse foreign_key_sql (tb_columns tb)) (\<lambda>fks.
       Inr \<lparr>st_sql = ''CREATE TABLE IF NOT EXISTS '' @ qtable @ '' ('' @ [newline]
              @ join_with ('','' @ [newline]) (map (\<lambda>c. ''    '' @ c) cols) @ pks @ concat uks @ concat fks
              @ [newline] @ '')'',
            st_collection = tb_name tb\<rparr>)))))"

definition index_name :: "string \<Rightarrow> sql_index \<Rightarrow> sql_build_error + string" where
  "index_name table_name idx =
     (if ix_name idx = [] then
        and_then (validate_ident table_name) (\<lambda>t.
        and_then (traverse validate_ident (ix_columns idx)) (\<lambda>cols.
          Inr (''idx_'' @ t @ concat (map (\<lambda>c. ''_'' @ c) cols))))
      else validate_ident (ix_name idx))"

definition build_create_index :: "string \<Rightarrow> sql_index \<Rightarrow> backend \<Rightarrow> sql_build_error + statement" where
  "build_create_index table_name idx b =
     and_then (index_name table_name idx) (\<lambda>name.
     and_then (quote_ident table_name) (\<lambda>t.
     and_then (quoted_list (ix_columns idx)) (\<lambda>cols.
       Inr \<lparr>st_sql = ''CREATE '' @ (if ix_unique idx then ''UNIQUE '' else []) @ ''INDEX IF NOT EXISTS '' @ name
              @ '' ON '' @ t @ ''('' @ cols @ '')'',
            st_collection = table_name\<rparr>)))"

definition build_fk_indexes :: "table \<Rightarrow> backend \<Rightarrow> sql_build_error + statement list" where
  "build_fk_indexes tb b =
     traverse (\<lambda>col. build_create_index (tb_name tb) \<lparr>ix_name = [], ix_columns = [cl_name col], ix_unique = False\<rparr> b)
       (filter (\<lambda>col. cl_references col \<noteq> None) (tb_columns tb))"

definition build_add_column :: "(64 word \<Rightarrow> string) \<Rightarrow> string \<Rightarrow> column \<Rightarrow> backend \<Rightarrow> sql_build_error + statement" where
  "build_add_column show_f64 table_name col b =
     and_then (quote_ident table_name) (\<lambda>t.
     and_then (column_to_sql show_f64 col b) (\<lambda>c.
       Inr \<lparr>st_sql = ''ALTER TABLE '' @ t @ '' ADD COLUMN '' @ c, st_collection = table_name\<rparr>))"

definition build_drop_table :: "string \<Rightarrow> backend \<Rightarrow> sql_build_error + statement" where
  "build_drop_table table_name b =
     and_then (quote_ident table_name) (\<lambda>t.
       Inr \<lparr>st_sql = ''DROP TABLE IF EXISTS '' @ t, st_collection = table_name\<rparr>)"

section \<open>What a statement says\<close>

definition KEYWORDS :: "string list" where
  "KEYWORDS =
     [''CREATE'', ''TABLE'', ''IF'', ''NOT'', ''EXISTS'', ''UNIQUE'', ''INDEX'', ''ON'', ''ALTER'', ''ADD'', ''COLUMN'', ''DROP'',
      ''PRIMARY'', ''KEY'', ''FOREIGN'', ''REFERENCES'', ''DELETE'', ''UPDATE'', ''CASCADE'', ''SET'', ''NULL'', ''DEFAULT'', ''NO'',
      ''ACTION'', ''RESTRICT'', ''TEXT'', ''INTEGER'', ''REAL'', ''DATETIME'', ''JSON'', ''BLOB'', ''BIGINT'', ''DOUBLE'', ''PRECISION'',
      ''BOOLEAN'', ''TIMESTAMPTZ'', ''JSONB'', ''BYTEA'', ''SERIAL'', ''AUTOINCREMENT'', ''CURRENT_TIMESTAMP'', ''NOW'', ''TRUE'', ''FALSE'']"

definition names_of :: "token list \<Rightarrow> string list" where
  "names_of ts = concat (map (\<lambda>t. case t of Quoted n \<Rightarrow> [n] | _ \<Rightarrow> []) ts)"

definition literals_of :: "token list \<Rightarrow> string list" where
  "literals_of ts = concat (map (\<lambda>t. case t of Literal s \<Rightarrow> [s] | _ \<Rightarrow> []) ts)"

definition is_number :: "string \<Rightarrow> bool" where
  "is_number w \<longleftrightarrow> w \<noteq> [] \<and> list_all (\<lambda>c. is_ascii_digit c \<or> c = CHR ''.'') w"

text \<open>Keywords, numbers, the bare names \<open>bare\<close>, and no symbol that could end a statement.\<close>

fun inert :: "string set \<Rightarrow> token \<Rightarrow> bool" where
  "inert bare (Word w) \<longleftrightarrow> w \<in> set KEYWORDS \<or> is_number w \<or> w \<in> bare"
| "inert bare (Sym c) \<longleftrightarrow> c \<in> {CHR ''('', CHR '')'', CHR '','', CHR ''-''}"
| "inert bare Bad \<longleftrightarrow> False"
| "inert bare _ \<longleftrightarrow> True"

fun is_fixed :: "token \<Rightarrow> bool" where
  "is_fixed (Word w) \<longleftrightarrow> w \<in> set KEYWORDS \<or> is_number w"
| "is_fixed (Sym c) \<longleftrightarrow> c \<in> {CHR ''('', CHR '')'', CHR '','', CHR ''-''}"
| "is_fixed _ \<longleftrightarrow> False"

definition says :: "string set \<Rightarrow> token list \<Rightarrow> string list \<Rightarrow> string list \<Rightarrow> bool" where
  "says bare ts ns ls \<longleftrightarrow> names_of ts = ns \<and> literals_of ts = ls \<and> list_all (inert bare) ts"

lemma says_append: "says bare ts ns ls \<Longrightarrow> says bare ts' ns' ls' \<Longrightarrow> says bare (ts @ ts') (ns @ ns') (ls @ ls')"
  by (simp add: says_def names_of_def literals_of_def)

lemma says_fixed: "list_all is_fixed ts \<Longrightarrow> says bare ts [] []"
proof (induction ts)
  case (Cons t ts)
  then show ?case by (cases t) (auto simp: says_def names_of_def literals_of_def)
qed (simp add: says_def names_of_def literals_of_def)

text \<open>A piece of a statement reads alone what it reads before a boundary; an opening piece before
  anything.\<close>

definition piece :: "backend \<Rightarrow> string set \<Rightarrow> string \<Rightarrow> string list \<Rightarrow> string list \<Rightarrow> bool" where
  "piece b bare p ns ls \<longleftrightarrow>
     (\<forall>rest. boundary rest \<longrightarrow> (\<exists>ts. tokens b (p @ rest) = ts @ tokens b rest \<and> says bare ts ns ls))"

definition opener :: "backend \<Rightarrow> string set \<Rightarrow> string \<Rightarrow> string list \<Rightarrow> string list \<Rightarrow> bool" where
  "opener b bare p ns ls \<longleftrightarrow>
     (\<forall>rest. \<exists>ts. tokens b (p @ rest) = ts @ tokens b rest \<and> says bare ts ns ls)"

lemma opener_piece: "opener b bare p ns ls \<Longrightarrow> piece b bare p ns ls"
  by (simp add: opener_def piece_def)

lemma boundary_append: "boundary p \<Longrightarrow> boundary rest \<Longrightarrow> boundary (p @ rest)"
  by (cases p) (simp_all add: boundary_def)

lemma piece_append:
  assumes "piece b bare p ns ls" and "piece b bare p' ns' ls'" and "boundary p'"
  shows "piece b bare (p @ p') (ns @ ns') (ls @ ls')"
  unfolding piece_def
proof (intro allI impI)
  fix rest assume rest: "boundary rest"
  then obtain ts' where ts': "tokens b (p' @ rest) = ts' @ tokens b rest" "says bare ts' ns' ls'"
    using assms(2) by (auto simp: piece_def)
  obtain ts where "tokens b (p @ p' @ rest) = ts @ tokens b (p' @ rest)" "says bare ts ns ls"
    using assms(1,3) boundary_append [OF _ rest] by (auto simp: piece_def)
  with ts' show "\<exists>ts. tokens b ((p @ p') @ rest) = ts @ tokens b rest \<and> says bare ts (ns @ ns') (ls @ ls')"
    by (intro exI [of _ "ts @ ts'"]) (simp add: says_append)
qed

lemma opener_append_piece:
  assumes "opener b bare p ns ls" and "piece b bare p' ns' ls'"
  shows "piece b bare (p @ p') (ns @ ns') (ls @ ls')"
  unfolding piece_def
proof (intro allI impI)
  fix rest assume "boundary rest"
  then obtain ts' where ts': "tokens b (p' @ rest) = ts' @ tokens b rest" "says bare ts' ns' ls'"
    using assms(2) by (auto simp: piece_def)
  obtain ts where "tokens b (p @ p' @ rest) = ts @ tokens b (p' @ rest)" "says bare ts ns ls"
    using assms(1) unfolding opener_def by blast
  with ts' show "\<exists>ts. tokens b ((p @ p') @ rest) = ts @ tokens b rest \<and> says bare ts (ns @ ns') (ls @ ls')"
    by (intro exI [of _ "ts @ ts'"]) (simp add: says_append)
qed

lemma piece_append_opener:
  assumes "piece b bare p ns ls" and "opener b bare p' ns' ls'" and "p' \<noteq> []" and "boundary p'"
  shows "opener b bare (p @ p') (ns @ ns') (ls @ ls')"
  unfolding opener_def
proof
  fix rest
  obtain ts' where ts': "tokens b (p' @ rest) = ts' @ tokens b rest" "says bare ts' ns' ls'"
    using assms(2) unfolding opener_def by blast
  have "boundary (p' @ rest)" using assms(3,4) by (simp add: boundary_def)
  then obtain ts where "tokens b (p @ p' @ rest) = ts @ tokens b (p' @ rest)" "says bare ts ns ls"
    using assms(1) unfolding piece_def by blast
  with ts' show "\<exists>ts. tokens b ((p @ p') @ rest) = ts @ tokens b rest \<and> says bare ts (ns @ ns') (ls @ ls')"
    by (intro exI [of _ "ts @ ts'"]) (simp add: says_append)
qed

lemma piece_Nil: "piece b bare [] [] []"
  by (auto simp: piece_def says_def names_of_def literals_of_def)

lemma piece_tokens: "piece b bare p ns ls \<Longrightarrow> says bare (tokens b p) ns ls"
  unfolding piece_def by (drule spec [of _ "[]"]) (auto simp: boundary_def tokens.simps)

lemma fixed_opener:
  "unquoted s \<Longrightarrow> s \<noteq> [] \<Longrightarrow> is_separator (last s) \<Longrightarrow> list_all is_fixed (tokens Sqlite s) \<Longrightarrow> opener b bare s [] []"
  unfolding opener_def using lex_unquoted_closed says_fixed by metis

lemma fixed_piece: "unquoted s \<Longrightarrow> list_all is_fixed (tokens Sqlite s) \<Longrightarrow> piece b bare s [] []"
  unfolding piece_def using lex_unquoted says_fixed by metis

section \<open>The fixed texts\<close>

definition open_texts :: "string list" where
  "open_texts =
     ['' '', ''    '', '' DEFAULT '', '', '', '','' @ [newline], '','' @ [newline] @ ''    UNIQUE('', '','' @ [newline] @ ''    PRIMARY KEY('',
      '','' @ [newline] @ ''    FOREIGN KEY ('', '' ON DELETE '', '' ON UPDATE '', '') REFERENCES '', ''('', '')'', [newline] @ '')'',
      ''CREATE TABLE IF NOT EXISTS '', '' ('' @ [newline], ''CREATE '', ''UNIQUE '', ''INDEX IF NOT EXISTS '', '' ON '', ''ALTER TABLE '',
      '' ADD COLUMN '', ''DROP TABLE IF EXISTS '']"

definition word_texts :: "string list" where
  "word_texts =
     ['' PRIMARY KEY'', '' SERIAL PRIMARY KEY'', '' INTEGER PRIMARY KEY AUTOINCREMENT'', '' NOT NULL'', '' UNIQUE'',
      ''TEXT'', ''INTEGER'', ''REAL'', ''DATETIME'', ''JSON TEXT'', ''BLOB'', ''BIGINT'', ''DOUBLE PRECISION'', ''BOOLEAN'', ''TIMESTAMPTZ'',
      ''JSONB'', ''BYTEA'', ''NULL'', ''CURRENT_TIMESTAMP'', ''NOW()'', ''1'', ''0'', ''TRUE'', ''FALSE'',
      ''CASCADE'', ''SET NULL'', ''SET DEFAULT'', ''NO ACTION'', ''RESTRICT'']"

text \<open>A text whose words, cut at the separators, are all keywords or digits.\<close>

fun cut_words :: "string \<Rightarrow> string \<Rightarrow> string list" where
  "cut_words w [] = [w]"
| "cut_words w (c # s) = (if is_separator c then w # cut_words [] s else cut_words (w @ [c]) s)"

definition plain_word :: "string \<Rightarrow> bool" where
  "plain_word w \<longleftrightarrow> w = [] \<or> w = ''0'' \<or> w = ''1'' \<or> w \<in> set KEYWORDS"

lemma keywords_are_words: "w \<in> set KEYWORDS \<Longrightarrow> w \<noteq> [] \<and> list_all is_word w"
proof -
  have "list_all (\<lambda>w. w \<noteq> [] \<and> list_all is_word w) KEYWORDS"
    by (simp add: KEYWORDS_def is_word_def is_ascii_alphanumeric_def is_ascii_digit_def less_eq_char_def)
  then show "w \<in> set KEYWORDS \<Longrightarrow> w \<noteq> [] \<and> list_all is_word w" by (simp add: list_all_iff)
qed

lemma plain_word_tokens:
  assumes "plain_word w" and "boundary rest"
  shows "tokens Sqlite (w @ rest) = (if w = [] then [] else [Word w]) @ tokens Sqlite rest"
    and "list_all is_fixed (if w = [] then [] else [Word w])" and "unquoted w"
proof -
  have w: "w = [] \<or> w \<noteq> [] \<and> list_all is_word w"
    using assms(1) keywords_are_words by (auto simp: plain_word_def is_word_def is_ascii_alphanumeric_def is_ascii_digit_def less_eq_char_def)
  then show "tokens Sqlite (w @ rest) = (if w = [] then [] else [Word w]) @ tokens Sqlite rest"
    using lex_word assms(2) by auto
  show "list_all is_fixed (if w = [] then [] else [Word w])"
    using assms(1) by (auto simp: plain_word_def is_number_def is_ascii_digit_def less_eq_char_def)
  show "unquoted w"
    using w by (auto simp: unquoted_def list_all_iff is_word_def is_ascii_alphanumeric_def is_ascii_digit_def less_eq_char_def)
qed

lemma separator_fixed: "is_separator c \<Longrightarrow> list_all is_fixed (tokens Sqlite [c])"
  using separator_not_word [of c] by (auto simp: is_separator_def tokens.simps)

lemma fixed_by_words:
  "list_all plain_word (cut_words w s) \<Longrightarrow> list_all is_fixed (tokens Sqlite (w @ s)) \<and> unquoted (w @ s)"
proof (induction s arbitrary: w)
  case Nil
  then show ?case using plain_word_tokens [of w "[]"] by (auto simp: boundary_def tokens.simps split: if_splits)
next
  case (Cons c s)
  show ?case
  proof (cases "is_separator c")
    case True
    then have "boundary (c # s)" by (simp add: boundary_def)
    moreover have "unquoted [c]" using separator_not_word [OF True] by (simp add: unquoted_def)
    moreover have "plain_word w" "list_all is_fixed (tokens Sqlite s)" "unquoted s"
      using Cons.prems Cons.IH [of "[]"] True by simp_all
    ultimately have "tokens Sqlite (w @ c # s) = (if w = [] then [] else [Word w]) @ tokens Sqlite [c] @ tokens Sqlite s"
      and "list_all is_fixed (if w = [] then [] else [Word w])" and "unquoted (w @ c # s)"
      using plain_word_tokens [of w "c # s"] lex_separator [OF True, of Sqlite s] by (simp_all add: unquoted_def)
    with separator_fixed [OF True] \<open>list_all is_fixed (tokens Sqlite s)\<close> show ?thesis by (simp only: list_all_append)
  next
    case False
    then show ?thesis using Cons.prems Cons.IH [of "w @ [c]"] by simp
  qed
qed

lemma open_texts_words: "list_all (\<lambda>s. s \<noteq> [] \<and> is_separator (last s) \<and> list_all plain_word (cut_words [] s)) open_texts"
  by (simp add: open_texts_def is_separator_def plain_word_def KEYWORDS_def)

lemma word_texts_words: "list_all (\<lambda>s. list_all plain_word (cut_words [] s)) word_texts"
  by (simp add: word_texts_def is_separator_def plain_word_def KEYWORDS_def)

lemma open_texts_fixed:
  "list_all (\<lambda>s. unquoted s \<and> s \<noteq> [] \<and> is_separator (last s) \<and> list_all is_fixed (tokens Sqlite s)) open_texts"
  using open_texts_words fixed_by_words [of "[]"] unfolding list_all_iff [of _ open_texts] by auto

lemma word_texts_fixed: "list_all (\<lambda>s. unquoted s \<and> list_all is_fixed (tokens Sqlite s)) word_texts"
  using word_texts_words fixed_by_words [of "[]"] unfolding list_all_iff [of _ word_texts] by auto

lemma open_text: "s \<in> set open_texts \<Longrightarrow> opener b bare s [] []"
  using open_texts_fixed unfolding list_all_iff [of _ open_texts] by (auto intro: fixed_opener)

lemma word_text: "s \<in> set word_texts \<Longrightarrow> piece b bare s [] []"
  using word_texts_fixed unfolding list_all_iff [of _ word_texts] by (auto intro: fixed_piece)

text \<open>Fixed text around pieces.\<close>

lemma open_then: "s \<in> set open_texts \<Longrightarrow> piece b bare p ns ls \<Longrightarrow> piece b bare (s @ p) ns ls"
  using opener_append_piece [OF open_text] by fastforce

lemma then_word: "piece b bare p ns ls \<Longrightarrow> s \<in> set word_texts \<Longrightarrow> boundary s \<Longrightarrow> piece b bare (p @ s) ns ls"
  using piece_append [OF _ word_text] by fastforce

lemma then_open:
  "piece b bare p ns ls \<Longrightarrow> s \<in> set open_texts \<Longrightarrow> boundary s \<Longrightarrow> piece b bare p' ns' ls'
     \<Longrightarrow> piece b bare (p @ s @ p') (ns @ ns') (ls @ ls')"
proof (rule piece_append)
  assume "s \<in> set open_texts" "boundary s"
  moreover have "s \<noteq> []" using \<open>s \<in> set open_texts\<close> open_texts_fixed by (auto simp: list_all_iff)
  ultimately show "boundary (s @ p')" by (simp add: boundary_def)
qed (simp_all add: open_then)

lemma then_close: "piece b bare p ns ls \<Longrightarrow> s \<in> set open_texts \<Longrightarrow> boundary s \<Longrightarrow> piece b bare (p @ s) ns ls"
  using then_open [OF _ _ _ piece_Nil] by fastforce

section \<open>The pieces of a column\<close>

lemma validate_ident_Inr: "validate_ident n = Inr m \<longleftrightarrow> is_plain_ident n \<and> m = n"
  by (auto simp: validate_ident_def)

lemma plain_ident_chars:
  "is_plain_ident n \<Longrightarrow> n \<noteq> [] \<and> list_all is_word n \<and> dquote \<notin> set n"
  by (auto simp: is_plain_ident_def list_all_iff is_word_def is_ascii_alphanumeric_def is_ascii_digit_def less_eq_char_def)

lemma piece_quote_ident: "quote_ident n = Inr q \<Longrightarrow> piece b bare q [n] []"
  unfolding quote_ident_def validate_ident_def and_then_eq_Inr piece_def
  using lex_quoted plain_ident_chars
  by (auto split: if_splits simp: says_def names_of_def literals_of_def intro!: exI [of _ "[Quoted n]"])

lemma replace_both:
  "replace_char squote [squote, squote] (replace_char backslash [backslash, backslash] s) =
     concat (map (\<lambda>c. if c = squote then [squote, squote] else if c = backslash then [backslash, backslash] else [c]) s)"
  by (induction s) (auto simp: replace_char_def)

lemma literal_not_word [simp]: "\<not> is_word squote" "is_word CHR ''E''"
  by (simp_all add: is_word_def is_ascii_alphanumeric_def is_ascii_digit_def less_eq_char_def)

lemma piece_string_literal:
  assumes "string_literal s b = Inr p"
  shows "piece b bare p [] [s]"
proof -
  have "tokens b (p @ rest) = Literal s # tokens b rest" if "boundary rest" for rest
  proof (cases b)
    case Sqlite
    then have "p = [squote] @ replace_char squote [squote, squote] s @ [squote]"
      using assms by (simp add: string_literal_def split: if_splits)
    then show ?thesis
      using read_quoted_doubled [OF that, of s] by (simp add: tokens.simps(2) replace_char_def)
  next
    case Postgres
    then have "p = ''E'' @ [squote] @ replace_char squote [squote, squote] (replace_char backslash [backslash, backslash] s) @ [squote]"
      using assms by (simp add: string_literal_def split: if_splits)
    then show ?thesis
      using read_escape_doubled [OF that, of s] Postgres by (simp add: tokens.simps(2) replace_both)
  qed
  then show ?thesis
    by (auto simp: piece_def says_def names_of_def literals_of_def intro!: exI [of _ "[Literal s]"])
qed

lemma piece_number: "is_number w \<Longrightarrow> piece b bare w [] []"
proof -
  assume w: "is_number w"
  then have "w \<noteq> []" "list_all is_word w"
    by (auto simp: is_number_def list_all_iff is_word_def is_ascii_alphanumeric_def)
  then show ?thesis
    using lex_word w by (auto simp: piece_def says_def names_of_def literals_of_def intro!: exI [of _ "[Word w]"])
qed

lemma piece_minus: "piece b bare p ns ls \<Longrightarrow> piece b bare (CHR ''-'' # p) ns ls"
proof -
  assume p: "piece b bare p ns ls"
  have "tokens b (CHR ''-'' # s) = Sym CHR ''-'' # tokens b s" for s
    by (simp add: tokens.simps(2) is_word_def is_ascii_alphanumeric_def is_ascii_digit_def less_eq_char_def)
  then have "opener b bare [CHR ''-''] [] []"
    by (auto simp: opener_def says_def names_of_def literals_of_def intro!: exI [of _ "[Sym CHR ''-'']"])
  from opener_append_piece [OF this p] show ?thesis by simp
qed

text \<open>\<^verbatim>\<open>f64\<close>'s \<^verbatim>\<open>Display\<close> writes a finite float in decimal, without an exponent.\<close>

definition decimal_floats :: "(64 word \<Rightarrow> string) \<Rightarrow> bool" where
  "decimal_floats show_f64 \<longleftrightarrow>
     (\<forall>f. f64_is_finite f \<longrightarrow> is_number (show_f64 f) \<or> (\<exists>w. show_f64 f = CHR ''-'' # w \<and> is_number w))"

definition default_literals :: "default_value option \<Rightarrow> string list" where
  "default_literals d = (case d of Some (DValue (DString s)) \<Rightarrow> [s] | _ \<Rightarrow> [])"

lemma show_nat_number: "is_number (show_nat n)"
  using show_nat_chars [of _ n] by (auto simp: is_number_def list_all_iff)

lemma piece_default:
  assumes "decimal_floats show_f64" and "default_to_sql show_f64 d b = Inr v"
  shows "piece b bare v [] (default_literals (Some d))"
proof -
  show ?thesis
  proof (cases d)
    case DNull
    with assms(2) show ?thesis by (auto simp: default_to_sql_def default_literals_def word_texts_def intro!: word_text)
  next
    case DNow
    with assms(2) show ?thesis
      by (cases b) (auto simp: default_to_sql_def default_literals_def word_texts_def intro!: word_text)
  next
    case (DValue x)
    show ?thesis
    proof (cases x)
      case (DString s)
      with assms(2) DValue show ?thesis by (simp add: default_to_sql_def default_literals_def piece_string_literal)
    next
      case (DInt i)
      with assms(2) DValue show ?thesis
        by (auto simp: default_to_sql_def default_literals_def show_int_def piece_number show_nat_number intro!: piece_minus split: if_splits)
    next
      case (DFloat f)
      with assms(2) DValue have "f64_is_finite f" "v = show_f64 f" by (auto simp: default_to_sql_def split: if_splits)
      with assms(1) have "is_number v \<or> (\<exists>w. v = CHR ''-'' # w \<and> is_number w)" by (simp add: decimal_floats_def)
      with DValue DFloat show ?thesis by (auto simp: default_literals_def piece_number piece_minus)
    next
      case (DBool v)
      with assms(2) DValue show ?thesis
        by (cases b) (auto simp: default_to_sql_def default_literals_def word_texts_def intro!: word_text split: if_splits)
    qed
  qed
qed

lemma piece_default_clause:
  assumes "decimal_floats show_f64" and "piece b bare p ns []"
    and "(case d of Some d \<Rightarrow> and_then (default_to_sql show_f64 d b) (\<lambda>v. Inr (p @ '' DEFAULT '' @ v)) | None \<Rightarrow> Inr p) = Inr q"
  shows "piece b bare q ns (default_literals d)"
proof (cases d)
  case None
  with assms show ?thesis by (simp add: default_literals_def)
next
  case (Some d')
  with assms(3) obtain v where v: "default_to_sql show_f64 d' b = Inr v" and q: "q = p @ '' DEFAULT '' @ v"
    by (auto simp: and_then_eq_Inr)
  have "'' DEFAULT '' \<in> set open_texts" "boundary '' DEFAULT ''" by (simp_all add: open_texts_def boundary_def is_separator_def)
  from then_open [OF assms(2) this piece_default [OF assms(1) v]] show ?thesis by (simp add: q Some)
qed

lemma data_type_word: "data_type_to_sql dt b \<in> set word_texts"
  by (cases b; cases dt) (simp_all add: word_texts_def SQLITE_JSON_TYPE_def)

definition column_constraints :: "string set" where
  "column_constraints = {'' PRIMARY KEY'', '' SERIAL PRIMARY KEY'', '' INTEGER PRIMARY KEY AUTOINCREMENT'', '' NOT NULL'', '' UNIQUE''}"

lemma piece_constraint: "piece b bare p ns ls \<Longrightarrow> w \<in> column_constraints \<Longrightarrow> piece b bare (p @ w) ns ls"
  by (rule then_word) (auto simp: column_constraints_def word_texts_def boundary_def is_separator_def)

lemma piece_column:
  assumes "decimal_floats show_f64" and "column_to_sql show_f64 col b = Inr p"
  shows "piece b bare p [cl_name col] (default_literals (cl_default col))"
proof -
  obtain q where q: "quote_ident (cl_name col) = Inr q"
    using assms(2) by (auto simp: column_to_sql_def and_then_eq_Inr)
  note name = piece_quote_ident [OF q, of b bare]
  have space: "'' '' \<in> set open_texts" "boundary '' ''" by (simp_all add: open_texts_def boundary_def is_separator_def)
  have typed: "piece b bare (q @ '' '' @ data_type_to_sql (cl_data_type col) b) [cl_name col] []"
    using then_open [OF name space word_text [OF data_type_word]] by simp
  define head where "head = (if cl_auto_increment col then q @ '' INTEGER PRIMARY KEY AUTOINCREMENT''
    else if cl_primary_key col \<and> \<not> cl_auto_increment col then (q @ '' '' @ data_type_to_sql (cl_data_type col) b) @ '' PRIMARY KEY''
    else q @ '' '' @ data_type_to_sql (cl_data_type col) b)"
  define lead where "lead = (if \<not> cl_nullable col \<and> \<not> cl_primary_key col then head @ '' NOT NULL'' else head)"
  define sql where "sql = (if cl_unique col \<and> \<not> cl_primary_key col then lead @ '' UNIQUE'' else lead)"
  have head: "piece b bare head [cl_name col] []"
    using piece_constraint [OF name] piece_constraint [OF typed] typed by (simp add: head_def column_constraints_def)
  have "piece b bare lead [cl_name col] []"
    using head piece_constraint [OF head] by (simp add: lead_def column_constraints_def)
  then have body: "piece b bare sql [cl_name col] []"
    using piece_constraint by (simp add: sql_def column_constraints_def)
  show ?thesis
  proof (cases "cl_auto_increment col \<and> b = Postgres")
    case True
    then show ?thesis
      using assms(2) q piece_default_clause [OF assms(1) piece_constraint [OF name], of "'' SERIAL PRIMARY KEY''" "cl_default col" p]
      by (auto simp: column_to_sql_def Let_def column_constraints_def)
  next
    case False
    have "(case cl_default col of Some d \<Rightarrow> and_then (default_to_sql show_f64 d b) (\<lambda>v. Inr (sql @ '' DEFAULT '' @ v)) | None \<Rightarrow> Inr sql) = Inr p"
      using assms(2) unfolding column_to_sql_def q and_then_simps Let_def if_not_P [OF False] sql_def lead_def head_def .
    from piece_default_clause [OF assms(1) body this] show ?thesis .
  qed
qed

section \<open>The pieces of a statement\<close>

lemma piece_join:
  "sep \<in> set open_texts \<Longrightarrow> boundary sep \<Longrightarrow> list_all2 (\<lambda>p x. piece b bare p (ns x) (ls x)) ps xs
    \<Longrightarrow> piece b bare (join_with sep ps) (concat (map ns xs)) (concat (map ls xs))"
proof (induction sep ps arbitrary: xs rule: join_with.induct)
  case (3 sep p q ps)
  then obtain x xs' where xs: "xs = x # xs'" and p: "piece b bare p (ns x) (ls x)" and
    rest: "list_all2 (\<lambda>p x. piece b bare p (ns x) (ls x)) (q # ps) xs'" by (cases xs) auto
  from then_open [OF p "3.prems"(1,2) "3.IH" [OF "3.prems"(1,2) rest]] show ?case by (simp add: xs)
qed (auto simp: piece_Nil list_all2_Cons1)

lemma piece_concat:
  "list_all2 (\<lambda>p x. piece b bare p (ns x) (ls x) \<and> boundary p) ps xs
    \<Longrightarrow> piece b bare (concat ps) (concat (map ns xs)) (concat (map ls xs)) \<and> boundary (concat ps)"
proof (induction ps xs rule: list_all2_induct)
  case (Cons p ps x xs)
  then show ?case using piece_append [of b bare p] boundary_append by simp
qed (simp add: piece_Nil boundary_def)

lemma piece_quoted_list: "quoted_list names = Inr q \<Longrightarrow> piece b bare q names []"
proof -
  assume "quoted_list names = Inr q"
  then obtain quoted where t: "traverse quote_ident names = Inr quoted" and q: "q = join_with '', '' quoted"
    by (auto simp: quoted_list_def and_then_eq_Inr)
  have "list_all2 (\<lambda>p n. piece b bare p [n] []) quoted names"
    using traverse_list_all2 [OF t] by (rule list_all2_mono) (rule piece_quote_ident)
  from piece_join [OF _ _ this, of "'', ''"] show ?thesis
    by (simp add: q open_texts_def boundary_def is_separator_def concat_map_singleton)
qed

text \<open>A parenthesised list of names after a keyword.\<close>

lemma piece_names:
  assumes "s \<in> set open_texts" and "quoted_list names = Inr q"
  shows "piece b bare (s @ q @ '')'') names []"
proof -
  have "'')'' \<in> set open_texts" "boundary '')''" by (simp_all add: open_texts_def boundary_def is_separator_def)
  from open_then [OF assms(1) then_close [OF piece_quoted_list [OF assms(2)] this]] show ?thesis .
qed

lemma comma_boundary: "boundary (CHR '','' # s)"
  by (simp add: boundary_def is_separator_def)

lemma piece_unique_key: "unique_key_sql uk = Inr p \<Longrightarrow> piece b bare p uk [] \<and> boundary p"
  using piece_names [of "'','' @ [newline] @ ''    UNIQUE(''" uk _ b bare]
  by (auto simp: unique_key_sql_def and_then_eq_Inr comma_boundary open_texts_def)

lemma piece_fk_clause:
  assumes "keyword \<in> {'' ON DELETE '', '' ON UPDATE ''}" and "fk_clause keyword action = Inr p"
  shows "piece b bare p [] [] \<and> boundary p"
proof (cases "action = []")
  case True
  with assms(2) show ?thesis by (simp add: fk_clause_def piece_Nil boundary_def)
next
  case False
  with assms(2) obtain a where a: "validate_fk_action action = Inr a" and p: "p = keyword @ a"
    by (auto simp: fk_clause_def and_then_eq_Inr)
  have "a \<in> set word_texts" using a by (auto simp: validate_fk_action_def Let_def word_texts_def split: if_splits)
  moreover have "keyword \<in> set open_texts" "boundary (keyword @ a)"
    using assms(1) by (auto simp: open_texts_def boundary_def is_separator_def)
  ultimately show ?thesis using open_then [OF _ word_text] by (simp add: p)
qed

definition fk_names :: "column \<Rightarrow> string list" where
  "fk_names col = (case cl_references col of None \<Rightarrow> [] | Some refs \<Rightarrow> [cl_name col, rf_table refs, rf_column refs])"

lemma piece_foreign_key:
  assumes "foreign_key_sql col = Inr p"
  shows "piece b bare p (fk_names col) [] \<and> boundary p"
proof (cases "cl_references col")
  case None
  with assms show ?thesis by (simp add: foreign_key_sql_def fk_names_def piece_Nil boundary_def)
next
  case (Some refs)
  with assms obtain c t rc del upd where
    names: "quote_ident (cl_name col) = Inr c" "quote_ident (rf_table refs) = Inr t" "quote_ident (rf_column refs) = Inr rc" and
    clauses: "fk_clause '' ON DELETE '' (rf_on_delete refs) = Inr del" "fk_clause '' ON UPDATE '' (rf_on_update refs) = Inr upd" and
    p: "p = ('','' @ [newline] @ ''    FOREIGN KEY ('') @ c @ '') REFERENCES '' @ t @ ''('' @ rc @ '')'' @ del @ upd"
    by (auto simp: foreign_key_sql_def and_then_eq_Inr)
  have open_: "s \<in> set open_texts \<and> boundary s"
    if "s \<in> {'') REFERENCES '', ''('', '')'', '','' @ [newline] @ ''    FOREIGN KEY (''}" for s
    using that by (auto simp: open_texts_def boundary_def is_separator_def)
  have "piece b bare (del @ upd) [] []"
    using piece_fk_clause [OF _ clauses(1), of b bare] piece_fk_clause [OF _ clauses(2), of b bare] piece_append [of b bare del "[]" "[]" upd "[]" "[]"] by simp
  with then_open [OF piece_quote_ident [OF names(3)], of "'')''"] open_
  have "piece b bare (rc @ '')'' @ del @ upd) [rf_column refs] []" by fastforce
  with then_open [OF piece_quote_ident [OF names(2)], of "''(''"] open_
  have "piece b bare (t @ ''('' @ rc @ '')'' @ del @ upd) [rf_table refs, rf_column refs] []" by fastforce
  with then_open [OF piece_quote_ident [OF names(1)], of "'') REFERENCES ''"] open_
  have "piece b bare (c @ '') REFERENCES '' @ t @ ''('' @ rc @ '')'' @ del @ upd) (fk_names col) []"
    unfolding fk_names_def Some by fastforce
  from open_then [OF conjunct1 [OF open_] this, of "'','' @ [newline] @ ''    FOREIGN KEY (''"] show ?thesis
    by (simp add: p comma_boundary)
qed

section \<open>Statements say what the schema says\<close>

definition table_names :: "table \<Rightarrow> string list" where
  "table_names tb = tb_name tb # map cl_name (tb_columns tb) @ tb_primary_key tb @ concat (tb_unique_keys tb)
     @ concat (map fk_names (tb_columns tb))"

definition table_literals :: "table \<Rightarrow> string list" where
  "table_literals tb = concat (map (\<lambda>c. default_literals (cl_default c)) (tb_columns tb))"

lemma piece_primary_key:
  assumes "(if key = [] then Inr [] else and_then (quoted_list key) (\<lambda>q. Inr ('','' @ [newline] @ ''    PRIMARY KEY('' @ q @ '')''))) = Inr p"
  shows "piece b bare p key [] \<and> boundary p"
  using assms piece_names [of "'','' @ [newline] @ ''    PRIMARY KEY(''" key _ b bare]
  by (auto simp: and_then_eq_Inr piece_Nil boundary_def comma_boundary open_texts_def is_separator_def split: if_splits)

lemma piece_columns:
  assumes "decimal_floats show_f64" and "traverse (\<lambda>c. column_to_sql show_f64 c b) cs = Inr cols"
  shows "piece b bare (join_with ('','' @ [newline]) (map ((@) ''    '') cols)) (map cl_name cs)
    (concat (map (\<lambda>c. default_literals (cl_default c)) cs))"
proof -
  have "list_all2 (\<lambda>p c. piece b bare (''    '' @ p) [cl_name c] (default_literals (cl_default c))) cols cs"
    using traverse_list_all2 [OF assms(2)]
    by (rule list_all2_mono) (rule open_then, simp add: open_texts_def, rule piece_column [OF assms(1)])
  then have "list_all2 (\<lambda>p c. piece b bare p [cl_name c] (default_literals (cl_default c))) (map ((@) ''    '') cols) cs"
    by (simp add: list_all2_map1)
  from piece_join [OF _ _ this, of "'','' @ [newline]"] show ?thesis
    by (simp add: open_texts_def comma_boundary)
qed

lemma create_table_says:
  assumes "decimal_floats show_f64" and "build_create_table show_f64 tb b = Inr st"
  shows "says {} (tokens b (st_sql st)) (table_names tb) (table_literals tb)"
proof -
  obtain qtable cols pks uks fks where
    table: "quote_ident (tb_name tb) = Inr qtable" and
    cols: "traverse (\<lambda>c. column_to_sql show_f64 c b) (tb_columns tb) = Inr cols" and
    pks: "(if tb_primary_key tb = [] then Inr [] else and_then (quoted_list (tb_primary_key tb)) (\<lambda>q.
             Inr ('','' @ [newline] @ ''    PRIMARY KEY('' @ q @ '')''))) = Inr pks" and
    uks: "traverse unique_key_sql (tb_unique_keys tb) = Inr uks" and
    fks: "traverse foreign_key_sql (tb_columns tb) = Inr fks" and
    sql: "st_sql st = ''CREATE TABLE IF NOT EXISTS '' @ qtable @ ('' ('' @ [newline])
            @ join_with ('','' @ [newline]) (map ((@) ''    '') cols) @ pks @ concat uks @ concat fks @ [newline] @ '')''"
    using assms(2) unfolding build_create_table_def and_then_eq_Inr by auto
  have "list_all2 (\<lambda>p uk. piece b {} p uk [] \<and> boundary p) uks (tb_unique_keys tb)"
    using traverse_list_all2 [OF uks] by (rule list_all2_mono) (rule piece_unique_key)
  from piece_concat [OF this] have uk: "piece b {} (concat uks) (concat (tb_unique_keys tb)) []" "boundary (concat uks)" by simp_all
  have "list_all2 (\<lambda>p c. piece b {} p (fk_names c) [] \<and> boundary p) fks (tb_columns tb)"
    using traverse_list_all2 [OF fks] by (rule list_all2_mono) (rule piece_foreign_key)
  from piece_concat [OF this]
  have fk: "piece b {} (concat fks) (concat (map fk_names (tb_columns tb))) []" "boundary (concat fks)" by simp_all
  have close: "piece b {} ([newline] @ '')'') [] []" "boundary ([newline] @ '')'')"
    by (rule opener_piece, rule open_text) (simp_all add: open_texts_def boundary_def is_separator_def)
  note tail = piece_append [OF fk(1) close]
  have bt: "boundary (concat fks @ [newline] @ '')'')" using fk(2) close(2) by (rule boundary_append)
  note tail = piece_append [OF uk(1) tail bt]
  have bt: "boundary (concat uks @ concat fks @ [newline] @ '')'')" using uk(2) bt by (rule boundary_append)
  have pk: "piece b {} pks (tb_primary_key tb) []" "boundary pks" using piece_primary_key [OF pks] by simp_all
  note tail = piece_append [OF pk(1) tail bt]
  have bt: "boundary (pks @ concat uks @ concat fks @ [newline] @ '')'')" using pk(2) bt by (rule boundary_append)
  note body = piece_append [OF piece_columns [OF assms(1) cols] tail bt]
  have open_: "'' ('' @ [newline] \<in> set open_texts" "boundary ('' ('' @ [newline])" "''CREATE TABLE IF NOT EXISTS '' \<in> set open_texts"
    by (simp_all add: open_texts_def boundary_def is_separator_def)
  have "piece b {} (st_sql st) (table_names tb) (table_literals tb)"
    using open_then [OF open_(3) then_open [OF piece_quote_ident [OF table] open_(1,2) body]]
    unfolding sql table_names_def table_literals_def by simp
  then show ?thesis by (rule piece_tokens)
qed

lemma index_name_plain: "index_name t idx = Inr n \<Longrightarrow> n \<noteq> [] \<and> list_all is_word n"
proof (cases "ix_name idx = []")
  case False
  moreover assume "index_name t idx = Inr n"
  ultimately show ?thesis using plain_ident_chars by (auto simp: index_name_def validate_ident_def split: if_splits)
next
  case True
  moreover assume "index_name t idx = Inr n"
  ultimately obtain cols where t: "validate_ident t = Inr t" and cols: "traverse validate_ident (ix_columns idx) = Inr cols"
    and n: "n = ''idx_'' @ t @ concat (map ((@) ''_'') cols)"
    by (auto simp: index_name_def and_then_eq_Inr validate_ident_def split: if_splits)
  have "\<forall>c \<in> set cols. list_all is_word c"
    using traverse_result [OF cols] plain_ident_chars by (metis validate_ident_Inr)
  moreover have "list_all is_word t" using t plain_ident_chars by (auto simp: validate_ident_def split: if_splits)
  moreover have "list_all is_word ''idx_''" "is_word CHR ''_''"
    by (simp_all add: is_word_def is_ascii_alphanumeric_def is_ascii_digit_def less_eq_char_def)
  ultimately show ?thesis by (auto simp: n list_all_iff)
qed

lemma piece_bare: "n \<noteq> [] \<Longrightarrow> list_all is_word n \<Longrightarrow> n \<in> bare \<Longrightarrow> piece b bare n [] []"
  using lex_word by (auto simp: piece_def says_def names_of_def literals_of_def intro!: exI [of _ "[Word n]"])

lemma create_index_says:
  assumes "build_create_index t idx b = Inr st"
  shows "\<exists>n. index_name t idx = Inr n \<and> says {n} (tokens b (st_sql st)) (t # ix_columns idx) []"
proof -
  obtain n qt cols where
    n: "index_name t idx = Inr n" and t: "quote_ident t = Inr qt" and cols: "quoted_list (ix_columns idx) = Inr cols" and
    sql: "st_sql st = ''CREATE '' @ (if ix_unique idx then ''UNIQUE '' else []) @ ''INDEX IF NOT EXISTS '' @ n @ '' ON '' @ qt @ ''('' @ cols @ '')''"
    using assms unfolding build_create_index_def and_then_eq_Inr by auto
  have bare: "piece b {n} n [] []" using piece_bare index_name_plain [OF n] by blast
  have open_: "''CREATE '' \<in> set open_texts" "''UNIQUE '' \<in> set open_texts" "''INDEX IF NOT EXISTS '' \<in> set open_texts"
    "'' ON '' \<in> set open_texts" "boundary '' ON ''" "''('' \<in> set open_texts" "boundary (''('' @ s)" for s
    by (simp_all add: open_texts_def boundary_def is_separator_def)
  have "piece b {n} (qt @ ''('' @ cols @ '')'') (t # ix_columns idx) []"
    using piece_append [OF piece_quote_ident [OF t] piece_names [OF open_(6) cols] open_(7)] by simp
  from then_open [OF bare open_(4,5) this]
  have index: "piece b {n} (''INDEX IF NOT EXISTS '' @ n @ '' ON '' @ qt @ ''('' @ cols @ '')'') (t # ix_columns idx) []"
    using open_then [OF open_(3)] by simp
  have "piece b {n} (st_sql st) (t # ix_columns idx) []"
    unfolding sql using open_then [OF open_(1)] open_then [OF open_(2)] index by simp
  with n show ?thesis using piece_tokens by blast
qed

lemma add_column_says:
  assumes "decimal_floats show_f64" and "build_add_column show_f64 t col b = Inr st"
  shows "says {} (tokens b (st_sql st)) [t, cl_name col] (default_literals (cl_default col))"
proof -
  obtain qt c where t: "quote_ident t = Inr qt" and c: "column_to_sql show_f64 col b = Inr c" and
    sql: "st_sql st = ''ALTER TABLE '' @ qt @ '' ADD COLUMN '' @ c"
    using assms(2) unfolding build_add_column_def and_then_eq_Inr by auto
  have "''ALTER TABLE '' \<in> set open_texts" "'' ADD COLUMN '' \<in> set open_texts" "boundary '' ADD COLUMN ''"
    by (simp_all add: open_texts_def boundary_def is_separator_def)
  from open_then [OF this(1) then_open [OF piece_quote_ident [OF t] this(2,3) piece_column [OF assms(1) c]]]
  show ?thesis unfolding sql by (intro piece_tokens) simp
qed

lemma drop_table_says:
  assumes "build_drop_table t b = Inr st"
  shows "says {} (tokens b (st_sql st)) [t] []"
proof -
  obtain qt where t: "quote_ident t = Inr qt" and sql: "st_sql st = ''DROP TABLE IF EXISTS '' @ qt"
    using assms unfolding build_drop_table_def and_then_eq_Inr by auto
  have "''DROP TABLE IF EXISTS '' \<in> set open_texts" by (simp add: open_texts_def)
  from open_then [OF this piece_quote_ident [OF t]] show ?thesis unfolding sql by (rule piece_tokens)
qed

section \<open>Which schemas have a statement\<close>

definition has_literal :: "default_value option \<Rightarrow> bool" where
  "has_literal d \<longleftrightarrow>
     (case d of Some (DValue (DString s)) \<Rightarrow> CHR 0x00 \<notin> set s | Some (DValue (DFloat f)) \<Rightarrow> f64_is_finite f | _ \<Rightarrow> True)"

definition fk_action :: "string \<Rightarrow> bool" where
  "fk_action action \<longleftrightarrow>
     action = [] \<or> map ascii_upper (str_trim action) \<in> {''CASCADE'', ''SET NULL'', ''SET DEFAULT'', ''NO ACTION'', ''RESTRICT''}"

definition fk_actions :: "column \<Rightarrow> bool" where
  "fk_actions c \<longleftrightarrow> (case cl_references c of None \<Rightarrow> True | Some refs \<Rightarrow> fk_action (rf_on_delete refs) \<and> fk_action (rf_on_update refs))"

lemma quote_ident_accepts: "(\<exists>q. quote_ident n = Inr q) \<longleftrightarrow> is_plain_ident n"
  by (auto simp: quote_ident_def and_then_eq_Inr validate_ident_Inr)

lemma quoted_list_accepts: "(\<exists>q. quoted_list ns = Inr q) \<longleftrightarrow> list_all is_plain_ident ns"
  using traverse_accepts [of quote_ident ns] by (auto simp: quoted_list_def and_then_eq_Inr quote_ident_accepts list_all_iff)

lemma default_accepts: "(\<exists>v. default_to_sql show_f64 d b = Inr v) \<longleftrightarrow> has_literal (Some d)"
  by (auto simp: default_to_sql_def has_literal_def string_literal_def split: default_value.splits default_val.splits)

lemma column_accepts: "(\<exists>p. column_to_sql show_f64 c b = Inr p) \<longleftrightarrow> is_plain_ident (cl_name c) \<and> has_literal (cl_default c)"
proof (cases "quote_ident (cl_name c)")
  case (Inl e)
  then show ?thesis using quote_ident_accepts [of "cl_name c"] by (simp add: column_to_sql_def)
next
  case (Inr q)
  then have "is_plain_ident (cl_name c)" using quote_ident_accepts by blast
  with Inr show ?thesis
  proof (cases "cl_default c")
    case (Some d)
    have "(\<exists>p. column_to_sql show_f64 c b = Inr p) \<longleftrightarrow> (\<exists>v. default_to_sql show_f64 d b = Inr v)"
      unfolding column_to_sql_def Inr and_then_simps Let_def Some option.case
      by (cases "cl_auto_increment c \<and> b = Postgres"; cases "default_to_sql show_f64 d b") auto
    with \<open>is_plain_ident (cl_name c)\<close> Some show ?thesis by (simp add: default_accepts)
  qed (simp add: column_to_sql_def Let_def has_literal_def)
qed

lemma fk_clause_accepts: "(\<exists>p. fk_clause keyword action = Inr p) \<longleftrightarrow> fk_action action"
  by (auto simp: fk_clause_def fk_action_def validate_fk_action_def and_then_eq_Inr Let_def)

lemma foreign_key_accepts: "(\<exists>p. foreign_key_sql c = Inr p) \<longleftrightarrow> list_all is_plain_ident (fk_names c) \<and> fk_actions c"
proof (cases "cl_references c")
  case (Some refs)
  show ?thesis
    by (simp add: Some foreign_key_sql_def and_then_accepts quote_ident_accepts fk_clause_accepts fk_names_def fk_actions_def)
qed (simp add: foreign_key_sql_def fk_names_def fk_actions_def)

lemma create_table_accepts:
  "(\<exists>st. build_create_table show_f64 tb b = Inr st) \<longleftrightarrow>
     list_all is_plain_ident (table_names tb) \<and> (\<forall>c \<in> set (tb_columns tb). has_literal (cl_default c) \<and> fk_actions c)"
proof -
  have unique: "(\<exists>p. unique_key_sql uk = Inr p) \<longleftrightarrow> list_all is_plain_ident uk" for uk
    using quoted_list_accepts [of uk] by (auto simp: unique_key_sql_def and_then_eq_Inr)
  have "(\<exists>st. build_create_table show_f64 tb b = Inr st) \<longleftrightarrow>
      (\<exists>q. quote_ident (tb_name tb) = Inr q) \<and> (\<exists>cs. traverse (\<lambda>c. column_to_sql show_f64 c b) (tb_columns tb) = Inr cs)
      \<and> (\<exists>q. quoted_list (tb_primary_key tb) = Inr q)
      \<and> (\<exists>us. traverse unique_key_sql (tb_unique_keys tb) = Inr us) \<and> (\<exists>fs. traverse foreign_key_sql (tb_columns tb) = Inr fs)"
    by (auto simp: build_create_table_def and_then_eq_Inr quoted_list_def)
  also have "\<dots> \<longleftrightarrow> is_plain_ident (tb_name tb)
      \<and> (\<forall>c \<in> set (tb_columns tb). is_plain_ident (cl_name c) \<and> has_literal (cl_default c))
      \<and> list_all is_plain_ident (tb_primary_key tb) \<and> (\<forall>uk \<in> set (tb_unique_keys tb). list_all is_plain_ident uk)
      \<and> (\<forall>c \<in> set (tb_columns tb). list_all is_plain_ident (fk_names c) \<and> fk_actions c)"
    unfolding traverse_accepts quote_ident_accepts quoted_list_accepts column_accepts foreign_key_accepts unique ..
  finally show ?thesis by (auto simp: table_names_def list_all_iff)
qed

section \<open>The property\<close>

text \<open>C27: Every DDL statement says what the schema says.  A \<^verbatim>\<open>CREATE TABLE\<close> is built exactly for the schemas whose
  names are all plain, whose defaults have a literal and whose foreign-key actions are known; and read by
  the dialect it was built for, its quoted names are the schema's names in order, its string literals the
  string defaults, character for character, and everything else is keywords, numbers and brackets: no
  default, name or action can end the statement or add to it.  The same holds of \<^verbatim>\<open>ALTER TABLE ADD COLUMN\<close>,
  of \<^verbatim>\<open>CREATE INDEX\<close>, whose only bare word is the index name, and of \<^verbatim>\<open>DROP TABLE\<close>.\<close>

theorem ddl_says_what_the_schema_says:
  assumes "decimal_floats show_f64"
  shows "(\<forall>tb b. (\<exists>st. build_create_table show_f64 tb b = Inr st) \<longleftrightarrow>
             list_all is_plain_ident (table_names tb) \<and> (\<forall>c \<in> set (tb_columns tb). has_literal (cl_default c) \<and> fk_actions c))
    \<and> (\<forall>tb b st. build_create_table show_f64 tb b = Inr st \<longrightarrow> says {} (tokens b (st_sql st)) (table_names tb) (table_literals tb))
    \<and> (\<forall>t c b st. build_add_column show_f64 t c b = Inr st \<longrightarrow> says {} (tokens b (st_sql st)) [t, cl_name c] (default_literals (cl_default c)))
    \<and> (\<forall>t idx b st. build_create_index t idx b = Inr st \<longrightarrow>
         (\<exists>n. index_name t idx = Inr n \<and> says {n} (tokens b (st_sql st)) (t # ix_columns idx) []))
    \<and> (\<forall>t b st. build_drop_table t b = Inr st \<longrightarrow> says {} (tokens b (st_sql st)) [t] [])"
  using create_table_accepts create_table_says [OF assms] add_column_says [OF assms] create_index_says drop_table_says
  by (intro conjI allI impI) blast+

definition sessions_table :: table where
  "sessions_table = (table_new ''sessions'')\<lparr>tb_columns :=
     [pk ''id'', def_column (column_new ''note_'' TText) (DValue (DString (''it'' @ [squote] @ ''s; DROP'')))]\<rparr>"

theorem ddl_says_what_the_schema_says_witness:
  "\<exists>st. build_create_table (\<lambda>_. ''0'') sessions_table Postgres = Inr st
     \<and> literals_of (tokens Postgres (st_sql st)) = [''it'' @ [squote] @ ''s; DROP'']
     \<and> names_of (tokens Postgres (st_sql st)) = [''sessions'', ''id'', ''note_'']"
proof -
  have floats: "decimal_floats (\<lambda>_. ''0'')"
    by (simp add: decimal_floats_def is_number_def is_ascii_digit_def less_eq_char_def)
  have says: "table_names sessions_table = [''sessions'', ''id'', ''note_'']"
    "table_literals sessions_table = [''it'' @ [squote] @ ''s; DROP'']"
    by (simp_all add: sessions_table_def table_new_def table_names_def table_literals_def fk_names_def pk_def column_new_def
        def_column_def default_literals_def)
  have "list_all is_plain_ident (table_names sessions_table)"
    unfolding says by (simp add: is_plain_ident_def MAX_IDENT_LEN_def is_ascii_digit_def less_eq_char_def)
  moreover have "\<forall>c \<in> set (tb_columns sessions_table). has_literal (cl_default c) \<and> fk_actions c"
    by (simp add: sessions_table_def table_new_def pk_def column_new_def def_column_def has_literal_def fk_actions_def)
  ultimately obtain st where st: "build_create_table (\<lambda>_. ''0'') sessions_table Postgres = Inr st"
    using ddl_says_what_the_schema_says [OF floats] by blast
  with ddl_says_what_the_schema_says [OF floats] says show ?thesis by (auto simp: says_def)
qed

text \<open>The names synthesised for unnamed indexes are not injective: table \<open>a\<close> with column \<open>b_c\<close> and table
  \<open>a_b\<close> with column \<open>c\<close> ask for one index name, and \<^verbatim>\<open>IF NOT EXISTS\<close> makes the second statement do nothing.\<close>

lemma synthesised_index_names_collide:
  "index_name ''a'' \<lparr>ix_name = [], ix_columns = [''b_c''], ix_unique = False\<rparr>
     = index_name ''a_b'' \<lparr>ix_name = [], ix_columns = [''c''], ix_unique = False\<rparr>"
  by (simp add: index_name_def validate_ident_def is_plain_ident_def MAX_IDENT_LEN_def is_ascii_digit_def less_eq_char_def)

end
