(* ===== verification/Db_Types.thy ===== *)
theory Db_Types
  imports Call_Context Sql_Ddl Init_Attempt
begin

text \<open>
  The types of the database service: query operators and filters (\<^verbatim>\<open>crates/wafer-block/src/db.rs\<close>), the
  requests of the wire (\<^verbatim>\<open>wire/database.rs\<close>), and what a backend is called with and answers
  (\<^verbatim>\<open>crates/wafer-core/src/interfaces/database/service.rs\<close>).

  A \<^verbatim>\<open>HashMap\<close> of a row is the list of its entries in the order it iterates.  Service and wire records
  have the same fields and are one type.
\<close>

section \<open>Operators and filters\<close>

datatype filter_op =
    F_equal | F_not_equal | F_greater_than | F_greater_equal | F_less_than | F_less_equal
  | F_like | F_contains_ignore_case | F_starts_with | F_in | F_is_null | F_is_not_null

definition invalid :: "msg_text \<Rightarrow> wafer_error" where
  "invalid msg = wafer_error_new InvalidArgument msg"

definition parse_wire :: "string \<Rightarrow> wafer_error + filter_op" where
  "parse_wire op =
     (if op \<in> {''eq'', ''='', ''equal''} then Inr F_equal
      else if op \<in> {''neq'', ''!='', ''not_equal''} then Inr F_not_equal
      else if op \<in> {''gt'', ''>'', ''greater_than''} then Inr F_greater_than
      else if op \<in> {''gte'', ''>='', ''greater_equal''} then Inr F_greater_equal
      else if op \<in> {''lt'', ''<'', ''less_than''} then Inr F_less_than
      else if op \<in> {''lte'', ''<='', ''less_equal''} then Inr F_less_equal
      else if op = ''like'' then Inr F_like
      else if op = ''contains_ignore_case'' then Inr F_contains_ignore_case
      else if op = ''starts_with'' then Inr F_starts_with
      else if op = ''in'' then Inr F_in
      else if op = ''is_null'' then Inr F_is_null
      else if op = ''is_not_null'' then Inr F_is_not_null
      else Inl (invalid (Text ''unknown filter operator: {other:?}'' [A_str op])))"

fun as_wire :: "filter_op \<Rightarrow> string" where
  "as_wire F_equal = ''eq''"
| "as_wire F_not_equal = ''neq''"
| "as_wire F_greater_than = ''gt''"
| "as_wire F_greater_equal = ''gte''"
| "as_wire F_less_than = ''lt''"
| "as_wire F_less_equal = ''lte''"
| "as_wire F_like = ''like''"
| "as_wire F_contains_ignore_case = ''contains_ignore_case''"
| "as_wire F_starts_with = ''starts_with''"
| "as_wire F_in = ''in''"
| "as_wire F_is_null = ''is_null''"
| "as_wire F_is_not_null = ''is_not_null''"

lemma parse_as_wire: "parse_wire (as_wire op) = Inr op"
  by (cases op) (simp_all add: parse_wire_def)

datatype column_compare_op = C_equal | C_not_equal | C_greater_than | C_greater_equal | C_less_than | C_less_equal

fun from_filter_op :: "filter_op \<Rightarrow> column_compare_op option" where
  "from_filter_op F_equal = Some C_equal"
| "from_filter_op F_not_equal = Some C_not_equal"
| "from_filter_op F_greater_than = Some C_greater_than"
| "from_filter_op F_greater_equal = Some C_greater_equal"
| "from_filter_op F_less_than = Some C_less_than"
| "from_filter_op F_less_equal = Some C_less_equal"
| "from_filter_op _ = None"

fun as_filter_op :: "column_compare_op \<Rightarrow> filter_op" where
  "as_filter_op C_equal = F_equal"
| "as_filter_op C_not_equal = F_not_equal"
| "as_filter_op C_greater_than = F_greater_than"
| "as_filter_op C_greater_equal = F_greater_equal"
| "as_filter_op C_less_than = F_less_than"
| "as_filter_op C_less_equal = F_less_equal"

lemma from_as_filter_op: "from_filter_op op = Some c \<longleftrightarrow> op = as_filter_op c"
  by (cases op; cases c) simp_all

record db_filter =
  fl_field :: string
  fl_operator :: filter_op
  fl_value :: json

record column_filter =
  cf_field :: string
  cf_operator :: column_compare_op
  cf_column :: string

datatype filter_tree =
    T_leaf db_filter
  | T_column_compare column_filter
  | T_all "filter_tree list"
  | T_any "filter_tree list"

record sort_field =
  sf_field :: string
  sf_desc :: bool

record list_options =
  lo_filters :: "db_filter list"
  lo_sort :: "sort_field list"
  lo_limit :: "32 word option"
  lo_offset :: int
  lo_skip_count :: bool
  lo_filter_tree :: "filter_tree list option"
  lo_columns :: "string list option"

section \<open>Requests\<close>

type_synonym row = "(string \<times> json) list"

record filter_def =
  fd_field :: string
  fd_operator :: string
  fd_value :: json
  fd_column :: "string option"

datatype filter_node = FN_leaf filter_def | FN_all "filter_node list" | FN_any "filter_node list"

record list_request =
  lr_collection :: string
  lr_filters :: "filter_node list"
  lr_sort :: "sort_field list"
  lr_limit :: "32 word option"
  lr_offset :: int
  lr_skip_count :: bool
  lr_columns :: "string list option"

datatype on_conflict =
    SetColumns "string list"
  | WindowedCounter string string int int "string list" "string list"

record upsert_request =
  ur_collection :: string
  ur_data :: row
  ur_conflict_columns :: "string list"
  ur_on_conflict :: on_conflict

datatype batch_write =
    BW_create string row
  | BW_update string string row
  | BW_delete string string
  | BW_update_where string "filter_node list" row
  | BW_delete_where string "filter_node list"
  | BW_upsert upsert_request

fun bw_collection :: "batch_write \<Rightarrow> string" where
  "bw_collection (BW_create c _) = c"
| "bw_collection (BW_update c _ _) = c"
| "bw_collection (BW_delete c _) = c"
| "bw_collection (BW_update_where c _ _) = c"
| "bw_collection (BW_delete_where c _) = c"
| "bw_collection (BW_upsert r) = ur_collection r"

fun bw_access :: "batch_write \<Rightarrow> resource_access" where
  "bw_access (BW_create _ _) = Append"
| "bw_access (BW_update _ _ _) = Write"
| "bw_access (BW_delete _ _) = Write"
| "bw_access (BW_update_where _ _ _) = Write"
| "bw_access (BW_delete_where _ _) = Write"
| "bw_access (BW_upsert _) = Write"

definition MAX_WRITE_GUARDS :: nat where "MAX_WRITE_GUARDS = 16"

datatype cap_guard_def =
    GD_count_below "filter_node list" int
  | GD_sum_at_most string "filter_node list" int int

datatype aggregate_column_def =
    AD_count string
  | AD_sum string string "string option"
  | AD_avg string string "string option"
  | AD_max string string
  | AD_case_when_sum "filter_node list" string
  | AD_sum_where string "filter_node list" string "string option"
  | AD_count_groups string

datatype group_by = G_column string | G_date_bucket string

record aggregate_request =
  gr_collection :: string
  gr_select_columns :: "string list"
  gr_aggregates :: "aggregate_column_def list"
  gr_filters :: "filter_node list"
  gr_group_by :: "group_by list"
  gr_sort :: "sort_field list"
  gr_limit :: int
  gr_having :: "filter_node list"
  gr_offset :: int

record raw_statement =
  rs_query :: string
  rs_args :: "json list"

record default_def =
  dd_kind :: string
  dd_value :: json

record column_def =
  cd_name :: string
  cd_kind :: string
  cd_nullable :: bool
  cd_primary_key :: bool
  cd_auto_increment :: bool
  cd_unique :: bool
  cd_default :: "default_def option"

record index_def =
  id_name :: string
  id_columns :: "string list"
  id_unique :: bool

record table_def =
  td_name :: string
  td_columns :: "column_def list"
  td_indexes :: "index_def list"
  td_primary_key :: "string list"
  td_unique_keys :: "string list list"

datatype db_request =
    Get_req string string
  | List_req list_request
  | Create_req string row
  | CreateMany_req string "row list"
  | Batch_req "batch_write list"
  | InsertGuarded_req string row "cap_guard_def list"
  | UpdateGuarded_req string "filter_node list" row "cap_guard_def list"
  | Update_req string string row
  | Delete_req string string
  | Count_req string "filter_node list"
  | QueryRaw_req string "json list"
  | Sum_req string string "filter_node list"
  | ExecRaw_req string "json list"
  | Ddl_req string "json list"
  | DdlTransaction_req "raw_statement list"
  | DeleteWhere_req string "filter_node list"
  | DeleteWhereCount_req string "filter_node list"
  | TakeWhere_req string "filter_node list"
  | UpdateWhere_req string "filter_node list" row
  | UpdateWhereCount_req string "filter_node list" row
  | IncrementFieldWhere_req string string int "filter_node list"
  | Upsert_req upsert_request
  | Aggregate_req aggregate_request
  | EnsureTable_req table_def
  | AddColumn_req string column_def
  | DropTable_req string
  | TableExists_req string
  | CatalogTables_req
  | CatalogColumns_req string
  | CatalogRowCount_req string

section \<open>The service\<close>

datatype database_error =
    DE_not_found
  | DE_already_exists string
  | DE_invalid_argument msg_text
  | DE_unavailable string
  | DE_contended string
  | DE_call_budget_exhausted string
  | DE_internal string
  | DE_other string

fun database_error_code :: "database_error \<Rightarrow> error_code" where
  "database_error_code DE_not_found = NotFound"
| "database_error_code (DE_already_exists _) = AlreadyExists"
| "database_error_code (DE_invalid_argument _) = InvalidArgument"
| "database_error_code (DE_unavailable _) = Unavailable"
| "database_error_code (DE_contended _) = Unavailable"
| "database_error_code (DE_call_budget_exhausted _) = ResourceExhausted"
| "database_error_code (DE_internal _) = Internal"
| "database_error_code (DE_other _) = Internal"

fun attempt_answer :: "database_error \<Rightarrow> database_answer option" where
  "attempt_answer (DE_unavailable _) = Some DatabaseUnavailable"
| "attempt_answer (DE_contended _) = Some Contended"
| "attempt_answer (DE_call_budget_exhausted _) = Some CallBudgetExhausted"
| "attempt_answer _ = None"

definition database_detail_code :: "database_error \<Rightarrow> string option" where
  "database_detail_code e = map_option answer_detail_code (attempt_answer e)"

record transaction_error =
  te_statement :: "nat option"
  te_error :: database_error

record db_record =
  dr_id :: string
  dr_data :: row

record record_list =
  rl_records :: "db_record list"
  rl_total_count :: int
  rl_page :: int
  rl_page_size :: int

datatype upsert_conflict =
    UC_set_columns "string list"
  | UC_windowed_counter string string int int "string list" "string list"

record upsert_spec =
  us_data :: row
  us_conflict_columns :: "string list"
  us_on_conflict :: upsert_conflict

datatype write_op =
    W_create string row
  | W_update string string row
  | W_delete string string
  | W_update_where string "db_filter list" row
  | W_delete_where string "db_filter list"
  | W_upsert string upsert_spec

datatype write_outcome =
    O_created db_record
  | O_updated "db_record option"
  | O_deleted int
  | O_updated_where int
  | O_deleted_where int
  | O_upserted int

datatype cap_guard = CountBelow "db_filter list" int | SumAtMost string "db_filter list" int int

datatype guarded_insert = GI_inserted db_record | GI_refused nat

datatype guarded_update = GU_updated int | GU_refused nat | GU_no_match

datatype cast_type = BigInt | Double

fun cast_as_sql :: "cast_type \<Rightarrow> string" where
  "cast_as_sql BigInt = ''BIGINT''"
| "cast_as_sql Double = ''DOUBLE PRECISION''"

definition ALL_CASTS :: "cast_type list" where "ALL_CASTS = [BigInt, Double]"

definition cast_parse :: "string \<Rightarrow> cast_type option" where
  "cast_parse name = List.find (\<lambda>t. eq_ignore_ascii_case (cast_as_sql t) name) ALL_CASTS"

datatype aggregate_column =
    A_count string
  | A_sum string string "cast_type option"
  | A_avg string string "cast_type option"
  | A_max string string
  | A_case_when_sum "filter_tree list" string
  | A_sum_where string "filter_tree list" string "cast_type option"
  | A_count_groups string

fun agg_alias :: "aggregate_column \<Rightarrow> string" where
  "agg_alias (A_count a) = a"
| "agg_alias (A_sum _ a _) = a"
| "agg_alias (A_avg _ a _) = a"
| "agg_alias (A_max _ a) = a"
| "agg_alias (A_case_when_sum _ a) = a"
| "agg_alias (A_sum_where _ _ a _) = a"
| "agg_alias (A_count_groups a) = a"

record aggregate_spec =
  as_select_columns :: "string list"
  as_aggregates :: "aggregate_column list"
  as_filters :: "db_filter list"
  as_group_by :: "group_by list"
  as_sort :: "sort_field list"
  as_limit :: int
  as_having :: "db_filter list"
  as_offset :: int

record catalog_column =
  cc_name :: string
  cc_decl_type :: string
  cc_not_null :: bool
  cc_default_value :: "string option"
  cc_primary_key_position :: "32 word option"

text \<open>A method of the service takes its arguments and the state of the backend.\<close>

type_synonym ('w, 'e, 'a) served = "'w \<Rightarrow> ('e + 'a) \<times> 'w"

record 'w database_service =
  sv_get :: "string \<Rightarrow> string \<Rightarrow> ('w, database_error, db_record) served"
  sv_list :: "string \<Rightarrow> list_options \<Rightarrow> ('w, database_error, record_list) served"
  sv_create :: "string \<Rightarrow> row \<Rightarrow> ('w, database_error, db_record) served"
  sv_create_many :: "string \<Rightarrow> row list \<Rightarrow> ('w, database_error, int) served"
  sv_batch :: "write_op list \<Rightarrow> ('w, database_error, write_outcome list) served"
  sv_insert_guarded :: "string \<Rightarrow> row \<Rightarrow> cap_guard list \<Rightarrow> ('w, database_error, guarded_insert) served"
  sv_update_guarded :: "string \<Rightarrow> db_filter list \<Rightarrow> row \<Rightarrow> cap_guard list \<Rightarrow> ('w, database_error, guarded_update) served"
  sv_update :: "string \<Rightarrow> string \<Rightarrow> row \<Rightarrow> ('w, database_error, db_record) served"
  sv_delete :: "string \<Rightarrow> string \<Rightarrow> ('w, database_error, unit) served"
  sv_count :: "string \<Rightarrow> db_filter list \<Rightarrow> ('w, database_error, int) served"
  sv_sum :: "string \<Rightarrow> string \<Rightarrow> db_filter list \<Rightarrow> ('w, database_error, rat) served"
  sv_query_raw :: "string \<Rightarrow> json list \<Rightarrow> ('w, database_error, db_record list) served"
  sv_exec_raw :: "string \<Rightarrow> json list \<Rightarrow> ('w, database_error, int) served"
  sv_exec_raw_transaction :: "raw_statement list \<Rightarrow> ('w, transaction_error, int list) served"
  sv_delete_where :: "string \<Rightarrow> db_filter list \<Rightarrow> ('w, database_error, unit) served"
  sv_delete_where_count :: "string \<Rightarrow> db_filter list \<Rightarrow> ('w, database_error, int) served"
  sv_take_where :: "string \<Rightarrow> db_filter list \<Rightarrow> ('w, database_error, db_record list) served"
  sv_update_where :: "string \<Rightarrow> db_filter list \<Rightarrow> row \<Rightarrow> ('w, database_error, unit) served"
  sv_update_where_count :: "string \<Rightarrow> db_filter list \<Rightarrow> row \<Rightarrow> ('w, database_error, int) served"
  sv_increment_field_where :: "string \<Rightarrow> string \<Rightarrow> int \<Rightarrow> db_filter list \<Rightarrow> ('w, database_error, int) served"
  sv_upsert :: "string \<Rightarrow> upsert_spec \<Rightarrow> ('w, database_error, db_record option) served"
  sv_aggregate :: "string \<Rightarrow> aggregate_spec \<Rightarrow> ('w, database_error, db_record list) served"
  sv_ensure_schema_table :: "table \<Rightarrow> ('w, database_error, unit) served"
  sv_schema_table_exists :: "string \<Rightarrow> ('w, database_error, bool) served"
  sv_schema_columns :: "string \<Rightarrow> ('w, database_error, string list) served"
  sv_schema_drop_table :: "string \<Rightarrow> ('w, database_error, unit) served"
  sv_schema_add_column :: "string \<Rightarrow> column \<Rightarrow> ('w, database_error, unit) served"
  sv_catalog_tables :: "('w, database_error, string list) served"
  sv_catalog_columns :: "string \<Rightarrow> ('w, database_error, catalog_column list) served"
  sv_catalog_row_count :: "string \<Rightarrow> ('w, database_error, int) served"

end
