(* ===== verification/Db_Convert.thy ===== *)
theory Db_Convert
  imports Db_Types
begin

text \<open>
  What a database request is turned into before the service sees it: the conversions of
  \<^verbatim>\<open>crates/wafer-core/src/interfaces/database/handler.rs\<close> and \<^verbatim>\<open>schema_wire.rs\<close>, with every refusal.

  \<^verbatim>\<open>serde_json\<close> keeps a float default as a \<^verbatim>\<open>f64\<close>; its bits are given by the parameter \<open>bits\<close>.
\<close>

section \<open>Names\<close>

definition check_name :: "string \<Rightarrow> wafer_error + unit" where
  "check_name name =
     (if is_plain_ident name then Inr ()
      else Inl (invalid (Text ''{name:?} is not a collection or column name (1 to 63 of: lowercase letters, digits and `_`)'' [A_str name])))"

text \<open>\<^verbatim>\<open>try_for_each\<close> and \<^verbatim>\<open>for\<close> loops with \<^verbatim>\<open>?\<close>: the first refusal.\<close>

definition check_names :: "string list \<Rightarrow> wafer_error + unit" where
  "check_names names = and_then (traverse check_name names) (\<lambda>_. Inr ())"

definition check_data_names :: "row \<Rightarrow> wafer_error + unit" where
  "check_data_names data = check_names (map fst data)"

lemma check_name_Inr [simp]: "check_name n = Inr u \<longleftrightarrow> is_plain_ident n"
  by (simp add: check_name_def)

lemma check_names_Inr [simp]: "check_names ns = Inr u \<longleftrightarrow> list_all is_plain_ident ns"
proof -
  have "(\<exists>us. traverse check_name ns = Inr us) \<longleftrightarrow> list_all is_plain_ident ns"
    by (simp add: traverse_accepts list_all_iff)
  then show ?thesis by (auto simp: check_names_def and_then_eq_Inr)
qed

lemma check_data_names_Inr [simp]: "check_data_names data = Inr u \<longleftrightarrow> list_all is_plain_ident (map fst data)"
  by (simp add: check_data_names_def)

section \<open>Filters\<close>

definition MAX_FILTER_DEPTH :: nat where "MAX_FILTER_DEPTH = 16"
definition MAX_FILTER_NODES :: nat where "MAX_FILTER_NODES = 256"

definition convert_leaf :: "filter_def \<Rightarrow> wafer_error + filter_tree" where
  "convert_leaf f =
     and_then (parse_wire (fd_operator f)) (\<lambda>operator.
     and_then (check_name (fd_field f)) (\<lambda>_.
       case fd_column f of
         None \<Rightarrow> Inr (T_leaf \<lparr>fl_field = fd_field f, fl_operator = operator, fl_value = fd_value f\<rparr>)
       | Some column \<Rightarrow>
           if fd_value f \<noteq> Null
           then Inl (invalid (Text ''a filter compares its field to either `value` or `column`, not both'' []))
           else (case from_filter_op operator of
                   None \<Rightarrow> Inl (invalid (Text ''filter operator {:?} cannot compare two columns'' [A_str (fd_operator f)]))
                 | Some cmp \<Rightarrow>
                     and_then (check_name column) (\<lambda>_.
                       Inr (T_column_compare \<lparr>cf_field = fd_field f, cf_operator = cmp, cf_column = column\<rparr>)))))"

text \<open>The node count is the mutable \<^verbatim>\<open>count\<close> of the source, threaded through.\<close>

definition admit_node :: "nat \<Rightarrow> nat \<Rightarrow> wafer_error + nat" where
  "admit_node depth num =
     (if depth > MAX_FILTER_DEPTH then Inl (invalid (Text ''filter tree too deep'' []))
      else if num + 1 > MAX_FILTER_NODES then Inl (invalid (Text ''filter tree has too many nodes'' []))
      else Inr (num + 1))"

definition empty_group :: wafer_error where
  "empty_group = invalid (Text ''filter group must have at least one child'' [])"

fun convert_node :: "nat \<Rightarrow> nat \<Rightarrow> filter_node \<Rightarrow> wafer_error + (filter_tree \<times> nat)"
  and convert_nodes :: "nat \<Rightarrow> nat \<Rightarrow> filter_node list \<Rightarrow> wafer_error + (filter_tree list \<times> nat)" where
  "convert_node depth num (FN_leaf f) =
     and_then (admit_node depth num) (\<lambda>num. and_then (convert_leaf f) (\<lambda>t. Inr (t, num)))"
| "convert_node depth num (FN_all ns) =
     and_then (admit_node depth num) (\<lambda>num.
       if ns = [] then Inl empty_group
       else and_then (convert_nodes (depth + 1) num ns) (\<lambda>(ts, num). Inr (T_all ts, num)))"
| "convert_node depth num (FN_any ns) =
     and_then (admit_node depth num) (\<lambda>num.
       if ns = [] then Inl empty_group
       else and_then (convert_nodes (depth + 1) num ns) (\<lambda>(ts, num). Inr (T_any ts, num)))"
| "convert_nodes depth num [] = Inr ([], num)"
| "convert_nodes depth num (n # ns) =
     and_then (convert_node depth num n) (\<lambda>(t, num).
     and_then (convert_nodes depth num ns) (\<lambda>(ts, num). Inr (t # ts, num)))"

definition convert_filter_tree :: "filter_node list \<Rightarrow> wafer_error + filter_tree list" where
  "convert_filter_tree nodes = and_then (convert_nodes 1 0 nodes) (\<lambda>(ts, _). Inr ts)"

fun flatten_leaves :: "filter_tree list \<Rightarrow> wafer_error + db_filter list" where
  "flatten_leaves [] = Inr []"
| "flatten_leaves (T_leaf f # ts) = and_then (flatten_leaves ts) (\<lambda>fs. Inr (f # fs))"
| "flatten_leaves (T_column_compare _ # ts) = Inl (invalid (Text ''operation does not support column-to-column filters'' []))"
| "flatten_leaves (T_all _ # ts) = Inl (invalid (Text ''operation does not support filter groups'' []))"
| "flatten_leaves (T_any _ # ts) = Inl (invalid (Text ''operation does not support filter groups'' []))"

text \<open>\<^verbatim>\<open>flatten_leaves(&convert_filter_tree(filters)?)\<close>.\<close>

definition flat_filters :: "filter_node list \<Rightarrow> wafer_error + db_filter list" where
  "flat_filters filters = and_then (convert_filter_tree filters) flatten_leaves"

section \<open>Which filters are accepted\<close>

fun node_depth :: "filter_node \<Rightarrow> nat" where
  "node_depth (FN_leaf _) = 1"
| "node_depth (FN_all ns) = 1 + fold max (map node_depth ns) 0"
| "node_depth (FN_any ns) = 1 + fold max (map node_depth ns) 0"

fun node_size :: "filter_node \<Rightarrow> nat" where
  "node_size (FN_leaf _) = 1"
| "node_size (FN_all ns) = 1 + sum_list (map node_size ns)"
| "node_size (FN_any ns) = 1 + sum_list (map node_size ns)"

fun leaves :: "filter_node \<Rightarrow> filter_def list" where
  "leaves (FN_leaf f) = [f]"
| "leaves (FN_all ns) = concat (map leaves ns)"
| "leaves (FN_any ns) = concat (map leaves ns)"

fun no_empty_group :: "filter_node \<Rightarrow> bool" where
  "no_empty_group (FN_leaf _) \<longleftrightarrow> True"
| "no_empty_group (FN_all ns) \<longleftrightarrow> ns \<noteq> [] \<and> list_all no_empty_group ns"
| "no_empty_group (FN_any ns) \<longleftrightarrow> ns \<noteq> [] \<and> list_all no_empty_group ns"

definition leaf_ok :: "filter_def \<Rightarrow> bool" where
  "leaf_ok f \<longleftrightarrow> \<not> isl (convert_leaf f)"

text \<open>The tree a node stands for.\<close>

fun image :: "filter_node \<Rightarrow> filter_tree" where
  "image (FN_leaf f) = projr (convert_leaf f)"
| "image (FN_all ns) = T_all (map image ns)"
| "image (FN_any ns) = T_any (map image ns)"

definition filters_ok :: "filter_node list \<Rightarrow> bool" where
  "filters_ok ns \<longleftrightarrow>
     list_all no_empty_group ns \<and> list_all leaf_ok (concat (map leaves ns))
     \<and> list_all (\<lambda>n. node_depth n \<le> MAX_FILTER_DEPTH) ns \<and> sum_list (map node_size ns) \<le> MAX_FILTER_NODES"

lemma fold_max: "fold max xs (a :: nat) \<le> b \<longleftrightarrow> a \<le> b \<and> list_all (\<lambda>x. x \<le> b) xs"
  by (induction xs arbitrary: a) auto

lemma node_depth_pos: "1 \<le> node_depth n"
  by (cases n) simp_all

lemma node_size_pos: "1 \<le> node_size n"
  by (cases n) simp_all

lemma admit_node_Inr: "admit_node d c = Inr c' \<longleftrightarrow> d \<le> MAX_FILTER_DEPTH \<and> c' = c + 1 \<and> c + 1 \<le> MAX_FILTER_NODES"
  by (auto simp: admit_node_def)

lemma leaf_ok_Inr: "leaf_ok f \<longleftrightarrow> (\<exists>t. convert_leaf f = Inr t)"
  by (cases "convert_leaf f") (simp_all add: leaf_ok_def)

definition node_fits :: "nat \<Rightarrow> filter_node \<Rightarrow> bool" where
  "node_fits depth n \<longleftrightarrow> no_empty_group n \<and> list_all leaf_ok (leaves n) \<and> depth + node_depth n \<le> MAX_FILTER_DEPTH + 1"

lemma deepest:
  assumes "ns \<noteq> []"
  shows "depth + fold max (map node_depth ns) 0 \<le> m \<longleftrightarrow> list_all (\<lambda>n. depth + node_depth n \<le> m) ns"
proof (cases "depth \<le> m")
  case True
  then have "depth + d \<le> m \<longleftrightarrow> d \<le> m - depth" for d by auto
  then show ?thesis by (simp only: fold_max) (simp add: list_all_iff)
next
  case False
  then show ?thesis using assms by (cases ns) auto
qed

lemma group_fits:
  "node_fits depth (FN_all ns) \<longleftrightarrow> ns \<noteq> [] \<and> list_all (node_fits (depth + 1)) ns"
  "node_fits depth (FN_any ns) \<longleftrightarrow> ns \<noteq> [] \<and> list_all (node_fits (depth + 1)) ns"
  using deepest [of ns depth MAX_FILTER_DEPTH] by (auto simp: node_fits_def list_all_iff)

lemma fits_depth: "node_fits depth n \<Longrightarrow> depth \<le> MAX_FILTER_DEPTH"
  using node_depth_pos [of n] by (simp add: node_fits_def)

lemma convert_node_Inr:
  "convert_node depth num n = Inr (t, num') \<longleftrightarrow>
     node_fits depth n \<and> num + node_size n \<le> MAX_FILTER_NODES \<and> t = image n \<and> num' = num + node_size n"
  "convert_nodes depth num ns = Inr (ts, num') \<longleftrightarrow>
     list_all (node_fits depth) ns \<and> (ns \<noteq> [] \<longrightarrow> num + sum_list (map node_size ns) \<le> MAX_FILTER_NODES)
     \<and> ts = map image ns \<and> num' = num + sum_list (map node_size ns)"
proof (induction depth num n and depth num ns arbitrary: t num' and ts num' rule: convert_node_convert_nodes.induct)
  case (1 depth num f)
  then show ?case by (auto simp: and_then_eq_Inr admit_node_Inr node_fits_def leaf_ok_Inr)
next
  case (2 depth num ns)
  show ?case
  proof (cases "admit_node depth num")
    case (Inl e)
    then show ?thesis using fits_depth [of depth "FN_all ns"] node_size_pos [of "FN_all ns"]
      by (auto simp: admit_node_def split: if_splits)
  next
    case (Inr c)
    with 2 [of c] show ?thesis using fits_depth [of "depth + 1"]
      by (auto simp: admit_node_Inr and_then_eq_Inr group_fits)
  qed
next
  case (3 depth num ns)
  show ?case
  proof (cases "admit_node depth num")
    case (Inl e)
    then show ?thesis using fits_depth [of depth "FN_any ns"] node_size_pos [of "FN_any ns"]
      by (auto simp: admit_node_def split: if_splits)
  next
    case (Inr c)
    with 3 [of c] show ?thesis using fits_depth [of "depth + 1"]
      by (auto simp: admit_node_Inr and_then_eq_Inr group_fits)
  qed
next
  case (4 depth num)
  then show ?case by auto
next
  case (5 depth num n ns)
  show ?case
  proof (cases "convert_node depth num n")
    case (Inl e)
    then show ?thesis using 5(1) [of "image n" "num + node_size n"] by auto
  next
    case (Inr r)
    obtain t c where r: "r = (t, c)" by (cases r)
    with Inr 5(1) [of t c] have n: "node_fits depth n" "c \<le> MAX_FILTER_NODES" "t = image n" "c = num + node_size n" by auto
    have rest: "convert_nodes depth c ns = Inr (ts', k) \<longleftrightarrow>
        list_all (node_fits depth) ns \<and> (ns \<noteq> [] \<longrightarrow> c + sum_list (map node_size ns) \<le> MAX_FILTER_NODES)
        \<and> ts' = map image ns \<and> k = c + sum_list (map node_size ns)" for ts' k
      using 5(2) [OF Inr, of t c ts' k] r by simp
    show ?thesis using n by (cases "ns = []") (auto simp: Inr r and_then_eq_Inr rest [unfolded n(4)] add.assoc)
  qed
qed

lemma convert_filter_tree_Inr: "convert_filter_tree ns = Inr ts \<longleftrightarrow> filters_ok ns \<and> ts = map image ns"
proof -
  have "list_all (node_fits 1) ns \<longleftrightarrow>
      list_all no_empty_group ns \<and> list_all leaf_ok (concat (map leaves ns)) \<and> list_all (\<lambda>n. node_depth n \<le> MAX_FILTER_DEPTH) ns"
    by (auto simp: node_fits_def list_all_iff)
  then show ?thesis
    by (cases "ns = []") (auto simp: convert_filter_tree_def and_then_eq_Inr convert_node_Inr filters_ok_def)
qed

section \<open>Upserts\<close>

text \<open>\<open>windowed_counter_row\<close> of \<^verbatim>\<open>exec.rs\<close>: the id and the value of the one conflict column.\<close>

definition wants_string :: "string \<Rightarrow> database_error" where
  "wants_string column = DE_invalid_argument (Text ''windowed-counter upsert requires a string `{column}` value in data'' [A_str column])"

fun counter_slots :: "string \<Rightarrow> row \<Rightarrow> string option \<times> string option \<Rightarrow> database_error + (string option \<times> string option)" where
  "counter_slots key [] slots = Inr slots"
| "counter_slots key ((column, value) # data) (i, v) =
     (if column \<noteq> ''id'' \<and> column \<noteq> key
      then Inl (DE_invalid_argument (Text ''windowed-counter upsert writes only `id` and the conflict column `{conflict_column}` from data; `{column}` would not be written''
                  [A_str key, A_str column]))
      else if (if column = ''id'' then i else v) \<noteq> None
      then Inl (DE_invalid_argument (Text ''windowed-counter upsert data names `{column}` twice'' [A_str column]))
      else (case value of
              String s \<Rightarrow> counter_slots key data (if column = ''id'' then (Some s, v) else (i, Some s))
            | _ \<Rightarrow> Inl (wants_string column)))"

definition windowed_counter_row :: "row \<Rightarrow> string list \<Rightarrow> database_error + (string \<times> string \<times> string)" where
  "windowed_counter_row data conflict_columns =
     and_then (case conflict_columns of
                 [only] \<Rightarrow>
                   if only \<noteq> ''id'' then Inr only
                   else Inl (DE_invalid_argument (Text ''windowed-counter upsert cannot key the counter by `id`: `id` is the per-call row id, not the counter's key'' []))
               | _ \<Rightarrow> Inl (DE_invalid_argument (Text ''windowed-counter upsert requires exactly one conflict column, got {}''
                            [A_nat (length conflict_columns)]))) (\<lambda>conflict_column.
     and_then (counter_slots conflict_column data (None, None)) (\<lambda>(i, v).
     and_then (case i of None \<Rightarrow> Inl (wants_string ''id'') | Some x \<Rightarrow> Inr x) (\<lambda>the_id.
     and_then (case v of None \<Rightarrow> Inl (wants_string conflict_column) | Some x \<Rightarrow> Inr x) (\<lambda>conflict_value.
       Inr (the_id, conflict_column, conflict_value)))))"

text \<open>\<^verbatim>\<open>to_upsert_spec\<close>, up to how the refusal of \<open>windowed_counter_row\<close> is answered: a refusal of a name
  is an error of the request (\<open>Inl\<close> of \<open>Inl\<close>), a refusal of the counter one of the database.\<close>

definition request_fault :: "wafer_error + 'a \<Rightarrow> (wafer_error + database_error) + 'a" where
  "request_fault r = (case r of Inl e \<Rightarrow> Inl (Inl e) | Inr x \<Rightarrow> Inr x)"

definition database_fault :: "database_error + 'a \<Rightarrow> (wafer_error + database_error) + 'a" where
  "database_fault r = (case r of Inl e \<Rightarrow> Inl (Inr e) | Inr x \<Rightarrow> Inr x)"

definition convert_conflict :: "upsert_request \<Rightarrow> (wafer_error + database_error) + upsert_conflict" where
  "convert_conflict req =
     (case ur_on_conflict req of
        SetColumns cols \<Rightarrow> request_fault (and_then (check_names cols) (\<lambda>_. Inr (UC_set_columns cols)))
      | WindowedCounter count_field window_field now cutoff created updated \<Rightarrow>
          and_then (request_fault (check_name count_field)) (\<lambda>_.
          and_then (request_fault (check_name window_field)) (\<lambda>_.
          and_then (request_fault (check_names (created @ updated))) (\<lambda>_.
          and_then (database_fault (windowed_counter_row (ur_data req) (ur_conflict_columns req))) (\<lambda>_.
            Inr (UC_windowed_counter count_field window_field now cutoff created updated))))))"

definition to_upsert_spec :: "upsert_request \<Rightarrow> (wafer_error + database_error) + (string \<times> upsert_spec)" where
  "to_upsert_spec req =
     and_then (request_fault (check_names (map fst (ur_data req)))) (\<lambda>_.
     and_then (request_fault (check_names (ur_conflict_columns req))) (\<lambda>_.
     and_then (convert_conflict req) (\<lambda>on_conflict.
       Inr (ur_collection req,
            \<lparr>us_data = ur_data req, us_conflict_columns = ur_conflict_columns req, us_on_conflict = on_conflict\<rparr>))))"

definition to_write_op :: "batch_write \<Rightarrow> (wafer_error + database_error) + write_op" where
  "to_write_op write =
     (case write of
        BW_create c data \<Rightarrow> and_then (request_fault (check_data_names data)) (\<lambda>_. Inr (W_create c data))
      | BW_update c i data \<Rightarrow> and_then (request_fault (check_data_names data)) (\<lambda>_. Inr (W_update c i data))
      | BW_delete c i \<Rightarrow> Inr (W_delete c i)
      | BW_update_where c filters data \<Rightarrow>
          and_then (request_fault (check_data_names data)) (\<lambda>_.
          and_then (request_fault (flat_filters filters)) (\<lambda>fs. Inr (W_update_where c fs data)))
      | BW_delete_where c filters \<Rightarrow> and_then (request_fault (flat_filters filters)) (\<lambda>fs. Inr (W_delete_where c fs))
      | BW_upsert req \<Rightarrow> and_then (to_upsert_spec req) (\<lambda>(c, spec). Inr (W_upsert c spec)))"

section \<open>Guards\<close>

definition to_cap_guard :: "cap_guard_def \<Rightarrow> wafer_error + cap_guard" where
  "to_cap_guard guard =
     (case guard of
        GD_count_below filters cap \<Rightarrow> and_then (flat_filters filters) (\<lambda>fs. Inr (CountBelow fs cap))
      | GD_sum_at_most field filters add cap \<Rightarrow>
          and_then (check_name field) (\<lambda>_. and_then (flat_filters filters) (\<lambda>fs. Inr (SumAtMost field fs add cap))))"

definition to_cap_guards :: "cap_guard_def list \<Rightarrow> wafer_error + cap_guard list" where
  "to_cap_guards guards =
     (if length guards > MAX_WRITE_GUARDS
      then Inl (invalid (Text ''{} guards; at most {} per call'' [A_nat (length guards), A_nat MAX_WRITE_GUARDS]))
      else traverse to_cap_guard guards)"

section \<open>Aggregates\<close>

definition parse_cast :: "string option \<Rightarrow> cast_type list \<Rightarrow> wafer_error + cast_type option" where
  "parse_cast cast_as allowed =
     (case cast_as of
        None \<Rightarrow> Inr None
      | Some name \<Rightarrow>
          (case cast_parse name of
             Some t \<Rightarrow>
               if t \<in> set allowed then Inr (Some t)
               else Inl (invalid (Text ''aggregate cast_as {name:?} is not one of {allowed:?}'' (A_str name # map (A_str \<circ> cast_as_sql) allowed)))
           | None \<Rightarrow> Inl (invalid (Text ''aggregate cast_as {name:?} is not one of {allowed:?}'' (A_str name # map (A_str \<circ> cast_as_sql) allowed)))))"

definition convert_when :: "filter_node list \<Rightarrow> string \<Rightarrow> wafer_error + filter_tree list" where
  "convert_when filters kind =
     and_then (convert_filter_tree filters) (\<lambda>tree.
       if tree = [] then Inl (invalid (Text ''{kind} aggregate requires at least one predicate in `when`'' [A_str kind])) else Inr tree)"

definition convert_sort :: "sort_field list \<Rightarrow> wafer_error + sort_field list" where
  "convert_sort defs = traverse (\<lambda>s. and_then (check_name (sf_field s)) (\<lambda>_. Inr s)) defs"

definition convert_aggregate :: "aggregate_column_def \<Rightarrow> wafer_error + aggregate_column" where
  "convert_aggregate agg =
     (case agg of
        AD_count a \<Rightarrow> and_then (check_name a) (\<lambda>_. Inr (A_count a))
      | AD_sum f a cast \<Rightarrow> and_then (check_names [f, a]) (\<lambda>_. and_then (parse_cast cast ALL_CASTS) (\<lambda>t. Inr (A_sum f a t)))
      | AD_avg f a cast \<Rightarrow> and_then (check_names [f, a]) (\<lambda>_. and_then (parse_cast cast [Double]) (\<lambda>t. Inr (A_avg f a t)))
      | AD_max f a \<Rightarrow> and_then (check_names [f, a]) (\<lambda>_. Inr (A_max f a))
      | AD_case_when_sum w a \<Rightarrow>
          and_then (check_name a) (\<lambda>_. and_then (convert_when w ''case-when-sum'') (\<lambda>ts. Inr (A_case_when_sum ts a)))
      | AD_sum_where f w a cast \<Rightarrow>
          and_then (check_names [f, a]) (\<lambda>_.
          and_then (convert_when w ''sum-where'') (\<lambda>ts.
          and_then (parse_cast cast ALL_CASTS) (\<lambda>t. Inr (A_sum_where f ts a t))))
      | AD_count_groups a \<Rightarrow> and_then (check_name a) (\<lambda>_. Inr (A_count_groups a)))"

fun convert_group :: "group_by \<Rightarrow> wafer_error + group_by" where
  "convert_group (G_column c) = and_then (check_name c) (\<lambda>_. Inr (G_column c))"
| "convert_group (G_date_bucket f) = and_then (check_name f) (\<lambda>_. Inr (G_date_bucket f))"

definition names_aggregate :: "aggregate_column list \<Rightarrow> string \<Rightarrow> bool" where
  "names_aggregate aggregates field \<longleftrightarrow>
     list_ex (\<lambda>a. (case a of A_count_groups _ \<Rightarrow> False | _ \<Rightarrow> True) \<and> agg_alias a = field) aggregates"

definition check_having :: "aggregate_column list \<Rightarrow> db_filter list \<Rightarrow> wafer_error + unit" where
  "check_having aggregates having =
     (case List.find (\<lambda>f. \<not> names_aggregate aggregates (fl_field f)) having of
        Some f \<Rightarrow> Inl (invalid (Text ''having filter {:?} does not name one of the request's aggregates'' [A_str (fl_field f)]))
      | None \<Rightarrow> Inr ())"

text \<open>The pagination rule of \<^verbatim>\<open>query::check_pagination\<close>.\<close>

definition check_pagination :: "nat option \<Rightarrow> int \<Rightarrow> sql_build_error + unit" where
  "check_pagination limit offset =
     (case limit of
        Some n \<Rightarrow> if n = 0 then Inl ZeroLimit else Inr ()
      | None \<Rightarrow> if offset > 0 then Inl (OffsetWithoutLimit offset) else Inr ())"

definition u32_max :: nat where "u32_max = 4294967295"

definition aggregate_limit :: "int \<Rightarrow> nat option" where
  "aggregate_limit limit = (if limit > 0 then Some (min (nat limit) u32_max) else None)"

definition pagination_fault :: "sql_build_error \<Rightarrow> wafer_error" where
  "pagination_fault e =
     invalid (case e of OffsetWithoutLimit offset \<Rightarrow> Text ''offset {offset} needs a limit'' [A_str (show_int offset)]
              | _ \<Rightarrow> Text ''limit must be at least 1; omit it to return every row'' [])"

definition to_aggregate_spec :: "aggregate_request \<Rightarrow> wafer_error + (string \<times> aggregate_spec)" where
  "to_aggregate_spec req =
     and_then (check_names (gr_select_columns req)) (\<lambda>_.
     and_then (traverse convert_aggregate (gr_aggregates req)) (\<lambda>aggregates.
     and_then (traverse convert_group (gr_group_by req)) (\<lambda>groups.
     and_then (flat_filters (gr_filters req)) (\<lambda>filters.
     and_then (flat_filters (gr_having req)) (\<lambda>having.
     and_then (check_having aggregates having) (\<lambda>_.
     and_then (case check_pagination (aggregate_limit (gr_limit req)) (gr_offset req) of
                 Inl e \<Rightarrow> Inl (pagination_fault e) | Inr u \<Rightarrow> Inr u) (\<lambda>_.
     and_then (convert_sort (gr_sort req)) (\<lambda>sort.
       Inr (gr_collection req,
            \<lparr>as_select_columns = gr_select_columns req, as_aggregates = aggregates, as_filters = filters,
             as_group_by = groups, as_sort = sort, as_limit = gr_limit req, as_having = having,
             as_offset = gr_offset req\<rparr>)))))))))"

section \<open>Schemas\<close>

definition data_type_from_kind :: "string \<Rightarrow> wafer_error + data_type" where
  "data_type_from_kind kind =
     (if kind = ''string'' then Inr TString else if kind = ''text'' then Inr TText
      else if kind = ''int'' then Inr TInt else if kind = ''int64'' then Inr TInt64
      else if kind = ''float'' then Inr TFloat else if kind = ''bool'' then Inr TBool
      else if kind = ''datetime'' then Inr TDateTime else if kind = ''json'' then Inr TJson
      else if kind = ''blob'' then Inr TBlob
      else Inl (invalid (Text ''unknown column kind `{other}`'' [A_str kind])))"

definition i64_max :: int where "i64_max = 9223372036854775807"

definition default_from_def :: "(number \<Rightarrow> 64 word) \<Rightarrow> default_def \<Rightarrow> wafer_error + default_value" where
  "default_from_def bits def =
     (if dd_kind def = ''null'' then Inr default_null
      else if dd_kind def = ''now'' then Inr default_now
      else if dd_kind def = ''value'' then
        (case dd_value def of
           String s \<Rightarrow> Inr (DValue (DString s))
         | Bool b \<Rightarrow> Inr (DValue (DBool b))
         | Number (NegInt i) \<Rightarrow> Inr (DValue (DInt i))
         | Number (PosInt n) \<Rightarrow> Inr (DValue (if int n \<le> i64_max then DInt (int n) else DFloat (bits (PosInt n))))
         | Number (Float f) \<Rightarrow> Inr (DValue (DFloat (bits (Float f))))
         | other \<Rightarrow> Inl (invalid (Text ''unsupported default value {other}'' [A_json other])))
      else Inl (invalid (Text ''unknown default kind `{other}`'' [A_str (dd_kind def)])))"

definition column_from_def :: "(number \<Rightarrow> 64 word) \<Rightarrow> column_def \<Rightarrow> wafer_error + column" where
  "column_from_def bits def =
     and_then (check_name (cd_name def)) (\<lambda>_.
     and_then (data_type_from_kind (cd_kind def)) (\<lambda>dt.
     and_then (case cd_default def of None \<Rightarrow> Inr None | Some d \<Rightarrow> and_then (default_from_def bits d) (\<lambda>v. Inr (Some v))) (\<lambda>dflt.
       Inr ((column_new (cd_name def) dt)
              \<lparr>cl_nullable := cd_nullable def, cl_primary_key := cd_primary_key def, cl_auto_increment := cd_auto_increment def,
               cl_unique := cd_unique def, cl_default := dflt\<rparr>))))"

definition key_columns :: "table_def \<Rightarrow> string list" where
  "key_columns def = concat (map id_columns (td_indexes def)) @ td_primary_key def @ concat (td_unique_keys def)"

definition table_from_def :: "(number \<Rightarrow> 64 word) \<Rightarrow> table_def \<Rightarrow> wafer_error + table" where
  "table_from_def bits def =
     and_then (check_name (td_name def)) (\<lambda>_.
       if td_columns def = [] then Inl (invalid (Text ''table `{}` declares no columns'' [A_str (td_name def)]))
       else
         and_then (traverse (column_from_def bits) (td_columns def)) (\<lambda>columns.
         and_then (check_names (filter (\<lambda>n. n \<noteq> []) (map id_name (td_indexes def)))) (\<lambda>_.
         and_then (check_names (key_columns def)) (\<lambda>_.
           Inr ((table_new (td_name def))
                  \<lparr>tb_columns := columns,
                   tb_indexes := map (\<lambda>i. \<lparr>ix_name = id_name i, ix_columns = id_columns i, ix_unique = id_unique i\<rparr>) (td_indexes def),
                   tb_primary_key := td_primary_key def, tb_unique_keys := td_unique_keys def\<rparr>)))))"

section \<open>The names of what is converted\<close>

fun tree_names :: "filter_tree \<Rightarrow> string list" where
  "tree_names (T_leaf f) = [fl_field f]"
| "tree_names (T_column_compare f) = [cf_field f, cf_column f]"
| "tree_names (T_all ts) = concat (map tree_names ts)"
| "tree_names (T_any ts) = concat (map tree_names ts)"

fun tree_depth :: "filter_tree \<Rightarrow> nat" where
  "tree_depth (T_all ts) = 1 + fold max (map tree_depth ts) 0"
| "tree_depth (T_any ts) = 1 + fold max (map tree_depth ts) 0"
| "tree_depth _ = 1"

fun tree_size :: "filter_tree \<Rightarrow> nat" where
  "tree_size (T_all ts) = 1 + sum_list (map tree_size ts)"
| "tree_size (T_any ts) = 1 + sum_list (map tree_size ts)"
| "tree_size _ = 1"

definition well_formed_trees :: "filter_tree list \<Rightarrow> bool" where
  "well_formed_trees ts \<longleftrightarrow>
     list_all is_plain_ident (concat (map tree_names ts)) \<and> list_all (\<lambda>t. tree_depth t \<le> MAX_FILTER_DEPTH) ts
     \<and> sum_list (map tree_size ts) \<le> MAX_FILTER_NODES"

definition well_formed_filters :: "db_filter list \<Rightarrow> bool" where
  "well_formed_filters fs \<longleftrightarrow> list_all (\<lambda>f. is_plain_ident (fl_field f)) fs \<and> length fs \<le> MAX_FILTER_NODES"

lemma convert_leaf_tree:
  assumes "convert_leaf f = Inr t"
  shows "list_all is_plain_ident (tree_names t)" "tree_depth t = 1" "tree_size t = 1"
proof -
  obtain op where op: "parse_wire (fd_operator f) = Inr op" and plain: "is_plain_ident (fd_field f)"
    using assms by (auto simp: convert_leaf_def and_then_eq_Inr)
  have "list_all is_plain_ident (tree_names t) \<and> tree_depth t = 1 \<and> tree_size t = 1"
  proof (cases "fd_column f")
    case None
    with assms op plain show ?thesis by (auto simp: convert_leaf_def and_then_eq_Inr)
  next
    case (Some c)
    with assms op plain show ?thesis
      by (cases "from_filter_op op") (auto simp: convert_leaf_def and_then_eq_Inr split: if_splits)
  qed
  then show "list_all is_plain_ident (tree_names t)" "tree_depth t = 1" "tree_size t = 1" by simp_all
qed

lemma image_names: "list_all leaf_ok (leaves n) \<Longrightarrow> list_all is_plain_ident (tree_names (image n))"
proof (induction n)
  case (FN_leaf f)
  then show ?case using convert_leaf_tree(1) by (auto simp: leaf_ok_Inr)
qed (auto simp: list_all_iff)

lemma image_depth: "list_all leaf_ok (leaves n) \<Longrightarrow> tree_depth (image n) = node_depth n"
proof (induction n)
  case (FN_leaf f)
  then show ?case using convert_leaf_tree(2) by (auto simp: leaf_ok_Inr)
next
  case (FN_all ns)
  then have "map (tree_depth \<circ> image) ns = map node_depth ns" by (auto simp: list_all_iff)
  then show ?case by (simp del: map_eq_conv)
next
  case (FN_any ns)
  then have "map (tree_depth \<circ> image) ns = map node_depth ns" by (auto simp: list_all_iff)
  then show ?case by (simp del: map_eq_conv)
qed

lemma image_size: "list_all leaf_ok (leaves n) \<Longrightarrow> tree_size (image n) = node_size n"
proof (induction n)
  case (FN_leaf f)
  then show ?case using convert_leaf_tree(3) by (auto simp: leaf_ok_Inr)
next
  case (FN_all ns)
  then have "map (tree_size \<circ> image) ns = map node_size ns" by (auto simp: list_all_iff)
  then show ?case by (simp del: map_eq_conv)
next
  case (FN_any ns)
  then have "map (tree_size \<circ> image) ns = map node_size ns" by (auto simp: list_all_iff)
  then show ?case by (simp del: map_eq_conv)
qed

lemma converted_trees: "convert_filter_tree ns = Inr ts \<Longrightarrow> well_formed_trees ts"
proof -
  assume "convert_filter_tree ns = Inr ts"
  then have ok: "filters_ok ns" and ts: "ts = map image ns" by (simp_all add: convert_filter_tree_Inr)
  have leaves: "\<forall>n \<in> set ns. list_all leaf_ok (leaves n)" using ok by (auto simp: filters_ok_def list_all_iff)
  then have "map (tree_size \<circ> image) ns = map node_size ns" using image_size by simp
  moreover have "\<forall>n \<in> set ns. tree_depth (image n) \<le> MAX_FILTER_DEPTH"
    using ok leaves image_depth by (auto simp: filters_ok_def list_all_iff)
  moreover have "\<forall>n \<in> set ns. list_all is_plain_ident (tree_names (image n))" using leaves image_names by blast
  ultimately show ?thesis using ok by (auto simp: ts well_formed_trees_def filters_ok_def list_all_iff simp del: map_eq_conv)
qed

lemma flatten_leaves_Inr: "flatten_leaves ts = Inr fs \<Longrightarrow> ts = map T_leaf fs"
  by (induction ts arbitrary: fs rule: flatten_leaves.induct) (auto simp: and_then_eq_Inr)

lemma flat_filters_Inr: "flat_filters ns = Inr fs \<Longrightarrow> well_formed_filters fs"
proof -
  assume "flat_filters ns = Inr fs"
  then have "well_formed_trees (map T_leaf fs)"
    using converted_trees flatten_leaves_Inr by (auto simp: flat_filters_def and_then_eq_Inr)
  then show ?thesis
    by (simp add: well_formed_trees_def well_formed_filters_def list_all_iff comp_def sum_list_triv)
qed

subsection \<open>Specifications the service is called with\<close>

abbreviation plain_row :: "row \<Rightarrow> bool" where
  "plain_row data \<equiv> list_all is_plain_ident (map fst data)"

fun conflict_names :: "upsert_conflict \<Rightarrow> string list" where
  "conflict_names (UC_set_columns cols) = cols"
| "conflict_names (UC_windowed_counter c w _ _ created updated) = c # w # created @ updated"

definition well_formed_upsert :: "upsert_spec \<Rightarrow> bool" where
  "well_formed_upsert spec \<longleftrightarrow>
     plain_row (us_data spec) \<and> list_all is_plain_ident (us_conflict_columns spec)
     \<and> list_all is_plain_ident (conflict_names (us_on_conflict spec))"

fun write_collection :: "write_op \<Rightarrow> string" where
  "write_collection (W_create c _) = c"
| "write_collection (W_update c _ _) = c"
| "write_collection (W_delete c _) = c"
| "write_collection (W_update_where c _ _) = c"
| "write_collection (W_delete_where c _) = c"
| "write_collection (W_upsert c _) = c"

fun well_formed_write :: "write_op \<Rightarrow> bool" where
  "well_formed_write (W_create _ data) \<longleftrightarrow> plain_row data"
| "well_formed_write (W_update _ _ data) \<longleftrightarrow> plain_row data"
| "well_formed_write (W_delete _ _) \<longleftrightarrow> True"
| "well_formed_write (W_update_where _ fs data) \<longleftrightarrow> well_formed_filters fs \<and> plain_row data"
| "well_formed_write (W_delete_where _ fs) \<longleftrightarrow> well_formed_filters fs"
| "well_formed_write (W_upsert _ spec) \<longleftrightarrow> well_formed_upsert spec"

fun well_formed_guard :: "cap_guard \<Rightarrow> bool" where
  "well_formed_guard (CountBelow fs _) \<longleftrightarrow> well_formed_filters fs"
| "well_formed_guard (SumAtMost f fs _ _) \<longleftrightarrow> is_plain_ident f \<and> well_formed_filters fs"

fun well_formed_aggregate :: "aggregate_column \<Rightarrow> bool" where
  "well_formed_aggregate (A_count a) \<longleftrightarrow> is_plain_ident a"
| "well_formed_aggregate (A_sum f a _) \<longleftrightarrow> is_plain_ident f \<and> is_plain_ident a"
| "well_formed_aggregate (A_avg f a cast) \<longleftrightarrow> is_plain_ident f \<and> is_plain_ident a \<and> cast \<noteq> Some BigInt"
| "well_formed_aggregate (A_max f a) \<longleftrightarrow> is_plain_ident f \<and> is_plain_ident a"
| "well_formed_aggregate (A_case_when_sum ts a) \<longleftrightarrow> is_plain_ident a \<and> ts \<noteq> [] \<and> well_formed_trees ts"
| "well_formed_aggregate (A_sum_where f ts a _) \<longleftrightarrow> is_plain_ident f \<and> is_plain_ident a \<and> ts \<noteq> [] \<and> well_formed_trees ts"
| "well_formed_aggregate (A_count_groups a) \<longleftrightarrow> is_plain_ident a"

fun group_name :: "group_by \<Rightarrow> string" where
  "group_name (G_column c) = c"
| "group_name (G_date_bucket f) = f"

definition well_formed_spec :: "aggregate_spec \<Rightarrow> bool" where
  "well_formed_spec spec \<longleftrightarrow>
     list_all is_plain_ident (as_select_columns spec) \<and> list_all well_formed_aggregate (as_aggregates spec)
     \<and> list_all (is_plain_ident \<circ> group_name) (as_group_by spec) \<and> list_all (is_plain_ident \<circ> sf_field) (as_sort spec)
     \<and> well_formed_filters (as_filters spec) \<and> well_formed_filters (as_having spec)
     \<and> list_all (\<lambda>f. names_aggregate (as_aggregates spec) (fl_field f)) (as_having spec)
     \<and> (as_offset spec > 0 \<longrightarrow> as_limit spec > 0)"

definition well_formed_table :: "table \<Rightarrow> bool" where
  "well_formed_table tb \<longleftrightarrow>
     list_all is_plain_ident (table_names tb) \<and> tb_columns tb \<noteq> []
     \<and> list_all (\<lambda>i. (ix_name i = [] \<or> is_plain_ident (ix_name i)) \<and> list_all is_plain_ident (ix_columns i)) (tb_indexes tb)"

lemma fault_Inr [simp]: "request_fault r = Inr x \<longleftrightarrow> r = Inr x" "database_fault r' = Inr x \<longleftrightarrow> r' = Inr x"
  by (simp_all add: request_fault_def database_fault_def split: sum.splits)

lemma convert_conflict_Inr: "convert_conflict req = Inr c \<Longrightarrow> list_all is_plain_ident (conflict_names c)"
  by (cases "ur_on_conflict req") (auto simp: convert_conflict_def and_then_eq_Inr)

lemma to_upsert_spec_Inr: "to_upsert_spec req = Inr (c, spec) \<Longrightarrow> c = ur_collection req \<and> well_formed_upsert spec"
  using convert_conflict_Inr by (fastforce simp: to_upsert_spec_def and_then_eq_Inr well_formed_upsert_def)

lemma to_write_op_Inr:
  "to_write_op bw = Inr w \<Longrightarrow> write_collection w = bw_collection bw \<and> well_formed_write w"
  using flat_filters_Inr to_upsert_spec_Inr by (cases bw) (fastforce simp: to_write_op_def and_then_eq_Inr)+

lemma to_cap_guards_Inr: "to_cap_guards gs = Inr guards \<Longrightarrow> list_all well_formed_guard guards \<and> length guards \<le> MAX_WRITE_GUARDS"
proof -
  assume "to_cap_guards gs = Inr guards"
  then have t: "traverse to_cap_guard gs = Inr guards" and len: "length gs \<le> MAX_WRITE_GUARDS"
    by (simp_all add: to_cap_guards_def split: if_splits)
  have "to_cap_guard g = Inr h \<Longrightarrow> well_formed_guard h" for g h
    using flat_filters_Inr by (cases g) (auto simp: to_cap_guard_def and_then_eq_Inr)
  moreover have "length guards = length gs" using traverse_list_all2 [OF t] by (simp add: list_all2_lengthD)
  ultimately show ?thesis using traverse_result [OF t] len by (metis list_all_iff)
qed

lemma convert_sort_Inr: "convert_sort defs = Inr keys \<Longrightarrow> list_all (is_plain_ident \<circ> sf_field) keys \<and> keys = defs"
  by (induction defs arbitrary: keys) (auto simp: convert_sort_def and_then_eq_Inr)

lemma convert_when_Inr: "convert_when ws k = Inr ts \<Longrightarrow> ts \<noteq> [] \<and> well_formed_trees ts"
  using converted_trees by (auto simp: convert_when_def and_then_eq_Inr split: if_splits)

lemma convert_aggregate_Inr: "convert_aggregate d = Inr a \<Longrightarrow> well_formed_aggregate a"
proof (cases d)
  case (AD_avg f al cast)
  moreover assume "convert_aggregate d = Inr a"
  ultimately show ?thesis
    by (auto simp: convert_aggregate_def and_then_eq_Inr parse_cast_def split: option.splits if_splits)
qed (auto simp: convert_aggregate_def and_then_eq_Inr dest: convert_when_Inr)

lemma check_having_Inr: "check_having aggs having = Inr u \<longleftrightarrow> list_all (\<lambda>f. names_aggregate aggs (fl_field f)) having"
  by (auto simp: check_having_def list_all_iff find_None_iff find_Some_iff split: option.splits)

lemma convert_group_Inr: "convert_group g = Inr g' \<longleftrightarrow> is_plain_ident (group_name g) \<and> g' = g"
  by (cases g) (auto simp: and_then_eq_Inr)

lemma to_aggregate_spec_Inr: "to_aggregate_spec req = Inr (c, spec) \<Longrightarrow> c = gr_collection req \<and> well_formed_spec spec"
proof -
  assume "to_aggregate_spec req = Inr (c, spec)"
  then obtain aggregates groups filters having keys where
    cols: "list_all is_plain_ident (gr_select_columns req)" and
    aggs: "traverse convert_aggregate (gr_aggregates req) = Inr aggregates" and
    groups: "traverse convert_group (gr_group_by req) = Inr groups" and
    filters: "flat_filters (gr_filters req) = Inr filters" "flat_filters (gr_having req) = Inr having" and
    named: "list_all (\<lambda>f. names_aggregate aggregates (fl_field f)) having" and
    page: "check_pagination (aggregate_limit (gr_limit req)) (gr_offset req) = Inr ()" and
    sort: "convert_sort (gr_sort req) = Inr keys" and
    spec: "c = gr_collection req" "spec = \<lparr>as_select_columns = gr_select_columns req, as_aggregates = aggregates, as_filters = filters,
             as_group_by = groups, as_sort = keys, as_limit = gr_limit req, as_having = having, as_offset = gr_offset req\<rparr>"
    by (auto simp: to_aggregate_spec_def and_then_eq_Inr check_having_Inr split: sum.splits)
  have "list_all well_formed_aggregate aggregates"
    using traverse_result [OF aggs] convert_aggregate_Inr by (auto simp: list_all_iff)
  moreover have "list_all (is_plain_ident \<circ> group_name) groups"
    using traverse_result [OF groups] by (auto simp: list_all_iff convert_group_Inr)
  moreover have "gr_offset req > 0 \<longrightarrow> gr_limit req > 0"
    using page by (auto simp: check_pagination_def aggregate_limit_def split: if_splits)
  ultimately show ?thesis
    using cols filters [THEN flat_filters_Inr] named convert_sort_Inr [OF sort] by (auto simp: spec well_formed_spec_def)
qed

lemma column_from_def_Inr: "column_from_def bits d = Inr c \<Longrightarrow> is_plain_ident (cl_name c) \<and> cl_references c = None"
  by (auto simp: column_from_def_def and_then_eq_Inr column_new_def)

lemma table_from_def_Inr: "table_from_def bits def = Inr tb \<Longrightarrow> tb_name tb = td_name def \<and> well_formed_table tb"
proof -
  assume "table_from_def bits def = Inr tb"
  then obtain columns where
    name: "is_plain_ident (td_name def)" and some: "td_columns def \<noteq> []" and
    cols: "traverse (column_from_def bits) (td_columns def) = Inr columns" and
    ixs: "list_all is_plain_ident (filter (\<lambda>n. n \<noteq> []) (map id_name (td_indexes def)))" and
    keyed: "list_all is_plain_ident (key_columns def)" and
    tb: "tb = (table_new (td_name def))
                  \<lparr>tb_columns := columns,
                   tb_indexes := map (\<lambda>i. \<lparr>ix_name = id_name i, ix_columns = id_columns i, ix_unique = id_unique i\<rparr>) (td_indexes def),
                   tb_primary_key := td_primary_key def, tb_unique_keys := td_unique_keys def\<rparr>"
    by (auto simp: table_from_def_def and_then_eq_Inr split: if_splits)
  have "\<forall>c \<in> set columns. is_plain_ident (cl_name c) \<and> cl_references c = None"
    using traverse_result [OF cols] column_from_def_Inr by blast
  moreover have "columns \<noteq> []" using traverse_list_all2 [OF cols] some by auto
  ultimately show ?thesis
    using name ixs keyed by (auto simp: tb table_new_def well_formed_table_def table_names_def fk_names_def key_columns_def list_all_iff)
qed

end
