(* ===== verification/Db_Handler.thy ===== *)
theory Db_Handler
  imports Db_Convert
begin

text \<open>
  \<^verbatim>\<open>handle_message\<close> of \<^verbatim>\<open>crates/wafer-core/src/interfaces/database/handler.rs\<close>: every database operation from
  the decoded request to the answer, with the checks of names, access and append-only inserts in the
  order of the source, the service calls made, and what the init attempt of the caller is told.

  Decoding is the codec's (\<open>de_decode\<close>, for the request type of the operation); so is encoding, and an
  answer is the response it would encode.  The backend is the parameter \<open>de_service\<close>; \<open>ds_calls\<close> records
  the calls made to it.
\<close>

section \<open>Calls and answers\<close>

datatype db_call =
    C_get string string
  | C_list string list_options
  | C_create string row
  | C_create_many string "row list"
  | C_batch "write_op list"
  | C_insert_guarded string row "cap_guard list"
  | C_update_guarded string "db_filter list" row "cap_guard list"
  | C_update string string row
  | C_delete string string
  | C_count string "db_filter list"
  | C_sum string string "db_filter list"
  | C_query_raw string "json list"
  | C_exec_raw string "json list"
  | C_exec_raw_transaction "raw_statement list"
  | C_delete_where string "db_filter list"
  | C_delete_where_count string "db_filter list"
  | C_take_where string "db_filter list"
  | C_update_where string "db_filter list" row
  | C_update_where_count string "db_filter list" row
  | C_increment_field_where string string int "db_filter list"
  | C_upsert string upsert_spec
  | C_aggregate string aggregate_spec
  | C_ensure_schema_table table
  | C_schema_table_exists string
  | C_schema_columns string
  | C_schema_drop_table string
  | C_schema_add_column string column
  | C_catalog_tables
  | C_catalog_columns string
  | C_catalog_row_count string

datatype db_response =
    R_record db_record
  | R_record_list record_list
  | R_rows_affected int
  | R_batch "write_outcome list"
  | R_insert_guarded guarded_insert
  | R_update_guarded guarded_update
  | R_empty
  | R_count int
  | R_sum rat
  | R_records "db_record list"
  | R_rows_each "int list"
  | R_upsert int "db_record option"
  | R_schema_op string
  | R_exists string bool
  | R_tables "string list"
  | R_columns string "catalog_column list"
  | R_row_count string int

record 'w db_env =
  de_call :: call_env
  de_ctx :: runtime_context
  de_attempt :: "nat option"
  de_decode :: "string \<Rightarrow> string \<Rightarrow> string + db_request"
  de_bits :: "number \<Rightarrow> 64 word"
  de_service :: "'w database_service"

record 'w db_state =
  ds_world :: 'w
  ds_calls :: "db_call list"
  ds_attempts :: record_store

type_synonym ('w, 'a) handled = "'w db_state \<Rightarrow> (wafer_error + 'a) \<times> 'w db_state"

section \<open>Errors\<close>

definition PRESERVED_DB_ERROR_SUBSTRINGS :: "string list" where
  "PRESERVED_DB_ERROR_SUBSTRINGS = [''duplicate column name'', ''already exists'']"

definition is_preserved_db_error :: "string \<Rightarrow> bool" where
  "is_preserved_db_error msg \<longleftrightarrow>
     (let lower = to_ascii_lowercase msg in list_ex (\<lambda>needle. sublist needle lower) PRESERVED_DB_ERROR_SUBSTRINGS)"

fun scrubbed :: "database_answer \<Rightarrow> string" where
  "scrubbed DatabaseUnavailable = ''database temporarily unavailable''"
| "scrubbed CallBudgetExhausted = ''database temporarily unavailable''"
| "scrubbed Contended = ''database busy, retry''"

definition observed :: "'w db_env \<Rightarrow> database_error \<Rightarrow> 'w db_state \<Rightarrow> 'w db_state" where
  "observed env e s =
     (case (de_attempt env, attempt_answer e) of
        (Some i, Some answer) \<Rightarrow> s\<lparr>ds_attempts := snd (note_answer (ds_attempts s) i answer)\<rparr>
      | _ \<Rightarrow> s)"

definition with_optional_detail_code :: "wafer_error \<Rightarrow> string option \<Rightarrow> wafer_error" where
  "with_optional_detail_code e code = (case code of Some c \<Rightarrow> with_detail_code e c | None \<Rightarrow> e)"

definition driver_text :: "string \<Rightarrow> msg_text" where
  "driver_text msg = (if is_preserved_db_error msg then Text ''{msg}'' [A_str msg] else Text ''internal database error'' [])"

definition db_error_to_wafer :: "database_error \<Rightarrow> wafer_error" where
  "db_error_to_wafer e =
     with_optional_detail_code
       (wafer_error_new (database_error_code e)
         (case e of
            DE_not_found \<Rightarrow> Text ''record not found'' []
          | DE_already_exists _ \<Rightarrow> Text ''a record with this key already exists'' []
          | DE_invalid_argument msg \<Rightarrow> msg
          | DE_call_budget_exhausted msg \<Rightarrow> Text ''{msg}'' [A_str msg]
          | DE_unavailable _ \<Rightarrow> Text (scrubbed DatabaseUnavailable) []
          | DE_contended _ \<Rightarrow> Text (scrubbed Contended) []
          | DE_internal msg \<Rightarrow> driver_text msg
          | DE_other msg \<Rightarrow> driver_text msg))
       (database_detail_code e)"

definition META_FAILED_STATEMENT_INDEX :: string where
  "META_FAILED_STATEMENT_INDEX = ''database.failed_statement_index''"

definition transaction_error_to_wafer :: "transaction_error \<Rightarrow> wafer_error" where
  "transaction_error_to_wafer failed =
     (let e = te_error failed;
          err = with_optional_detail_code
                  (wafer_error_new (database_error_code e)
                    (case e of
                       DE_not_found \<Rightarrow> Text ''record not found'' []
                     | DE_already_exists msg \<Rightarrow> Text ''{msg}'' [A_str msg]
                     | DE_invalid_argument msg \<Rightarrow> msg
                     | DE_call_budget_exhausted msg \<Rightarrow> Text ''{msg}'' [A_str msg]
                     | DE_internal msg \<Rightarrow> Text ''{msg}'' [A_str msg]
                     | DE_unavailable _ \<Rightarrow> Text (scrubbed DatabaseUnavailable) []
                     | DE_contended _ \<Rightarrow> Text (scrubbed Contended) []
                     | DE_other msg \<Rightarrow> Text ''{msg}'' [A_str msg]))
                  (database_detail_code e)
      in case te_statement failed of
           None \<Rightarrow> err
         | Some index \<Rightarrow> err\<lparr>we_meta := meta_set (we_meta err) META_FAILED_STATEMENT_INDEX (show_nat index)\<rparr>)"

section \<open>Running a call\<close>

text \<open>A pure check before the rest of an arm.\<close>

definition checked :: "wafer_error + 'a \<Rightarrow> ('a \<Rightarrow> ('w, 'b) handled) \<Rightarrow> ('w, 'b) handled" where
  "checked r k s = (case r of Inl e \<Rightarrow> (Inl e, s) | Inr x \<Rightarrow> k x s)"

text \<open>The same for a check that can fail with an error of the database.\<close>

definition checked_db :: "'w db_env \<Rightarrow> (wafer_error + database_error) + 'a \<Rightarrow> ('a \<Rightarrow> ('w, 'b) handled) \<Rightarrow> ('w, 'b) handled" where
  "checked_db env r k s =
     (case r of
        Inl (Inl e) \<Rightarrow> (Inl e, s)
      | Inl (Inr e) \<Rightarrow> (Inl (db_error_to_wafer e), observed env e s)
      | Inr x \<Rightarrow> k x s)"

text \<open>A service call and what follows its answer.\<close>

definition serve :: "'w db_env \<Rightarrow> db_call \<Rightarrow> ('w, database_error, 'a) served \<Rightarrow> ('a \<Rightarrow> ('w, 'b) handled) \<Rightarrow> ('w, 'b) handled" where
  "serve env call run k s =
     (case run (ds_world s) of
        (r, w) \<Rightarrow>
          (let s = s\<lparr>ds_world := w, ds_calls := ds_calls s @ [call]\<rparr> in
           case r of Inl e \<Rightarrow> (Inl (db_error_to_wafer e), observed env e s) | Inr x \<Rightarrow> k x s))"

definition reply :: "'b \<Rightarrow> ('w, 'b) handled" where
  "reply x s = (Inr x, s)"

section \<open>Authorization\<close>

definition check_resource_access :: "'w db_env \<Rightarrow> string \<Rightarrow> resource_access \<Rightarrow> wafer_error + unit" where
  "check_resource_access env resource access = authorize_resource (de_call env) (de_ctx env) resource Db access"

definition admitted :: "'w db_env \<Rightarrow> string \<Rightarrow> resource_access \<Rightarrow> bool" where
  "admitted env resource access \<longleftrightarrow> \<not> isl (check_resource_access env resource access)"

definition op_checks :: "string \<Rightarrow> string \<Rightarrow> wafer_error + (string \<times> resource_access) list" where
  "op_checks op resource =
     and_then (check_name resource) (\<lambda>_.
       case database_op_access op of
         Some (On accesses) \<Rightarrow> Inr (map (\<lambda>access. (resource, access)) accesses)
       | _ \<Rightarrow> Inl (wafer_error_new Internal (Text ''BUG: DATABASE_OP_ACCESS names no single-resource access for `{op}`'' [A_str op])))"

definition authorize_all :: "'w db_env \<Rightarrow> wafer_error + (string \<times> resource_access) list \<Rightarrow> wafer_error + unit" where
  "authorize_all env resources =
     and_then resources (\<lambda>checks.
     and_then (traverse (\<lambda>(resource, access). check_resource_access env resource access) checks) (\<lambda>_. Inr ()))"

definition authorize_op :: "'w db_env \<Rightarrow> string \<Rightarrow> string \<Rightarrow> wafer_error + unit" where
  "authorize_op env op resource = authorize_all env (op_checks op resource)"

fun add_check :: "batch_write list \<Rightarrow> (string \<times> resource_access) list \<Rightarrow> wafer_error + (string \<times> resource_access) list" where
  "add_check [] checks = Inr checks"
| "add_check (op # ops) checks =
     and_then (check_name (bw_collection op)) (\<lambda>_.
       let check = (bw_collection op, bw_access op) in
       add_check ops (if check \<in> set checks then checks else checks @ [check]))"

definition batch_checks :: "batch_write list \<Rightarrow> wafer_error + (string \<times> resource_access) list" where
  "batch_checks ops =
     (if database_op_access ''database.batch'' \<noteq> Some PerWrite
      then Inl (wafer_error_new Internal (Text ''BUG: DATABASE_OP_ACCESS does not classify database.batch per write'' []))
      else add_check ops [])"

section \<open>Append-only inserts\<close>

definition SERVER_OWNED_COLUMNS :: "string list" where
  "SERVER_OWNED_COLUMNS = [''id'', ''created_at'', ''updated_at'']"

definition inserts_append_only :: "'w db_env \<Rightarrow> string \<Rightarrow> bool" where
  "inserts_append_only env collection \<longleftrightarrow> \<not> admitted env collection Write"

fun named_columns :: "string \<Rightarrow> string list \<Rightarrow> string list \<Rightarrow> wafer_error + string list" where
  "named_columns collection [] named = Inr named"
| "named_columns collection (key # keys) named =
     and_then (check_name key) (\<lambda>_.
       if key \<in> set SERVER_OWNED_COLUMNS
       then Inl (wafer_error_new PermissionDenied
              (Text ''an append-only insert into `{collection}` cannot set `{key}`; the server assigns it'' [A_str collection, A_str key]))
       else named_columns collection keys (if key \<in> set named then named else named @ [key]))"

definition check_append_only_rows :: "'w db_env \<Rightarrow> string \<Rightarrow> row list \<Rightarrow> ('w, unit) handled" where
  "check_append_only_rows env collection rows =
     checked (named_columns collection (concat (map (map fst) rows)) []) (\<lambda>named.
     serve env (C_schema_columns collection) (sv_schema_columns (de_service env) collection) (\<lambda>existing.
       case List.find (\<lambda>c. c \<notin> set existing) (SERVER_OWNED_COLUMNS @ named) of
         Some column \<Rightarrow>
           checked (Inl (wafer_error_new PermissionDenied
             (Text ''`{collection}` has no column `{column}`, and an append-only insert cannot add one'' [A_str collection, A_str column]))) reply
       | None \<Rightarrow> reply ()))"

definition then_do :: "('w, 'a) handled \<Rightarrow> ('a \<Rightarrow> ('w, 'b) handled) \<Rightarrow> ('w, 'b) handled" where
  "then_do m k s = (case m s of (Inl e, s) \<Rightarrow> (Inl e, s) | (Inr x, s) \<Rightarrow> k x s)"

definition append_rules :: "'w db_env \<Rightarrow> string \<Rightarrow> row list \<Rightarrow> ('w, unit) handled" where
  "append_rules env collection rows =
     (if inserts_append_only env collection then check_append_only_rows env collection rows else reply ())"

section \<open>The operations\<close>

definition handle_get :: "'w db_env \<Rightarrow> string \<Rightarrow> string \<Rightarrow> ('w, db_response) handled" where
  "handle_get env c i =
     checked (authorize_op env ''database.get'' c) (\<lambda>_.
     serve env (C_get c i) (sv_get (de_service env) c i) (reply \<circ> R_record))"

definition handle_list :: "'w db_env \<Rightarrow> list_request \<Rightarrow> ('w, db_response) handled" where
  "handle_list env req =
     checked (authorize_op env ''database.list'' (lr_collection req)) (\<lambda>_.
     checked (convert_filter_tree (lr_filters req)) (\<lambda>tree.
     checked (convert_sort (lr_sort req)) (\<lambda>keys.
     checked (case lr_columns req of
                Some cols \<Rightarrow>
                  if cols = [] then Inl (invalid (Text ''columns must be non-empty when specified'' [])) else check_names cols
              | None \<Rightarrow> Inr ()) (\<lambda>_.
       let opts = \<lparr>lo_filters = [], lo_sort = keys, lo_limit = lr_limit req, lo_offset = lr_offset req,
                   lo_skip_count = lr_skip_count req, lo_filter_tree = Some tree, lo_columns = lr_columns req\<rparr> in
       serve env (C_list (lr_collection req) opts) (sv_list (de_service env) (lr_collection req) opts) (reply \<circ> R_record_list)))))"

definition handle_create :: "'w db_env \<Rightarrow> string \<Rightarrow> row \<Rightarrow> ('w, db_response) handled" where
  "handle_create env c data =
     checked (authorize_op env ''database.create'' c) (\<lambda>_.
     checked (check_data_names data) (\<lambda>_.
     then_do (append_rules env c [data]) (\<lambda>_.
     serve env (C_create c data) (sv_create (de_service env) c data) (reply \<circ> R_record))))"

definition handle_create_many :: "'w db_env \<Rightarrow> string \<Rightarrow> row list \<Rightarrow> ('w, db_response) handled" where
  "handle_create_many env c rows =
     checked (authorize_op env ''database.create_many'' c) (\<lambda>_.
     checked (and_then (traverse check_data_names rows) (\<lambda>_. Inr ())) (\<lambda>_.
     then_do (append_rules env c rows) (\<lambda>_.
     serve env (C_create_many c rows) (sv_create_many (de_service env) c rows) (reply \<circ> R_rows_affected))))"

text \<open>The collections a batch creates rows in, and the rows it creates in one.\<close>

fun created_in :: "batch_write list \<Rightarrow> string list" where
  "created_in [] = []"
| "created_in (BW_create c _ # ops) = c # created_in ops"
| "created_in (_ # ops) = created_in ops"

definition created_rows :: "batch_write list \<Rightarrow> string \<Rightarrow> row list" where
  "created_rows ops collection =
     concat (map (\<lambda>op. case op of BW_create c data \<Rightarrow> if c = collection then [data] else [] | _ \<Rightarrow> []) ops)"

text \<open>Each collection once, in the order it first appears.\<close>

definition remdups_first :: "'a list \<Rightarrow> 'a list" where
  "remdups_first xs = fold (\<lambda>x seen. if x \<in> set seen then seen else seen @ [x]) xs []"

fun check_append_all :: "'w db_env \<Rightarrow> batch_write list \<Rightarrow> string list \<Rightarrow> ('w, unit) handled" where
  "check_append_all env ops [] = reply ()"
| "check_append_all env ops (c # cs) =
     then_do (check_append_only_rows env c (created_rows ops c)) (\<lambda>_. check_append_all env ops cs)"

definition handle_batch :: "'w db_env \<Rightarrow> batch_write list \<Rightarrow> ('w, db_response) handled" where
  "handle_batch env ops =
     checked (authorize_all env (batch_checks ops)) (\<lambda>_.
     then_do (check_append_all env ops (filter (inserts_append_only env) (remdups_first (created_in ops)))) (\<lambda>_.
     checked_db env (traverse to_write_op ops) (\<lambda>writes.
     serve env (C_batch writes) (sv_batch (de_service env) writes) (reply \<circ> R_batch))))"

definition handle_insert_guarded :: "'w db_env \<Rightarrow> string \<Rightarrow> row \<Rightarrow> cap_guard_def list \<Rightarrow> ('w, db_response) handled" where
  "handle_insert_guarded env c data guards =
     checked (authorize_op env ''database.insert_guarded'' c) (\<lambda>_.
     checked (to_cap_guards guards) (\<lambda>gs.
     checked (check_data_names data) (\<lambda>_.
     then_do (append_rules env c [data]) (\<lambda>_.
     serve env (C_insert_guarded c data gs) (sv_insert_guarded (de_service env) c data gs) (reply \<circ> R_insert_guarded)))))"

definition handle_update_guarded :: "'w db_env \<Rightarrow> string \<Rightarrow> filter_node list \<Rightarrow> row \<Rightarrow> cap_guard_def list \<Rightarrow> ('w, db_response) handled" where
  "handle_update_guarded env c filters data guards =
     checked (authorize_op env ''database.update_guarded'' c) (\<lambda>_.
     checked (flat_filters filters) (\<lambda>fs.
     checked (to_cap_guards guards) (\<lambda>gs.
     checked (check_data_names data) (\<lambda>_.
     serve env (C_update_guarded c fs data gs) (sv_update_guarded (de_service env) c fs data gs) (reply \<circ> R_update_guarded)))))"

definition handle_update :: "'w db_env \<Rightarrow> string \<Rightarrow> string \<Rightarrow> row \<Rightarrow> ('w, db_response) handled" where
  "handle_update env c i data =
     checked (authorize_op env ''database.update'' c) (\<lambda>_.
     checked (check_data_names data) (\<lambda>_.
     serve env (C_update c i data) (sv_update (de_service env) c i data) (reply \<circ> R_record)))"

definition handle_delete :: "'w db_env \<Rightarrow> string \<Rightarrow> string \<Rightarrow> ('w, db_response) handled" where
  "handle_delete env c i =
     checked (authorize_op env ''database.delete'' c) (\<lambda>_.
     serve env (C_delete c i) (sv_delete (de_service env) c i) (\<lambda>_. reply R_empty))"

definition handle_count :: "'w db_env \<Rightarrow> string \<Rightarrow> filter_node list \<Rightarrow> ('w, db_response) handled" where
  "handle_count env c filters =
     checked (authorize_op env ''database.count'' c) (\<lambda>_.
     checked (flat_filters filters) (\<lambda>fs.
     serve env (C_count c fs) (sv_count (de_service env) c fs) (reply \<circ> R_count)))"

definition handle_query_raw :: "'w db_env \<Rightarrow> string \<Rightarrow> json list \<Rightarrow> ('w, db_response) handled" where
  "handle_query_raw env query args =
     checked (authorize_op env ''database.query_raw'' RAW_SQL_RESOURCE) (\<lambda>_.
     serve env (C_query_raw query args) (sv_query_raw (de_service env) query args) (reply \<circ> R_records))"

definition handle_sum :: "'w db_env \<Rightarrow> string \<Rightarrow> string \<Rightarrow> filter_node list \<Rightarrow> ('w, db_response) handled" where
  "handle_sum env c field filters =
     checked (authorize_op env ''database.sum'' c) (\<lambda>_.
     checked (flat_filters filters) (\<lambda>fs.
     checked (check_name field) (\<lambda>_.
     serve env (C_sum c field fs) (sv_sum (de_service env) c field fs) (reply \<circ> R_sum))))"

definition handle_exec_raw :: "'w db_env \<Rightarrow> string \<Rightarrow> json list \<Rightarrow> ('w, db_response) handled" where
  "handle_exec_raw env query args =
     checked (authorize_op env ''database.exec_raw'' RAW_SQL_RESOURCE) (\<lambda>_.
     serve env (C_exec_raw query args) (sv_exec_raw (de_service env) query args) (reply \<circ> R_rows_affected))"

definition handle_ddl :: "'w db_env \<Rightarrow> string \<Rightarrow> json list \<Rightarrow> ('w, db_response) handled" where
  "handle_ddl env query args =
     checked (authorize_op env ''database.ddl'' DDL_RESOURCE) (\<lambda>_.
     serve env (C_exec_raw query args) (sv_exec_raw (de_service env) query args) (reply \<circ> R_rows_affected))"

definition handle_ddl_transaction :: "'w db_env \<Rightarrow> raw_statement list \<Rightarrow> ('w, db_response) handled" where
  "handle_ddl_transaction env statements =
     checked (authorize_op env ''database.ddl_transaction'' DDL_RESOURCE) (\<lambda>_ s.
       case sv_exec_raw_transaction (de_service env) statements (ds_world s) of
         (r, w) \<Rightarrow>
           (let s = s\<lparr>ds_world := w, ds_calls := ds_calls s @ [C_exec_raw_transaction statements]\<rparr> in
            case r of
              Inl e \<Rightarrow> (Inl (transaction_error_to_wafer e), observed env (te_error e) s)
            | Inr rows \<Rightarrow> (Inr (R_rows_each rows), s)))"

definition handle_delete_where :: "'w db_env \<Rightarrow> string \<Rightarrow> filter_node list \<Rightarrow> ('w, db_response) handled" where
  "handle_delete_where env c filters =
     checked (authorize_op env ''database.delete_where'' c) (\<lambda>_.
     checked (flat_filters filters) (\<lambda>fs.
     serve env (C_delete_where c fs) (sv_delete_where (de_service env) c fs) (\<lambda>_. reply R_empty)))"

definition handle_delete_where_count :: "'w db_env \<Rightarrow> string \<Rightarrow> filter_node list \<Rightarrow> ('w, db_response) handled" where
  "handle_delete_where_count env c filters =
     checked (authorize_op env ''database.delete_where_count'' c) (\<lambda>_.
     checked (flat_filters filters) (\<lambda>fs.
     serve env (C_delete_where_count c fs) (sv_delete_where_count (de_service env) c fs) (reply \<circ> R_count)))"

definition handle_take_where :: "'w db_env \<Rightarrow> string \<Rightarrow> filter_node list \<Rightarrow> ('w, db_response) handled" where
  "handle_take_where env c filters =
     checked (authorize_op env ''database.take_where'' c) (\<lambda>_.
     checked (flat_filters filters) (\<lambda>fs.
     serve env (C_take_where c fs) (sv_take_where (de_service env) c fs) (reply \<circ> R_records)))"

definition handle_update_where :: "'w db_env \<Rightarrow> string \<Rightarrow> filter_node list \<Rightarrow> row \<Rightarrow> ('w, db_response) handled" where
  "handle_update_where env c filters data =
     checked (authorize_op env ''database.update_where'' c) (\<lambda>_.
     checked (flat_filters filters) (\<lambda>fs.
     checked (check_data_names data) (\<lambda>_.
     serve env (C_update_where c fs data) (sv_update_where (de_service env) c fs data) (\<lambda>_. reply R_empty))))"

definition handle_update_where_count :: "'w db_env \<Rightarrow> string \<Rightarrow> filter_node list \<Rightarrow> row \<Rightarrow> ('w, db_response) handled" where
  "handle_update_where_count env c filters data =
     checked (authorize_op env ''database.update_where_count'' c) (\<lambda>_.
     checked (flat_filters filters) (\<lambda>fs.
     checked (check_data_names data) (\<lambda>_.
     serve env (C_update_where_count c fs data) (sv_update_where_count (de_service env) c fs data) (reply \<circ> R_count))))"

definition handle_increment_field_where :: "'w db_env \<Rightarrow> string \<Rightarrow> string \<Rightarrow> int \<Rightarrow> filter_node list \<Rightarrow> ('w, db_response) handled" where
  "handle_increment_field_where env c col delta filters =
     checked (authorize_op env ''database.increment_field_where'' c) (\<lambda>_.
     checked (flat_filters filters) (\<lambda>fs.
     checked (check_name col) (\<lambda>_.
     serve env (C_increment_field_where c col delta fs) (sv_increment_field_where (de_service env) c col delta fs)
       (reply \<circ> R_rows_affected))))"

definition handle_upsert :: "'w db_env \<Rightarrow> upsert_request \<Rightarrow> ('w, db_response) handled" where
  "handle_upsert env req =
     checked (authorize_op env ''database.upsert'' (ur_collection req)) (\<lambda>_.
     checked_db env (to_upsert_spec req) (\<lambda>(c, spec).
     serve env (C_upsert c spec) (sv_upsert (de_service env) c spec)
       (\<lambda>r. reply (R_upsert (if r = None then 0 else 1) r))))"

definition handle_aggregate :: "'w db_env \<Rightarrow> aggregate_request \<Rightarrow> ('w, db_response) handled" where
  "handle_aggregate env req =
     checked (authorize_op env ''database.aggregate'' (gr_collection req)) (\<lambda>_.
     checked (if gr_aggregates req = []
              then Inl (invalid (Text ''aggregate requires at least one aggregate column'' [])) else Inr ()) (\<lambda>_.
     checked (to_aggregate_spec req) (\<lambda>(c, spec).
     serve env (C_aggregate c spec) (sv_aggregate (de_service env) c spec) (reply \<circ> R_records))))"

definition handle_ensure_table :: "'w db_env \<Rightarrow> table_def \<Rightarrow> ('w, db_response) handled" where
  "handle_ensure_table env def =
     checked (authorize_op env ''database.ensure_table'' (td_name def)) (\<lambda>_.
     checked (check_resource_access env SCHEMA_RESOURCE Write) (\<lambda>_.
     checked (table_from_def (de_bits env) def) (\<lambda>tb.
     serve env (C_ensure_schema_table tb) (sv_ensure_schema_table (de_service env) tb) (\<lambda>_. reply (R_schema_op (td_name def))))))"

definition handle_add_column :: "'w db_env \<Rightarrow> string \<Rightarrow> column_def \<Rightarrow> ('w, db_response) handled" where
  "handle_add_column env t def =
     checked (authorize_op env ''database.add_column'' t) (\<lambda>_.
     checked (check_resource_access env SCHEMA_RESOURCE Write) (\<lambda>_.
     checked (column_from_def (de_bits env) def) (\<lambda>col.
     serve env (C_schema_add_column t col) (sv_schema_add_column (de_service env) t col) (\<lambda>_. reply (R_schema_op t)))))"

definition handle_drop_table :: "'w db_env \<Rightarrow> string \<Rightarrow> ('w, db_response) handled" where
  "handle_drop_table env t =
     checked (authorize_op env ''database.drop_table'' t) (\<lambda>_.
     checked (check_resource_access env SCHEMA_RESOURCE Write) (\<lambda>_.
     serve env (C_schema_drop_table t) (sv_schema_drop_table (de_service env) t) (\<lambda>_. reply (R_schema_op t))))"

definition handle_table_exists :: "'w db_env \<Rightarrow> string \<Rightarrow> ('w, db_response) handled" where
  "handle_table_exists env t =
     checked (authorize_op env ''database.table_exists'' t) (\<lambda>_.
     serve env (C_schema_table_exists t) (sv_schema_table_exists (de_service env) t) (reply \<circ> R_exists t))"

definition handle_catalog_tables :: "'w db_env \<Rightarrow> ('w, db_response) handled" where
  "handle_catalog_tables env =
     checked (authorize_op env ''database.catalog_tables'' RAW_SQL_RESOURCE) (\<lambda>_.
     serve env C_catalog_tables (sv_catalog_tables (de_service env)) (reply \<circ> R_tables))"

definition handle_catalog_columns :: "'w db_env \<Rightarrow> string \<Rightarrow> ('w, db_response) handled" where
  "handle_catalog_columns env t =
     checked (authorize_op env ''database.catalog_columns'' RAW_SQL_RESOURCE) (\<lambda>_.
     serve env (C_catalog_columns t) (sv_catalog_columns (de_service env) t) (reply \<circ> R_columns t))"

definition handle_catalog_row_count :: "'w db_env \<Rightarrow> string \<Rightarrow> ('w, db_response) handled" where
  "handle_catalog_row_count env t =
     checked (authorize_op env ''database.catalog_row_count'' RAW_SQL_RESOURCE) (\<lambda>_.
     serve env (C_catalog_row_count t) (sv_catalog_row_count (de_service env) t) (reply \<circ> R_row_count t))"

fun handle_request :: "'w db_env \<Rightarrow> db_request \<Rightarrow> ('w, db_response) handled" where
  "handle_request env (Get_req c i) = handle_get env c i"
| "handle_request env (List_req r) = handle_list env r"
| "handle_request env (Create_req c data) = handle_create env c data"
| "handle_request env (CreateMany_req c rows) = handle_create_many env c rows"
| "handle_request env (Batch_req ops) = handle_batch env ops"
| "handle_request env (InsertGuarded_req c data gs) = handle_insert_guarded env c data gs"
| "handle_request env (UpdateGuarded_req c fs data gs) = handle_update_guarded env c fs data gs"
| "handle_request env (Update_req c i data) = handle_update env c i data"
| "handle_request env (Delete_req c i) = handle_delete env c i"
| "handle_request env (Count_req c fs) = handle_count env c fs"
| "handle_request env (QueryRaw_req q args) = handle_query_raw env q args"
| "handle_request env (Sum_req c f fs) = handle_sum env c f fs"
| "handle_request env (ExecRaw_req q args) = handle_exec_raw env q args"
| "handle_request env (Ddl_req q args) = handle_ddl env q args"
| "handle_request env (DdlTransaction_req ss) = handle_ddl_transaction env ss"
| "handle_request env (DeleteWhere_req c fs) = handle_delete_where env c fs"
| "handle_request env (DeleteWhereCount_req c fs) = handle_delete_where_count env c fs"
| "handle_request env (TakeWhere_req c fs) = handle_take_where env c fs"
| "handle_request env (UpdateWhere_req c fs data) = handle_update_where env c fs data"
| "handle_request env (UpdateWhereCount_req c fs data) = handle_update_where_count env c fs data"
| "handle_request env (IncrementFieldWhere_req c col d fs) = handle_increment_field_where env c col d fs"
| "handle_request env (Upsert_req r) = handle_upsert env r"
| "handle_request env (Aggregate_req r) = handle_aggregate env r"
| "handle_request env (EnsureTable_req def) = handle_ensure_table env def"
| "handle_request env (AddColumn_req t def) = handle_add_column env t def"
| "handle_request env (DropTable_req t) = handle_drop_table env t"
| "handle_request env (TableExists_req t) = handle_table_exists env t"
| "handle_request env CatalogTables_req = handle_catalog_tables env"
| "handle_request env (CatalogColumns_req t) = handle_catalog_columns env t"
| "handle_request env (CatalogRowCount_req t) = handle_catalog_row_count env t"

definition handle_op :: "'w db_env \<Rightarrow> message \<Rightarrow> string \<Rightarrow> ('w, db_response) handled" where
  "handle_op env msg body =
     (if msg_kind msg \<notin> set DATABASE_OPS
      then checked (Inl (wafer_error_new Unimplemented (Text ''unknown database operation: {other}'' [A_str (msg_kind msg)]))) reply
      else (case de_decode env (msg_kind msg) body of
              Inl e \<Rightarrow> checked (Inl (wafer_error_new InvalidArgument (Text ''invalid {op_name} request: {e}'' [A_str (msg_kind msg), A_str e]))) reply
            | Inr req \<Rightarrow> handle_request env req))"

text \<open>The call of the init attempt the context runs under is in flight until the request is answered.\<close>

definition handle_message :: "'w db_env \<Rightarrow> message \<Rightarrow> string \<Rightarrow> ('w, db_response) handled" where
  "handle_message env msg body s =
     (case de_attempt env of
        None \<Rightarrow> handle_op env msg body s
      | Some i \<Rightarrow>
          (let (counted, attempts) = record_call (ds_attempts s) i;
               (out, s) = handle_op env msg body (s\<lparr>ds_attempts := attempts\<rparr>)
           in (out, if counted then s\<lparr>ds_attempts := call_drop (ds_attempts s) i\<rparr> else s)))"

section \<open>What a call touches\<close>

definition write_access :: "write_op \<Rightarrow> resource_access" where
  "write_access w = (case w of W_create _ _ \<Rightarrow> Append | _ \<Rightarrow> Write)"

text \<open>The tables a structured call names and what it does to them.  The columns of a table are looked up
  only on behalf of an insert.\<close>

fun touches :: "db_call \<Rightarrow> (string \<times> resource_access) list" where
  "touches (C_get c _) = [(c, Read)]"
| "touches (C_list c _) = [(c, Read)]"
| "touches (C_create c _) = [(c, Append)]"
| "touches (C_create_many c _) = [(c, Append)]"
| "touches (C_batch ws) = map (\<lambda>w. (write_collection w, write_access w)) ws"
| "touches (C_insert_guarded c _ _) = [(c, Append), (c, Read)]"
| "touches (C_update_guarded c _ _ _) = [(c, Write)]"
| "touches (C_update c _ _) = [(c, Write)]"
| "touches (C_delete c _) = [(c, Write)]"
| "touches (C_count c _) = [(c, Read)]"
| "touches (C_sum c _ _) = [(c, Read)]"
| "touches (C_delete_where c _) = [(c, Write)]"
| "touches (C_delete_where_count c _) = [(c, Write)]"
| "touches (C_take_where c _) = [(c, Write)]"
| "touches (C_update_where c _ _) = [(c, Write)]"
| "touches (C_update_where_count c _ _) = [(c, Write)]"
| "touches (C_increment_field_where c _ _ _) = [(c, Write)]"
| "touches (C_upsert c _) = [(c, Write)]"
| "touches (C_aggregate c _) = [(c, Read)]"
| "touches (C_ensure_schema_table tb) = [(tb_name tb, Write)]"
| "touches (C_schema_table_exists t) = [(t, Read)]"
| "touches (C_schema_columns t) = [(t, Append)]"
| "touches (C_schema_drop_table t) = [(t, Write)]"
| "touches (C_schema_add_column t _) = [(t, Write)]"
| "touches _ = []"

text \<open>The sentinel that stands for statements and catalog reads no table name bounds, and for schema changes.\<close>

fun channel :: "(string \<Rightarrow> resource_access \<Rightarrow> bool) \<Rightarrow> db_call \<Rightarrow> bool" where
  "channel adm (C_query_raw _ _) \<longleftrightarrow> adm RAW_SQL_RESOURCE Read"
| "channel adm (C_exec_raw _ _) \<longleftrightarrow> adm RAW_SQL_RESOURCE Write \<or> adm DDL_RESOURCE Write"
| "channel adm (C_exec_raw_transaction _) \<longleftrightarrow> adm DDL_RESOURCE Write"
| "channel adm (C_ensure_schema_table _) \<longleftrightarrow> adm SCHEMA_RESOURCE Write"
| "channel adm (C_schema_add_column _ _) \<longleftrightarrow> adm SCHEMA_RESOURCE Write"
| "channel adm (C_schema_drop_table _) \<longleftrightarrow> adm SCHEMA_RESOURCE Write"
| "channel adm C_catalog_tables \<longleftrightarrow> adm RAW_SQL_RESOURCE Read"
| "channel adm (C_catalog_columns _) \<longleftrightarrow> adm RAW_SQL_RESOURCE Read"
| "channel adm (C_catalog_row_count _) \<longleftrightarrow> adm RAW_SQL_RESOURCE Read"
| "channel adm _ \<longleftrightarrow> True"

definition permitted :: "(string \<Rightarrow> resource_access \<Rightarrow> bool) \<Rightarrow> db_call \<Rightarrow> bool" where
  "permitted adm call \<longleftrightarrow> list_all (\<lambda>(t, a). adm t a \<and> is_plain_ident t) (touches call) \<and> channel adm call"

text \<open>Every name and every filter inside a call is as the SQL builders need it.\<close>

fun well_formed_call :: "db_call \<Rightarrow> bool" where
  "well_formed_call (C_list _ opts) \<longleftrightarrow>
     lo_filters opts = [] \<and> (\<forall>ts. lo_filter_tree opts = Some ts \<longrightarrow> well_formed_trees ts)
     \<and> list_all (is_plain_ident \<circ> sf_field) (lo_sort opts)
     \<and> (\<forall>cols. lo_columns opts = Some cols \<longrightarrow> cols \<noteq> [] \<and> list_all is_plain_ident cols)"
| "well_formed_call (C_create _ data) \<longleftrightarrow> plain_row data"
| "well_formed_call (C_create_many _ rows) \<longleftrightarrow> list_all plain_row rows"
| "well_formed_call (C_batch ws) \<longleftrightarrow> list_all well_formed_write ws"
| "well_formed_call (C_insert_guarded _ data gs) \<longleftrightarrow>
     plain_row data \<and> list_all well_formed_guard gs \<and> length gs \<le> MAX_WRITE_GUARDS"
| "well_formed_call (C_update_guarded _ fs data gs) \<longleftrightarrow>
     well_formed_filters fs \<and> plain_row data \<and> list_all well_formed_guard gs \<and> length gs \<le> MAX_WRITE_GUARDS"
| "well_formed_call (C_update _ _ data) \<longleftrightarrow> plain_row data"
| "well_formed_call (C_count _ fs) \<longleftrightarrow> well_formed_filters fs"
| "well_formed_call (C_sum _ f fs) \<longleftrightarrow> is_plain_ident f \<and> well_formed_filters fs"
| "well_formed_call (C_delete_where _ fs) \<longleftrightarrow> well_formed_filters fs"
| "well_formed_call (C_delete_where_count _ fs) \<longleftrightarrow> well_formed_filters fs"
| "well_formed_call (C_take_where _ fs) \<longleftrightarrow> well_formed_filters fs"
| "well_formed_call (C_update_where _ fs data) \<longleftrightarrow> well_formed_filters fs \<and> plain_row data"
| "well_formed_call (C_update_where_count _ fs data) \<longleftrightarrow> well_formed_filters fs \<and> plain_row data"
| "well_formed_call (C_increment_field_where _ col _ fs) \<longleftrightarrow> is_plain_ident col \<and> well_formed_filters fs"
| "well_formed_call (C_upsert _ spec) \<longleftrightarrow> well_formed_upsert spec"
| "well_formed_call (C_aggregate _ spec) \<longleftrightarrow> well_formed_spec spec \<and> as_aggregates spec \<noteq> []"
| "well_formed_call (C_ensure_schema_table tb) \<longleftrightarrow> well_formed_table tb"
| "well_formed_call (C_schema_add_column _ col) \<longleftrightarrow> is_plain_ident (cl_name col)"
| "well_formed_call _ \<longleftrightarrow> True"

text \<open>The rows a call inserts, and the rules of an insert by a caller that may only append.\<close>

fun inserted :: "db_call \<Rightarrow> (string \<times> row) list" where
  "inserted (C_create c data) = [(c, data)]"
| "inserted (C_create_many c rows) = map (Pair c) rows"
| "inserted (C_insert_guarded c data _) = [(c, data)]"
| "inserted (C_batch ws) = concat (map (\<lambda>w. case w of W_create c data \<Rightarrow> [(c, data)] | _ \<Rightarrow> []) ws)"
| "inserted _ = []"

definition append_only_row :: "'w db_env \<Rightarrow> string \<Rightarrow> row \<Rightarrow> bool" where
  "append_only_row env c data \<longleftrightarrow>
     set (map fst data) \<inter> set SERVER_OWNED_COLUMNS = {}
     \<and> (\<exists>w existing. fst (sv_schema_columns (de_service env) c w) = Inr existing
          \<and> set SERVER_OWNED_COLUMNS \<union> set (map fst data) \<subseteq> set existing)"

definition respects_append :: "'w db_env \<Rightarrow> db_call \<Rightarrow> bool" where
  "respects_append env call \<longleftrightarrow>
     (\<forall>(c, data) \<in> set (inserted call). admitted env c Write \<or> append_only_row env c data)"

definition sound_call :: "'w db_env \<Rightarrow> db_call \<Rightarrow> bool" where
  "sound_call env call \<longleftrightarrow> permitted (admitted env) call \<and> well_formed_call call \<and> respects_append env call"

section \<open>Rules for handlers\<close>

text \<open>Every call \<open>m\<close> makes satisfies \<open>P\<close>, and every result \<open>Q\<close>.\<close>

definition makes :: "(db_call \<Rightarrow> bool) \<Rightarrow> ('w, 'a) handled \<Rightarrow> ('a \<Rightarrow> bool) \<Rightarrow> bool" where
  "makes P m Q \<longleftrightarrow>
     (\<forall>s r s'. m s = (r, s') \<longrightarrow>
        (\<exists>new. ds_calls s' = ds_calls s @ new \<and> list_all P new) \<and> (\<forall>x. r = Inr x \<longrightarrow> Q x))"

lemma makesD:
  assumes "makes P m Q" and "m s = (r, s')"
  obtains new where "ds_calls s' = ds_calls s @ new" "list_all P new" "\<forall>x. r = Inr x \<longrightarrow> Q x"
proof -
  have "(\<exists>new. ds_calls s' = ds_calls s @ new \<and> list_all P new) \<and> (\<forall>x. r = Inr x \<longrightarrow> Q x)"
    using assms(1) [unfolded makes_def, rule_format, OF assms(2)] by simp
  then show thesis using that by auto
qed

lemma observed_calls [simp]: "ds_calls (observed env e s) = ds_calls s"
  by (simp add: observed_def split: prod.splits option.splits)

lemma makes_reply: "Q x \<Longrightarrow> makes P (reply x) Q"
  by (simp add: makes_def reply_def)

lemma makes_checked: "(\<And>x. r = Inr x \<Longrightarrow> makes P (k x) Q) \<Longrightarrow> makes P (checked r k) Q"
  by (cases r) (auto simp: makes_def checked_def)

lemma makes_checked_db: "(\<And>x. r = Inr x \<Longrightarrow> makes P (k x) Q) \<Longrightarrow> makes P (checked_db env r k) Q"
  by (cases r) (auto simp: makes_def checked_db_def split: sum.splits)

lemma makes_serve:
  assumes "P call" and "\<And>x w w'. run w = (Inr x, w') \<Longrightarrow> makes P (k x) Q"
  shows "makes P (serve env call run k) Q"
  unfolding makes_def
proof (intro allI impI)
  fix s r s' assume s: "serve env call run k s = (r, s')"
  obtain r0 w where run: "run (ds_world s) = (r0, w)" by (cases "run (ds_world s)")
  show "(\<exists>new. ds_calls s' = ds_calls s @ new \<and> list_all P new) \<and> (\<forall>x. r = Inr x \<longrightarrow> Q x)"
  proof (cases r0)
    case (Inl e)
    with s run assms(1) show ?thesis by (auto simp: serve_def Let_def)
  next
    case (Inr x)
    with s run have k: "k x (s\<lparr>ds_world := w, ds_calls := ds_calls s @ [call]\<rparr>) = (r, s')" by (simp add: serve_def Let_def)
    have "makes P (k x) Q" using run unfolding Inr by (rule assms(2))
    from this k obtain new where
      "ds_calls s' = ds_calls (s\<lparr>ds_world := w, ds_calls := ds_calls s @ [call]\<rparr>) @ new" "list_all P new" and Q: "\<forall>x. r = Inr x \<longrightarrow> Q x"
      by (rule makesD)
    then have "ds_calls s' = ds_calls s @ call # new" "list_all P (call # new)" using assms(1) by simp_all
    with Q show ?thesis by blast
  qed
qed

lemma makes_weaken: "makes P m Q \<Longrightarrow> (\<And>x. Q x \<Longrightarrow> Q' x) \<Longrightarrow> makes P m Q'"
  unfolding makes_def by blast

lemma makes_then:
  assumes "makes P m Q" and "\<And>x. Q x \<Longrightarrow> makes P (k x) Q'"
  shows "makes P (then_do m k) Q'"
  unfolding makes_def
proof (intro allI impI)
  fix s r s' assume s: "then_do m k s = (r, s')"
  obtain r0 s0 where m: "m s = (r0, s0)" by (cases "m s")
  from assms(1) m obtain new where new: "ds_calls s0 = ds_calls s @ new" "list_all P new" and Q: "\<forall>x. r0 = Inr x \<longrightarrow> Q x"
    by (rule makesD)
  show "(\<exists>new. ds_calls s' = ds_calls s @ new \<and> list_all P new) \<and> (\<forall>x. r = Inr x \<longrightarrow> Q' x)"
  proof (cases r0)
    case (Inl e)
    with s m new show ?thesis by (auto simp: then_do_def)
  next
    case (Inr x)
    with s m have k: "k x s0 = (r, s')" by (simp add: then_do_def)
    have "makes P (k x) Q'" using Q Inr by (intro assms(2)) simp
    from this k obtain more' where "ds_calls s' = ds_calls s0 @ more'" "list_all P more'" "\<forall>x. r = Inr x \<longrightarrow> Q' x"
      by (rule makesD)
    with new have "ds_calls s' = ds_calls s @ new @ more'" "list_all P (new @ more')" "\<forall>x. r = Inr x \<longrightarrow> Q' x" by simp_all
    then show ?thesis by blast
  qed
qed

lemma makes_call: "P call \<Longrightarrow> makes P (serve env call run (\<lambda>x. reply (f x))) (\<lambda>_. True)"
  by (rule makes_serve) (auto intro: makes_reply)

lemma makes_answer: "P call \<Longrightarrow> makes P (serve env call run (reply \<circ> f)) (\<lambda>_. True)"
  unfolding comp_def by (rule makes_call)

section \<open>Authorization and append-only rules\<close>

lemma check_admitted: "check_resource_access env r a = Inr u \<longleftrightarrow> admitted env r a"
  by (cases "check_resource_access env r a") (simp_all add: admitted_def)

lemma authorize_all_Inr:
  "authorize_all env checks = Inr u \<longleftrightarrow> (\<exists>cs. checks = Inr cs \<and> (\<forall>(r, a) \<in> set cs. admitted env r a))"
proof -
  have "(\<exists>us. traverse (\<lambda>(r, a). check_resource_access env r a) cs = Inr us) \<longleftrightarrow> (\<forall>(r, a) \<in> set cs. admitted env r a)" for cs
    by (simp add: traverse_accepts case_prod_beta check_admitted)
  then show ?thesis by (auto simp: authorize_all_def and_then_eq_Inr)
qed

lemma authorize_op_Inr:
  assumes "database_op_access op = Some (On accesses)"
  shows "authorize_op env op r = Inr u \<longleftrightarrow> is_plain_ident r \<and> (\<forall>a \<in> set accesses. admitted env r a)"
  using assms by (auto simp: authorize_op_def authorize_all_Inr op_checks_def and_then_eq_Inr)

lemma add_check_Inr:
  "add_check ops checks = Inr cs \<Longrightarrow>
     set checks \<subseteq> set cs \<and> (\<forall>op \<in> set ops. is_plain_ident (bw_collection op) \<and> (bw_collection op, bw_access op) \<in> set cs)"
proof (induction ops arbitrary: checks)
  case (Cons op ops)
  then show ?case by (fastforce simp: and_then_eq_Inr Let_def split: if_splits)
qed simp

lemma named_columns_Inr:
  "named_columns c keys named = Inr ns \<Longrightarrow>
     set ns = set named \<union> set keys \<and> set keys \<inter> set SERVER_OWNED_COLUMNS = {} \<and> list_all is_plain_ident keys"
proof (induction keys arbitrary: named)
  case (Cons k keys)
  then show ?case by (fastforce simp: and_then_eq_Inr split: if_splits)
qed simp

lemma makes_append_only:
  assumes "is_plain_ident c" and "admitted env c Append"
  shows "makes (sound_call env) (check_append_only_rows env c rows) (\<lambda>_. \<forall>data \<in> set rows. append_only_row env c data)"
  unfolding check_append_only_rows_def
proof (rule makes_checked)
  fix named assume "named_columns c (concat (map (map fst) rows)) [] = Inr named"
  then have named: "set named = set (concat (map (map fst) rows))" "set (concat (map (map fst) rows)) \<inter> set SERVER_OWNED_COLUMNS = {}"
    using named_columns_Inr by fastforce+
  show "makes (sound_call env) (serve env (C_schema_columns c) (sv_schema_columns (de_service env) c) (\<lambda>existing.
       case List.find (\<lambda>c. c \<notin> set existing) (SERVER_OWNED_COLUMNS @ named) of
         Some column \<Rightarrow>
           checked (Inl (wafer_error_new PermissionDenied
             (Text ''`{collection}` has no column `{column}`, and an append-only insert cannot add one'' [A_str c, A_str column]))) reply
       | None \<Rightarrow> reply ())) (\<lambda>_. \<forall>data \<in> set rows. append_only_row env c data)"
  proof (rule makes_serve)
    show "sound_call env (C_schema_columns c)" using assms by (simp add: sound_call_def permitted_def respects_append_def)
    fix existing w w' assume cols: "sv_schema_columns (de_service env) c w = (Inr existing, w')"
    show "makes (sound_call env) (case List.find (\<lambda>c. c \<notin> set existing) (SERVER_OWNED_COLUMNS @ named) of
         Some column \<Rightarrow>
           checked (Inl (wafer_error_new PermissionDenied
             (Text ''`{collection}` has no column `{column}`, and an append-only insert cannot add one'' [A_str c, A_str column]))) reply
       | None \<Rightarrow> reply ()) (\<lambda>_. \<forall>data \<in> set rows. append_only_row env c data)"
    proof (cases "List.find (\<lambda>c. c \<notin> set existing) (SERVER_OWNED_COLUMNS @ named)")
      case None
      then have "set SERVER_OWNED_COLUMNS \<union> set named \<subseteq> set existing" unfolding find_None_iff by auto
      moreover have "fst (sv_schema_columns (de_service env) c w) = Inr existing" using cols by simp
      ultimately have "append_only_row env c data" if "data \<in> set rows" for data
        unfolding append_only_row_def using named that by (intro conjI exI [of _ w] exI [of _ existing]) force+
      with None show ?thesis by (simp add: makes_reply)
    next
      case (Some column)
      show ?thesis unfolding Some option.case by (rule makes_checked) simp
    qed
  qed
qed

lemma makes_append_rules:
  assumes "is_plain_ident c" and "admitted env c Append"
  shows "makes (sound_call env) (append_rules env c rows) (\<lambda>_. admitted env c Write \<or> (\<forall>data \<in> set rows. append_only_row env c data))"
proof (cases "inserts_append_only env c")
  case True
  with makes_weaken [OF makes_append_only [OF assms, of rows]] show ?thesis by (simp add: append_rules_def)
next
  case False
  then show ?thesis by (simp add: append_rules_def inserts_append_only_def makes_reply)
qed

section \<open>Every operation\<close>

lemma op_accesses:
  "database_op_access ''database.get'' = Some (On [Read])"
  "database_op_access ''database.list'' = Some (On [Read])"
  "database_op_access ''database.create'' = Some (On [Append])"
  "database_op_access ''database.create_many'' = Some (On [Append])"
  "database_op_access ''database.insert_guarded'' = Some (On [Append, Read])"
  "database_op_access ''database.update_guarded'' = Some (On [Write])"
  "database_op_access ''database.update'' = Some (On [Write])"
  "database_op_access ''database.delete'' = Some (On [Write])"
  "database_op_access ''database.count'' = Some (On [Read])"
  "database_op_access ''database.query_raw'' = Some (On [Read])"
  "database_op_access ''database.sum'' = Some (On [Read])"
  "database_op_access ''database.exec_raw'' = Some (On [Write])"
  "database_op_access ''database.ddl'' = Some (On [Write])"
  "database_op_access ''database.ddl_transaction'' = Some (On [Write])"
  "database_op_access ''database.delete_where'' = Some (On [Write])"
  "database_op_access ''database.delete_where_count'' = Some (On [Write])"
  "database_op_access ''database.take_where'' = Some (On [Write])"
  "database_op_access ''database.update_where'' = Some (On [Write])"
  "database_op_access ''database.update_where_count'' = Some (On [Write])"
  "database_op_access ''database.increment_field_where'' = Some (On [Write])"
  "database_op_access ''database.upsert'' = Some (On [Write])"
  "database_op_access ''database.aggregate'' = Some (On [Read])"
  "database_op_access ''database.ensure_table'' = Some (On [Write])"
  "database_op_access ''database.add_column'' = Some (On [Write])"
  "database_op_access ''database.drop_table'' = Some (On [Write])"
  "database_op_access ''database.table_exists'' = Some (On [Read])"
  "database_op_access ''database.catalog_tables'' = Some (On [Read])"
  "database_op_access ''database.catalog_columns'' = Some (On [Read])"
  "database_op_access ''database.catalog_row_count'' = Some (On [Read])"
  by (simp_all add: database_op_access_def DATABASE_OP_ACCESS_def)

lemmas op_auth = op_accesses [THEN authorize_op_Inr]

lemma resources_plain: "is_plain_ident RAW_SQL_RESOURCE" "is_plain_ident DDL_RESOURCE" "is_plain_ident SCHEMA_RESOURCE"
  by (simp_all add: RAW_SQL_RESOURCE_def DDL_RESOURCE_def SCHEMA_RESOURCE_def is_plain_ident_def MAX_IDENT_LEN_def is_ascii_digit_def less_eq_char_def)

lemmas sound_simps = op_auth check_admitted sound_call_def permitted_def respects_append_def

lemmas converted =
  flat_filters_Inr to_cap_guards_Inr convert_sort_Inr converted_trees table_from_def_Inr column_from_def_Inr to_upsert_spec_Inr to_aggregate_spec_Inr

lemma makes_simple:
  "makes (sound_call env) (handle_get env c i) (\<lambda>_. True)"
  "makes (sound_call env) (handle_list env req) (\<lambda>_. True)"
  "makes (sound_call env) (handle_update_guarded env c filters data guards) (\<lambda>_. True)"
  "makes (sound_call env) (handle_update env c i data) (\<lambda>_. True)"
  "makes (sound_call env) (handle_delete env c i) (\<lambda>_. True)"
  "makes (sound_call env) (handle_count env c filters) (\<lambda>_. True)"
  "makes (sound_call env) (handle_query_raw env q args) (\<lambda>_. True)"
  "makes (sound_call env) (handle_sum env c field filters) (\<lambda>_. True)"
  "makes (sound_call env) (handle_exec_raw env q args) (\<lambda>_. True)"
  "makes (sound_call env) (handle_ddl env q args) (\<lambda>_. True)"
  "makes (sound_call env) (handle_delete_where env c filters) (\<lambda>_. True)"
  "makes (sound_call env) (handle_delete_where_count env c filters) (\<lambda>_. True)"
  "makes (sound_call env) (handle_take_where env c filters) (\<lambda>_. True)"
  "makes (sound_call env) (handle_update_where env c filters data) (\<lambda>_. True)"
  "makes (sound_call env) (handle_update_where_count env c filters data) (\<lambda>_. True)"
  "makes (sound_call env) (handle_increment_field_where env c col delta filters) (\<lambda>_. True)"
  "makes (sound_call env) (handle_ensure_table env def) (\<lambda>_. True)"
  "makes (sound_call env) (handle_add_column env t cdef) (\<lambda>_. True)"
  "makes (sound_call env) (handle_drop_table env t) (\<lambda>_. True)"
  "makes (sound_call env) (handle_table_exists env t) (\<lambda>_. True)"
  "makes (sound_call env) (handle_catalog_tables env) (\<lambda>_. True)"
  "makes (sound_call env) (handle_catalog_columns env t) (\<lambda>_. True)"
  "makes (sound_call env) (handle_catalog_row_count env t) (\<lambda>_. True)"
  unfolding handle_get_def handle_list_def handle_update_guarded_def handle_update_def handle_delete_def handle_count_def handle_query_raw_def handle_sum_def handle_exec_raw_def handle_ddl_def handle_delete_where_def handle_delete_where_count_def handle_take_where_def handle_update_where_def handle_update_where_count_def handle_increment_field_where_def handle_ensure_table_def handle_add_column_def handle_drop_table_def handle_table_exists_def handle_catalog_tables_def handle_catalog_columns_def handle_catalog_row_count_def Let_def
  by (intro makes_checked makes_answer makes_call; auto simp: sound_simps dest: converted split: option.splits if_splits)+

lemma traverse_check_rows: "traverse check_data_names rows = Inr us \<Longrightarrow> list_all plain_row rows"
  by (induction rows arbitrary: us) (auto simp: and_then_eq_Inr)

lemma makes_create: "makes (sound_call env) (handle_create env c data) (\<lambda>_. True)"
  unfolding handle_create_def
proof (intro makes_checked)
  fix u v assume "authorize_op env ''database.create'' c = Inr u" "check_data_names data = Inr v"
  then have "is_plain_ident c" "admitted env c Append" "plain_row data" by (simp_all add: op_auth)
  then show "makes (sound_call env) (then_do (append_rules env c [data]) (\<lambda>_.
     serve env (C_create c data) (sv_create (de_service env) c data) (reply \<circ> R_record))) (\<lambda>_. True)"
    by (intro makes_then [OF makes_append_rules] makes_answer) (auto simp: sound_simps)
qed

lemma makes_create_many: "makes (sound_call env) (handle_create_many env c rows) (\<lambda>_. True)"
  unfolding handle_create_many_def
proof (intro makes_checked)
  fix u v assume "authorize_op env ''database.create_many'' c = Inr u"
    "and_then (traverse check_data_names rows) (\<lambda>_. Inr ()) = Inr v"
  then have "is_plain_ident c" "admitted env c Append" "list_all plain_row rows"
    using traverse_check_rows by (auto simp: op_auth and_then_eq_Inr)
  then show "makes (sound_call env) (then_do (append_rules env c rows) (\<lambda>_.
     serve env (C_create_many c rows) (sv_create_many (de_service env) c rows) (reply \<circ> R_rows_affected))) (\<lambda>_. True)"
    by (intro makes_then [OF makes_append_rules] makes_answer) (auto simp: sound_simps)
qed

lemma makes_insert_guarded: "makes (sound_call env) (handle_insert_guarded env c data guards) (\<lambda>_. True)"
  unfolding handle_insert_guarded_def
proof (intro makes_checked)
  fix u gs v assume "authorize_op env ''database.insert_guarded'' c = Inr u" "to_cap_guards guards = Inr gs" "check_data_names data = Inr v"
  then have "is_plain_ident c" "admitted env c Append" "admitted env c Read" "plain_row data"
    "list_all well_formed_guard gs" "length gs \<le> MAX_WRITE_GUARDS" by (auto simp: op_auth dest: to_cap_guards_Inr)
  then show "makes (sound_call env) (then_do (append_rules env c [data]) (\<lambda>_.
     serve env (C_insert_guarded c data gs) (sv_insert_guarded (de_service env) c data gs) (reply \<circ> R_insert_guarded))) (\<lambda>_. True)"
    by (intro makes_then [OF makes_append_rules] makes_answer) (auto simp: sound_simps)
qed

lemma makes_upsert: "makes (sound_call env) (handle_upsert env req) (\<lambda>_. True)"
  unfolding handle_upsert_def case_prod_beta
proof (intro makes_checked makes_checked_db makes_call)
  fix u x assume "authorize_op env ''database.upsert'' (ur_collection req) = Inr u" and x: "to_upsert_spec req = Inr x"
  moreover obtain c spec where "x = (c, spec)" by (cases x)
  ultimately show "sound_call env (C_upsert (fst x) (snd x))" by (auto simp: sound_simps dest: to_upsert_spec_Inr)
qed

lemma aggregates_kept: "to_aggregate_spec req = Inr (c, spec) \<Longrightarrow> gr_aggregates req \<noteq> [] \<Longrightarrow> as_aggregates spec \<noteq> []"
  using traverse_list_all2 by (fastforce simp: to_aggregate_spec_def and_then_eq_Inr split: sum.splits)

lemma makes_aggregate: "makes (sound_call env) (handle_aggregate env req) (\<lambda>_. True)"
  unfolding handle_aggregate_def case_prod_beta
proof (intro makes_checked makes_answer)
  fix u v x assume "authorize_op env ''database.aggregate'' (gr_collection req) = Inr u"
    and "(if gr_aggregates req = [] then Inl (invalid (Text ''aggregate requires at least one aggregate column'' [])) else Inr ()) = Inr v"
    and x: "to_aggregate_spec req = Inr x"
  moreover obtain c spec where "x = (c, spec)" by (cases x)
  ultimately show "sound_call env (C_aggregate (fst x) (snd x))"
    using aggregates_kept by (auto simp: sound_simps split: if_splits dest: to_aggregate_spec_Inr)
qed

lemma makes_ddl_transaction: "makes (sound_call env) (handle_ddl_transaction env ss) (\<lambda>_. True)"
  unfolding handle_ddl_transaction_def
proof (rule makes_checked)
  fix u assume "authorize_op env ''database.ddl_transaction'' DDL_RESOURCE = Inr u"
  then have "sound_call env (C_exec_raw_transaction ss)" by (simp add: sound_simps)
  then show "makes (sound_call env) (\<lambda>s.
       case sv_exec_raw_transaction (de_service env) ss (ds_world s) of
         (r, w) \<Rightarrow>
           (let s = s\<lparr>ds_world := w, ds_calls := ds_calls s @ [C_exec_raw_transaction ss]\<rparr> in
            case r of
              Inl e \<Rightarrow> (Inl (transaction_error_to_wafer e), observed env (te_error e) s)
            | Inr rows \<Rightarrow> (Inr (R_rows_each rows), s))) (\<lambda>_. True)"
    by (auto simp: makes_def Let_def split: prod.splits sum.splits)
qed

subsection \<open>Batches\<close>

lemma created_in_set: "c \<in> set (created_in ops) \<longleftrightarrow> (\<exists>data. BW_create c data \<in> set ops)"
  by (induction ops rule: created_in.induct) auto

lemma remdups_first_set [simp]: "set (remdups_first xs) = set xs"
proof -
  have "set (fold (\<lambda>x seen. if x \<in> set seen then seen else seen @ [x]) xs ys) = set ys \<union> set xs" for ys
    by (induction xs arbitrary: ys) auto
  then show ?thesis by (simp add: remdups_first_def)
qed

lemma created_rows_set: "data \<in> set (created_rows ops c) \<longleftrightarrow> BW_create c data \<in> set ops"
  by (induction ops) (auto simp: created_rows_def split: batch_write.splits)

lemma makes_append_all:
  assumes "\<And>c. c \<in> set cs \<Longrightarrow> is_plain_ident c \<and> admitted env c Append"
  shows "makes (sound_call env) (check_append_all env ops cs)
    (\<lambda>_. \<forall>c \<in> set cs. \<forall>data \<in> set (created_rows ops c). append_only_row env c data)"
  using assms
proof (induction cs)
  case (Cons c cs)
  have head: "makes (sound_call env) (check_append_only_rows env c (created_rows ops c)) (\<lambda>_. \<forall>data \<in> set (created_rows ops c). append_only_row env c data)"
    using Cons.prems by (intro makes_append_only) simp_all
  have rest: "makes (sound_call env) (check_append_all env ops cs) (\<lambda>_. \<forall>c \<in> set cs. \<forall>data \<in> set (created_rows ops c). append_only_row env c data)"
    using Cons by simp
  show ?case unfolding check_append_all.simps
    by (rule makes_then [OF head]) (rule makes_weaken [OF rest], simp)
qed (simp add: makes_reply)

lemma to_write_op_create: "to_write_op bw = Inr (W_create c data) \<Longrightarrow> bw = BW_create c data"
  by (cases bw) (auto simp: to_write_op_def and_then_eq_Inr)

lemma to_write_op_access: "to_write_op bw = Inr w \<Longrightarrow> write_access w = bw_access bw"
  by (cases bw) (auto simp: to_write_op_def and_then_eq_Inr write_access_def)

lemma batch_sound:
  assumes auth: "authorize_all env (batch_checks ops) = Inr u" and writes: "traverse to_write_op ops = Inr writes"
    and rules: "\<forall>c \<in> set (filter (inserts_append_only env) (remdups_first (created_in ops))).
      \<forall>data \<in> set (created_rows ops c). append_only_row env c data"
  shows "sound_call env (C_batch writes)"
proof -
  obtain cs where cs: "add_check ops [] = Inr cs" "\<forall>(r, a) \<in> set cs. admitted env r a"
    using auth by (auto simp: authorize_all_Inr batch_checks_def split: if_splits)
  have op: "is_plain_ident (bw_collection op) \<and> admitted env (bw_collection op) (bw_access op)" if "op \<in> set ops" for op
    using add_check_Inr [OF cs(1)] cs(2) that by blast
  have "well_formed_write w \<and> is_plain_ident (write_collection w) \<and> admitted env (write_collection w) (write_access w)"
    if "w \<in> set writes" for w
  proof -
    obtain bw where "bw \<in> set ops" "to_write_op bw = Inr w" using traverse_result [OF writes \<open>w \<in> set writes\<close>] by blast
    then show ?thesis using op to_write_op_Inr to_write_op_access by metis
  qed
  moreover have "admitted env c Write \<or> append_only_row env c data" if "(c, data) \<in> set (inserted (C_batch writes))" for c data
  proof -
    have "W_create c data \<in> set writes" using that by (auto split: write_op.splits)
    then have "BW_create c data \<in> set ops" using traverse_result [OF writes] to_write_op_create by blast
    then show ?thesis using rules by (auto simp: inserts_append_only_def created_in_set created_rows_set)
  qed
  ultimately show ?thesis by (auto simp: sound_call_def permitted_def respects_append_def list_all_iff simp del: inserted.simps)
qed

lemma makes_batch: "makes (sound_call env) (handle_batch env ops) (\<lambda>_. True)"
  unfolding handle_batch_def
proof (rule makes_checked)
  fix u assume auth: "authorize_all env (batch_checks ops) = Inr u"
  then obtain cs where cs: "add_check ops [] = Inr cs" "\<forall>(r, a) \<in> set cs. admitted env r a"
    by (auto simp: authorize_all_Inr batch_checks_def split: if_splits)
  have appended: "is_plain_ident c \<and> admitted env c Append"
    if "c \<in> set (filter (inserts_append_only env) (remdups_first (created_in ops)))" for c
    using that add_check_Inr [OF cs(1)] cs(2) by (fastforce simp: created_in_set)
  show "makes (sound_call env) (then_do (check_append_all env ops (filter (inserts_append_only env) (remdups_first (created_in ops)))) (\<lambda>_.
     checked_db env (traverse to_write_op ops) (\<lambda>writes.
     serve env (C_batch writes) (sv_batch (de_service env) writes) (reply \<circ> R_batch)))) (\<lambda>_. True)"
    by (rule makes_then [OF makes_append_all [OF appended]]; (assumption | (intro makes_checked_db makes_answer, rule batch_sound [OF auth])))
qed

lemma makes_request: "makes (sound_call env) (handle_request env req) (\<lambda>_. True)"
  by (cases req) (simp_all add: makes_simple makes_create makes_create_many makes_insert_guarded makes_upsert
      makes_aggregate makes_ddl_transaction makes_batch)

lemma makes_op: "makes (sound_call env) (handle_op env msg body) (\<lambda>_. True)"
  unfolding handle_op_def by (auto intro!: makes_checked makes_request split: sum.splits)

section \<open>The properties\<close>

lemma message_calls:
  assumes "handle_message env msg body s = (out, s')"
  shows "\<exists>new. ds_calls s' = ds_calls s @ new \<and> list_all (sound_call env) new"
proof (cases "de_attempt env")
  case None
  with assms have "handle_op env msg body s = (out, s')" by (simp add: handle_message_def)
  from makes_op this show ?thesis by (rule makesD) blast
next
  case (Some i)
  obtain counted attempts where call: "record_call (ds_attempts s) i = (counted, attempts)" by (cases "record_call (ds_attempts s) i")
  obtain out' s0 where op: "handle_op env msg body (s\<lparr>ds_attempts := attempts\<rparr>) = (out', s0)"
    by (cases "handle_op env msg body (s\<lparr>ds_attempts := attempts\<rparr>)")
  from makes_op op obtain new where "ds_calls s0 = ds_calls s @ new" "list_all (sound_call env) new"
    by (rule makesD) simp
  moreover have "ds_calls s' = ds_calls s0" using assms Some call op by (auto simp: handle_message_def Let_def)
  ultimately show ?thesis by auto
qed


text \<open>A block that creates a row in its own table.\<close>

definition sample_service :: "unit database_service" where
  "sample_service =
     \<lparr>sv_get = \<lambda>_ _ w. (Inl DE_not_found, w), sv_list = \<lambda>_ _ w. (Inl DE_not_found, w),
      sv_create = \<lambda>_ data w. (Inr \<lparr>dr_id = ''r1'', dr_data = data\<rparr>, w), sv_create_many = \<lambda>_ _ w. (Inr 1, w),
      sv_batch = \<lambda>_ w. (Inr [], w), sv_insert_guarded = \<lambda>_ _ _ w. (Inr (GI_refused 0), w),
      sv_update_guarded = \<lambda>_ _ _ _ w. (Inr GU_no_match, w), sv_update = \<lambda>_ _ _ w. (Inl DE_not_found, w),
      sv_delete = \<lambda>_ _ w. (Inr (), w), sv_count = \<lambda>_ _ w. (Inr 0, w), sv_sum = \<lambda>_ _ _ w. (Inr 0, w),
      sv_query_raw = \<lambda>_ _ w. (Inr [], w), sv_exec_raw = \<lambda>_ _ w. (Inr 0, w), sv_exec_raw_transaction = \<lambda>_ w. (Inr [], w),
      sv_delete_where = \<lambda>_ _ w. (Inr (), w), sv_delete_where_count = \<lambda>_ _ w. (Inr 0, w), sv_take_where = \<lambda>_ _ w. (Inr [], w),
      sv_update_where = \<lambda>_ _ _ w. (Inr (), w), sv_update_where_count = \<lambda>_ _ _ w. (Inr 0, w),
      sv_increment_field_where = \<lambda>_ _ _ _ w. (Inr 0, w), sv_upsert = \<lambda>_ _ w. (Inr None, w), sv_aggregate = \<lambda>_ _ w. (Inr [], w),
      sv_ensure_schema_table = \<lambda>_ w. (Inr (), w), sv_schema_table_exists = \<lambda>_ w. (Inr True, w),
      sv_schema_columns = \<lambda>_ w. (Inr [''id'', ''created_at'', ''updated_at'', ''name''], w),
      sv_schema_drop_table = \<lambda>_ w. (Inr (), w), sv_schema_add_column = \<lambda>_ _ w. (Inr (), w),
      sv_catalog_tables = \<lambda>w. (Inr [], w), sv_catalog_columns = \<lambda>_ w. (Inr [], w), sv_catalog_row_count = \<lambda>_ w. (Inr 0, w)\<rparr>"

definition sample_db_env :: "unit db_env" where
  "sample_db_env =
     \<lparr>de_call = sample_call_env, de_ctx = sample_callee, de_attempt = None,
      de_decode = \<lambda>_ _. Inr (Create_req ''my_org__auth__users'' [(''name'', String ''ada'')]), de_bits = \<lambda>_. 0,
      de_service = sample_service\<rparr>"

definition sample_db_state :: "unit db_state" where
  "sample_db_state = \<lparr>ds_world = (), ds_calls = [], ds_attempts = []\<rparr>"

definition sample_create :: message where
  "sample_create = \<lparr>msg_kind = ''database.create'', msg_meta = []\<rparr>"

lemma sample_run:
  "handle_message sample_db_env sample_create [] sample_db_state =
     (Inr (R_record \<lparr>dr_id = ''r1'', dr_data = [(''name'', String ''ada'')]\<rparr>),
      sample_db_state\<lparr>ds_calls := [C_create ''my_org__auth__users'' [(''name'', String ''ada'')]]\<rparr>)"
  by code_simp




text \<open>A collection may be named like a sentinel: such a table belongs to nobody, and every attributable
  caller may write it.\<close>

lemma sentinel_tables_are_open:
  "authorize_op sample_db_env ''database.update'' DDL_RESOURCE = Inr ()
   \<and> typed_resource_owner (cv_wrap sample_call_env) DDL_RESOURCE (Some Db) \<noteq> Some ''my-org/auth''"
  by code_simp

end
