(* ===== verification/Storage_Handler.thy ===== *)
theory Storage_Handler
  imports Network_Fetch
begin

text \<open>
  The storage interface: \<^verbatim>\<open>crates/wafer-core/src/interfaces/storage/service.rs\<close> and \<^verbatim>\<open>handler.rs\<close>, with the
  requests of \<^verbatim>\<open>crates/wafer-block/src/wire/storage.rs\<close>.  The handler resolves the folder a caller names into
  one backend path, has the context authorize that path, and hands the same path to the backend.

  The codec is a parameter of the environment (\<open>se_encode\<close>, the \<open>se_decode\<close> fields), and so is the backend;
  \<open>ss_calls\<close> records the calls made to it.  An answer is the stream of events its consumer reads.
\<close>

section \<open>Requests, results and the service\<close>

record put_request =
  pr_folder :: string
  pr_key :: string
  pr_data :: bytes
  pr_content_type :: string

record put_streaming_header =
  ph_folder :: string
  ph_key :: string
  ph_content_type :: string

record get_request =
  gr_folder :: string
  gr_key :: string

record delete_request =
  dr_folder :: string
  dr_key :: string

record list_request =
  lr_folder :: string
  lr_prefix :: string
  lr_limit :: int
  lr_offset :: int
  lr_cursor :: "string option"

record create_folder_request =
  cr_name :: string
  cr_public :: bool

record delete_folder_request =
  dfr_name :: string

record object_info =
  oi_key :: string
  oi_size :: int
  oi_content_type :: string
  oi_last_modified :: nat

record object_list =
  ol_objects :: "object_info list"
  ol_total_count :: int
  ol_next_cursor :: "string option"

record folder_info =
  fo_name :: string
  fo_public :: bool
  fo_created_at :: nat

record storage_list_options =
  so_prefix :: string
  so_limit :: int
  so_offset :: int
  so_cursor :: "string option"

datatype storage_error =
    SE_not_found
  | SE_too_large msg_text
  | SE_invalid_argument msg_text
  | SE_body wafer_error
  | SE_internal msg_text
  | SE_other msg_text

type_synonym ('w, 'a) stored = "'w \<Rightarrow> (storage_error + 'a) \<times> 'w"

record 'w storage_service =
  sv_put :: "string \<Rightarrow> string \<Rightarrow> bytes \<Rightarrow> string \<Rightarrow> ('w, unit) stored"
  sv_put_streaming :: "string \<Rightarrow> string \<Rightarrow> (wafer_error + bytes) list \<Rightarrow> string \<Rightarrow> ('w, unit) stored"
  sv_get :: "string \<Rightarrow> string \<Rightarrow> ('w, bytes \<times> object_info) stored"
  sv_get_streaming :: "string \<Rightarrow> string \<Rightarrow> ('w, output_stream \<times> object_info) stored"
  sv_delete :: "string \<Rightarrow> string \<Rightarrow> ('w, unit) stored"
  sv_list :: "string \<Rightarrow> storage_list_options \<Rightarrow> ('w, object_list) stored"
  sv_create_folder :: "string \<Rightarrow> bool \<Rightarrow> ('w, unit) stored"
  sv_delete_folder :: "string \<Rightarrow> ('w, unit) stored"
  sv_list_folders :: "('w, folder_info list) stored"

text \<open>\<^verbatim>\<open>collect_to_bytes\<close> of an input stream and the default streaming methods of the trait.\<close>

fun collect_to_bytes :: "(wafer_error + bytes) list \<Rightarrow> wafer_error + bytes" where
  "collect_to_bytes [] = Inr []"
| "collect_to_bytes (Inl e # _) = Inl e"
| "collect_to_bytes (Inr bs # items) = and_then (collect_to_bytes items) (\<lambda>rest. Inr (bs @ rest))"

definition default_put_streaming ::
  "'w storage_service \<Rightarrow> string \<Rightarrow> string \<Rightarrow> (wafer_error + bytes) list \<Rightarrow> string \<Rightarrow> ('w, unit) stored" where
  "default_put_streaming svc folder key data ct w =
     (case collect_to_bytes data of Inl e \<Rightarrow> (Inl (SE_body e), w) | Inr bs \<Rightarrow> sv_put svc folder key bs ct w)"

definition default_get_streaming ::
  "'w storage_service \<Rightarrow> string \<Rightarrow> string \<Rightarrow> ('w, output_stream \<times> object_info) stored" where
  "default_get_streaming svc folder key w =
     (case sv_get svc folder key w of
        (Inl e, w) \<Rightarrow> (Inl e, w)
      | (Inr (data, info), w) \<Rightarrow> (Inr (respond data, info), w))"

fun storage_error_to_wafer :: "storage_error \<Rightarrow> wafer_error" where
  "storage_error_to_wafer SE_not_found = wafer_error_new NotFound (Text ''object not found'' [])"
| "storage_error_to_wafer (SE_too_large msg) = wafer_error_new ResourceExhausted msg"
| "storage_error_to_wafer (SE_invalid_argument msg) = wafer_error_new InvalidArgument msg"
| "storage_error_to_wafer (SE_body e) = e"
| "storage_error_to_wafer (SE_internal msg) = wafer_error_new Internal msg"
| "storage_error_to_wafer (SE_other msg) = wafer_error_new Internal msg"

section \<open>The handler's environment and state\<close>

datatype storage_value = V_object_info object_info | V_object_list object_list | V_folders "folder_info list"

datatype storage_call =
    S_put string string bytes string
  | S_put_streaming string string "(wafer_error + bytes) list" string
  | S_get string string
  | S_get_streaming string string
  | S_delete string string
  | S_list string storage_list_options
  | S_create_folder string bool
  | S_delete_folder string
  | S_list_folders

record 'w storage_env =
  se_call :: call_env
  se_ctx :: runtime_context
  se_encode :: "storage_value \<Rightarrow> wafer_error + bytes"
  se_decode_put :: "bytes \<Rightarrow> string + put_request"
  se_decode_put_streaming :: "bytes \<Rightarrow> string + put_streaming_header"
  se_decode_get :: "bytes \<Rightarrow> string + get_request"
  se_decode_delete :: "bytes \<Rightarrow> string + delete_request"
  se_decode_list :: "bytes \<Rightarrow> string + list_request"
  se_decode_create_folder :: "bytes \<Rightarrow> string + create_folder_request"
  se_decode_delete_folder :: "bytes \<Rightarrow> string + delete_folder_request"
  se_service :: "'w storage_service"

record 'w storage_state =
  ss_world :: 'w
  ss_calls :: "storage_call list"

section \<open>Path resolution\<close>

definition check_path :: "string \<Rightarrow> string \<Rightarrow> string \<Rightarrow> string \<Rightarrow> wafer_error + unit" where
  "check_path op what sent path =
     (if is_traversal_safe_path path then Inr ()
      else Inl (wafer_error_new InvalidArgument
             (Text (''invalid {op} request: `{what}` must be a plain `/`-separated path with no empty, `.` or `..` segment and no `''
                    @ [backslash] @ ''` (got {sent:?})'') [A_str op, A_str what, A_str sent])))"

definition resolve_folder :: "runtime_context \<Rightarrow> string \<Rightarrow> string \<Rightarrow> string \<Rightarrow> wafer_error + string" where
  "resolve_folder ctx op what folder =
     and_then
       (case strip_prefix ''@'' folder of
          Some explicit \<Rightarrow> Inr explicit
        | None \<Rightarrow>
            (case cx_caller_id ctx of
               None \<Rightarrow> Inl (wafer_error_new PermissionDenied
                         (Text ''{op}: `{what}` {folder:?} is relative to the calling block's namespace, and this call has no calling block''
                           [A_str op, A_str what, A_str folder]))
             | Some caller \<Rightarrow> Inr (if folder = [] then caller else caller @ ''/'' @ folder)))
       (\<lambda>resolved. and_then (check_path op what folder resolved) (\<lambda>_. Inr resolved))"

record object_path =
  op_folder :: string
  op_resource :: string

definition resolve_object :: "runtime_context \<Rightarrow> string \<Rightarrow> string \<Rightarrow> string \<Rightarrow> wafer_error + object_path" where
  "resolve_object ctx op folder key =
     and_then (resolve_folder ctx op ''folder'' folder) (\<lambda>folder.
     and_then (check_path op ''key'' key key) (\<lambda>_.
     Inr \<lparr>op_folder = folder, op_resource = folder @ ''/'' @ key\<rparr>))"

definition storage_access :: "'w storage_env \<Rightarrow> string \<Rightarrow> resource_access \<Rightarrow> wafer_error + unit" where
  "storage_access env resource access = authorize_resource (se_call env) (se_ctx env) resource Storage access"

definition decode_and_authorize_checked ::
  "'w storage_env \<Rightarrow> (bytes \<Rightarrow> string + 'r) \<Rightarrow> bytes \<Rightarrow> string \<Rightarrow> ('r \<Rightarrow> wafer_error + 'p \<times> string \<times> resource_access)
    \<Rightarrow> wafer_error + 'r \<times> 'p" where
  "decode_and_authorize_checked env decode body op_name resolve =
     (case decode body of
        Inl e \<Rightarrow> Inl (wafer_error_new InvalidArgument (Text ''invalid {op_name} request: {e}'' [A_str op_name, A_str e]))
      | Inr req \<Rightarrow>
          and_then (resolve req) (\<lambda>(resolved, res, access).
          and_then (storage_access env res access) (\<lambda>_. Inr (req, resolved))))"

definition on_object :: "runtime_context \<Rightarrow> string \<Rightarrow> string \<Rightarrow> string \<Rightarrow> resource_access
    \<Rightarrow> wafer_error + object_path \<times> string \<times> resource_access" where
  "on_object ctx op folder key access =
     and_then (resolve_object ctx op folder key) (\<lambda>path. Inr (path, op_resource path, access))"

definition on_folder :: "runtime_context \<Rightarrow> string \<Rightarrow> string \<Rightarrow> string \<Rightarrow> resource_access
    \<Rightarrow> wafer_error + string \<times> string \<times> resource_access" where
  "on_folder ctx op what folder access =
     and_then (resolve_folder ctx op what folder) (\<lambda>path. Inr (path, path, access))"

section \<open>Answers\<close>

definition to_output :: "'w storage_env \<Rightarrow> storage_value \<Rightarrow> output_stream" where
  "to_output env v = (case se_encode env v of Inr bs \<Rightarrow> respond bs | Inl e \<Rightarrow> out_error e)"

definition prefixed :: "string \<Rightarrow> msg_text \<Rightarrow> msg_text" where
  "prefixed label msg = (case msg of Text format args \<Rightarrow> Text (label @ format) args)"

definition get_frames :: "'w storage_env \<Rightarrow> bytes \<Rightarrow> object_info \<Rightarrow> output_stream" where
  "get_frames env data info =
     (case se_encode env (V_object_info info) of
        Inl e \<Rightarrow> [Error (wafer_error_new Internal (prefixed ''encoding storage GET header: '' (we_message e)))]
      | Inr bs \<Rightarrow> Chunk bs # Meta raw_frames_marker # (if data = [] then [] else [Chunk data]) @ [Complete []])"

definition get_streaming_frames :: "'w storage_env \<Rightarrow> output_stream \<Rightarrow> object_info \<Rightarrow> output_stream" where
  "get_streaming_frames env body info =
     (case se_encode env (V_object_info info) of
        Inl e \<Rightarrow> [Error (wafer_error_new Internal
                    (prefixed ''storage.get_streaming: encoding header frame: '' (we_message e)))]
      | Inr bs \<Rightarrow> Chunk bs # Meta raw_frames_marker # forward_body ''storage.get_streaming'' body)"

text \<open>A call of the backend, and the answer made of its result.\<close>

definition call_storage :: "storage_call \<Rightarrow> ('w, 'a) stored \<Rightarrow> ('a \<Rightarrow> output_stream) \<Rightarrow> 'w storage_state
    \<Rightarrow> output_stream \<times> 'w storage_state" where
  "call_storage call run answer s =
     (case run (ss_world s) of
        (r, w) \<Rightarrow>
          ((case r of Inl e \<Rightarrow> out_error (storage_error_to_wafer e) | Inr x \<Rightarrow> answer x),
           s\<lparr>ss_world := w, ss_calls := ss_calls s @ [call]\<rparr>))"

definition admitted_then :: "wafer_error + 'a \<Rightarrow> ('a \<Rightarrow> 'w storage_state \<Rightarrow> output_stream \<times> 'w storage_state)
    \<Rightarrow> 'w storage_state \<Rightarrow> output_stream \<times> 'w storage_state" where
  "admitted_then r k s = (case r of Inl e \<Rightarrow> (out_error e, s) | Inr x \<Rightarrow> k x s)"

section \<open>The operations\<close>

definition STORAGE_PUT :: string where "STORAGE_PUT = ''storage.put''"
definition STORAGE_PUT_STREAMING :: string where "STORAGE_PUT_STREAMING = ''storage.put_streaming''"
definition STORAGE_GET :: string where "STORAGE_GET = ''storage.get''"
definition STORAGE_GET_STREAMING :: string where "STORAGE_GET_STREAMING = ''storage.get_streaming''"
definition STORAGE_DELETE :: string where "STORAGE_DELETE = ''storage.delete''"
definition STORAGE_LIST :: string where "STORAGE_LIST = ''storage.list''"
definition STORAGE_CREATE_FOLDER :: string where "STORAGE_CREATE_FOLDER = ''storage.create_folder''"
definition STORAGE_DELETE_FOLDER :: string where "STORAGE_DELETE_FOLDER = ''storage.delete_folder''"
definition STORAGE_LIST_FOLDERS :: string where "STORAGE_LIST_FOLDERS = ''storage.list_folders''"

type_synonym 'w storage_arm = "'w storage_env \<Rightarrow> bytes \<Rightarrow> 'w storage_state \<Rightarrow> output_stream \<times> 'w storage_state"

definition handle_storage_put :: "'w storage_arm" where
  "handle_storage_put env body =
     admitted_then
       (decode_and_authorize_checked env (se_decode_put env) body ''storage.put''
         (\<lambda>r. on_object (se_ctx env) ''storage.put'' (pr_folder r) (pr_key r) Write))
       (\<lambda>(req, path).
         call_storage (S_put (op_folder path) (pr_key req) (pr_data req) (pr_content_type req))
           (sv_put (se_service env) (op_folder path) (pr_key req) (pr_data req) (pr_content_type req))
           (\<lambda>_. respond []))"

definition handle_storage_get :: "'w storage_arm" where
  "handle_storage_get env body =
     admitted_then
       (decode_and_authorize_checked env (se_decode_get env) body ''storage.get''
         (\<lambda>r. on_object (se_ctx env) ''storage.get'' (gr_folder r) (gr_key r) Read))
       (\<lambda>(req, path).
         call_storage (S_get (op_folder path) (gr_key req))
           (sv_get (se_service env) (op_folder path) (gr_key req))
           (\<lambda>(data, info). get_frames env data info))"

definition handle_storage_get_streaming :: "'w storage_arm" where
  "handle_storage_get_streaming env body =
     admitted_then
       (decode_and_authorize_checked env (se_decode_get env) body ''storage.get_streaming''
         (\<lambda>r. on_object (se_ctx env) ''storage.get_streaming'' (gr_folder r) (gr_key r) Read))
       (\<lambda>(req, path).
         call_storage (S_get_streaming (op_folder path) (gr_key req))
           (sv_get_streaming (se_service env) (op_folder path) (gr_key req))
           (\<lambda>(stream, info). get_streaming_frames env stream info))"

definition handle_storage_delete :: "'w storage_arm" where
  "handle_storage_delete env body =
     admitted_then
       (decode_and_authorize_checked env (se_decode_delete env) body ''storage.delete''
         (\<lambda>r. on_object (se_ctx env) ''storage.delete'' (dr_folder r) (dr_key r) Write))
       (\<lambda>(req, path).
         call_storage (S_delete (op_folder path) (dr_key req))
           (sv_delete (se_service env) (op_folder path) (dr_key req))
           (\<lambda>_. respond []))"

definition handle_storage_list :: "'w storage_arm" where
  "handle_storage_list env body =
     admitted_then
       (decode_and_authorize_checked env (se_decode_list env) body ''storage.list''
         (\<lambda>r. on_folder (se_ctx env) ''storage.list'' ''folder'' (lr_folder r) Read))
       (\<lambda>(req, folder).
         let opts = \<lparr>so_prefix = lr_prefix req, so_limit = lr_limit req, so_offset = lr_offset req, so_cursor = lr_cursor req\<rparr> in
         call_storage (S_list folder opts) (sv_list (se_service env) folder opts)
           (\<lambda>objects. to_output env (V_object_list objects)))"

definition handle_storage_create_folder :: "'w storage_arm" where
  "handle_storage_create_folder env body =
     admitted_then
       (decode_and_authorize_checked env (se_decode_create_folder env) body ''storage.create_folder''
         (\<lambda>r. on_folder (se_ctx env) ''storage.create_folder'' ''name'' (cr_name r) Write))
       (\<lambda>(req, name).
         call_storage (S_create_folder name (cr_public req)) (sv_create_folder (se_service env) name (cr_public req))
           (\<lambda>_. respond []))"

definition handle_storage_delete_folder :: "'w storage_arm" where
  "handle_storage_delete_folder env body =
     admitted_then
       (decode_and_authorize_checked env (se_decode_delete_folder env) body ''storage.delete_folder''
         (\<lambda>r. on_folder (se_ctx env) ''storage.delete_folder'' ''name'' (dfr_name r) Write))
       (\<lambda>(_, name).
         call_storage (S_delete_folder name) (sv_delete_folder (se_service env) name) (\<lambda>_. respond []))"

definition handle_storage_list_folders :: "'w storage_arm" where
  "handle_storage_list_folders env body =
     admitted_then (storage_access env STORAGE_LIST_ALL_RESOURCE Read)
       (\<lambda>_. call_storage S_list_folders (sv_list_folders (se_service env)) (\<lambda>folders. to_output env (V_folders folders)))"

definition handle_storage_message :: "'w storage_env \<Rightarrow> message \<Rightarrow> bytes \<Rightarrow> 'w storage_state \<Rightarrow> output_stream \<times> 'w storage_state" where
  "handle_storage_message env msg body s =
     (let kind = msg_kind msg in
      if kind = STORAGE_PUT then handle_storage_put env body s
      else if kind = STORAGE_GET then handle_storage_get env body s
      else if kind = STORAGE_GET_STREAMING then handle_storage_get_streaming env body s
      else if kind = STORAGE_DELETE then handle_storage_delete env body s
      else if kind = STORAGE_LIST then handle_storage_list env body s
      else if kind = STORAGE_CREATE_FOLDER then handle_storage_create_folder env body s
      else if kind = STORAGE_DELETE_FOLDER then handle_storage_delete_folder env body s
      else if kind = STORAGE_LIST_FOLDERS then handle_storage_list_folders env body s
      else (out_error (wafer_error_new Unimplemented (Text ''unknown storage operation: {other}'' [A_str kind])), s))"

definition handle_put_streaming :: "'w storage_env \<Rightarrow> (wafer_error + bytes) list \<Rightarrow> 'w storage_state
    \<Rightarrow> output_stream \<times> 'w storage_state" where
  "handle_put_streaming env input s =
     (case input of
        [] \<Rightarrow> (out_error (wafer_error_new InvalidArgument
                (Text ''storage.put_streaming: request stream ended before the header frame'' [])), s)
      | Inl e # _ \<Rightarrow> (out_error e, s)
      | Inr header_bytes # input \<Rightarrow>
          admitted_then
            (decode_and_authorize_checked env (se_decode_put_streaming env) header_bytes ''storage.put_streaming''
              (\<lambda>h. on_object (se_ctx env) ''storage.put_streaming'' (ph_folder h) (ph_key h) Write))
            (\<lambda>(header, path).
              call_storage (S_put_streaming (op_folder path) (ph_key header) input (ph_content_type header))
                (sv_put_streaming (se_service env) (op_folder path) (ph_key header) input (ph_content_type header))
                (\<lambda>_. respond [])) s)"

section \<open>What a call touches\<close>

text \<open>The resource a backend call concerns and the access it needs.\<close>

fun call_resource :: "storage_call \<Rightarrow> string" where
  "call_resource (S_put folder key _ _) = folder @ ''/'' @ key"
| "call_resource (S_put_streaming folder key _ _) = folder @ ''/'' @ key"
| "call_resource (S_get folder key) = folder @ ''/'' @ key"
| "call_resource (S_get_streaming folder key) = folder @ ''/'' @ key"
| "call_resource (S_delete folder key) = folder @ ''/'' @ key"
| "call_resource (S_list folder _) = folder"
| "call_resource (S_create_folder name _) = name"
| "call_resource (S_delete_folder name) = name"
| "call_resource S_list_folders = STORAGE_LIST_ALL_RESOURCE"

fun call_access :: "storage_call \<Rightarrow> resource_access" where
  "call_access (S_get _ _) = Read"
| "call_access (S_get_streaming _ _) = Read"
| "call_access (S_list _ _) = Read"
| "call_access S_list_folders = Read"
| "call_access _ = Write"

text \<open>The effect of a call on the backend.\<close>

fun perform :: "'w storage_service \<Rightarrow> storage_call \<Rightarrow> 'w \<Rightarrow> 'w" where
  "perform svc (S_put folder key data ct) w = snd (sv_put svc folder key data ct w)"
| "perform svc (S_put_streaming folder key data ct) w = snd (sv_put_streaming svc folder key data ct w)"
| "perform svc (S_get folder key) w = snd (sv_get svc folder key w)"
| "perform svc (S_get_streaming folder key) w = snd (sv_get_streaming svc folder key w)"
| "perform svc (S_delete folder key) w = snd (sv_delete svc folder key w)"
| "perform svc (S_list folder opts) w = snd (sv_list svc folder opts w)"
| "perform svc (S_create_folder name public) w = snd (sv_create_folder svc name public w)"
| "perform svc (S_delete_folder name) w = snd (sv_delete_folder svc name w)"
| "perform svc S_list_folders w = snd (sv_list_folders svc w)"

text \<open>A run of the handler answers with an error and leaves the backend alone, or makes one call, which is
  authorized on its own resource and names a path that cannot climb.\<close>

definition admissible :: "'w storage_env \<Rightarrow> storage_call \<Rightarrow> bool" where
  "admissible env call \<longleftrightarrow>
     storage_access env (call_resource call) (call_access call) = Inr ()
     \<and> is_traversal_safe_path (call_resource call)"

definition one_admissible_call :: "'w storage_env \<Rightarrow> 'w storage_state \<Rightarrow> output_stream \<times> 'w storage_state \<Rightarrow> bool" where
  "one_admissible_call env s res \<longleftrightarrow>
     ((\<exists>e. fst res = out_error e) \<and> snd res = s)
     \<or> (\<exists>call. admissible env call
          \<and> snd res = s\<lparr>ss_world := perform (se_service env) call (ss_world s), ss_calls := ss_calls s @ [call]\<rparr>)"

lemma traversal_safe_append:
  "is_traversal_safe_path (folder @ slash # key) \<longleftrightarrow> is_traversal_safe_path folder \<and> is_traversal_safe_path key"
  by (simp add: is_traversal_safe_path_def split_on_append_any)

lemma resolve_folder_Inr:
  "resolve_folder ctx op what folder = Inr path \<longleftrightarrow>
     is_traversal_safe_path path
     \<and> (case strip_prefix ''@'' folder of
          Some explicit \<Rightarrow> path = explicit
        | None \<Rightarrow> (\<exists>caller. cx_caller_id ctx = Some caller \<and> path = (if folder = [] then caller else caller @ ''/'' @ folder)))"
  by (auto simp: resolve_folder_def check_path_def and_then_eq_Inr split: option.splits)

lemma resolve_folder_safe: "resolve_folder ctx op what folder = Inr path \<Longrightarrow> is_traversal_safe_path path"
  by (simp add: resolve_folder_Inr)

lemma on_object_Inr:
  "on_object ctx op folder key access = Inr (path, res, access') \<Longrightarrow>
     access' = access \<and> res = op_folder path @ ''/'' @ key \<and> is_traversal_safe_path res
     \<and> resolve_folder ctx op ''folder'' folder = Inr (op_folder path)"
  using resolve_folder_safe [of ctx op "''folder''" folder]
  by (auto simp: on_object_def resolve_object_def check_path_def and_then_eq_Inr traversal_safe_append
        split: if_splits)

lemma on_folder_Inr:
  "on_folder ctx op what folder access = Inr (path, res, access') \<Longrightarrow>
     access' = access \<and> res = path \<and> is_traversal_safe_path res \<and> resolve_folder ctx op what folder = Inr path"
  using resolve_folder_safe [of ctx op what folder] by (auto simp: on_folder_def and_then_eq_Inr)

lemma decode_and_authorize_checked_Inr:
  "decode_and_authorize_checked env decode body op resolve = Inr (req, resolved) \<longleftrightarrow>
     (\<exists>res access. decode body = Inr req \<and> resolve req = Inr (resolved, res, access) \<and> storage_access env res access = Inr ())"
  by (auto simp: decode_and_authorize_checked_def and_then_eq_Inr split: sum.splits)

lemma call_storage_state:
  "snd (call_storage call run answer s) = s\<lparr>ss_world := snd (run (ss_world s)), ss_calls := ss_calls s @ [call]\<rparr>"
  by (simp add: call_storage_def split: prod.splits)

lemma admitted_then_one:
  assumes "\<And>x. r = Inr x \<Longrightarrow> \<exists>call (run :: ('w, 'v) stored) answer. k x s = call_storage call run answer s \<and> admissible env call
                \<and> (\<forall>w. snd (run w) = perform (se_service env) call w)"
  shows "one_admissible_call env s (admitted_then r k s)"
proof (cases r)
  case (Inr x)
  obtain call and run :: "('w, 'v) stored" and answer where "k x s = call_storage call run answer s" "admissible env call"
    "\<And>w. snd (run w) = perform (se_service env) call w"
    using assms [OF Inr] by blast
  then have "snd (k x s) = s\<lparr>ss_world := perform (se_service env) call (ss_world s), ss_calls := ss_calls s @ [call]\<rparr>"
    "admissible env call"
    by (simp_all add: call_storage_state)
  then show ?thesis
    unfolding admitted_then_def one_admissible_call_def Inr sum.case by blast
qed (auto simp: admitted_then_def one_admissible_call_def)

lemmas storage_arm_defs =
  handle_storage_put_def handle_storage_get_def handle_storage_get_streaming_def handle_storage_delete_def
  handle_storage_list_def handle_storage_create_folder_def handle_storage_delete_folder_def

lemma storage_arms_admissible:
  "one_admissible_call env s (handle_storage_put env body s)"
  "one_admissible_call env s (handle_storage_get env body s)"
  "one_admissible_call env s (handle_storage_get_streaming env body s)"
  "one_admissible_call env s (handle_storage_delete env body s)"
  "one_admissible_call env s (handle_storage_list env body s)"
  "one_admissible_call env s (handle_storage_create_folder env body s)"
  "one_admissible_call env s (handle_storage_delete_folder env body s)"
  unfolding storage_arm_defs
  by (rule admitted_then_one,
      fastforce simp: decode_and_authorize_checked_Inr admissible_def Let_def dest: on_object_Inr on_folder_Inr)+

lemma list_folders_admissible: "one_admissible_call env s (handle_storage_list_folders env body s)"
proof -
  have "is_traversal_safe_path STORAGE_LIST_ALL_RESOURCE" by code_simp
  then show ?thesis
    unfolding handle_storage_list_folders_def
    by (intro admitted_then_one) (fastforce simp: admissible_def)
qed

lemma put_streaming_admissible: "one_admissible_call env s (handle_put_streaming env input s)"
proof (cases input)
  case (Cons item rest)
  show ?thesis
  proof (cases item)
    case (Inr bs)
    show ?thesis
      unfolding handle_put_streaming_def Cons Inr list.case sum.case
      by (rule admitted_then_one)
         (fastforce simp: decode_and_authorize_checked_Inr admissible_def dest: on_object_Inr)
  qed (auto simp: handle_put_streaming_def Cons one_admissible_call_def)
qed (auto simp: handle_put_streaming_def one_admissible_call_def)

lemma handle_storage_message_admissible: "one_admissible_call env s (handle_storage_message env msg body s)"
proof -
  have "one_admissible_call env s (out_error e, s)" for e
    by (auto simp: one_admissible_call_def)
  then show ?thesis
    by (simp add: handle_storage_message_def Let_def storage_arms_admissible list_folders_admissible)
qed

section \<open>What the handler needs of a backend\<close>

text \<open>A backend promises, for a path that cannot climb, an effect that depends on the call; then what a
  request does is the effect of a call it was authorized for.\<close>

locale storage_backend =
  fixes svc :: "'w storage_service" and effect :: "storage_call \<Rightarrow> 'w \<Rightarrow> 'w \<Rightarrow> bool"
  assumes performs: "is_traversal_safe_path (call_resource call) \<Longrightarrow> effect call w (perform svc call w)"
begin

definition answers :: "'w storage_env \<Rightarrow> 'w storage_state \<Rightarrow> output_stream \<times> 'w storage_state \<Rightarrow> bool" where
  "answers env s res \<longleftrightarrow>
     ((\<exists>e. fst res = out_error e) \<and> snd res = s)
     \<or> (\<exists>call. admissible env call \<and> effect call (ss_world s) (ss_world (snd res)) \<and> ss_calls (snd res) = ss_calls s @ [call])"

lemma one_admissible_call_answers: "se_service env = svc \<Longrightarrow> one_admissible_call env s res \<Longrightarrow> answers env s res"
  unfolding one_admissible_call_def answers_def using performs admissible_def by fastforce

lemma message_answers: "se_service env = svc \<Longrightarrow> answers env s (handle_storage_message env msg body s)"
  using one_admissible_call_answers handle_storage_message_admissible by blast

lemma upload_answers: "se_service env = svc \<Longrightarrow> answers env s (handle_put_streaming env input s)"
  using one_admissible_call_answers put_streaming_admissible by blast

end

end
