(* ===== verification/Fs_Paths.thy ===== *)
theory Fs_Paths
  imports Wafer_Prelude
begin

text \<open>
  Paths as \<^verbatim>\<open>std::path\<close> reads them on Unix, as far as the local storage backend uses them: components, joining,
  prefixes, file names and extensions; \<^verbatim>\<open>normalize_lexical\<close> of
  \<^verbatim>\<open>crates/wafer-block-local-storage/src/service.rs\<close>; and the content types of \<^verbatim>\<open>crates/wafer-core/src/mime.rs\<close>.
  A path is the byte string of the \<^verbatim>\<open>PathBuf\<close>.
\<close>

section \<open>Components\<close>

datatype component = RootDir | CurDir | ParentDir | Normal string

definition is_absolute :: "string \<Rightarrow> bool" where
  "is_absolute path \<longleftrightarrow> starts_with ''/'' path"

definition segment :: "string \<Rightarrow> component list" where
  "segment s = (if s = [] \<or> s = ''.'' then [] else if s = ''..'' then [ParentDir] else [Normal s])"

text \<open>Repeated and trailing separators and \<^verbatim>\<open>.\<close> segments vanish, but for a leading \<^verbatim>\<open>.\<close> of a relative path.\<close>

definition body_components :: "string \<Rightarrow> component list" where
  "body_components path = concat (map segment (split_on slash path))"

definition components :: "string \<Rightarrow> component list" where
  "components path =
     (if is_absolute path then [RootDir] else if hd (split_on slash path) = ''.'' then [CurDir] else [])
     @ body_components path"

fun as_os_str :: "component \<Rightarrow> string" where
  "as_os_str RootDir = ''/''"
| "as_os_str CurDir = ''.''"
| "as_os_str ParentDir = ''..''"
| "as_os_str (Normal s) = s"

definition path_push :: "string \<Rightarrow> string \<Rightarrow> string" where
  "path_push buf path =
     (if is_absolute path then path
      else if buf \<noteq> [] \<and> last buf \<noteq> slash then buf @ slash # path else buf @ path)"

definition path_of :: "component list \<Rightarrow> string" where
  "path_of cs = foldl (\<lambda>buf c. path_push buf (as_os_str c)) [] cs"

definition path_starts_with :: "string \<Rightarrow> string \<Rightarrow> bool" where
  "path_starts_with path base \<longleftrightarrow> prefix (components base) (components path)"

definition path_below :: "string \<Rightarrow> string \<Rightarrow> component list" where
  "path_below base path = drop (length (components base)) (components path)"

definition file_name :: "string \<Rightarrow> string option" where
  "file_name path =
     (case rev (components path) of Normal s # _ \<Rightarrow> Some s | _ \<Rightarrow> None)"

fun normalize_loop :: "component list \<Rightarrow> component list \<Rightarrow> component list option" where
  "normalize_loop [] out = Some out"
| "normalize_loop (CurDir # cs) out = normalize_loop cs out"
| "normalize_loop (ParentDir # cs) out =
     (if out = [] then None
      else (case last out of Normal _ \<Rightarrow> normalize_loop cs (butlast out) | _ \<Rightarrow> None))"
| "normalize_loop (c # cs) out = normalize_loop cs (out @ [c])"

definition normalize_lexical :: "string \<Rightarrow> string option" where
  "normalize_lexical path = map_option path_of (normalize_loop (components path) [])"

section \<open>Content types\<close>

definition extension :: "string \<Rightarrow> string option" where
  "extension path =
     (case file_name path of
        None \<Rightarrow> None
      | Some name \<Rightarrow>
          (case rev (split_on dot name) of
             ext # before \<Rightarrow> (if before = [] \<or> before = [[]] then None else Some ext)
           | [] \<Rightarrow> None))"

definition UNKNOWN :: string where "UNKNOWN = ''application/octet-stream''"

definition mime_table :: "(string list \<times> string) list" where
  "mime_table =
     [([''html'', ''htm''], ''text/html; charset=utf-8''),
      ([''css''], ''text/css; charset=utf-8''),
      ([''js'', ''mjs''], ''application/javascript; charset=utf-8''),
      ([''json'', ''map''], ''application/json; charset=utf-8''),
      ([''xml''], ''application/xml; charset=utf-8''),
      ([''svg''], ''image/svg+xml; charset=utf-8''),
      ([''png''], ''image/png''),
      ([''jpg'', ''jpeg''], ''image/jpeg''),
      ([''gif''], ''image/gif''),
      ([''webp''], ''image/webp''),
      ([''avif''], ''image/avif''),
      ([''ico''], ''image/x-icon''),
      ([''woff''], ''font/woff''),
      ([''woff2''], ''font/woff2''),
      ([''ttf''], ''font/ttf''),
      ([''otf''], ''font/otf''),
      ([''eot''], ''application/vnd.ms-fontobject''),
      ([''pdf''], ''application/pdf''),
      ([''zip''], ''application/zip''),
      ([''wasm''], ''application/wasm''),
      ([''txt'', ''rs'', ''toml''], ''text/plain; charset=utf-8''),
      ([''md''], ''text/markdown; charset=utf-8''),
      ([''csv''], ''text/csv; charset=utf-8''),
      ([''mp4''], ''video/mp4''),
      ([''webm''], ''video/webm''),
      ([''mp3''], ''audio/mpeg''),
      ([''ogg''], ''audio/ogg'')]"

definition mime_for_ext_str :: "string \<Rightarrow> string" where
  "mime_for_ext_str ext =
     (case List.find (\<lambda>(exts, _). to_ascii_lowercase ext \<in> set exts) mime_table of
        Some (_, mime) \<Rightarrow> mime
      | None \<Rightarrow> UNKNOWN)"

definition mime_for_ext :: "string \<Rightarrow> string" where
  "mime_for_ext path = mime_for_ext_str (case extension path of Some ext \<Rightarrow> ext | None \<Rightarrow> [])"

section \<open>Canonical paths\<close>

text \<open>A canonical path is an absolute one that is written with names only.\<close>

definition proper :: "string \<Rightarrow> bool" where
  "proper name \<longleftrightarrow> name \<noteq> [] \<and> name \<noteq> ''.'' \<and> name \<noteq> ''..'' \<and> slash \<notin> set name"

definition canonical :: "string list \<Rightarrow> string" where
  "canonical names = slash # join_with ''/'' names"

definition names_of :: "string \<Rightarrow> string list" where
  "names_of path = concat (map (\<lambda>c. case c of Normal s \<Rightarrow> [s] | _ \<Rightarrow> []) (components path))"

lemma body_components_append [simp]:
  "body_components (a @ slash # b) = body_components a @ body_components b"
  by (simp add: body_components_def split_on_append_any)

lemma body_components_Nil [simp]: "body_components [] = []"
  by (simp add: body_components_def segment_def)

lemma body_components_slash [simp]: "body_components (slash # b) = body_components b"
  using body_components_append [of "[]" b] by simp

lemma body_components_proper: "proper n \<Longrightarrow> body_components n = [Normal n]"
  by (simp add: body_components_def split_on_single proper_def segment_def)

lemma body_components_join: "list_all proper ns \<Longrightarrow> body_components (join_with ''/'' ns) = map Normal ns"
  by (induction "''/''" ns rule: join_with.induct) (simp_all add: body_components_proper)

lemma body_components_names: "c \<in> set (body_components p) \<Longrightarrow> c = ParentDir \<or> (\<exists>n. c = Normal n \<and> proper n)"
  using split_on_no_delim [of _ slash p]
  by (auto simp: body_components_def segment_def proper_def split: if_splits)

lemma is_absolute_Cons [simp]: "is_absolute (slash # p)" "is_absolute ''/''" "\<not> is_absolute []"
  by (simp_all add: is_absolute_def)

lemma components_absolute: "is_absolute p \<Longrightarrow> components p = RootDir # body_components p"
  by (simp add: components_def)

lemma components_canonical: "list_all proper ns \<Longrightarrow> components (canonical ns) = RootDir # map Normal ns"
  by (simp add: canonical_def components_absolute body_components_join)

lemma names_of_canonical [simp]: "list_all proper ns \<Longrightarrow> names_of (canonical ns) = ns"
  by (induction ns) (simp_all add: names_of_def components_canonical)

lemma not_absolute_proper: "proper n \<Longrightarrow> \<not> is_absolute n"
  by (cases n) (auto simp: proper_def is_absolute_def)

lemma join_with_Nil_iff: "list_all proper ns \<Longrightarrow> join_with ''/'' ns = [] \<longleftrightarrow> ns = []"
  by (induction "''/''" ns rule: join_with.induct) (auto simp: proper_def)

lemma last_canonical: "list_all proper ns \<Longrightarrow> ns \<noteq> [] \<Longrightarrow> last (canonical ns) \<noteq> slash"
proof (induction ns rule: rev_induct)
  case (snoc n ns)
  then have "n \<noteq> []" "slash \<notin> set n"
    by (simp_all add: proper_def)
  then have "last n \<noteq> slash"
    using last_in_set [of n] by metis
  moreover have "\<exists>r. canonical (ns @ [n]) = r @ n"
    by (cases "ns = []") (auto simp: canonical_def join_with_append)
  ultimately show ?case using \<open>n \<noteq> []\<close> by auto
qed simp

lemma push_canonical:
  assumes "list_all proper ns" and "proper n"
  shows "path_push (canonical ns) n = canonical (ns @ [n])"
proof (cases "ns = []")
  case True
  then show ?thesis
    using assms by (simp add: path_push_def canonical_def not_absolute_proper)
next
  case False
  then show ?thesis
    using assms last_canonical [OF assms(1)]
    by (simp add: path_push_def not_absolute_proper) (simp add: canonical_def join_with_append)
qed

lemma path_of_canonical: "list_all proper ns \<Longrightarrow> path_of (RootDir # map Normal ns) = canonical ns"
proof (induction ns rule: rev_induct)
  case (snoc n ns)
  then show ?case by (simp add: path_of_def push_canonical)
qed (simp add: path_of_def path_push_def canonical_def)

text \<open>Joining a relative path appends its components.\<close>

lemma components_push:
  assumes "is_absolute buf" and "\<not> is_absolute p"
  shows "components (path_push buf p) = components buf @ body_components p"
proof -
  have "is_absolute (path_push buf p)"
    using assms by (cases buf) (auto simp: path_push_def is_absolute_def)
  moreover have "body_components (path_push buf p) = body_components buf @ body_components p"
  proof (cases "last buf = slash")
    case True
    then obtain b where "buf = b @ [slash]"
      using assms(1) by (cases buf rule: rev_cases) (auto simp: is_absolute_def)
    then show ?thesis
      using assms(2) body_components_append [of b p] body_components_append [of b "[]"] by (simp add: path_push_def)
  next
    case False
    then show ?thesis
      using assms by (auto simp: path_push_def is_absolute_def)
  qed
  ultimately show ?thesis
    using assms(1) by (simp add: components_absolute)
qed

lemma is_absolute_push: "is_absolute buf \<Longrightarrow> is_absolute (path_push buf p)"
  by (cases buf) (auto simp: path_push_def is_absolute_def)

section \<open>Normalization\<close>

text \<open>The loop keeps a root followed by names.\<close>

lemma normalize_loop_names:
  assumes "normalize_loop cs (RootDir # map Normal ns) = Some out"
    and "\<And>c. c \<in> set cs \<Longrightarrow> c = ParentDir \<or> (\<exists>n. c = Normal n \<and> proper n)" and "list_all proper ns"
  shows "\<exists>ns'. out = RootDir # map Normal ns' \<and> list_all proper ns'"
  using assms
proof (induction cs arbitrary: ns)
  case (Cons c cs)
  show ?case
  proof (cases c)
    case ParentDir
    then show ?thesis
    proof (cases ns rule: rev_cases)
      case (snoc ns' n)
      then show ?thesis
        using Cons.prems ParentDir Cons.IH [of ns'] by (simp add: butlast_append)
    qed (use Cons.prems ParentDir in simp)
  next
    case (Normal n)
    then have "proper n"
      using Cons.prems(2) [of c] by auto
    then show ?thesis
      using Cons.prems Normal Cons.IH [of "ns @ [n]"] by simp
  qed (use Cons.prems(2) [of c] in auto)
qed auto

lemma normalize_loop_map_Normal: "normalize_loop (map Normal ns) out = Some (out @ map Normal ns)"
  by (induction ns arbitrary: out) simp_all

lemma normalize_lexical_canonical:
  assumes "is_absolute path" and "normalize_lexical path = Some p"
  shows "\<exists>ns. list_all proper ns \<and> p = canonical ns"
proof -
  obtain out where out: "normalize_loop (body_components path) [RootDir] = Some out" and p: "p = path_of out"
    using assms by (auto simp: normalize_lexical_def components_absolute)
  have "\<exists>ns. out = RootDir # map Normal ns \<and> list_all proper ns"
    by (rule normalize_loop_names [of "body_components path" "[]"]) (use out body_components_names in simp_all)
  then show ?thesis
    using p path_of_canonical by metis
qed

lemma normalize_lexical_names:
  assumes "is_absolute path" and "components path = RootDir # map Normal ns" and "list_all proper ns"
  shows "normalize_lexical path = Some (canonical ns)"
  using assms normalize_loop_map_Normal [of ns "[RootDir]"] path_of_canonical
  by (simp add: normalize_lexical_def)

lemma prefix_map_Normal: "prefix (map Normal xs) (map Normal ys) \<longleftrightarrow> prefix xs ys"
proof (induction xs arbitrary: ys)
  case (Cons x xs)
  then show ?case by (cases ys) simp_all
qed simp

lemma path_starts_with_canonical:
  "list_all proper ns \<Longrightarrow> list_all proper base \<Longrightarrow>
     path_starts_with (canonical ns) (canonical base) \<longleftrightarrow> prefix base ns"
  by (simp add: path_starts_with_def components_canonical prefix_map_Normal)

lemma path_below_canonical:
  "list_all proper base \<Longrightarrow> list_all proper rest \<Longrightarrow> path_below (canonical base) (canonical (base @ rest)) = map Normal rest"
  by (simp add: path_below_def components_canonical)

lemma file_name_canonical: "list_all proper ns \<Longrightarrow> proper n \<Longrightarrow> file_name (canonical (ns @ [n])) = Some n"
  by (simp add: file_name_def components_canonical)

end
