(* ===== verification/Local_Storage.thy ===== *)
theory Local_Storage
  imports Storage_Handler Fs_Paths "HOL-Library.Word"
begin

text \<open>
  The filesystem backend of the storage interface,
  \<^verbatim>\<open>crates/wafer-block-local-storage/src/service.rs\<close>, over a model of the filesystem calls it makes.

  The filesystem is a tree of files and directories without links, an association list from the names of a
  path; the order of the list is the order in which a directory is read.  Any call may fail: the environment
  says which system call fails on which path, which write stops short and after how many bytes, and how much
  each read returns.  \<open>fw_history\<close> holds every tree another process can observe on the way.  Identity of
  directories beyond their names (\<^verbatim>\<open>same_file\<close>), base64 and the UTF-8 check are parameters.
\<close>

section \<open>The filesystem\<close>

datatype fs_node = F_file bytes nat | F_dir "nat option"

type_synonym fs_tree = "(string list \<times> fs_node) list"

datatype io_kind = K_not_found | K_crosses_devices | K_other

datatype io_error = Io_error io_kind string

datatype syscall =
    Sys_canonicalize | Sys_mkdir | Sys_create | Sys_flush | Sys_fsync | Sys_rename | Sys_open | Sys_unlink
  | Sys_stat | Sys_read | Sys_remove_tree | Sys_read_dir | Sys_entry

record fs_env =
  fx_fail :: "syscall \<Rightarrow> string \<Rightarrow> io_error option"
  fx_write :: "nat \<Rightarrow> (nat \<times> io_error) option"
  fx_read :: "nat \<Rightarrow> io_error + nat"
  fx_join :: "string option"
  fx_now :: nat
  fx_pid :: nat
  fx_dir_len :: nat
  fx_same_file :: "string \<Rightarrow> string \<Rightarrow> bool option"
  fx_base64 :: "string \<Rightarrow> string"
  fx_unbase64 :: "string \<Rightarrow> string + string"
  fx_utf8 :: "string \<Rightarrow> string option"

record fs_world =
  fw_tree :: fs_tree
  fw_history :: "fs_tree list"
  fw_seq :: "64 word"

type_synonym 'a io = "fs_world \<Rightarrow> (io_error + 'a) \<times> fs_world"

definition set_tree :: "fs_tree \<Rightarrow> fs_world \<Rightarrow> fs_world" where
  "set_tree t w = w\<lparr>fw_tree := t, fw_history := fw_history w @ [t]\<rparr>"

definition fs_lookup :: "fs_tree \<Rightarrow> string list \<Rightarrow> fs_node option" where
  "fs_lookup t names = (if names = [] then Some (F_dir None) else map_of t names)"

fun is_dir :: "fs_node \<Rightarrow> bool" where
  "is_dir (F_dir _) = True"
| "is_dir (F_file _ _) = False"

definition is_file_at :: "fs_tree \<Rightarrow> string list \<Rightarrow> bool" where
  "is_file_at t names = (case fs_lookup t names of Some (F_file _ _) \<Rightarrow> True | _ \<Rightarrow> False)"

definition not_found :: io_error where "not_found = Io_error K_not_found ''No such file or directory (os error 2)''"
definition not_a_directory :: io_error where "not_a_directory = Io_error K_other ''Not a directory (os error 20)''"
definition is_a_directory :: io_error where "is_a_directory = Io_error K_other ''Is a directory (os error 21)''"

definition find_node :: "fs_tree \<Rightarrow> string list \<Rightarrow> io_error + fs_node" where
  "find_node t names =
     (case fs_lookup t names of
        Some node \<Rightarrow> Inr node
      | None \<Rightarrow> Inl (if list_ex (is_file_at t) (prefixes names) then not_a_directory else not_found))"

definition guarded :: "fs_env \<Rightarrow> syscall \<Rightarrow> string \<Rightarrow> 'a io \<Rightarrow> 'a io" where
  "guarded env call path run w = (case fx_fail env call path of Some e \<Rightarrow> (Inl e, w) | None \<Rightarrow> run w)"

definition fs_stat :: "fs_env \<Rightarrow> string \<Rightarrow> fs_node io" where
  "fs_stat env path = guarded env Sys_stat path (\<lambda>w. (find_node (fw_tree w) (names_of path), w))"

definition fs_canonicalize :: "fs_env \<Rightarrow> string \<Rightarrow> string io" where
  "fs_canonicalize env path =
     guarded env Sys_canonicalize path
       (\<lambda>w. (and_then (find_node (fw_tree w) (names_of path)) (\<lambda>_. Inr (canonical (names_of path))), w))"

fun make_dirs :: "fs_env \<Rightarrow> string list \<Rightarrow> string list \<Rightarrow> unit io" where
  "make_dirs env up [] w = (Inr (), w)"
| "make_dirs env up (name # names) w =
     (let here = up @ [name] in
      case fs_lookup (fw_tree w) here of
        Some (F_dir _) \<Rightarrow> make_dirs env here names w
      | Some (F_file _ _) \<Rightarrow> (Inl not_a_directory, w)
      | None \<Rightarrow>
          (case fx_fail env Sys_mkdir (canonical here) of
             Some e \<Rightarrow> (Inl e, w)
           | None \<Rightarrow> make_dirs env here names (set_tree (AList.update here (F_dir (Some (fx_now env))) (fw_tree w)) w)))"

definition fs_create_dir_all :: "fs_env \<Rightarrow> string \<Rightarrow> unit io" where
  "fs_create_dir_all env path = make_dirs env [] (names_of path)"

text \<open>Placing a file needs its directory, and does not replace a directory.\<close>

definition place_file :: "string list \<Rightarrow> fs_node \<Rightarrow> unit io" where
  "place_file names node w =
     (case find_node (fw_tree w) (butlast names) of
        Inl e \<Rightarrow> (Inl e, w)
      | Inr (F_file _ _) \<Rightarrow> (Inl not_a_directory, w)
      | Inr (F_dir _) \<Rightarrow>
          (case fs_lookup (fw_tree w) names of
             Some (F_dir _) \<Rightarrow> (Inl is_a_directory, w)
           | _ \<Rightarrow> (Inr (), set_tree (AList.update names node (fw_tree w)) w)))"

definition fs_create_file :: "fs_env \<Rightarrow> string \<Rightarrow> unit io" where
  "fs_create_file env path = guarded env Sys_create path (place_file (names_of path) (F_file [] (fx_now env)))"

text \<open>The \<open>i\<close>-th \<^verbatim>\<open>write_all\<close> to an open file: all bytes, or some of them and an error.\<close>

definition fs_append :: "fs_env \<Rightarrow> string \<Rightarrow> nat \<Rightarrow> bytes \<Rightarrow> unit io" where
  "fs_append env path i data w =
     (let (result, written) = (case fx_write env i of None \<Rightarrow> (Inr (), data) | Some (n, e) \<Rightarrow> (Inl e, take n data)) in
      (result,
       case fs_lookup (fw_tree w) (names_of path) of
         Some (F_file old _) \<Rightarrow> set_tree (AList.update (names_of path) (F_file (old @ written) (fx_now env)) (fw_tree w)) w
       | _ \<Rightarrow> w))"

definition fs_rename :: "fs_env \<Rightarrow> string \<Rightarrow> string \<Rightarrow> unit io" where
  "fs_rename env from to =
     guarded env Sys_rename to
       (\<lambda>w. case find_node (fw_tree w) (names_of from) of
              Inl e \<Rightarrow> (Inl e, w)
            | Inr node \<Rightarrow>
                (case place_file (names_of to) node w of
                   (Inl e, _) \<Rightarrow> (Inl e, w)
                 | (Inr _, _) \<Rightarrow>
                     (Inr (), set_tree (AList.update (names_of to) node (AList.delete (names_of from) (fw_tree w))) w)))"

definition fs_remove_file :: "fs_env \<Rightarrow> string \<Rightarrow> unit io" where
  "fs_remove_file env path =
     guarded env Sys_unlink path
       (\<lambda>w. case find_node (fw_tree w) (names_of path) of
              Inl e \<Rightarrow> (Inl e, w)
            | Inr (F_dir _) \<Rightarrow> (Inl is_a_directory, w)
            | Inr (F_file _ _) \<Rightarrow> (Inr (), set_tree (AList.delete (names_of path) (fw_tree w)) w))"

definition fs_remove_dir_all :: "fs_env \<Rightarrow> string \<Rightarrow> unit io" where
  "fs_remove_dir_all env path =
     guarded env Sys_remove_tree path
       (\<lambda>w. case find_node (fw_tree w) (names_of path) of
              Inl e \<Rightarrow> (Inl e, w)
            | Inr (F_file _ _) \<Rightarrow> (Inl not_a_directory, w)
            | Inr (F_dir _) \<Rightarrow> (Inr (), set_tree (filter (\<lambda>(names, _). \<not> prefix (names_of path) names) (fw_tree w)) w))"

definition fs_call :: "fs_env \<Rightarrow> syscall \<Rightarrow> string \<Rightarrow> unit io" where
  "fs_call env call path = guarded env call path (\<lambda>w. (Inr (), w))"

text \<open>The entries of a directory.\<close>

definition entries :: "fs_tree \<Rightarrow> string list \<Rightarrow> (string list \<times> fs_node) list" where
  "entries t dir = filter (\<lambda>(names, _). names \<noteq> [] \<and> butlast names = dir) t"

section \<open>Results of the service\<close>

definition st_then :: "('w, 'a) stored \<Rightarrow> ('a \<Rightarrow> ('w, 'b) stored) \<Rightarrow> ('w, 'b) stored" where
  "st_then run k w = (case run w of (Inl e, w) \<Rightarrow> (Inl e, w) | (Inr x, w) \<Rightarrow> k x w)"

definition st_result :: "storage_error + 'a \<Rightarrow> ('w, 'a) stored" where
  "st_result r w = (r, w)"

definition map_err :: "'a io \<Rightarrow> (io_error \<Rightarrow> storage_error) \<Rightarrow> (fs_world, 'a) stored" where
  "map_err run f w = (case run w of (Inl e, w) \<Rightarrow> (Inl (f e), w) | (Inr x, w) \<Rightarrow> (Inr x, w))"

fun io_text :: "io_error \<Rightarrow> string" where
  "io_text (Io_error _ s) = s"

fun io_kind_of :: "io_error \<Rightarrow> io_kind" where
  "io_kind_of (Io_error k _) = k"

text \<open>\<^verbatim>\<open>StorageError::Internal(format!("{what} {path:?}: {e}"))\<close>.\<close>

definition internal_at :: "string \<Rightarrow> string \<Rightarrow> io_error \<Rightarrow> storage_error" where
  "internal_at what path e = SE_internal (Text (what @ '' {path:?}: {e}'') [A_str path, A_str (io_text e)])"

definition DEFAULT_MAX_OBJECT_BYTES :: nat where "DEFAULT_MAX_OBJECT_BYTES = 100 * 1024 * 1024"

definition check_object_size :: "string \<Rightarrow> nat \<Rightarrow> storage_error + unit" where
  "check_object_size path len =
     (if len > DEFAULT_MAX_OBJECT_BYTES
      then Inl (SE_too_large (Text ''file {path:?} is {len} bytes, exceeds limit of {DEFAULT_MAX_OBJECT_BYTES} bytes''
                  [A_str path, A_nat len, A_nat DEFAULT_MAX_OBJECT_BYTES]))
      else Inr ())"

definition metadata_or_not_found :: "string \<Rightarrow> io_error \<Rightarrow> storage_error" where
  "metadata_or_not_found path e = (if io_kind_of e = K_not_found then SE_not_found else internal_at ''metadata'' path e)"

section \<open>Paths of the service\<close>

definition STAGING_DIR :: string where "STAGING_DIR = ''.wafer-staging''"

definition is_staging :: "fs_env \<Rightarrow> string \<Rightarrow> string \<Rightarrow> bool" where
  "is_staging env path staging \<longleftrightarrow>
     (case file_name path of Some name \<Rightarrow> eq_ignore_ascii_case name STAGING_DIR | None \<Rightarrow> False)
     \<or> fx_same_file env path staging = Some True"

record local_storage =
  ls_root :: string

definition staging_path :: "local_storage \<Rightarrow> string" where
  "staging_path svc = path_push (ls_root svc) STAGING_DIR"

definition folder_path :: "local_storage \<Rightarrow> string \<Rightarrow> string" where
  "folder_path svc folder = path_push (ls_root svc) folder"

definition object_path_of :: "local_storage \<Rightarrow> string \<Rightarrow> string \<Rightarrow> string" where
  "object_path_of svc folder key = path_push (path_push (ls_root svc) folder) key"

definition escapes :: storage_error where
  "escapes = SE_invalid_argument (Text ''path traversal: resolved path escapes storage root'' [])"

definition validate_path :: "fs_env \<Rightarrow> local_storage \<Rightarrow> string \<Rightarrow> (fs_world, string) stored" where
  "validate_path env svc path =
     st_then (map_err (fs_canonicalize env (ls_root svc)) (internal_at ''canonicalize root'' (ls_root svc))) (\<lambda>canon_root.
     st_result
       (let absolute = (if is_absolute path then path else path_push canon_root path) in
        case normalize_lexical absolute of
          None \<Rightarrow> Inl escapes
        | Some normalized \<Rightarrow>
            if \<not> path_starts_with normalized canon_root then Inl escapes
            else if (case path_below canon_root normalized of
                       [] \<Rightarrow> False
                     | first # _ \<Rightarrow> is_staging env (path_push canon_root (as_os_str first)) (path_push canon_root STAGING_DIR))
            then Inl (SE_invalid_argument (Text ''{STAGING_DIR} is reserved for staged writes'' [A_str STAGING_DIR]))
            else Inr normalized))"

definition guess_content_type :: "string \<Rightarrow> string" where
  "guess_content_type key = mime_for_ext key"

definition path_parent :: "string \<Rightarrow> string option" where
  "path_parent path = (if names_of path = [] then None else Some (canonical (butlast (names_of path))))"

definition local_new :: "fs_env \<Rightarrow> string \<Rightarrow> (fs_world, local_storage) stored" where
  "local_new env dir =
     st_then (map_err (fs_create_dir_all env dir) (internal_at ''create storage root'' dir)) (\<lambda>_.
     st_then (map_err (fs_canonicalize env dir) (internal_at ''canonicalize storage root'' dir)) (\<lambda>canon_root.
     let staging = path_push canon_root STAGING_DIR in
     st_then
       (\<lambda>w. case fs_remove_dir_all env staging w of
              (Inr _, w) \<Rightarrow> (Inr (), w)
            | (Inl e, w) \<Rightarrow>
                (if io_kind_of e = K_not_found then Inr () else Inl (internal_at ''clear staging directory'' staging e), w)) (\<lambda>_.
     st_then (map_err (fs_create_dir_all env staging) (internal_at ''create staging directory'' staging)) (\<lambda>_.
     st_result (Inr \<lparr>ls_root = canon_root\<rparr>)))))"

section \<open>Writing\<close>

definition staged_temp_path :: "fs_env \<Rightarrow> string \<Rightarrow> (fs_world, string) stored" where
  "staged_temp_path env staging w =
     (Inr (path_push staging (show_nat (fx_pid env) @ ''.'' @ show_nat (unat (fw_seq w)) @ ''.tmp'')),
      w\<lparr>fw_seq := fw_seq w + 1\<rparr>)"

definition fill_temp :: "fs_env \<Rightarrow> string \<Rightarrow> (string \<Rightarrow> (fs_world, unit) stored) \<Rightarrow> (fs_world, unit) stored" where
  "fill_temp env tmp fill =
     st_then (map_err (fs_create_file env tmp) (internal_at ''create temp'' tmp)) (\<lambda>_.
     st_then (fill tmp) (\<lambda>_.
     st_then (map_err (fs_call env Sys_flush tmp) (internal_at ''flush temp'' tmp)) (\<lambda>_.
     map_err (fs_call env Sys_fsync tmp) (internal_at ''fsync temp'' tmp))))"

definition rename_error :: "local_storage \<Rightarrow> string \<Rightarrow> string \<Rightarrow> io_error \<Rightarrow> storage_error" where
  "rename_error svc tmp path e =
     (if io_kind_of e = K_crosses_devices
      then SE_internal (Text ''cannot store {path:?}: its folder is on a different filesystem than the storage root {:?} (a mount point or a symlink under the root); LocalStorageService needs every folder on the root's filesystem''
             [A_str path, A_str (ls_root svc)])
      else SE_internal (Text ''rename {tmp:?} -> {path:?}: {e}'' [A_str tmp, A_str path, A_str (io_text e)]))"

text \<open>On an error the temporary file is removed, whether or not the removal succeeds.\<close>

definition or_remove :: "fs_env \<Rightarrow> string \<Rightarrow> (fs_world, unit) stored \<Rightarrow> (fs_world, unit) stored" where
  "or_remove env tmp run w =
     (case run w of
        (Inl e, w) \<Rightarrow> (Inl e, snd (fs_remove_file env tmp w))
      | (Inr _, w) \<Rightarrow> (Inr (), w))"

definition sync_parent :: "fs_env \<Rightarrow> string \<Rightarrow> string \<Rightarrow> (fs_world, unit) stored" where
  "sync_parent env path parent =
     map_err
       (\<lambda>w. case fs_call env Sys_open parent w of
              (Inl e, w) \<Rightarrow> (Inl e, w)
            | (Inr _, w) \<Rightarrow> fs_call env Sys_fsync parent w)
       (\<lambda>e. SE_internal (Text ''fsync directory {parent:?} after writing {path:?} (the object is in place but may not survive a power loss): {e}''
              [A_str parent, A_str path, A_str (io_text e)]))"

definition atomic_write :: "fs_env \<Rightarrow> local_storage \<Rightarrow> string \<Rightarrow> (string \<Rightarrow> (fs_world, unit) stored) \<Rightarrow> (fs_world, unit) stored" where
  "atomic_write env svc path fill =
     st_then
       (case path_parent path of
          Some parent \<Rightarrow> map_err (fs_create_dir_all env parent) (internal_at ''create dirs for'' path)
        | None \<Rightarrow> st_result (Inr ())) (\<lambda>_.
     let staging = staging_path svc in
     st_then (map_err (fs_create_dir_all env staging) (internal_at ''create staging directory'' staging)) (\<lambda>_.
     st_then (staged_temp_path env staging) (\<lambda>tmp.
     st_then (or_remove env tmp (fill_temp env tmp fill)) (\<lambda>_.
     st_then (or_remove env tmp (map_err (fs_rename env tmp path) (rename_error svc tmp path))) (\<lambda>_.
     case path_parent path of
       Some parent \<Rightarrow> sync_parent env path parent
     | None \<Rightarrow> st_result (Inr ()))))))"

definition local_put :: "fs_env \<Rightarrow> local_storage \<Rightarrow> string \<Rightarrow> string \<Rightarrow> bytes \<Rightarrow> string \<Rightarrow> (fs_world, unit) stored" where
  "local_put env svc folder key data _ =
     st_then (validate_path env svc (object_path_of svc folder key)) (\<lambda>path.
     atomic_write env svc path (\<lambda>tmp. map_err (fs_append env tmp 0 data) (internal_at ''write'' path)))"

fun write_chunks :: "fs_env \<Rightarrow> string \<Rightarrow> string \<Rightarrow> nat \<Rightarrow> (wafer_error + bytes) list \<Rightarrow> (fs_world, unit) stored" where
  "write_chunks env path tmp i [] w = (Inr (), w)"
| "write_chunks env path tmp i (Inl e # _) w = (Inl (SE_body e), w)"
| "write_chunks env path tmp i (Inr chunk # items) w =
     st_then (map_err (fs_append env tmp i chunk) (internal_at ''write'' path))
       (\<lambda>_. write_chunks env path tmp (Suc i) items) w"

definition local_put_streaming ::
  "fs_env \<Rightarrow> local_storage \<Rightarrow> string \<Rightarrow> string \<Rightarrow> (wafer_error + bytes) list \<Rightarrow> string \<Rightarrow> (fs_world, unit) stored" where
  "local_put_streaming env svc folder key data _ =
     st_then (validate_path env svc (object_path_of svc folder key)) (\<lambda>path.
     atomic_write env svc path (\<lambda>tmp. write_chunks env path tmp 0 data))"

section \<open>Reading\<close>

fun node_len :: "fs_env \<Rightarrow> fs_node \<Rightarrow> nat" where
  "node_len env (F_file data _) = length data"
| "node_len env (F_dir _) = fx_dir_len env"

fun node_modified :: "fs_env \<Rightarrow> fs_node \<Rightarrow> nat" where
  "node_modified env (F_file _ modified) = modified"
| "node_modified env (F_dir _) = fx_now env"

definition fs_read :: "fs_env \<Rightarrow> string \<Rightarrow> bytes io" where
  "fs_read env path =
     guarded env Sys_read path
       (\<lambda>w. (and_then (find_node (fw_tree w) (names_of path))
               (\<lambda>node. case node of F_file data _ \<Rightarrow> Inr data | F_dir _ \<Rightarrow> Inl is_a_directory), w))"

definition object_info_of :: "string \<Rightarrow> nat \<Rightarrow> nat \<Rightarrow> object_info" where
  "object_info_of key len modified =
     \<lparr>oi_key = key, oi_size = int len, oi_content_type = guess_content_type key, oi_last_modified = modified\<rparr>"

definition local_get :: "fs_env \<Rightarrow> local_storage \<Rightarrow> string \<Rightarrow> string \<Rightarrow> (fs_world, bytes \<times> object_info) stored" where
  "local_get env svc folder key =
     st_then (validate_path env svc (object_path_of svc folder key)) (\<lambda>path.
     st_then (map_err (fs_stat env path) (metadata_or_not_found path)) (\<lambda>metadata.
     st_then (st_result (check_object_size path (node_len env metadata))) (\<lambda>_.
     st_then (map_err (fs_read env path) (internal_at ''read'' path)) (\<lambda>data.
     st_result (Inr (data, object_info_of key (length data) (node_modified env metadata)))))))"

function read_stream :: "fs_env \<Rightarrow> string \<Rightarrow> nat \<Rightarrow> bytes \<Rightarrow> output_stream" where
  "read_stream env path i data =
     (case fx_read env i of
        Inl e \<Rightarrow> [Error (wafer_error_new Internal (Text ''read {path:?}: {e}'' [A_str path, A_str (io_text e)]))]
      | Inr k \<Rightarrow>
          (if data = [] then [Complete []]
           else (let n = max 1 (min k (64 * 1024)) in Chunk (take n data) # read_stream env path (Suc i) (drop n data))))"
  by pat_completeness auto
termination
  by (relation "measure (\<lambda>(_, _, _, data). length data)") auto

declare read_stream.simps [simp del]

fun opened_stream :: "fs_env \<Rightarrow> string \<Rightarrow> fs_node \<Rightarrow> output_stream" where
  "opened_stream env path (F_file data _) = read_stream env path 0 data"
| "opened_stream env path (F_dir _) =
     [Error (wafer_error_new Internal (Text ''read {path:?}: {e}'' [A_str path, A_str (io_text is_a_directory)]))]"

definition fs_open :: "fs_env \<Rightarrow> string \<Rightarrow> fs_node io" where
  "fs_open env path = guarded env Sys_open path (\<lambda>w. (find_node (fw_tree w) (names_of path), w))"

definition local_get_streaming ::
  "fs_env \<Rightarrow> local_storage \<Rightarrow> string \<Rightarrow> string \<Rightarrow> (fs_world, output_stream \<times> object_info) stored" where
  "local_get_streaming env svc folder key =
     st_then (validate_path env svc (object_path_of svc folder key)) (\<lambda>path.
     st_then (map_err (fs_open env path)
                (\<lambda>e. if io_kind_of e = K_not_found then SE_not_found else internal_at ''open'' path e)) (\<lambda>file.
     st_then (map_err (fs_call env Sys_stat path) (internal_at ''metadata'' path)) (\<lambda>_.
     st_then (st_result (check_object_size path (node_len env file))) (\<lambda>_.
     st_result (Inr (opened_stream env path file, object_info_of key (node_len env file) (node_modified env file)))))))"

section \<open>Deleting and folders\<close>

definition local_delete :: "fs_env \<Rightarrow> local_storage \<Rightarrow> string \<Rightarrow> string \<Rightarrow> (fs_world, unit) stored" where
  "local_delete env svc folder key =
     st_then (validate_path env svc (object_path_of svc folder key)) (\<lambda>path.
     st_then (map_err (fs_stat env path) (metadata_or_not_found path)) (\<lambda>_.
     map_err (fs_remove_file env path) (internal_at ''delete'' path)))"

definition local_create_folder :: "fs_env \<Rightarrow> local_storage \<Rightarrow> string \<Rightarrow> bool \<Rightarrow> (fs_world, unit) stored" where
  "local_create_folder env svc name _ =
     st_then (validate_path env svc (folder_path svc name)) (\<lambda>path.
     map_err (fs_create_dir_all env path) (internal_at ''create folder'' path))"

definition local_delete_folder :: "fs_env \<Rightarrow> local_storage \<Rightarrow> string \<Rightarrow> (fs_world, unit) stored" where
  "local_delete_folder env svc name =
     st_then (validate_path env svc (folder_path svc name)) (\<lambda>path.
     st_then (map_err (fs_stat env path) (metadata_or_not_found path)) (\<lambda>_.
     map_err (fs_remove_dir_all env path) (internal_at ''delete folder'' path)))"

definition join_err :: "string \<Rightarrow> storage_error" where
  "join_err e = SE_internal (Text ''storage walk task failed: {e}'' [A_str e])"

definition failing :: "fs_env \<Rightarrow> syscall \<Rightarrow> string \<Rightarrow> (io_error \<Rightarrow> storage_error) \<Rightarrow> storage_error + unit" where
  "failing env call path f = (case fx_fail env call path of Some e \<Rightarrow> Inl (f e) | None \<Rightarrow> Inr ())"

definition read_entries :: "fs_env \<Rightarrow> fs_tree \<Rightarrow> string list \<Rightarrow> storage_error + (string list \<times> fs_node) list" where
  "read_entries env t dir =
     and_then (failing env Sys_read_dir (canonical dir) (internal_at ''read dir'' (canonical dir))) (\<lambda>_.
     case find_node t dir of
       Inl e \<Rightarrow> Inl (internal_at ''read dir'' (canonical dir) e)
     | Inr (F_file _ _) \<Rightarrow> Inl (internal_at ''read dir'' (canonical dir) not_a_directory)
     | Inr (F_dir _) \<Rightarrow> Inr (entries t dir))"

definition read_entry :: "fs_env \<Rightarrow> string list \<Rightarrow> storage_error + unit" where
  "read_entry env names =
     and_then (failing env Sys_entry (canonical names) (\<lambda>e. SE_internal (Text ''read entry: {e}'' [A_str (io_text e)]))) (\<lambda>_.
     failing env Sys_stat (canonical names) (\<lambda>e. SE_internal (Text ''metadata: {e}'' [A_str (io_text e)])))"

definition local_list_folders :: "fs_env \<Rightarrow> local_storage \<Rightarrow> (fs_world, folder_info list) stored" where
  "local_list_folders env svc w =
     (case fx_join env of
        Some e \<Rightarrow> (Inl (join_err e), w)
      | None \<Rightarrow>
          (and_then (read_entries env (fw_tree w) (names_of (ls_root svc))) (\<lambda>found.
           and_then
             (traverse (\<lambda>(names, node).
                and_then (read_entry env names) (\<lambda>_.
                Inr (case node of
                       F_dir created \<Rightarrow>
                         (if is_staging env (canonical names) (staging_path svc) then []
                          else [\<lparr>fo_name = last names, fo_public = False,
                                 fo_created_at = (case created of Some at_time \<Rightarrow> at_time | None \<Rightarrow> fx_now env)\<rparr>])
                     | F_file _ _ \<Rightarrow> []))) found) (\<lambda>folders. Inr (concat folders))), w))"

section \<open>Listing\<close>

definition tree_depth :: "fs_tree \<Rightarrow> nat" where
  "tree_depth t = Max (insert 0 (length ` fst ` set t))"

lemma entry_below: "(names, node) \<in> set (entries t dir) \<Longrightarrow> names \<noteq> [] \<and> butlast names = dir \<and> (names, node) \<in> set t"
  by (auto simp: entries_def)

lemma entry_deeper: "(names, node) \<in> set (entries t dir) \<Longrightarrow> length names = Suc (length dir) \<and> length names \<le> tree_depth t"
  by (auto simp: tree_depth_def dest!: entry_below intro!: Max_ge) force

lemma read_entries_Inr: "read_entries env t dir = Inr found \<Longrightarrow> found = entries t dir"
  by (auto simp: read_entries_def and_then_eq_Inr split: sum.splits fs_node.splits)

definition key_below :: "string list \<Rightarrow> string list \<Rightarrow> string" where
  "key_below base names =
     (let path = canonical names in
      if path_starts_with path (canonical base) then path_of (path_below (canonical base) path) else path)"

definition list_entry :: "fs_env \<Rightarrow> string list \<Rightarrow> string \<Rightarrow> string list \<Rightarrow> fs_node \<Rightarrow> object_info list" where
  "list_entry env base pref names node =
     (let key = key_below base names in
      if pref \<noteq> [] \<and> \<not> starts_with pref key then []
      else [object_info_of key (node_len env node) (node_modified env node)])"

function list_recursive :: "fs_env \<Rightarrow> fs_tree \<Rightarrow> string list \<Rightarrow> string \<Rightarrow> string \<Rightarrow> string list \<Rightarrow> storage_error + object_info list" where
  "list_recursive env t base staging pref dir =
     and_then (read_entries env t dir) (\<lambda>found.
     and_then
       (traverse (\<lambda>(names, node).
          and_then (read_entry env names) (\<lambda>_.
          if is_dir node \<and> is_staging env (canonical names) staging then Inr []
          else if is_dir node then list_recursive env t base staging pref names
          else Inr (list_entry env base pref names node))) found)
       (\<lambda>objects. Inr (concat objects)))"
  by pat_completeness auto
termination
  by (relation "measure (\<lambda>(env, t, base, staging, pref, dir). Suc (tree_depth t) - length dir)")
     (auto dest!: read_entries_Inr entry_deeper)

declare list_recursive.simps [simp del]

definition encode_cursor :: "fs_env \<Rightarrow> string \<Rightarrow> string" where
  "encode_cursor env key = fx_base64 env key"

definition decode_cursor :: "fs_env \<Rightarrow> string \<Rightarrow> storage_error + string" where
  "decode_cursor env cursor =
     (case fx_unbase64 env cursor of
        Inl e \<Rightarrow> Inl (SE_invalid_argument (Text ''invalid storage list cursor: {e}'' [A_str e]))
      | Inr key \<Rightarrow>
          (case fx_utf8 env key of
             Some e \<Rightarrow> Inl (SE_invalid_argument (Text ''invalid storage list cursor (not utf-8): {e}'' [A_str e]))
           | None \<Rightarrow> Inr key))"

definition cursor_start_index :: "fs_env \<Rightarrow> object_info list \<Rightarrow> string \<Rightarrow> storage_error + nat" where
  "cursor_start_index env objects cursor =
     (if cursor = [] then Inr 0
      else and_then (decode_cursor env cursor) (\<lambda>last_key. Inr (length (takeWhile (\<lambda>o'. oi_key o' \<le> last_key) objects))))"

definition as_usize :: "int \<Rightarrow> nat" where
  "as_usize n = nat (n mod 2 ^ 64)"

text \<open>The page a listing answers, of the objects in the order of their keys.\<close>

definition list_page :: "fs_env \<Rightarrow> storage_list_options \<Rightarrow> object_info list \<Rightarrow> storage_error + object_list" where
  "list_page env opts objects =
     (let page_limit = (if so_limit opts > 0 then as_usize (so_limit opts) else length objects) in
      and_then
        (case so_cursor opts of
           Some token \<Rightarrow> cursor_start_index env objects token
         | None \<Rightarrow> Inr (min (as_usize (so_offset opts)) (length objects))) (\<lambda>start.
      let stop = min (min (start + page_limit) u64_max) (length objects);
          window = take (stop - start) (drop start objects) in
      Inr \<lparr>ol_objects = window, ol_total_count = int (length objects),
           ol_next_cursor =
             (if so_cursor opts \<noteq> None \<and> stop < length objects
              then (if window = [] then None else Some (encode_cursor env (oi_key (last window)))) else None)\<rparr>))"

definition local_list :: "fs_env \<Rightarrow> local_storage \<Rightarrow> string \<Rightarrow> storage_list_options \<Rightarrow> (fs_world, object_list) stored" where
  "local_list env svc folder opts =
     st_then (validate_path env svc (folder_path svc folder)) (\<lambda>dir w.
       (case fx_join env of
          Some e \<Rightarrow> Inl (join_err e)
        | None \<Rightarrow>
            (case fs_stat env dir w of
               (Inl _, _) \<Rightarrow> Inr \<lparr>ol_objects = [], ol_total_count = 0, ol_next_cursor = None\<rparr>
             | (Inr _, _) \<Rightarrow>
                 and_then (list_recursive env (fw_tree w) (names_of dir) (staging_path svc) (so_prefix opts) (names_of dir)) (\<lambda>objects.
                 list_page env opts (sort_key oi_key objects))), w))"

definition local_service :: "fs_env \<Rightarrow> local_storage \<Rightarrow> fs_world storage_service" where
  "local_service env svc =
     \<lparr>sv_put = local_put env svc, sv_put_streaming = local_put_streaming env svc, sv_get = local_get env svc,
      sv_get_streaming = local_get_streaming env svc, sv_delete = local_delete env svc, sv_list = local_list env svc,
      sv_create_folder = local_create_folder env svc, sv_delete_folder = local_delete_folder env svc,
      sv_list_folders = local_list_folders env svc\<rparr>"

end
