(* ===== verification/Storage_Confinement.thy ===== *)
theory Storage_Confinement
  imports Local_Storage
begin

text \<open>
  What the storage service does to the filesystem: a request changes no file but those below a path its caller
  may write, and a write replaces an object in one step, whatever calls of the filesystem fail.
\<close>

section \<open>Observable changes\<close>

definition file_at :: "fs_tree \<Rightarrow> string list \<Rightarrow> bytes option" where
  "file_at t names = (case fs_lookup t names of Some (F_file data _) \<Rightarrow> Some data | _ \<Rightarrow> None)"

text \<open>Between two worlds only trees are visible in which a file is as it was or as \<open>Q\<close> allows.\<close>

definition observes :: "(string list \<Rightarrow> bytes option \<Rightarrow> bool) \<Rightarrow> fs_world \<Rightarrow> fs_world \<Rightarrow> bool" where
  "observes Q w w' \<longleftrightarrow>
     (\<exists>seen. fw_history w' = fw_history w @ seen \<and> fw_tree w' = last (fw_tree w # seen)
        \<and> (\<forall>t \<in> set seen. \<forall>names. file_at t names = file_at (fw_tree w) names \<or> Q names (file_at t names)))"

lemma observes_refl [simp, intro]: "observes Q w w"
  by (auto simp: observes_def intro: exI [of _ "[]"])

lemma observes_tree:
  "observes Q w w' \<Longrightarrow> file_at (fw_tree w') names = file_at (fw_tree w) names \<or> Q names (file_at (fw_tree w') names)"
  by (fastforce simp: observes_def)

lemma observes_trans [trans]:
  assumes ab: "observes Q a b" and bc: "observes Q b c"
  shows "observes Q a c"
proof -
  obtain xs where xs: "fw_history b = fw_history a @ xs" "fw_tree b = last (fw_tree a # xs)"
    "\<And>t names. t \<in> set xs \<Longrightarrow> file_at t names = file_at (fw_tree a) names \<or> Q names (file_at t names)"
    using ab by (auto simp: observes_def)
  obtain ys where ys: "fw_history c = fw_history b @ ys" "fw_tree c = last (fw_tree b # ys)"
    "\<And>t names. t \<in> set ys \<Longrightarrow> file_at t names = file_at (fw_tree b) names \<or> Q names (file_at t names)"
    using bc by (auto simp: observes_def)
  have "file_at t names = file_at (fw_tree a) names \<or> Q names (file_at t names)" if "t \<in> set ys" for t names
    using ys(3) [OF that, of names] observes_tree [OF ab, of names] by metis
  moreover have "fw_tree c = last (fw_tree a # xs @ ys)"
    using xs(2) ys(2) by simp
  ultimately show ?thesis
    using xs ys(1) unfolding observes_def by (intro exI [of _ "xs @ ys"]) auto
qed

lemma observes_mono: "observes Q w w' \<Longrightarrow> (\<And>names data. Q names data \<Longrightarrow> Q' names data) \<Longrightarrow> observes Q' w w'"
  unfolding observes_def by blast

lemma observes_set_tree:
  "(\<And>names. file_at t names = file_at (fw_tree w) names \<or> Q names (file_at t names)) \<Longrightarrow> observes Q w (set_tree t w)"
  by (auto simp: observes_def set_tree_def intro: exI [of _ "[t]"])

text \<open>Running \<open>m\<close> in any world.\<close>

definition keeps :: "(string list \<Rightarrow> bytes option \<Rightarrow> bool) \<Rightarrow> (fs_world \<Rightarrow> 'r \<times> fs_world) \<Rightarrow> bool" where
  "keeps Q m \<longleftrightarrow> (\<forall>w. observes Q w (snd (m w)))"

lemma keepsD: "keeps Q m \<Longrightarrow> m w = (r, w') \<Longrightarrow> observes Q w w'"
  by (metis keeps_def snd_conv)

lemma keeps_mono: "keeps Q m \<Longrightarrow> (\<And>names data. Q names data \<Longrightarrow> Q' names data) \<Longrightarrow> keeps Q' m"
  unfolding keeps_def using observes_mono by blast

lemma keeps_st_then:
  assumes "keeps Q m" and "\<And>x w w'. m w = (Inr x, w') \<Longrightarrow> keeps Q (k x)"
  shows "keeps Q (st_then m k)"
  unfolding keeps_def
proof
  fix w
  obtain r w' where m: "m w = (r, w')" by fastforce
  show "observes Q w (snd (st_then m k w))"
  proof (cases r)
    case (Inr x)
    then show ?thesis
      using m assms(2) [of w x w'] keepsD [OF assms(1) m] observes_trans
      by (auto simp: st_then_def keeps_def)
  qed (use keepsD [OF assms(1) m] m in \<open>simp add: st_then_def\<close>)
qed

lemma keeps_map_err: "keeps Q m \<Longrightarrow> keeps Q (map_err m f)"
  by (auto simp: keeps_def map_err_def split: prod.splits sum.splits) (metis snd_conv)+

lemma keeps_guarded: "keeps Q m \<Longrightarrow> keeps Q (guarded env call path m)"
  by (auto simp: keeps_def guarded_def split: option.splits)

lemma keeps_pure: "(\<And>w. snd (m w) = w) \<Longrightarrow> keeps Q m"
  by (simp add: keeps_def)

lemma keeps_st_result [simp, intro]: "keeps Q (st_result r)"
  by (simp add: keeps_pure st_result_def)

lemma keeps_fs_call [simp, intro]: "keeps Q (fs_call env call path)"
  by (simp add: fs_call_def keeps_guarded keeps_pure)

lemma keeps_fs_stat [simp, intro]: "keeps Q (fs_stat env path)"
  by (simp add: fs_stat_def keeps_guarded keeps_pure)

lemma keeps_fs_canonicalize [simp, intro]: "keeps Q (fs_canonicalize env path)"
  by (simp add: fs_canonicalize_def keeps_guarded keeps_pure)

lemma keeps_fs_read [simp, intro]: "keeps Q (fs_read env path)"
  by (simp add: fs_read_def keeps_guarded keeps_pure)

lemma keeps_fs_open [simp, intro]: "keeps Q (fs_open env path)"
  by (simp add: fs_open_def keeps_guarded keeps_pure)

section \<open>The effect of the filesystem calls\<close>

lemma fs_lookup_update: "fs_lookup (AList.update names node t) ns = (if ns = names \<and> ns \<noteq> [] then Some node else fs_lookup t ns)"
  by (auto simp: fs_lookup_def AList.update_conv')

lemma fs_lookup_delete: "fs_lookup (AList.delete names t) ns = (if ns = names \<and> ns \<noteq> [] then None else fs_lookup t ns)"
  by (auto simp: fs_lookup_def AList.delete_conv')

lemma file_at_update:
  "file_at (AList.update names node t) ns =
     (if ns = names \<and> ns \<noteq> [] then (case node of F_file data _ \<Rightarrow> Some data | F_dir _ \<Rightarrow> None) else file_at t ns)"
  by (cases node) (auto simp: file_at_def fs_lookup_update)

lemma file_at_delete: "file_at (AList.delete names t) ns = (if ns = names then None else file_at t ns)"
  by (auto simp: file_at_def fs_lookup_delete) (simp add: fs_lookup_def)

lemma file_at_filter:
  "file_at (filter (\<lambda>(names, _). P names) t) ns = (if ns = [] \<or> P ns then file_at t ns else None)"
  by (induction t) (auto simp: file_at_def fs_lookup_def)

lemma make_dirs_keeps: "keeps Q (make_dirs env up names)"
  unfolding keeps_def
proof (intro allI)
  fix w
  show "observes Q w (snd (make_dirs env up names w))"
  proof (induction names arbitrary: up w)
    case (Cons name names)
    have made: "observes Q w (set_tree (AList.update (up @ [name]) (F_dir d) (fw_tree w)) w)"
      if "fs_lookup (fw_tree w) (up @ [name]) = None" for d
      by (rule observes_set_tree) (auto simp: file_at_update, auto simp: file_at_def that)
    show ?case
      using Cons.IH observes_trans [OF made]
      by (auto simp: Let_def split: option.splits fs_node.splits)
  qed simp
qed

lemma create_dir_all_keeps [simp, intro]: "keeps Q (fs_create_dir_all env path)"
  by (simp add: fs_create_dir_all_def make_dirs_keeps)

lemma place_file_cases:
  "place_file names (F_file data m) w = (r, w') \<Longrightarrow>
     (\<exists>e. r = Inl e) \<and> w' = w
     \<or> r = Inr () \<and> w' = set_tree (AList.update names (F_file data m) (fw_tree w)) w \<and> names \<noteq> []"
  by (auto simp: place_file_def fs_lookup_def split: sum.splits fs_node.splits option.splits if_splits)

lemma create_file_keeps: "(\<And>data. Q (names_of path) data) \<Longrightarrow> keeps Q (fs_create_file env path)"
  unfolding fs_create_file_def
proof (intro keeps_guarded, unfold keeps_def, intro allI)
  fix w
  assume Q: "\<And>data. Q (names_of path) data"
  obtain r w' where run: "place_file (names_of path) (F_file [] (fx_now env)) w = (r, w')" by fastforce
  have "observes Q w (set_tree (AList.update (names_of path) (F_file [] (fx_now env)) (fw_tree w)) w)"
    by (rule observes_set_tree) (auto simp: file_at_update Q)
  then show "observes Q w (snd (place_file (names_of path) (F_file [] (fx_now env)) w))"
    using place_file_cases [OF run] run by auto
qed

lemma append_keeps: "(\<And>data. Q (names_of path) data) \<Longrightarrow> keeps Q (fs_append env path i data)"
  unfolding keeps_def fs_append_def
  by (auto simp: Let_def file_at_update intro!: observes_set_tree split: prod.splits option.splits fs_node.splits)

lemma remove_file_keeps: "(\<And>data. Q (names_of path) data) \<Longrightarrow> keeps Q (fs_remove_file env path)"
  unfolding fs_remove_file_def
  by (rule keeps_guarded)
     (auto simp: keeps_def file_at_delete intro!: observes_set_tree split: sum.splits fs_node.splits)

lemma remove_dir_all_keeps:
  "(\<And>names data. prefix (names_of path) names \<Longrightarrow> Q names data) \<Longrightarrow> keeps Q (fs_remove_dir_all env path)"
  unfolding fs_remove_dir_all_def
  by (rule keeps_guarded)
     (auto simp: keeps_def file_at_filter intro!: observes_set_tree split: sum.splits fs_node.splits)

section \<open>Triples\<close>

text \<open>From a world with \<open>pre\<close>, a run shows only what \<open>Q\<close> allows, and a success establishes \<open>post\<close>.\<close>

definition ensures :: "(string list \<Rightarrow> bytes option \<Rightarrow> bool) \<Rightarrow> (fs_world \<Rightarrow> bool) \<Rightarrow> (fs_world \<Rightarrow> ('e + 'a) \<times> fs_world)
    \<Rightarrow> ('a \<Rightarrow> fs_world \<Rightarrow> bool) \<Rightarrow> bool" where
  "ensures Q pre m post \<longleftrightarrow>
     (\<forall>w r w'. pre w \<longrightarrow> m w = (r, w') \<longrightarrow> observes Q w w' \<and> (\<forall>x. r = Inr x \<longrightarrow> post x w'))"

lemma ensuresI:
  "(\<And>w r w'. pre w \<Longrightarrow> m w = (r, w') \<Longrightarrow> observes Q w w' \<and> (\<forall>x. r = Inr x \<longrightarrow> post x w')) \<Longrightarrow> ensures Q pre m post"
  by (simp add: ensures_def)

lemma ensuresD: "ensures Q pre m post \<Longrightarrow> pre w \<Longrightarrow> m w = (r, w') \<Longrightarrow> observes Q w w' \<and> (\<forall>x. r = Inr x \<longrightarrow> post x w')"
  by (simp add: ensures_def)

lemma ensures_keeps: "keeps Q m \<Longrightarrow> ensures Q pre m (\<lambda>_ _. True)"
  by (auto simp: ensures_def dest: keepsD)

lemma ensures_then:
  assumes "ensures Q pre m mid" and "\<And>x. ensures Q (mid x) (k x) post"
  shows "ensures Q pre (st_then m k) post"
proof (rule ensuresI)
  fix w r w'
  assume pre: "pre w" and run: "st_then m k w = (r, w')"
  obtain r1 w1 where m: "m w = (r1, w1)" by fastforce
  show "observes Q w w' \<and> (\<forall>x. r = Inr x \<longrightarrow> post x w')"
  proof (cases r1)
    case (Inl e)
    then show ?thesis
      using run m ensuresD [OF assms(1) pre m] by (auto simp: st_then_def)
  next
    case (Inr x)
    then have "k x w1 = (r, w')" and "mid x w1" and "observes Q w w1"
      using run m ensuresD [OF assms(1) pre m] by (auto simp: st_then_def)
    then show ?thesis
      using ensuresD [OF assms(2)] observes_trans by blast
  qed
qed

lemma ensures_map_err: "ensures Q pre m post \<Longrightarrow> ensures Q pre (map_err m f) post"
  by (fastforce simp: ensures_def map_err_def split: prod.splits sum.splits)

lemma ensures_post: "ensures Q pre m post \<Longrightarrow> (\<And>x w. post x w \<Longrightarrow> post' x w) \<Longrightarrow> ensures Q pre m post'"
  by (fastforce simp: ensures_def)

lemma ensures_still:
  assumes "\<And>w. snd (m w) = w"
  shows "ensures Q pre m (\<lambda>_. pre)"
  by (rule ensuresI) (metis assms observes_refl snd_conv)

lemma fs_call_still [simp]: "snd (fs_call env call path w) = w" "snd (map_err (fs_call env call path) f w) = w"
  by (auto simp: fs_call_def guarded_def map_err_def split: option.splits)

lemma ensures_or_remove:
  assumes "ensures Q pre run post" and "\<And>data. Q (names_of tmp) data"
  shows "ensures Q pre (or_remove env tmp run) post"
proof (rule ensuresI)
  fix w r w'
  assume pre: "pre w" and done_: "or_remove env tmp run w = (r, w')"
  obtain r1 w1 where run: "run w = (r1, w1)" by fastforce
  have "observes Q w1 (snd (fs_remove_file env tmp w1))"
    using remove_file_keeps [of Q tmp env] assms(2) by (simp add: keeps_def)
  then show "observes Q w w' \<and> (\<forall>x. r = Inr x \<longrightarrow> post x w')"
    using done_ run ensuresD [OF assms(1) pre run] observes_trans
    by (cases r1) (auto simp: or_remove_def)
qed

section \<open>Atomic writes\<close>

definition rooted :: "local_storage \<Rightarrow> string list \<Rightarrow> bool" where
  "rooted svc base \<longleftrightarrow> ls_root svc = canonical base \<and> list_all proper base"

lemma proper_staging: "proper STAGING_DIR"
  by (simp add: proper_def STAGING_DIR_def)

lemma staging_path_canonical: "rooted svc base \<Longrightarrow> staging_path svc = canonical (base @ [STAGING_DIR])"
  by (simp add: rooted_def staging_path_def push_canonical proper_staging)

lemma proper_temp: "proper (show_nat pid @ ''.'' @ show_nat seq @ ''.tmp'')"
proof -
  have "\<not> is_ascii_digit slash" by (simp add: is_ascii_digit_def)
  then have "slash \<notin> set (show_nat n)" for n
    using show_nat_chars by blast
  then show ?thesis
    by (auto simp: proper_def append_eq_Cons_conv)
qed

lemma temp_path_names:
  assumes "rooted svc base"
  shows "\<exists>name. names_of (path_push (staging_path svc) (show_nat pid @ ''.'' @ show_nat seq @ ''.tmp''))
                 = base @ [STAGING_DIR, name]"
proof -
  let ?name = "show_nat pid @ ''.'' @ show_nat seq @ ''.tmp''"
  have "list_all proper (base @ [STAGING_DIR])"
    using assms by (simp add: rooted_def proper_staging)
  then have "path_push (staging_path svc) ?name = canonical (base @ [STAGING_DIR, ?name])"
    using push_canonical [OF _ proper_temp] staging_path_canonical [OF assms] by simp
  moreover have "list_all proper (base @ [STAGING_DIR, ?name])"
    using assms proper_temp [of pid seq] by (simp add: rooted_def proper_staging)
  ultimately show ?thesis by (intro exI [of _ ?name]) simp
qed

text \<open>What a write may show: anything below the staging directory, and at the key a complete object.\<close>

definition writes :: "string list \<Rightarrow> string list \<Rightarrow> (bytes \<Rightarrow> bool) \<Rightarrow> string list \<Rightarrow> bytes option \<Rightarrow> bool" where
  "writes base names good ns data \<longleftrightarrow>
     prefix (base @ [STAGING_DIR]) ns \<or> (ns = names \<and> (\<exists>bs. good bs \<and> data = Some bs))"

lemma file_at_find: "file_at t names = Some data \<Longrightarrow> \<exists>m. find_node t names = Inr (F_file data m) \<and> names \<noteq> []"
  by (auto simp: file_at_def find_node_def fs_lookup_def split: option.splits fs_node.splits if_splits)

lemma ensures_rename:
  assumes "names_of tmp \<noteq> names_of path" and "\<And>data. Q (names_of tmp) data" and "\<And>bs. good bs \<Longrightarrow> Q (names_of path) (Some bs)"
  shows "ensures Q (\<lambda>w. \<exists>bs. good bs \<and> file_at (fw_tree w) (names_of tmp) = Some bs) (fs_rename env tmp path)
           (\<lambda>_ w. \<exists>bs. good bs \<and> file_at (fw_tree w) (names_of path) = Some bs)"
proof (rule ensuresI, elim exE conjE)
  fix w r w' bs
  assume good: "good bs" and tmp: "file_at (fw_tree w) (names_of tmp) = Some bs" and run: "fs_rename env tmp path w = (r, w')"
  obtain m where node: "find_node (fw_tree w) (names_of tmp) = Inr (F_file bs m)"
    using file_at_find [OF tmp] by blast
  let ?t = "AList.update (names_of path) (F_file bs m) (AList.delete (names_of tmp) (fw_tree w))"
  obtain r1 w1 where placed: "place_file (names_of path) (F_file bs m) w = (r1, w1)" by fastforce
  have "(\<exists>e. r = Inl e) \<and> w' = w \<or> r = Inr () \<and> w' = set_tree ?t w \<and> names_of path \<noteq> []"
    using run node placed place_file_cases [OF placed]
    by (auto simp: fs_rename_def guarded_def split: option.splits sum.splits)
  moreover have "observes Q w (set_tree ?t w)" if "names_of path \<noteq> []"
    by (rule observes_set_tree) (use that assms good in \<open>auto simp: file_at_update file_at_delete\<close>)
  moreover have "file_at ?t (names_of path) = Some bs" if "names_of path \<noteq> []"
    using that by (simp add: file_at_update)
  ultimately show "observes Q w w' \<and> (\<forall>x. r = Inr x \<longrightarrow> (\<exists>bs. good bs \<and> file_at (fw_tree w') (names_of path) = Some bs))"
    using good by (auto simp: set_tree_def)
qed

lemma ensures_create_file:
  assumes "\<And>data. Q (names_of path) data"
  shows "ensures Q (\<lambda>_. True) (fs_create_file env path) (\<lambda>_ w. file_at (fw_tree w) (names_of path) = Some [])"
proof (rule ensuresI)
  fix w r w'
  assume run: "fs_create_file env path w = (r, w')"
  obtain r1 w1 where placed: "place_file (names_of path) (F_file [] (fx_now env)) w = (r1, w1)" by fastforce
  have "r = Inr x \<Longrightarrow> file_at (fw_tree w') (names_of path) = Some []" for x
    using run placed place_file_cases [OF placed]
    by (auto simp: fs_create_file_def guarded_def set_tree_def file_at_update split: option.splits)
  then show "observes Q w w' \<and> (\<forall>x. r = Inr x \<longrightarrow> file_at (fw_tree w') (names_of path) = Some [])"
    using keepsD [OF create_file_keeps [where Q = Q and path = path, OF assms] run] by blast
qed

text \<open>A filler writes the temporary file and nothing else, and succeeds only with a complete object.\<close>

definition fills :: "(string \<Rightarrow> (fs_world, unit) stored) \<Rightarrow> (bytes \<Rightarrow> bool) \<Rightarrow> bool" where
  "fills fill good \<longleftrightarrow>
     (\<forall>Q tmp. (\<forall>data. Q (names_of tmp) data) \<longrightarrow>
        ensures Q (\<lambda>w. file_at (fw_tree w) (names_of tmp) = Some []) (fill tmp)
          (\<lambda>_ w. \<exists>bs. good bs \<and> file_at (fw_tree w) (names_of tmp) = Some bs))"

lemma ensures_fill_temp:
  assumes "fills fill good" and Q: "\<And>data. Q (names_of tmp) data"
  shows "ensures Q (\<lambda>_. True) (fill_temp env tmp fill) (\<lambda>_ w. \<exists>bs. good bs \<and> file_at (fw_tree w) (names_of tmp) = Some bs)"
proof -
  let ?full = "\<lambda>w. \<exists>bs. good bs \<and> file_at (fw_tree w) (names_of tmp) = Some bs"
  have created: "ensures Q (\<lambda>_. True) (map_err (fs_create_file env tmp) (internal_at ''create temp'' tmp))
      (\<lambda>_ w. file_at (fw_tree w) (names_of tmp) = Some [])"
    by (rule ensures_map_err, rule ensures_create_file) (rule Q)
  have filled: "ensures Q (\<lambda>w. file_at (fw_tree w) (names_of tmp) = Some []) (fill tmp) (\<lambda>_. ?full)"
    using assms by (simp add: fills_def)
  have called: "ensures Q ?full (map_err (fs_call env call tmp) f) (\<lambda>_. ?full)" for call f
    by (rule ensures_still) simp
  show ?thesis
    unfolding fill_temp_def
    by (rule ensures_then [OF created], rule ensures_then [OF filled], rule ensures_then [OF called]) (rule called)
qed

lemma ensures_parent: "keeps Q (case path_parent path of Some parent \<Rightarrow> map_err (fs_create_dir_all env parent) f | None \<Rightarrow> st_result (Inr ()))"
  by (auto split: option.splits intro: keeps_map_err)

lemma sync_parent_still:
  "snd ((case path_parent path of Some parent \<Rightarrow> sync_parent env path parent | None \<Rightarrow> st_result (Inr ())) w) = w"
  by (auto simp: sync_parent_def st_result_def map_err_def fs_call_def guarded_def split: option.splits)

lemma ensures_atomic_write:
  assumes root: "rooted svc base" and fill: "fills fill good"
    and names: "names_of path = names" and outside: "\<not> prefix (base @ [STAGING_DIR]) names"
  shows "ensures (writes base names good) (\<lambda>_. True) (atomic_write env svc path fill)
           (\<lambda>_ w. \<exists>bs. good bs \<and> file_at (fw_tree w) names = Some bs)"
proof -
  let ?Q = "writes base names good"
  have temp: "ensures ?Q (\<lambda>_. True) (staged_temp_path env (staging_path svc)) (\<lambda>tmp _. \<exists>name. names_of tmp = base @ [STAGING_DIR, name])"
    using temp_path_names [OF root] by (auto simp: ensures_def staged_temp_path_def observes_def)
  show ?thesis
    unfolding atomic_write_def Let_def
  proof (rule ensures_then [OF ensures_keeps [OF ensures_parent]],
         rule ensures_then [OF ensures_keeps [OF keeps_map_err [OF create_dir_all_keeps]]],
         rule ensures_then [OF temp])
    fix tmp
    show "ensures ?Q (\<lambda>_. \<exists>name. names_of tmp = base @ [STAGING_DIR, name])
      (st_then (or_remove env tmp (fill_temp env tmp fill)) (\<lambda>_.
       st_then (or_remove env tmp (map_err (fs_rename env tmp path) (rename_error svc tmp path))) (\<lambda>_.
       case path_parent path of Some parent \<Rightarrow> sync_parent env path parent | None \<Rightarrow> st_result (Inr ()))))
      (\<lambda>_ w. \<exists>bs. good bs \<and> file_at (fw_tree w) names = Some bs)"
    proof (cases "\<exists>name. names_of tmp = base @ [STAGING_DIR, name]")
      case True
      have staged: "?Q (names_of tmp) data" for data
        using True by (auto simp: writes_def prefix_def)
      have differ: "names_of tmp \<noteq> names_of path"
        using True outside names by (auto simp: prefix_def)
      have renamed: "?Q (names_of path) (Some bs)" if "good bs" for bs
        using that names by (auto simp: writes_def)
      have filled: "ensures ?Q pre (fill_temp env tmp fill) (\<lambda>_ w. \<exists>bs. good bs \<and> file_at (fw_tree w) (names_of tmp) = Some bs)" for pre
        using ensures_fill_temp [where Q = ?Q and tmp = tmp, OF fill staged] by (auto simp: ensures_def)
      have moved: "ensures ?Q (\<lambda>w. \<exists>bs. good bs \<and> file_at (fw_tree w) (names_of tmp) = Some bs)
          (map_err (fs_rename env tmp path) (rename_error svc tmp path)) (\<lambda>_ w. \<exists>bs. good bs \<and> file_at (fw_tree w) names = Some bs)"
        using ensures_map_err [OF ensures_rename [where Q = ?Q and good = good, OF differ staged renamed]] names by simp
      show ?thesis
        by (rule ensures_then, rule ensures_or_remove, rule filled, rule staged,
            rule ensures_then, rule ensures_or_remove, rule moved, rule staged,
            rule ensures_still, rule sync_parent_still)
    qed (simp add: ensures_def)
  qed
qed

section \<open>What is written\<close>

lemma append_file:
  assumes "fs_append env tmp i data w = (r, w')" and "file_at (fw_tree w) (names_of tmp) = Some old"
  shows "\<exists>written. file_at (fw_tree w') (names_of tmp) = Some (old @ written) \<and> (r = Inr () \<longrightarrow> written = data)"
proof -
  obtain m where "fs_lookup (fw_tree w) (names_of tmp) = Some (F_file old m)" "names_of tmp \<noteq> []"
    using assms(2) by (auto simp: file_at_def fs_lookup_def split: option.splits fs_node.splits if_splits)
  then show ?thesis
    using assms(1)
    by (auto simp: fs_append_def Let_def set_tree_def file_at_update split: option.splits)
qed

lemma put_fills: "fills (\<lambda>tmp. map_err (fs_append env tmp 0 data) f) (\<lambda>bs. bs = data)"
  unfolding fills_def
proof (intro allI impI ensures_map_err, rule ensuresI)
  fix Q :: "string list \<Rightarrow> bytes option \<Rightarrow> bool" and tmp w r w'
  assume Q: "\<forall>data. Q (names_of tmp) data" and empty: "file_at (fw_tree w) (names_of tmp) = Some []"
    and run: "fs_append env tmp 0 data w = (r, w')"
  have "observes Q w w'"
    by (rule keepsD [OF append_keeps run]) (simp add: Q)
  then show "observes Q w w' \<and> (\<forall>x. r = Inr x \<longrightarrow> (\<exists>bs. bs = data \<and> file_at (fw_tree w') (names_of tmp) = Some bs))"
    using append_file [OF run empty] by auto
qed

lemma write_chunks_ensures:
  assumes "\<And>data. Q (names_of tmp) data"
  shows "ensures Q (\<lambda>w. file_at (fw_tree w) (names_of tmp) = Some old) (write_chunks env path tmp i items)
           (\<lambda>_ w. \<exists>bs. collect_to_bytes items = Inr bs \<and> file_at (fw_tree w) (names_of tmp) = Some (old @ bs))"
proof (induction items arbitrary: i old)
  case Nil
  then show ?case by (auto simp: ensures_def)
next
  case (Cons item items)
  show ?case
  proof (cases item)
    case (Inr chunk)
    have appended: "ensures Q (\<lambda>w. file_at (fw_tree w) (names_of tmp) = Some old) (fs_append env tmp i chunk)
        (\<lambda>_ w. file_at (fw_tree w) (names_of tmp) = Some (old @ chunk))"
    proof (rule ensuresI)
      fix w r w'
      assume content: "file_at (fw_tree w) (names_of tmp) = Some old" and run: "fs_append env tmp i chunk w = (r, w')"
      have "observes Q w w'"
        by (rule keepsD [OF append_keeps run]) (rule assms)
      then show "observes Q w w' \<and> (\<forall>x. r = Inr x \<longrightarrow> file_at (fw_tree w') (names_of tmp) = Some (old @ chunk))"
        using append_file [OF run content] by auto
    qed
    have "ensures Q (\<lambda>w. file_at (fw_tree w) (names_of tmp) = Some old)
        (st_then (map_err (fs_append env tmp i chunk) (internal_at ''write'' path)) (\<lambda>_. write_chunks env path tmp (Suc i) items))
        (\<lambda>_ w. \<exists>bs. collect_to_bytes items = Inr bs \<and> file_at (fw_tree w) (names_of tmp) = Some ((old @ chunk) @ bs))"
      by (rule ensures_then [OF ensures_map_err [OF appended]]) (rule Cons.IH)
    then show ?thesis
      unfolding Inr by (fastforce simp: ensures_def)
  qed (auto simp: ensures_def)
qed

lemma upload_fills: "fills (\<lambda>tmp. write_chunks env path tmp 0 items) (\<lambda>bs. collect_to_bytes items = Inr bs)"
  unfolding fills_def
proof (intro allI impI)
  fix Q :: "string list \<Rightarrow> bytes option \<Rightarrow> bool" and tmp
  assume "\<forall>data. Q (names_of tmp) data"
  then show "ensures Q (\<lambda>w. file_at (fw_tree w) (names_of tmp) = Some []) (write_chunks env path tmp 0 items)
      (\<lambda>_ w. \<exists>bs. collect_to_bytes items = Inr bs \<and> file_at (fw_tree w) (names_of tmp) = Some bs)"
    using write_chunks_ensures [of Q tmp "[]" env path 0 items] by simp
qed

section \<open>Validated paths\<close>

lemma fs_canonicalize_root:
  assumes "rooted svc base" and "fs_canonicalize env (ls_root svc) w = (Inr p, w')"
  shows "p = canonical base"
  using assms
  by (auto simp: rooted_def fs_canonicalize_def guarded_def and_then_eq_Inr split: option.splits)

lemma eq_ignore_ascii_case_refl [simp]: "eq_ignore_ascii_case s s"
  by (simp add: eq_ignore_ascii_case_def)

lemma validate_path_cases:
  assumes root: "rooted svc base" and run: "validate_path env svc path w = (Inr p, w')"
  shows "\<exists>rest. p = canonical (base @ rest) \<and> list_all proper rest \<and> \<not> prefix (base @ [STAGING_DIR]) (base @ rest)
      \<and> normalize_lexical (if is_absolute path then path else path_push (canonical base) path) = Some p"
proof -
  have canon: "fs_canonicalize env (ls_root svc) w1 = (Inr c, w2) \<Longrightarrow> c = canonical base" for c w1 w2
    by (rule fs_canonicalize_root [OF root])
  have base: "list_all proper base" using root by (simp add: rooted_def)
  define absolute where "absolute = (if is_absolute path then path else path_push (canonical base) path)"
  have norm: "normalize_lexical absolute = Some p" and starts: "path_starts_with p (canonical base)"
    and staged: "case path_below (canonical base) p of [] \<Rightarrow> True
      | first # _ \<Rightarrow> \<not> is_staging env (path_push (canonical base) (as_os_str first)) (path_push (canonical base) STAGING_DIR)"
    using run
    by (auto simp: validate_path_def st_then_def map_err_def st_result_def Let_def absolute_def dest!: canon
          split: prod.splits sum.splits option.splits if_splits list.splits)
  have "is_absolute absolute"
    by (simp add: absolute_def canonical_def is_absolute_push)
  then obtain ns where ns: "list_all proper ns" "p = canonical ns"
    using normalize_lexical_canonical norm by blast
  then obtain rest where rest: "ns = base @ rest"
    using starts base path_starts_with_canonical by (auto simp: prefix_def)
  have "\<not> prefix (base @ [STAGING_DIR]) (base @ rest)"
  proof (cases rest)
    case (Cons n more_names)
    then have "is_staging env (path_push (canonical base) n) (path_push (canonical base) STAGING_DIR) = False"
      using staged ns base rest path_below_canonical [of base rest] by simp
    moreover have "file_name (path_push (canonical base) n) = Some n"
      using ns base rest Cons by (simp add: push_canonical file_name_canonical)
    ultimately show ?thesis
      using Cons by (auto simp: is_staging_def)
  qed simp
  then show ?thesis
    using ns rest norm by (auto simp: absolute_def)
qed

lemma validate_path_still: "snd (validate_path env svc path w) = w"
  by (auto simp: validate_path_def st_then_def map_err_def st_result_def fs_canonicalize_def guarded_def Let_def
        split: prod.splits sum.splits option.splits)

lemma safe_path_components:
  assumes "is_traversal_safe_path path"
  shows "body_components path = map Normal (split_on slash path)" and "list_all proper (split_on slash path)"
    and "\<not> is_absolute path"
proof -
  have seg: "s \<noteq> [] \<and> s \<noteq> ''.'' \<and> s \<noteq> ''..''" if "s \<in> set (split_on slash path)" for s
    using assms that by (auto simp: is_traversal_safe_path_def list_ex_iff)
  show "list_all proper (split_on slash path)"
    using seg split_on_no_delim by (fastforce simp: list_all_iff proper_def)
  have "concat (map segment ss) = map Normal ss" if "\<forall>s \<in> set ss. s \<noteq> [] \<and> s \<noteq> ''.'' \<and> s \<noteq> ''..''" for ss
    using that by (induction ss) (simp_all add: segment_def)
  then show "body_components path = map Normal (split_on slash path)"
    using seg unfolding body_components_def by blast
  show "\<not> is_absolute path"
    using seg [of "[]"] by (cases path) (auto simp: is_absolute_def)
qed

lemma push_safe:
  assumes "list_all proper base" and "is_traversal_safe_path path" and "components buf = RootDir # map Normal base" and "is_absolute buf"
  shows "components (path_push buf path) = RootDir # map Normal (base @ split_on slash path)" and "is_absolute (path_push buf path)"
  using assms by (simp_all add: components_push safe_path_components is_absolute_push)

lemma validate_pushed:
  assumes root: "rooted svc base" and run: "validate_path env svc path w = (Inr p, w')"
    and path: "is_absolute path" "components path = RootDir # map Normal ns" and ns: "list_all proper ns"
  shows "names_of p = ns \<and> p = canonical ns \<and> \<not> prefix (base @ [STAGING_DIR]) ns"
proof -
  obtain rest where rest: "p = canonical (base @ rest)" "list_all proper rest" "\<not> prefix (base @ [STAGING_DIR]) (base @ rest)"
      "normalize_lexical path = Some p"
    using validate_path_cases [OF root run] path by auto
  have "p = canonical ns"
    using rest(4) normalize_lexical_names [OF path ns] by simp
  moreover have "names_of p = base @ rest"
    using rest root by (simp add: rooted_def)
  ultimately show ?thesis
    using ns rest(3) by simp
qed

lemma folder_names:
  assumes root: "rooted svc base" and safe: "is_traversal_safe_path folder"
    and run: "validate_path env svc (folder_path svc folder) w = (Inr p, w')"
  shows "names_of p = base @ split_on slash folder \<and> \<not> prefix (base @ [STAGING_DIR]) (names_of p)"
proof -
  have base: "list_all proper base" and canon: "ls_root svc = canonical base"
    using root by (simp_all add: rooted_def)
  have "is_absolute (canonical base)"
    by (simp add: canonical_def)
  then show ?thesis
    using validate_pushed [OF root run, of "base @ split_on slash folder"]
      push_safe [OF base safe components_canonical [OF base]] safe_path_components [OF safe] base canon
    by (simp add: folder_path_def)
qed

lemma object_names:
  assumes root: "rooted svc base" and safe: "is_traversal_safe_path (folder @ ''/'' @ key)"
    and run: "validate_path env svc (object_path_of svc folder key) w = (Inr p, w')"
  shows "names_of p = base @ split_on slash (folder @ ''/'' @ key) \<and> \<not> prefix (base @ [STAGING_DIR]) (names_of p)"
proof -
  have folder: "is_traversal_safe_path folder" and key: "is_traversal_safe_path key"
    using safe by (simp_all add: traversal_safe_append)
  have base: "list_all proper base" and canon: "ls_root svc = canonical base"
    using root by (simp_all add: rooted_def)
  have abs: "is_absolute (canonical base)"
    by (simp add: canonical_def)
  have inner: "list_all proper (base @ split_on slash folder)"
    using base safe_path_components [OF folder] by simp
  show ?thesis
    using validate_pushed [OF root run, of "(base @ split_on slash folder) @ split_on slash key"]
      push_safe [OF inner key push_safe [OF base folder components_canonical [OF base] abs]]
      safe_path_components [OF key] inner canon
    by (simp add: object_path_of_def split_on_append_any)
qed

section \<open>The operations\<close>

lemma keeps_ensures: "ensures Q (\<lambda>_. True) m post \<Longrightarrow> keeps Q m"
  unfolding keeps_def using ensuresD by (metis surjective_pairing)

lemma keeps_validate [simp, intro]: "keeps Q (validate_path env svc path)"
  by (simp add: keeps_pure validate_path_still)

lemma validate_object_ensures:
  assumes root: "rooted svc base" and safe: "is_traversal_safe_path (folder @ ''/'' @ key)"
  shows "ensures Q (\<lambda>_. True) (validate_path env svc (object_path_of svc folder key))
      (\<lambda>p _. names_of p = base @ split_on slash (folder @ ''/'' @ key)
             \<and> \<not> prefix (base @ [STAGING_DIR]) (base @ split_on slash (folder @ ''/'' @ key)))"
proof (rule ensuresI)
  fix w r w'
  assume run: "validate_path env svc (object_path_of svc folder key) w = (r, w')"
  then have "w' = w" by (metis snd_conv validate_path_still)
  then show "observes Q w w' \<and> (\<forall>p. r = Inr p \<longrightarrow> names_of p = base @ split_on slash (folder @ ''/'' @ key)
      \<and> \<not> prefix (base @ [STAGING_DIR]) (base @ split_on slash (folder @ ''/'' @ key)))"
    using object_names [OF root safe] run by (metis observes_refl)
qed

lemma put_ensures:
  assumes root: "rooted svc base" and safe: "is_traversal_safe_path (folder @ ''/'' @ key)"
  shows "ensures (writes base (base @ split_on slash (folder @ ''/'' @ key)) (\<lambda>bs. bs = data)) (\<lambda>_. True)
           (local_put env svc folder key data ct)
           (\<lambda>_ w. file_at (fw_tree w) (base @ split_on slash (folder @ ''/'' @ key)) = Some data)"
proof -
  let ?names = "base @ split_on slash (folder @ ''/'' @ key)"
  show ?thesis
    unfolding local_put_def
  proof (rule ensures_then [OF validate_object_ensures [OF root safe]])
    fix p
    show "ensures (writes base ?names (\<lambda>bs. bs = data)) (\<lambda>_. names_of p = ?names \<and> \<not> prefix (base @ [STAGING_DIR]) ?names)
        (atomic_write env svc p (\<lambda>tmp. map_err (fs_append env tmp 0 data) (internal_at ''write'' p)))
        (\<lambda>_ w. file_at (fw_tree w) ?names = Some data)"
      using ensures_atomic_write [OF root put_fills, of p ?names] by (auto simp: ensures_def)
  qed
qed

lemma upload_ensures:
  assumes root: "rooted svc base" and safe: "is_traversal_safe_path (folder @ ''/'' @ key)"
  shows "ensures (writes base (base @ split_on slash (folder @ ''/'' @ key)) (\<lambda>bs. collect_to_bytes items = Inr bs)) (\<lambda>_. True)
           (local_put_streaming env svc folder key items ct)
           (\<lambda>_ w. \<exists>bs. collect_to_bytes items = Inr bs \<and> file_at (fw_tree w) (base @ split_on slash (folder @ ''/'' @ key)) = Some bs)"
proof -
  let ?names = "base @ split_on slash (folder @ ''/'' @ key)"
  let ?good = "\<lambda>bs. collect_to_bytes items = Inr bs"
  show ?thesis
    unfolding local_put_streaming_def
  proof (rule ensures_then [OF validate_object_ensures [OF root safe]])
    fix p
    show "ensures (writes base ?names ?good) (\<lambda>_. names_of p = ?names \<and> \<not> prefix (base @ [STAGING_DIR]) ?names)
        (atomic_write env svc p (\<lambda>tmp. write_chunks env p tmp 0 items))
        (\<lambda>_ w. \<exists>bs. ?good bs \<and> file_at (fw_tree w) ?names = Some bs)"
      using ensures_atomic_write [OF root upload_fills, of p ?names] by (auto simp: ensures_def)
  qed
qed

text \<open>Where a call may change files.\<close>

definition below :: "string list \<Rightarrow> storage_call \<Rightarrow> string list \<Rightarrow> bytes option \<Rightarrow> bool" where
  "below base call names data \<longleftrightarrow>
     prefix (base @ [STAGING_DIR]) names
     \<or> (call_access call = Write \<and> prefix (base @ split_on slash (call_resource call)) names)"

lemma reads_keep:
  "keeps Q (local_get env svc folder key)" "keeps Q (local_get_streaming env svc folder key)"
  unfolding local_get_def local_get_streaming_def
  by (intro keeps_st_then keeps_map_err keeps_validate keeps_fs_stat keeps_fs_open keeps_fs_read keeps_fs_call keeps_st_result)+

lemma lists_keep: "keeps Q (local_list env svc folder opts)" "keeps Q (local_list_folders env svc)"
  unfolding local_list_def local_list_folders_def
  by (rule keeps_st_then, simp, rule keeps_pure, simp) (auto intro: keeps_pure split: option.splits)

lemma delete_keeps:
  assumes root: "rooted svc base" and safe: "is_traversal_safe_path (folder @ ''/'' @ key)"
  shows "keeps (below base (S_delete folder key)) (local_delete env svc folder key)"
  unfolding local_delete_def
proof (rule keeps_st_then, simp)
  fix p w w'
  assume "validate_path env svc (object_path_of svc folder key) w = (Inr p, w')"
  then have "names_of p = base @ split_on slash (folder @ ''/'' @ key)"
    using object_names [OF root safe] by blast
  then have "below base (S_delete folder key) (names_of p) data" for data
    by (simp add: below_def)
  then show "keeps (below base (S_delete folder key))
      (st_then (map_err (fs_stat env p) (metadata_or_not_found p)) (\<lambda>_. map_err (fs_remove_file env p) (internal_at ''delete'' p)))"
    by (intro keeps_st_then keeps_map_err keeps_fs_stat remove_file_keeps)
qed

lemma delete_folder_keeps:
  assumes root: "rooted svc base" and safe: "is_traversal_safe_path name"
  shows "keeps (below base (S_delete_folder name)) (local_delete_folder env svc name)"
  unfolding local_delete_folder_def
proof (rule keeps_st_then, simp)
  fix p w w'
  assume "validate_path env svc (folder_path svc name) w = (Inr p, w')"
  then have "names_of p = base @ split_on slash name"
    using folder_names [OF root safe] by blast
  then have "prefix (names_of p) ns \<Longrightarrow> below base (S_delete_folder name) ns data" for ns data
    by (simp add: below_def)
  then show "keeps (below base (S_delete_folder name))
      (st_then (map_err (fs_stat env p) (metadata_or_not_found p)) (\<lambda>_. map_err (fs_remove_dir_all env p) (internal_at ''delete folder'' p)))"
    by (intro keeps_st_then keeps_map_err keeps_fs_stat remove_dir_all_keeps)
qed

lemma create_folder_keeps: "keeps Q (local_create_folder env svc name public)"
  unfolding local_create_folder_def by (intro keeps_st_then keeps_map_err keeps_validate create_dir_all_keeps)

lemma writes_below: "writes base (base @ split_on slash (call_resource call)) good ns data \<Longrightarrow> call_access call = Write \<Longrightarrow> below base call ns data"
  by (auto simp: writes_def below_def)

lemma local_performs:
  assumes root: "rooted svc base" and safe: "is_traversal_safe_path (call_resource call)"
  shows "observes (below base call) w (perform (local_service env svc) call w)"
proof (cases call)
  case (S_put folder key data ct)
  have "keeps (below base call) (local_put env svc folder key data ct)"
    by (rule keeps_mono [OF keeps_ensures [OF put_ensures [OF root]]], use safe S_put in simp, rule writes_below, simp_all add: S_put)
  then show ?thesis by (simp add: S_put local_service_def keeps_def)
next
  case (S_put_streaming folder key items ct)
  have "keeps (below base call) (local_put_streaming env svc folder key items ct)"
    by (rule keeps_mono [OF keeps_ensures [OF upload_ensures [OF root]]], use safe S_put_streaming in simp, rule writes_below, simp_all add: S_put_streaming)
  then show ?thesis by (simp add: S_put_streaming local_service_def keeps_def)
next
  case (S_delete folder key)
  then show ?thesis
    using delete_keeps [OF root] safe by (simp add: local_service_def keeps_def)
next
  case (S_delete_folder name)
  then show ?thesis
    using delete_folder_keeps [OF root] safe by (simp add: local_service_def keeps_def)
qed (use reads_keep lists_keep create_folder_keeps in \<open>simp_all add: local_service_def keeps_def\<close>)

definition local_effect :: "local_storage \<Rightarrow> storage_call \<Rightarrow> fs_world \<Rightarrow> fs_world \<Rightarrow> bool" where
  "local_effect svc call w w' \<longleftrightarrow> (\<forall>base. rooted svc base \<longrightarrow> observes (below base call) w w')"

interpretation local_backend: storage_backend "local_service env svc" "local_effect svc" for env svc
  by unfold_locales (simp add: local_effect_def local_performs)

section \<open>Requests\<close>

lemma names_of_proper: "list_all proper (names_of p)"
  using body_components_names [of _ p]
  by (fastforce simp: names_of_def components_def list_all_iff split: if_splits component.splits)

lemma local_new_rooted: "local_new env dir w = (Inr svc, w') \<Longrightarrow> rooted svc (names_of (ls_root svc))"
  using names_of_proper
  by (auto simp: local_new_def st_then_def map_err_def st_result_def fs_canonicalize_def guarded_def and_then_eq_Inr
        rooted_def Let_def split: prod.splits sum.splits option.splits if_splits)

lemma storage_owner_segments:
  "storage_resource_owner path = Some owner \<Longrightarrow> prefix (split_on slash owner) (split_on slash path)"
proof -
  assume "storage_resource_owner path = Some owner"
  then obtain org block rest where sp: "split_on slash path = org # block # rest" and owner: "owner = org @ ''/'' @ block"
    by (auto simp: storage_resource_owner_def split: list.splits if_splits)
  have "slash \<notin> set org" "slash \<notin> set block"
    using split_on_no_delim [of _ slash path] sp by simp_all
  then show ?thesis
    using sp owner by (simp add: split_on_append split_on_single)
qed

definition may_write :: "'w storage_env \<Rightarrow> string list \<Rightarrow> bool" where
  "may_write env names \<longleftrightarrow>
     (\<exists>caller. cx_caller_id (se_ctx env) = Some caller
        \<and> (prefix (split_on slash caller) names
           \<or> caller = ws_admin_block (rc_wrap (cv_registration (se_call env)))
           \<or> (\<exists>resource. prefix (split_on slash resource) names
                \<and> (\<exists>grant \<in> set (ws_grants (rc_wrap (cv_registration (se_call env)))).
                     grant_allows (cv_wrap (se_call env)) grant caller resource Write (Some Storage)))))"

lemma storage_access_may_write:
  assumes "storage_access env resource Write = Inr ()" and "prefix (split_on slash resource) names"
  shows "may_write env names"
proof -
  let ?rc = "rc_wrap (cv_registration (se_call env))"
  have check: "check_access (cv_wrap (se_call env)) (cx_caller_id (se_ctx env)) resource Write (Some Storage)
      (ws_grants ?rc) (ws_admin_block ?rc) = Inr ()"
    using assms(1) unfolding storage_access_def authorize_resource_Inr by blast
  then obtain caller where caller: "cx_caller_id (se_ctx env) = Some caller"
    using access_names_a_caller by blast
  then consider "storage_resource_owner resource = Some caller" | "caller = ws_admin_block ?rc"
    | "\<exists>grant \<in> set (ws_grants ?rc). grant_allows (cv_wrap (se_call env)) grant caller resource Write (Some Storage)"
    using check by (auto simp: check_access_Inr check_plain_Inr some_grant_def split: if_splits)
  then show ?thesis
  proof cases
    case 1
    then have "prefix (split_on slash caller) names"
      using assms(2) storage_owner_segments prefix_order.trans by blast
    then show ?thesis using caller by (simp add: may_write_def)
  next
    case 2
    then show ?thesis using caller by (simp add: may_write_def)
  next
    case 3
    then show ?thesis using caller assms(2) by (auto simp: may_write_def)
  qed
qed

lemma answers_confined:
  assumes root: "rooted svc base" and answered: "local_backend.answers svc env s res"
  shows "observes (\<lambda>names _. prefix (base @ [STAGING_DIR]) names \<or> (\<exists>rest. names = base @ rest \<and> may_write env rest))
           (ss_world s) (ss_world (snd res))"
  using answered unfolding local_backend.answers_def
proof (elim disjE exE conjE)
  fix call
  assume admissible: "admissible env call" and effect: "local_effect svc call (ss_world s) (ss_world (snd res))"
  have below: "below base call names data \<Longrightarrow> prefix (base @ [STAGING_DIR]) names \<or> (\<exists>rest. names = base @ rest \<and> may_write env rest)"
    for names data
    using admissible storage_access_may_write [of env "call_resource call"]
    by (auto simp: below_def admissible_def prefix_def)
  show ?thesis
    by (rule observes_mono [where Q = "below base call"]) (use effect root in \<open>simp add: local_effect_def\<close>, rule below)
qed simp

text \<open>C31: Storage requests are confined, down to the filesystem.  Whatever a block sends to the storage service,
  buffered or streaming, and whichever filesystem calls fail, no other process ever sees a file changed but in
  the staging directory, below the folder of the calling block, or below a path a grant lets it write
  (the admin block apart).\<close>

theorem storage_requests_are_confined:
  assumes "local_new fenv' dir w = (Inr svc, w')" and "se_service env = local_service fenv svc"
    and "res = handle_storage_message env msg body s \<or> res = handle_put_streaming env input s"
  shows "\<exists>seen. fw_history (ss_world (snd res)) = fw_history (ss_world s) @ seen
     \<and> fw_tree (ss_world (snd res)) = last (fw_tree (ss_world s) # seen)
     \<and> (\<forall>t \<in> set seen. \<forall>names. file_at t names \<noteq> file_at (fw_tree (ss_world s)) names \<longrightarrow>
          prefix (names_of (ls_root svc) @ [STAGING_DIR]) names
          \<or> (\<exists>rest. names = names_of (ls_root svc) @ rest \<and> may_write env rest))"
proof -
  have "local_backend.answers svc env s res"
    using assms(2,3) local_backend.message_answers local_backend.upload_answers by blast
  then show ?thesis
    using answers_confined [OF local_new_rooted [OF assms(1)]] unfolding observes_def by blast
qed

text \<open>A storage root with no failing call, and one object in it.\<close>

definition sample_fs :: fs_env where
  "sample_fs =
     \<lparr>fx_fail = \<lambda>_ _. None, fx_write = \<lambda>_. None, fx_read = \<lambda>_. Inr 4, fx_join = None, fx_now = 7, fx_pid = 1,
      fx_dir_len = 4096, fx_same_file = \<lambda>_ _. None, fx_base64 = \<lambda>s. CHR ''c'' # s, fx_unbase64 = \<lambda>s. Inr (tl s), fx_utf8 = \<lambda>_. None\<rparr>"

definition sample_local :: local_storage where
  "sample_local = \<lparr>ls_root = ''/d''\<rparr>"

definition sample_fresh :: fs_world where
  "sample_fresh = \<lparr>fw_tree = [], fw_history = [], fw_seq = 0\<rparr>"

definition sample_world :: fs_world where
  "sample_world = snd (local_new sample_fs ''/d'' sample_fresh)"

lemma sample_new: "local_new sample_fs ''/d'' sample_fresh = (Inr sample_local, sample_world)"
proof -
  have "fst (local_new sample_fs ''/d'' sample_fresh) = Inr sample_local" by code_simp
  then show ?thesis by (metis prod.collapse sample_world_def)
qed

definition sample_storage_env :: "fs_world storage_env" where
  "sample_storage_env =
     \<lparr>se_call = sample_call_env, se_ctx = sample_callee, se_encode = \<lambda>_. Inr [],
      se_decode_put = \<lambda>_. Inr \<lparr>pr_folder = ''docs'', pr_key = ''k'', pr_data = ''hi'', pr_content_type = []\<rparr>,
      se_decode_put_streaming = \<lambda>_. Inl [], se_decode_get = \<lambda>_. Inl [], se_decode_delete = \<lambda>_. Inl [],
      se_decode_list = \<lambda>_. Inl [], se_decode_create_folder = \<lambda>_. Inl [], se_decode_delete_folder = \<lambda>_. Inl [],
      se_service = local_service sample_fs sample_local\<rparr>"

definition sample_store :: "output_stream \<times> fs_world storage_state" where
  "sample_store =
     handle_storage_message sample_storage_env \<lparr>msg_kind = ''storage.put'', msg_meta = []\<rparr> []
       \<lparr>ss_world = sample_world, ss_calls = []\<rparr>"

text \<open>A block storing an object in its folder.\<close>

theorem storage_requests_are_confined_witness:
  "file_at (fw_tree (ss_world (snd sample_store))) [''d'', ''my-org'', ''auth'', ''docs'', ''k''] = Some ''hi''
   \<and> (\<exists>seen. fw_history (ss_world (snd sample_store)) = fw_history sample_world @ seen
       \<and> (\<forall>t \<in> set seen. \<forall>names. file_at t names \<noteq> file_at (fw_tree sample_world) names \<longrightarrow>
            prefix (names_of ''/d'' @ [STAGING_DIR]) names
            \<or> (\<exists>rest. names = names_of ''/d'' @ rest \<and> may_write sample_storage_env rest)))"
proof -
  have "file_at (fw_tree (ss_world (snd sample_store))) [''d'', ''my-org'', ''auth'', ''docs'', ''k''] = Some ''hi''"
    by code_simp
  moreover have "se_service sample_storage_env = local_service sample_fs sample_local"
    by (simp add: sample_storage_env_def)
  from storage_requests_are_confined [OF sample_new this disjI1 [OF sample_store_def]]
  have "\<exists>seen. fw_history (ss_world (snd sample_store)) = fw_history sample_world @ seen
       \<and> (\<forall>t \<in> set seen. \<forall>names. file_at t names \<noteq> file_at (fw_tree sample_world) names \<longrightarrow>
            prefix (names_of ''/d'' @ [STAGING_DIR]) names
            \<or> (\<exists>rest. names = names_of ''/d'' @ rest \<and> may_write sample_storage_env rest))"
    by (auto simp: sample_local_def)
  ultimately show ?thesis by blast
qed

text \<open>C32: Uploads are atomic.  Whichever filesystem calls fail, and wherever the body breaks off, every visible
  state has at the key the previous object or the complete new one, nothing else changes outside the staging
  directory, and a success means the complete object is in place.\<close>

theorem uploads_are_atomic:
  assumes "local_new fenv' dir w0 = (Inr svc, w0')" and "is_traversal_safe_path (folder @ ''/'' @ key)"
    and "local_put_streaming env svc folder key items ct w = (r, w')"
  shows "\<exists>seen. fw_history w' = fw_history w @ seen \<and> fw_tree w' = last (fw_tree w # seen)
     \<and> (\<forall>t \<in> set seen. \<forall>names. \<not> prefix (names_of (ls_root svc) @ [STAGING_DIR]) names \<longrightarrow>
          file_at t names = file_at (fw_tree w) names
          \<or> names = names_of (ls_root svc) @ split_on slash (folder @ ''/'' @ key)
            \<and> (\<exists>bs. collect_to_bytes items = Inr bs \<and> file_at t names = Some bs))
     \<and> (r = Inr () \<longrightarrow>
          (\<exists>bs. collect_to_bytes items = Inr bs
             \<and> file_at (fw_tree w') (names_of (ls_root svc) @ split_on slash (folder @ ''/'' @ key)) = Some bs))"
  using ensuresD [OF upload_ensures [OF local_new_rooted [OF assms(1)] assms(2)] TrueI assms(3)]
  unfolding observes_def writes_def by blast

text \<open>An upload whose second chunk never arrives.\<close>

theorem uploads_are_atomic_witness:
  "let broken = wafer_error_new DeadlineExceeded (Text ''late'' []);
       (r, w') = local_put_streaming sample_fs sample_local ''my-org/auth'' ''k'' [Inr ''h'', Inl broken] [] sample_world in
   r = Inl (SE_body broken) \<and> length (fw_history w') > length (fw_history sample_world)
   \<and> file_at (fw_tree w') [''d'', ''my-org'', ''auth'', ''k''] = file_at (fw_tree sample_world) [''d'', ''my-org'', ''auth'', ''k'']"
proof -
  define broken where "broken = wafer_error_new DeadlineExceeded (Text ''late'' [])"
  define items :: "(wafer_error + bytes) list" where "items = [Inr ''h'', Inl broken]"
  obtain r w' where run: "local_put_streaming sample_fs sample_local ''my-org/auth'' ''k'' items [] sample_world = (r, w')"
    by fastforce
  have safe: "is_traversal_safe_path (''my-org/auth'' @ ''/'' @ ''k'')" by code_simp
  have "fst (local_put_streaming sample_fs sample_local ''my-org/auth'' ''k'' items [] sample_world) = Inl (SE_body broken)"
    "length (fw_history (snd (local_put_streaming sample_fs sample_local ''my-org/auth'' ''k'' items [] sample_world)))
       > length (fw_history sample_world)"
    unfolding items_def broken_def by code_simp+
  then have result: "r = Inl (SE_body broken)" "length (fw_history w') > length (fw_history sample_world)"
    using run by simp_all
  have outside: "\<not> prefix (names_of (ls_root sample_local) @ [STAGING_DIR]) [''d'', ''my-org'', ''auth'', ''k'']" by code_simp
  have partial: "collect_to_bytes items = Inl broken"
    by (simp add: items_def)
  obtain seen where "fw_tree w' = last (fw_tree sample_world # seen)"
    "\<forall>t \<in> set seen. file_at t [''d'', ''my-org'', ''auth'', ''k''] = file_at (fw_tree sample_world) [''d'', ''my-org'', ''auth'', ''k'']"
    using uploads_are_atomic [OF sample_new safe run] outside partial by auto
  then have "file_at (fw_tree w') [''d'', ''my-org'', ''auth'', ''k''] = file_at (fw_tree sample_world) [''d'', ''my-org'', ''auth'', ''k'']"
    by (cases seen rule: rev_cases) auto
  then show ?thesis
    using run result unfolding items_def broken_def by (simp add: Let_def)
qed

text \<open>Reading with no failing call.\<close>

definition quiet :: "fs_env \<Rightarrow> bool" where
  "quiet env \<longleftrightarrow> fx_fail env = (\<lambda>_ _. None)"

lemma validate_path_again:
  assumes root: "rooted svc base" and run: "validate_path env svc path w = (Inr p, w)" and "quiet env'" and "fx_same_file env' = fx_same_file env"
    and "find_node (fw_tree w') base = Inr node"
  shows "validate_path env' svc path w' = (Inr p, w')"
proof -
  have canon: "fs_canonicalize env (ls_root svc) w1 = (Inr c, w2) \<Longrightarrow> c = canonical base" for c w1 w2
    by (rule fs_canonicalize_root [OF root])
  have same: "is_staging env' = is_staging env"
    using assms(4) by (simp add: is_staging_def fun_eq_iff)
  have "fs_canonicalize env' (ls_root svc) w' = (Inr (canonical base), w')"
    using assms root by (simp add: fs_canonicalize_def guarded_def quiet_def rooted_def)
  then show ?thesis
    using run unfolding validate_path_def same
    by (auto simp: st_then_def map_err_def st_result_def Let_def dest!: canon
          split: prod.splits sum.splits)
qed

lemma put_validated: "local_put env svc folder key data ct w = (Inr (), w') \<Longrightarrow>
    \<exists>p. validate_path env svc (object_path_of svc folder key) w = (Inr p, w)"
  using validate_path_still [of env svc "object_path_of svc folder key" w]
  by (auto simp: local_put_def st_then_def split: prod.splits sum.splits)



end
