(* ===== verification/Storage_Listing.thy ===== *)
theory Storage_Listing
  imports Storage_Confinement
begin

text \<open>
  Listings of the filesystem backend: a walk along the cursors returns every object of the folder once and in
  order, and the objects listed are the files below the folder, but for directories that bear the name of the
  staging directory.
\<close>

section \<open>Names in a tree\<close>

text \<open>Entries of a directory have distinct names, which are no separators and not \<^verbatim>\<open>.\<close> or \<^verbatim>\<open>..\<close>.\<close>

definition wf_tree :: "fs_tree \<Rightarrow> bool" where
  "wf_tree t \<longleftrightarrow> distinct (map fst t) \<and> (\<forall>(names, _) \<in> set t. list_all proper names)"

lemma key_below_rest:
  assumes "list_all proper base" and "list_all proper rest"
  shows "key_below base (base @ rest) = join_with ''/'' rest"
proof -
  have path: "path_of (map Normal ns) = join_with ''/'' ns" if "list_all proper ns" for ns
    using that
  proof (induction ns rule: rev_induct)
    case (snoc n ns)
    then have n: "proper n" "\<not> is_absolute n" by (simp_all add: not_absolute_proper)
    show ?case
    proof (cases "ns = []")
      case False
      then have "join_with ''/'' ns \<noteq> []" "last (join_with ''/'' ns) \<noteq> slash"
        using snoc.prems last_canonical [of ns] join_with_Nil_iff [of ns] by (auto simp: canonical_def)
      then show ?thesis
        using snoc n False by (simp add: path_of_def path_push_def join_with_append)
    qed (use n in \<open>simp add: path_of_def path_push_def\<close>)
  qed (simp add: path_of_def)
  show ?thesis
    using assms by (simp add: key_below_def Let_def path_starts_with_canonical path_below_canonical path)
qed

lemma key_below_inj:
  assumes "list_all proper base" and "list_all proper r1" and "list_all proper r2"
    and "key_below base (base @ r1) = key_below base (base @ r2)"
  shows "r1 = r2"
proof -
  have "map Normal r1 = map Normal r2"
    using assms by (metis body_components_join key_below_rest)
  then show ?thesis
    by (simp add: inj_map_eq_map inj_def)
qed

section \<open>The objects of a listing\<close>

lemma concat_distinct:
  assumes "list_all2 (\<lambda>ys e. \<exists>ns. map f ys = map g ns \<and> distinct ns \<and> (\<forall>n \<in> set ns. P e n)) yss es"
    and "distinct es" and "\<And>e e' n. e \<in> set es \<Longrightarrow> e' \<in> set es \<Longrightarrow> P e n \<Longrightarrow> P e' n \<Longrightarrow> e = e'"
  shows "\<exists>ns. map f (concat yss) = map g ns \<and> distinct ns \<and> (\<forall>n \<in> set ns. \<exists>e \<in> set es. P e n)"
  using assms
proof (induction rule: list_all2_induct)
  case (Cons ys yss e es)
  obtain n1 where n1: "map f ys = map g n1" "distinct n1" "\<forall>n \<in> set n1. P e n"
    using Cons.hyps(1) by blast
  obtain n2 where n2: "map f (concat yss) = map g n2" "distinct n2" "\<forall>n \<in> set n2. \<exists>e \<in> set es. P e n"
    using Cons.IH Cons.prems(1) Cons.prems(2) [OF list.set_intros(2) list.set_intros(2)] by auto
  have "set n1 \<inter> set n2 = {}"
  proof (intro equals0I, elim IntE)
    fix n
    assume n: "n \<in> set n1" "n \<in> set n2"
    then obtain e' where "e' \<in> set es" "P e' n" using n2(3) by blast
    moreover have "P e n" using n(1) n1(3) by blast
    ultimately have "e = e'" using Cons.prems(2) [of e e' n] by simp
    then show False using \<open>e' \<in> set es\<close> Cons.prems(1) by simp
  qed
  then show ?case
    using n1 n2 by (intro exI [of _ "n1 @ n2"]) auto
qed simp

lemma list_recursive_names:
  assumes "distinct (map fst t)" and "list_recursive env t base staging pref dir = Inr objects"
  shows "\<exists>nss. map oi_key objects = map (key_below base) nss \<and> distinct nss
      \<and> (\<forall>ns \<in> set nss. strict_prefix dir ns \<and> ns \<in> fst ` set t)"
  using assms
proof (induction env t base staging pref dir arbitrary: objects rule: list_recursive.induct)
  case (1 env t base staging pref dir)
  let ?one = "\<lambda>(names, node). and_then (read_entry env names) (\<lambda>_.
          if is_dir node \<and> is_staging env (canonical names) staging then Inr []
          else if is_dir node then list_recursive env t base staging pref names
          else Inr (list_entry env base pref names node))"
  obtain found lists where found: "read_entries env t dir = Inr found" and lists: "traverse ?one found = Inr lists"
    and objects: "objects = concat lists"
    using "1.prems"(2) by (subst (asm) list_recursive.simps) (auto simp: and_then_eq_Inr)
  have entries: "found = entries t dir" by (rule read_entries_Inr [OF found])
  have one: "\<exists>nss. map oi_key ys = map (key_below base) nss \<and> distinct nss
      \<and> (\<forall>ns \<in> set nss. prefix (fst e) ns \<and> ns \<in> fst ` set t)" if mem: "e \<in> set found" and res: "?one e = Inr ys" for e ys
  proof -
    obtain names node where e: "e = (names, node)" by fastforce
    have known: "names \<in> fst ` set t"
      using mem entries entry_below [of names node t dir] e by force
    have checked: "read_entry env names = Inr ()" and body: "(if is_dir node \<and> is_staging env (canonical names) staging then Inr []
        else if is_dir node then list_recursive env t base staging pref names
        else Inr (list_entry env base pref names node)) = Inr ys"
      using res unfolding e prod.case by (simp_all add: and_then_eq_Inr)
    consider "ys = []" | "list_recursive env t base staging pref names = Inr ys" "is_dir node"
        "\<not> is_staging env (canonical names) staging"
      | "ys = list_entry env base pref names node"
      using body by (cases "is_dir node"; cases "is_staging env (canonical names) staging") auto
    then show ?thesis
    proof cases
      case 2
      have "\<exists>nss. map oi_key ys = map (key_below base) nss \<and> distinct nss
          \<and> (\<forall>ns \<in> set nss. strict_prefix names ns \<and> ns \<in> fst ` set t)"
        by (rule "1.IH" [OF found mem e [symmetric] checked]) (use 2 "1.prems"(1) in simp_all)
      then obtain nss where "map oi_key ys = map (key_below base) nss" "distinct nss"
        "\<forall>ns \<in> set nss. strict_prefix names ns \<and> ns \<in> fst ` set t"
        by blast
      then show ?thesis
        unfolding e by (intro exI [of _ nss]) (auto simp: strict_prefix_def)
    next
      case 3
      show ?thesis
      proof (cases "ys = []")
        case False
        then have "map oi_key ys = map (key_below base) [names]"
          using 3 by (auto simp: list_entry_def Let_def object_info_of_def split: if_splits)
        then show ?thesis
          using known e by (intro exI [of _ "[names]"]) simp
      qed simp
    qed simp
  qed
  have "list_all2 (\<lambda>ys e. \<exists>nss. map oi_key ys = map (key_below base) nss \<and> distinct nss
      \<and> (\<forall>ns \<in> set nss. prefix (fst e) ns \<and> ns \<in> fst ` set t)) lists found"
    using traverse_list_all2 [OF lists] by (rule list.rel_mono_strong) (use one in blast)
  moreover have "distinct found"
    unfolding entries entries_def using "1.prems"(1) by (intro distinct_filter) (simp add: distinct_map)
  moreover have "e = e'" if "e \<in> set found" "e' \<in> set found" "prefix (fst e) n" "prefix (fst e') n" for e e' n
  proof -
    have "length (fst e) = length (fst e')"
      using that(1,2) entries entry_deeper by (metis prod.collapse)
    then have "fst e = fst e'"
      using that(3,4) by (metis append_eq_append_conv prefix_def)
    then show ?thesis
      using that(1,2) "1.prems"(1) entries by (auto simp: entries_def distinct_map dest: inj_onD)
  qed
  ultimately obtain nss where nss: "map oi_key objects = map (key_below base) nss" "distinct nss"
      "\<forall>ns \<in> set nss. \<exists>e \<in> set found. prefix (fst e) ns \<and> ns \<in> fst ` set t"
    using concat_distinct [of oi_key "key_below base" "\<lambda>e ns. prefix (fst e) ns \<and> ns \<in> fst ` set t" lists found] objects by blast
  moreover have "strict_prefix dir ns" if "e \<in> set found" "prefix (fst e) ns" for e ns
  proof -
    have "\<exists>x. fst e = dir @ [x]"
      using that(1) entries entry_below [of "fst e" "snd e" t dir] by (metis append_butlast_last_id prod.collapse)
    then show ?thesis
      using that(2) by (auto simp: prefix_def strict_prefix_def)
  qed
  ultimately show ?case by blast
qed

lemma list_recursive_keys:
  assumes wf: "wf_tree t" and base: "list_all proper base" and run: "list_recursive env t base staging pref base = Inr objects"
  shows "distinct (map oi_key objects) \<and> [] \<notin> oi_key ` set objects"
proof -
  obtain nss where nss: "map oi_key objects = map (key_below base) nss" "distinct nss"
      "\<forall>ns \<in> set nss. strict_prefix base ns \<and> ns \<in> fst ` set t"
    using list_recursive_names [OF _ run] wf by (auto simp: wf_tree_def)
  have rest: "\<exists>r. ns = base @ r \<and> r \<noteq> [] \<and> list_all proper r" if "ns \<in> set nss" for ns
    using that nss(3) wf by (fastforce simp: wf_tree_def strict_prefix_def prefix_def)
  have "inj_on (key_below base) (set nss)"
  proof (rule inj_onI)
    fix ns ns'
    assume "ns \<in> set nss" "ns' \<in> set nss" "key_below base ns = key_below base ns'"
    then show "ns = ns'"
      using rest [of ns] rest [of ns'] key_below_inj [OF base] by metis
  qed
  then have "distinct (map oi_key objects)"
    using nss(1,2) by (simp add: distinct_map)
  moreover have "key_below base ns \<noteq> []" if "ns \<in> set nss" for ns
    using rest [OF that] key_below_rest [OF base] join_with_Nil_iff by auto
  then have "[] \<notin> set (map oi_key objects)"
    using nss(1) by (metis imageE set_map)
  ultimately show ?thesis by simp
qed

section \<open>Walking along the cursors\<close>

text \<open>The walk the service documents: begin with the empty cursor, go on with the cursor of each page until a
  page has none.  The fuel is the number of pages asked for.\<close>

fun cursor_walk :: "nat \<Rightarrow> (string \<Rightarrow> storage_error + object_list) \<Rightarrow> string \<Rightarrow> (storage_error + object_info list) option" where
  "cursor_walk 0 page cursor = None"
| "cursor_walk (Suc n) page cursor =
     (case page cursor of
        Inl e \<Rightarrow> Some (Inl e)
      | Inr answer \<Rightarrow>
          (case ol_next_cursor answer of
             None \<Rightarrow> Some (Inr (ol_objects answer))
           | Some cursor' \<Rightarrow>
               map_option (\<lambda>r. and_then r (\<lambda>rest. Inr (ol_objects answer @ rest))) (cursor_walk n page cursor')))"

definition cursor_codec :: "fs_env \<Rightarrow> bool" where
  "cursor_codec env \<longleftrightarrow> (\<forall>key. fx_unbase64 env (fx_base64 env key) = Inr key \<and> fx_utf8 env key = None \<and> (key \<noteq> [] \<longrightarrow> fx_base64 env key \<noteq> []))"

text \<open>The position a cursor stands for.\<close>

definition cursor_at :: "fs_env \<Rightarrow> object_info list \<Rightarrow> nat \<Rightarrow> string" where
  "cursor_at env objects i = (if i = 0 then [] else encode_cursor env (oi_key (objects ! (i - 1))))"

lemma takeWhile_sorted:
  assumes "sorted_wrt (<) (xs :: 'a :: linorder list)" and "i < length xs"
  shows "length (takeWhile (\<lambda>x. x \<le> xs ! i) xs) = Suc i"
  using assms
proof (induction xs arbitrary: i)
  case (Cons x xs)
  show ?case
  proof (cases i)
    case 0
    then have "takeWhile (\<lambda>y. y \<le> x) xs = []"
      using Cons.prems by (cases xs) (auto simp: not_le)
    then show ?thesis using 0 by simp
  next
    case (Suc j)
    then have "x \<le> xs ! j"
      using Cons.prems by (simp add: less_imp_le)
    then show ?thesis
      using Suc Cons.IH [of j] Cons.prems by simp
  qed
qed simp

lemma cursor_start:
  assumes "cursor_codec env" and "sorted_wrt (<) (map oi_key objects)" and "[] \<notin> oi_key ` set objects" and "i \<le> length objects"
  shows "cursor_start_index env objects (cursor_at env objects i) = Inr i"
proof (cases i)
  case (Suc j)
  then have key: "oi_key (objects ! j) \<noteq> []"
    using assms(3,4) by (metis Suc_le_eq imageI nth_mem)
  have "length (takeWhile (\<lambda>k. k \<le> map oi_key objects ! j) (map oi_key objects)) = Suc j"
    by (rule takeWhile_sorted) (use assms Suc in simp_all)
  then have "length (takeWhile (\<lambda>o'. oi_key o' \<le> oi_key (objects ! j)) objects) = Suc j"
    using assms(4) Suc by (simp add: takeWhile_map comp_def)
  then show ?thesis
    using Suc key assms(1)
    by (simp add: cursor_start_index_def cursor_at_def cursor_codec_def encode_cursor_def decode_cursor_def)
qed (simp add: cursor_at_def cursor_start_index_def)

lemma page_at:
  assumes codec: "cursor_codec env" and sorted: "sorted_wrt (<) (map oi_key objects)" and keys: "[] \<notin> oi_key ` set objects"
    and i: "i \<le> length objects" and limit: "0 < so_limit opts" "so_limit opts < 2 ^ 63" and len: "length objects \<le> u64_max"
  shows "list_page env (opts\<lparr>so_cursor := Some (cursor_at env objects i)\<rparr>) objects =
    (let stop = min (i + nat (so_limit opts)) (length objects) in
     Inr \<lparr>ol_objects = take (stop - i) (drop i objects), ol_total_count = int (length objects),
          ol_next_cursor = (if stop < length objects then Some (cursor_at env objects stop) else None)\<rparr>)"
proof -
  let ?stop = "min (i + nat (so_limit opts)) (length objects)"
  have usize: "as_usize (so_limit opts) = nat (so_limit opts)"
    using limit by (simp add: as_usize_def)
  have stop: "min (min (i + nat (so_limit opts)) u64_max) (length objects) = ?stop"
    using len by simp
  have later: "take (?stop - i) (drop i objects) \<noteq> [] \<and> last (take (?stop - i) (drop i objects)) = objects ! (?stop - 1) \<and> ?stop \<noteq> 0"
    if "?stop < length objects"
  proof -
    have "i < ?stop" using that limit by auto
    then show ?thesis
      using that by (auto simp: last_conv_nth nth_append)
  qed
  show ?thesis
    using limit later
    by (simp add: list_page_def cursor_start [OF codec sorted keys i] usize stop Let_def)
       (auto simp: cursor_at_def)
qed

lemma walk_from:
  assumes codec: "cursor_codec env" and sorted: "sorted_wrt (<) (map oi_key objects)" and keys: "[] \<notin> oi_key ` set objects"
    and limit: "0 < so_limit opts" "so_limit opts < 2 ^ 63" and len: "length objects \<le> u64_max"
  shows "i \<le> length objects \<Longrightarrow> length objects - i < n \<Longrightarrow>
    cursor_walk n (\<lambda>c. list_page env (opts\<lparr>so_cursor := Some c\<rparr>) objects) (cursor_at env objects i) = Some (Inr (drop i objects))"
proof (induction n arbitrary: i)
  case (Suc n)
  let ?stop = "min (i + nat (so_limit opts)) (length objects)"
  have page: "list_page env (opts\<lparr>so_cursor := Some (cursor_at env objects i)\<rparr>) objects =
     Inr \<lparr>ol_objects = take (?stop - i) (drop i objects), ol_total_count = int (length objects),
          ol_next_cursor = (if ?stop < length objects then Some (cursor_at env objects ?stop) else None)\<rparr>"
    using page_at [OF codec sorted keys Suc.prems(1) limit len] by (simp add: Let_def)
  show ?case
  proof (cases "?stop < length objects")
    case True
    then have further: "i < ?stop" using limit by auto
    have "cursor_walk n (\<lambda>c. list_page env (opts\<lparr>so_cursor := Some c\<rparr>) objects) (cursor_at env objects ?stop) = Some (Inr (drop ?stop objects))"
      by (rule Suc.IH) (use True further Suc.prems in auto)
    moreover have "take (?stop - i) (drop i objects) @ drop ?stop objects = drop i objects"
      using further append_take_drop_id [of "?stop - i" "drop i objects"] by (simp add: drop_drop)
    ultimately show ?thesis
      using page True by simp
  next
    case False
    then show ?thesis using page by simp
  qed
qed simp

lemma sorted_keys:
  "distinct (map oi_key objects) \<Longrightarrow> sorted_wrt (<) (map oi_key (sort_key oi_key objects))"
  by (simp add: strict_sorted_iff distinct_map)

text \<open>The objects a listing pages through.\<close>

definition listed :: "fs_env \<Rightarrow> local_storage \<Rightarrow> string \<Rightarrow> string \<Rightarrow> fs_world \<Rightarrow> (storage_error + object_info list) option" where
  "listed env svc folder pref w =
     (case validate_path env svc (folder_path svc folder) w of
        (Inl e, _) \<Rightarrow> Some (Inl e)
      | (Inr dir, _) \<Rightarrow>
          (case fx_join env of
             Some e \<Rightarrow> Some (Inl (join_err e))
           | None \<Rightarrow>
               (case fs_stat env dir w of
                  (Inl _, _) \<Rightarrow> None
                | (Inr _, _) \<Rightarrow>
                    Some (and_then (list_recursive env (fw_tree w) (names_of dir) (staging_path svc) pref (names_of dir))
                            (\<lambda>objects. Inr (sort_key oi_key objects))))))"

lemma local_list_listed:
  "fst (local_list env svc folder opts w) =
     (case listed env svc folder (so_prefix opts) w of
        None \<Rightarrow> Inr \<lparr>ol_objects = [], ol_total_count = 0, ol_next_cursor = None\<rparr>
      | Some r \<Rightarrow> and_then r (list_page env opts))"
proof -
  obtain r w1 where v: "validate_path env svc (folder_path svc folder) w = (r, w1)" by fastforce
  have "w1 = w" using validate_path_still v by (metis snd_conv)
  then show ?thesis
    using v
    by (auto simp: local_list_def listed_def st_then_def and_then_def split: sum.splits option.splits prod.splits)
qed

lemma listed_sorted:
  assumes "wf_tree (fw_tree w)" and "listed env svc folder pref w = Some (Inr objects)"
  shows "sorted_wrt (<) (map oi_key objects) \<and> [] \<notin> oi_key ` set objects"
proof -
  obtain dir found where "list_recursive env (fw_tree w) (names_of dir) (staging_path svc) pref (names_of dir) = Inr found"
    "objects = sort_key oi_key found"
    using assms(2) by (auto simp: listed_def and_then_eq_Inr split: prod.splits sum.splits option.splits)
  then show ?thesis
    using list_recursive_keys [OF assms(1) names_of_proper] sorted_keys by (metis set_sort)
qed


text \<open>Two objects, one to a page.\<close>

definition sample_opts :: "int \<Rightarrow> string option \<Rightarrow> storage_list_options" where
  "sample_opts limit cursor = \<lparr>so_prefix = [], so_limit = limit, so_offset = 0, so_cursor = cursor\<rparr>"

definition sample_two :: fs_world where
  "sample_two =
     \<lparr>fw_tree =
        [([''d''], F_dir (Some 7)), ([''d'', ''my-org''], F_dir (Some 7)), ([''d'', ''my-org'', ''auth''], F_dir (Some 7)),
         ([''d'', ''my-org'', ''auth'', ''z''], F_file ''hi'' 7), ([''d'', ''my-org'', ''auth'', ''a''], F_file ''ho'' 7)],
      fw_history = [], fw_seq = 0\<rparr>"

lemma sample_listing:
  "fst (local_list sample_fs sample_local ''my-org/auth'' \<lparr>so_prefix = [], so_limit = 0, so_offset = 0, so_cursor = None\<rparr> sample_two) =
     Inr \<lparr>ol_objects = [object_info_of ''a'' 2 7, object_info_of ''z'' 2 7], ol_total_count = 2, ol_next_cursor = None\<rparr>"
proof -
  let ?full = "\<lparr>ol_objects = [object_info_of ''a'' 2 7, object_info_of ''z'' 2 7], ol_total_count = 2, ol_next_cursor = None\<rparr>"
  have entries: "read_entries sample_fs (fw_tree sample_two) [''d'', ''my-org'', ''auth''] =
      Inr [([''d'', ''my-org'', ''auth'', ''z''], F_file ''hi'' 7), ([''d'', ''my-org'', ''auth'', ''a''], F_file ''ho'' 7)]"
    by code_simp
  have files: "list_entry sample_fs [''d'', ''my-org'', ''auth''] [] [''d'', ''my-org'', ''auth'', ''a''] (F_file ''ho'' 7) = [object_info_of ''a'' 2 7]"
    "list_entry sample_fs [''d'', ''my-org'', ''auth''] [] [''d'', ''my-org'', ''auth'', ''z''] (F_file ''hi'' 7) = [object_info_of ''z'' 2 7]"
    "read_entry sample_fs names = Inr ()" for names
    by (code_simp, code_simp, simp add: read_entry_def failing_def sample_fs_def)
  have found: "list_recursive sample_fs (fw_tree sample_two) [''d'', ''my-org'', ''auth''] staging [] [''d'', ''my-org'', ''auth''] =
      Inr [object_info_of ''z'' 2 7, object_info_of ''a'' 2 7]" for staging
    by (subst list_recursive.simps) (simp add: entries files)
  have "fst (validate_path sample_fs sample_local (folder_path sample_local ''my-org/auth'') sample_two) = Inr ''/d/my-org/auth''"
    "fst (fs_stat sample_fs ''/d/my-org/auth'' sample_two) = Inr (F_dir (Some 7))"
    by code_simp+
  then obtain w w' where valid: "validate_path sample_fs sample_local (folder_path sample_local ''my-org/auth'') sample_two = (Inr ''/d/my-org/auth'', w)"
    and stat: "fs_stat sample_fs ''/d/my-org/auth'' sample_two = (Inr (F_dir (Some 7)), w')"
    by (metis prod.collapse)
  have names: "names_of ''/d/my-org/auth'' = [''d'', ''my-org'', ''auth'']" and joined: "fx_join sample_fs = None"
    by (code_simp, simp add: sample_fs_def)
  have ordered: "sort_key oi_key [object_info_of ''z'' 2 7, object_info_of ''a'' 2 7] = [object_info_of ''a'' 2 7, object_info_of ''z'' 2 7]"
    by code_simp
  have "listed sample_fs sample_local ''my-org/auth'' [] sample_two = Some (Inr (ol_objects ?full))"
    unfolding listed_def valid names joined stat prod.case sum.case option.case found and_then_simps ordered by simp
  then show ?thesis
    by (simp add: local_list_listed list_page_def as_usize_def u64_max_def)
qed


section \<open>Which objects are listed\<close>

text \<open>The directories above a file exist.\<close>

definition closed_tree :: "fs_tree \<Rightarrow> bool" where
  "closed_tree t \<longleftrightarrow>
     (\<forall>(names, _) \<in> set t. \<forall>p \<in> set (prefixes names). p \<noteq> names \<longrightarrow> (case fs_lookup t p of Some (F_dir _) \<Rightarrow> True | _ \<Rightarrow> False))"

definition visible :: "fs_env \<Rightarrow> string \<Rightarrow> string list \<Rightarrow> string list \<Rightarrow> bool" where
  "visible env staging dir names \<longleftrightarrow>
     (\<forall>p \<in> set (prefixes names). strict_prefix dir p \<and> p \<noteq> names \<longrightarrow> \<not> is_staging env (canonical p) staging)"

lemma closed_treeD:
  assumes "closed_tree t" and "(names, node) \<in> set t" and "prefix p names" and "p \<noteq> names"
  shows "\<exists>d. fs_lookup t p = Some (F_dir d)"
proof -
  have "case fs_lookup t p of Some (F_dir _) \<Rightarrow> True | _ \<Rightarrow> False"
    using assms by (auto simp: closed_tree_def)
  then show ?thesis by (auto split: option.splits fs_node.splits)
qed

lemma next_below:
  assumes "strict_prefix dir ns"
  shows "\<exists>x. prefix (dir @ [x]) ns"
proof -
  obtain rest where "ns = dir @ rest" "rest \<noteq> []"
    using assms by (auto simp: strict_prefix_def prefix_def)
  then show ?thesis by (cases rest) auto
qed

lemma traverse_member:
  "traverse f xs = Inr yss \<Longrightarrow> y \<in> set (concat yss) \<longleftrightarrow> (\<exists>x \<in> set xs. \<exists>ys. f x = Inr ys \<and> y \<in> set ys)"
  by (induction xs arbitrary: yss) (auto simp: and_then_eq_Inr)

lemma visible_step:
  assumes "prefix (dir @ [x]) ns" and "dir @ [x] \<noteq> ns"
  shows "visible env staging dir ns \<longleftrightarrow>
    \<not> is_staging env (canonical (dir @ [x])) staging \<and> visible env staging (dir @ [x]) ns"
proof -
  have "strict_prefix dir p \<longleftrightarrow> p = dir @ [x] \<or> strict_prefix (dir @ [x]) p" if "prefix p ns" for p
    using that assms(1) by (auto simp: strict_prefix_def prefix_def append_eq_append_conv2 Cons_eq_append_conv append_eq_Cons_conv)
  then show ?thesis
    using assms by (auto simp: visible_def)
qed

lemma list_recursive_set:
  assumes "distinct (map fst t)" and "closed_tree t" and "list_recursive env t base staging pref dir = Inr objects"
  shows "obj \<in> set objects \<longleftrightarrow>
    (\<exists>ns node. (ns, node) \<in> set t \<and> \<not> is_dir node \<and> strict_prefix dir ns \<and> visible env staging dir ns
       \<and> obj \<in> set (list_entry env base pref ns node))"
  using assms
proof (induction env t base staging pref dir arbitrary: objects rule: list_recursive.induct)
  case (1 env t base staging pref dir)
  let ?file = "\<lambda>dir ns node. (ns, node) \<in> set t \<and> \<not> is_dir node \<and> strict_prefix dir ns \<and> visible env staging dir ns
       \<and> obj \<in> set (list_entry env base pref ns node)"
  let ?one = "\<lambda>(names, node). and_then (read_entry env names) (\<lambda>_.
          if is_dir node \<and> is_staging env (canonical names) staging then Inr []
          else if is_dir node then list_recursive env t base staging pref names
          else Inr (list_entry env base pref names node))"
  obtain lists where found: "read_entries env t dir = Inr (entries t dir)" and lists: "traverse ?one (entries t dir) = Inr lists"
    and objects: "objects = concat lists"
  proof -
    obtain found lists where found: "read_entries env t dir = Inr found" and "traverse ?one found = Inr lists" "objects = concat lists"
      using "1.prems"(3) by (subst (asm) list_recursive.simps) (auto simp: and_then_eq_Inr)
    then show thesis
      using that read_entries_Inr [OF found] by blast
  qed
  have member: "obj \<in> set objects \<longleftrightarrow> (\<exists>e \<in> set (entries t dir). \<exists>ys. ?one e = Inr ys \<and> obj \<in> set ys)"
    using traverse_member [OF lists] objects by simp
  have answered: "\<exists>ys. ?one e = Inr ys" if "e \<in> set (entries t dir)" for e
    using lists that traverse_accepts [of ?one "entries t dir"] by blast
  have checked: "read_entry env names = Inr ()" if "(names, node) \<in> set (entries t dir)" for names node
    using answered [OF that] by (auto simp: and_then_eq_Inr)
  have deeper: "obj \<in> set ys \<longleftrightarrow> (\<exists>ns node. ?file names ns node)"
    if "(names, node) \<in> set (entries t dir)" "is_dir node" "\<not> is_staging env (canonical names) staging"
       "list_recursive env t base staging pref names = Inr ys" for names node ys
    by (rule "1.IH" [OF found that(1) refl checked [OF that(1)]]) (use that "1.prems" in simp_all)
  show ?case
  proof
    assume "obj \<in> set objects"
    then obtain e ys where mem: "e \<in> set (entries t dir)" and res: "?one e = Inr ys" and "obj \<in> set ys"
      using member by blast
    obtain names node where pair: "e = (names, node)" by fastforce
    have e: "(names, node) \<in> set (entries t dir)" and one: "?one (names, node) = Inr ys"
      using mem res unfolding pair by simp_all
    obtain x where x: "names = dir @ [x]" and mem: "(names, node) \<in> set t"
      using entry_below [OF e] by (metis append_butlast_last_id)
    have body: "(if is_dir node \<and> is_staging env (canonical names) staging then Inr []
          else if is_dir node then list_recursive env t base staging pref names
          else Inr (list_entry env base pref names node)) = Inr ys"
      using one checked [OF e] by simp
    show "\<exists>ns node. ?file dir ns node"
    proof (cases "is_dir node")
      case True
      then have ok: "\<not> is_staging env (canonical names) staging" "list_recursive env t base staging pref names = Inr ys"
        using body \<open>obj \<in> set ys\<close> by (auto split: if_splits)
      then obtain ns node' where entry: "?file names ns node'"
        using deeper [OF e True] \<open>obj \<in> set ys\<close> by blast
      then have below: "prefix (dir @ [x]) ns" "dir @ [x] \<noteq> ns"
        using x by (auto simp: strict_prefix_def)
      then have "visible env staging dir ns" "strict_prefix dir ns"
        using entry ok visible_step [OF below] x by (auto simp: prefix_def strict_prefix_def)
      then show ?thesis using entry by blast
    next
      case False
      then have "visible env staging dir names" "strict_prefix dir names" "obj \<in> set (list_entry env base pref names node)"
        using body x \<open>obj \<in> set ys\<close> by (auto simp: visible_def strict_prefix_def)
      then show ?thesis using mem False by blast
    qed
  next
    assume "\<exists>ns node. ?file dir ns node"
    then obtain ns node where entry: "?file dir ns node" by blast
    obtain x where x: "prefix (dir @ [x]) ns"
      using next_below entry by blast
    show "obj \<in> set objects"
    proof (cases "dir @ [x] = ns")
      case True
      then have "(ns, node) \<in> set (entries t dir)"
        using entry by (auto simp: entries_def)
      then show ?thesis
        using entry checked member by (intro iffD2 [OF member] bexI [of _ "(ns, node)"]) auto
    next
      case False
      then obtain d where "fs_lookup t (dir @ [x]) = Some (F_dir d)"
        using closed_treeD [OF "1.prems"(2) _ x] entry by blast
      then have e: "(dir @ [x], F_dir d) \<in> set (entries t dir)"
        by (auto simp: entries_def fs_lookup_def dest: map_of_SomeD)
      have ok: "\<not> is_staging env (canonical (dir @ [x])) staging" and rest: "?file (dir @ [x]) ns node"
        using entry x False visible_step [OF x False] by (auto simp: strict_prefix_def)
      obtain ys where ys: "list_recursive env t base staging pref (dir @ [x]) = Inr ys"
        using answered [OF e] checked [OF e] ok by auto
      then have "obj \<in> set ys"
        using deeper [OF e _ ok ys] rest by auto
      then show ?thesis
        using ok ys checked [OF e] by (intro iffD2 [OF member] bexI [OF _ e]) auto
    qed
  qed
qed

lemma list_entry_below:
  assumes "list_all proper base" and "list_all proper rest"
  shows "obj \<in> set (list_entry env base pref (base @ rest) (F_file data m)) \<longleftrightarrow>
    (pref = [] \<or> starts_with pref (join_with ''/'' rest)) \<and> obj = object_info_of (join_with ''/'' rest) (length data) m"
  using key_below_rest [OF assms] by (simp add: list_entry_def Let_def)

text \<open>The files below a directory that a listing shows.\<close>

definition stored_object :: "fs_env \<Rightarrow> local_storage \<Rightarrow> fs_tree \<Rightarrow> string \<Rightarrow> string list \<Rightarrow> object_info \<Rightarrow> bool" where
  "stored_object env svc t pref dir obj \<longleftrightarrow>
     (\<exists>rest data m. rest \<noteq> [] \<and> (dir @ rest, F_file data m) \<in> set t \<and> visible env (staging_path svc) dir (dir @ rest)
        \<and> (pref = [] \<or> starts_with pref (join_with ''/'' rest)) \<and> obj = object_info_of (join_with ''/'' rest) (length data) m)"

lemma list_recursive_stored:
  assumes wf: "wf_tree t" and closed: "closed_tree t" and dir: "list_all proper dir"
    and run: "list_recursive env t dir (staging_path svc) pref dir = Inr objects"
  shows "obj \<in> set objects \<longleftrightarrow> stored_object env svc t pref dir obj"
proof -
  have proper: "list_all proper ns" if "(ns, node) \<in> set t" for ns node
    using wf that by (auto simp: wf_tree_def)
  have "obj \<in> set objects \<longleftrightarrow>
    (\<exists>ns node. (ns, node) \<in> set t \<and> \<not> is_dir node \<and> strict_prefix dir ns \<and> visible env (staging_path svc) dir ns
       \<and> obj \<in> set (list_entry env dir pref ns node))"
    by (rule list_recursive_set [OF _ closed run]) (use wf in \<open>simp add: wf_tree_def\<close>)
  also have "\<dots> \<longleftrightarrow> (\<exists>rest data m. rest \<noteq> [] \<and> (dir @ rest, F_file data m) \<in> set t \<and> visible env (staging_path svc) dir (dir @ rest)
       \<and> obj \<in> set (list_entry env dir pref (dir @ rest) (F_file data m)))"
    (is "?l \<longleftrightarrow> ?r")
  proof
    assume ?l
    then obtain ns node where n: "(ns, node) \<in> set t" "\<not> is_dir node" "strict_prefix dir ns" "visible env (staging_path svc) dir ns"
      "obj \<in> set (list_entry env dir pref ns node)" by blast
    obtain rest where "ns = dir @ rest" "rest \<noteq> []"
      using n(3) by (auto simp: strict_prefix_def prefix_def)
    moreover obtain data m where "node = F_file data m"
      using n(2) by (cases node) auto
    ultimately show ?r using n by blast
  next
    assume ?r
    then obtain rest data m where "rest \<noteq> []" "(dir @ rest, F_file data m) \<in> set t" "visible env (staging_path svc) dir (dir @ rest)"
      "obj \<in> set (list_entry env dir pref (dir @ rest) (F_file data m))" by blast
    moreover have "\<not> is_dir (F_file data m)" "strict_prefix dir (dir @ rest)"
      using \<open>rest \<noteq> []\<close> by (auto simp: strict_prefix_def)
    ultimately show ?l by blast
  qed
  also have "\<dots> \<longleftrightarrow> stored_object env svc t pref dir obj"
    unfolding stored_object_def using list_entry_below [OF dir] proper by (metis list_all_append)
  finally show ?thesis .
qed

text \<open>C34: A listing shows what is stored.  With no failing filesystem call, the listing of a folder without a limit
  consists of the files below it whose path from there has the asked prefix, each under that path and with its
  size, but for those below a directory with the name of the staging directory.\<close>

theorem listing_shows_what_is_stored:
  assumes "local_new fenv' at_root w0 = (Inr svc, w0')" and "is_traversal_safe_path folder" and "quiet env"
    and "wf_tree (fw_tree w)" and "closed_tree (fw_tree w)"
    and "fst (local_list env svc folder \<lparr>so_prefix = pref, so_limit = 0, so_offset = 0, so_cursor = None\<rparr> w) = Inr full"
    and "ol_total_count full \<le> int u64_max"
  shows "set (ol_objects full) =
    {obj. stored_object env svc (fw_tree w) pref (names_of (ls_root svc) @ split_on slash folder) obj}"
proof -
  let ?dir = "names_of (ls_root svc) @ split_on slash folder"
  have root: "rooted svc (names_of (ls_root svc))" by (rule local_new_rooted [OF assms(1)])
  obtain r w1 where valid: "validate_path env svc (folder_path svc folder) w = (r, w1)" by fastforce
  obtain p where p: "r = Inr p"
    using assms(6) valid by (cases r) (auto simp: local_list_def st_then_def)
  then have names: "names_of p = ?dir"
    using folder_names [OF root assms(2)] valid by blast
  have proper: "list_all proper ?dir"
    using names_of_proper [of p] names by simp
  have joined: "fx_join env = None"
    using assms(6) valid p by (auto simp: local_list_def st_then_def split: option.splits)
  show ?thesis
  proof (cases "find_node (fw_tree w) ?dir")
    case (Inl e)
    then have "listed env svc folder pref w = None"
      using valid p joined names assms(3) by (simp add: listed_def fs_stat_def guarded_def quiet_def)
    then have "ol_objects full = []"
      using assms(6) by (auto simp: local_list_listed)
    moreover have "\<not> stored_object env svc (fw_tree w) pref ?dir obj" for obj
      using Inl closed_treeD [OF assms(5), of "?dir @ _" _ ?dir]
      by (auto simp: stored_object_def find_node_def split: option.splits)
    ultimately show ?thesis by simp
  next
    case (Inr node)
    have "listed env svc folder pref w =
        Some (and_then (list_recursive env (fw_tree w) ?dir (staging_path svc) pref ?dir) (\<lambda>objects. Inr (sort_key oi_key objects)))"
      using valid p joined names assms(3) Inr by (simp add: listed_def fs_stat_def guarded_def quiet_def)
    then obtain objects where run: "list_recursive env (fw_tree w) ?dir (staging_path svc) pref ?dir = Inr objects"
      and page: "list_page env \<lparr>so_prefix = pref, so_limit = 0, so_offset = 0, so_cursor = None\<rparr> (sort_key oi_key objects) = Inr full"
      using assms(6) by (auto simp: local_list_listed and_then_eq_Inr)
    have "length objects \<le> u64_max"
      using page assms(7) by (auto simp: list_page_def Let_def)
    then have "set (ol_objects full) = set objects"
      using page by (auto simp: list_page_def as_usize_def Let_def)
    then show ?thesis
      using list_recursive_stored [OF assms(4,5) proper run] by blast
  qed
qed

theorem listing_shows_what_is_stored_witness:
  "set [object_info_of ''a'' 2 7, object_info_of ''z'' 2 7] =
    {obj. stored_object sample_fs sample_local (fw_tree sample_two) [] (names_of (ls_root sample_local) @ split_on slash ''my-org/auth'') obj}"
proof -
  have safe: "is_traversal_safe_path ''my-org/auth''" by code_simp
  have wf: "wf_tree (fw_tree sample_two)" "closed_tree (fw_tree sample_two)" by code_simp+
  have quiet: "quiet sample_fs" by (simp add: quiet_def sample_fs_def)
  from listing_shows_what_is_stored [OF sample_new safe quiet wf sample_listing]
  show ?thesis by (simp add: u64_max_def)
qed

text \<open>Objects in a folder that bears the name of the staging directory below the root can be stored but
  are never listed: the test that keeps the staging directory out of a listing compares the name alone,
  while requests are refused only where the first folder under the root has it.\<close>

definition sample_nested :: fs_world where
  "sample_nested =
     \<lparr>fw_tree =
        [([''d''], F_dir (Some 7)), ([''d'', ''.wafer-staging''], F_dir (Some 7)), ([''d'', ''o''], F_dir (Some 7)),
         ([''d'', ''o'', ''b''], F_dir (Some 7)), ([''d'', ''o'', ''b'', ''.wafer-staging''], F_dir (Some 7)),
         ([''d'', ''o'', ''b'', ''.wafer-staging'', ''k''], F_file ''hi'' 7)],
      fw_history = [], fw_seq = 1\<rparr>"

theorem nested_staging_objects_are_not_listed:
  "map_prod id fw_tree (local_put sample_fs sample_local ''o/b/.wafer-staging'' ''k'' ''hi'' [] sample_world) = (Inr (), fw_tree sample_nested)
   \<and> file_at (fw_tree sample_nested) [''d'', ''o'', ''b'', ''.wafer-staging'', ''k''] = Some ''hi''
   \<and> fst (local_list sample_fs sample_local ''o/b'' \<lparr>so_prefix = [], so_limit = 0, so_offset = 0, so_cursor = None\<rparr> sample_nested)
       = Inr \<lparr>ol_objects = [], ol_total_count = 0, ol_next_cursor = None\<rparr>"
proof -
  have stored: "map_prod id fw_tree (local_put sample_fs sample_local ''o/b/.wafer-staging'' ''k'' ''hi'' [] sample_world) = (Inr (), fw_tree sample_nested)"
    "file_at (fw_tree sample_nested) [''d'', ''o'', ''b'', ''.wafer-staging'', ''k''] = Some ''hi''"
    by code_simp+
  have entries: "read_entries sample_fs (fw_tree sample_nested) [''d'', ''o'', ''b''] = Inr [([''d'', ''o'', ''b'', ''.wafer-staging''], F_dir (Some 7))]"
    by code_simp
  have hidden: "is_staging sample_fs (canonical [''d'', ''o'', ''b'', ''.wafer-staging'']) (staging_path sample_local)" by code_simp
  have checked: "read_entry sample_fs names = Inr ()" for names
    by (simp add: read_entry_def failing_def sample_fs_def)
  have found: "list_recursive sample_fs (fw_tree sample_nested) [''d'', ''o'', ''b''] (staging_path sample_local) [] [''d'', ''o'', ''b''] = Inr []"
    by (subst list_recursive.simps) (simp add: entries hidden checked)
  have "fst (validate_path sample_fs sample_local (folder_path sample_local ''o/b'') sample_nested) = Inr ''/d/o/b''"
    "fst (fs_stat sample_fs ''/d/o/b'' sample_nested) = Inr (F_dir (Some 7))"
    by code_simp+
  then obtain w w' where valid: "validate_path sample_fs sample_local (folder_path sample_local ''o/b'') sample_nested = (Inr ''/d/o/b'', w)"
    and stat: "fs_stat sample_fs ''/d/o/b'' sample_nested = (Inr (F_dir (Some 7)), w')"
    by (metis prod.collapse)
  have names: "names_of ''/d/o/b'' = [''d'', ''o'', ''b'']" and joined: "fx_join sample_fs = None"
    by (code_simp, simp add: sample_fs_def)
  have "listed sample_fs sample_local ''o/b'' [] sample_nested = Some (Inr [])"
    unfolding listed_def valid names joined stat prod.case sum.case option.case found and_then_simps by simp
  then show ?thesis
    using stored by (simp add: local_list_listed list_page_def)
qed

end
