(* ===== verification/Http_Request.thy ===== *)
theory Http_Request
  imports Http_Codec Call_Context
begin

text \<open>
  The request half of \<^verbatim>\<open>crates/wafer-block/src/http_codec.rs\<close>: from the head of an HTTP request to a message,
  and the accessors of requests in \<^verbatim>\<open>crates/wafer-block/src/types/message_ext.rs\<close>.  The decoding of queries
  (\<^verbatim>\<open>url::form_urlencoded\<close>) and Unicode lower-casing are parameters.
\<close>

section \<open>Keys and actions\<close>

definition META_HTTP_METHOD :: string where "META_HTTP_METHOD = ''http.method''"
definition META_HTTP_PATH :: string where "META_HTTP_PATH = ''http.path''"
definition META_HTTP_RAW_QUERY :: string where "META_HTTP_RAW_QUERY = ''http.raw_query''"
definition META_HTTP_REMOTE_ADDR :: string where "META_HTTP_REMOTE_ADDR = ''http.remote_addr''"
definition META_HTTP_CONTENT_TYPE :: string where "META_HTTP_CONTENT_TYPE = ''http.content_type''"
definition META_HTTP_HOST :: string where "META_HTTP_HOST = ''http.host''"
definition META_HTTP_HEADER_PREFIX :: string where "META_HTTP_HEADER_PREFIX = ''http.header.''"
definition META_HTTP_QUERY_PREFIX :: string where "META_HTTP_QUERY_PREFIX = ''http.query.''"
definition META_REQ_RESOURCE :: string where "META_REQ_RESOURCE = ''req.resource''"
definition META_REQ_PARAM_PREFIX :: string where "META_REQ_PARAM_PREFIX = ''req.param.''"
definition META_REQ_QUERY_PREFIX :: string where "META_REQ_QUERY_PREFIX = ''req.query.''"
definition META_REQ_CLIENT_IP :: string where "META_REQ_CLIENT_IP = ''req.client.ip''"
definition META_REQ_CONTENT_TYPE :: string where "META_REQ_CONTENT_TYPE = ''req.content_type''"
definition META_AUTH_USER_ID :: string where "META_AUTH_USER_ID = ''auth.user_id''"

lemmas request_key_defs =
  META_HTTP_METHOD_def META_HTTP_PATH_def META_HTTP_RAW_QUERY_def META_HTTP_REMOTE_ADDR_def
  META_HTTP_CONTENT_TYPE_def META_HTTP_HOST_def META_HTTP_HEADER_PREFIX_def META_HTTP_QUERY_PREFIX_def
  META_REQ_ACTION_def META_REQ_RESOURCE_def META_REQ_PARAM_PREFIX_def META_REQ_QUERY_PREFIX_def
  META_REQ_CLIENT_IP_def META_REQ_CONTENT_TYPE_def META_AUTH_USER_ID_def

definition ascii_upper :: "char \<Rightarrow> char" where
  "ascii_upper c = (let n = of_char c :: nat in if 97 \<le> n \<and> n \<le> 122 then char_of (n - 32) else c)"

definition to_ascii_uppercase :: "string \<Rightarrow> string" where
  "to_ascii_uppercase s = map ascii_upper s"

definition RETRIEVE :: string where "RETRIEVE = ''retrieve''"
definition CREATE :: string where "CREATE = ''create''"
definition UPDATE :: string where "UPDATE = ''update''"
definition DELETE :: string where "DELETE = ''delete''"
definition EXECUTE :: string where "EXECUTE = ''execute''"

definition try_action_for_http_method :: "string \<Rightarrow> string option" where
  "try_action_for_http_method token =
     (let t = to_ascii_uppercase token in
      if t = ''GET'' \<or> t = ''HEAD'' then Some RETRIEVE
      else if t = ''POST'' then Some CREATE
      else if t = ''PUT'' \<or> t = ''PATCH'' then Some UPDATE
      else if t = ''DELETE'' then Some DELETE
      else if t = ''OPTIONS'' then Some EXECUTE
      else None)"

definition action_for_http_method :: "string \<Rightarrow> string" where
  "action_for_http_method m = (case try_action_for_http_method m of Some a \<Rightarrow> a | None \<Rightarrow> EXECUTE)"

section \<open>The message of a request\<close>

record http_env =
  he_lower :: "string \<Rightarrow> string"
  he_form :: "string \<Rightarrow> (string \<times> string) list"

definition header_separator :: "string \<Rightarrow> string" where
  "header_separator name = (if name = ''cookie'' then ''; '' else '', '')"

text \<open>One field line: joined to the line of the same name, or a new one.\<close>

fun add_field :: "string \<Rightarrow> string \<Rightarrow> (string \<times> string) list \<Rightarrow> (string \<times> string) list" where
  "add_field name val [] = [(name, val)]"
| "add_field name val ((seen, joined) # rest) =
     (if seen = name then (seen, joined @ header_separator name @ val) # rest else (seen, joined) # add_field name val rest)"

definition header_meta :: "http_env \<Rightarrow> (string \<times> string) list \<Rightarrow> (string \<times> string) list" where
  "header_meta env headers = fold (\<lambda>(name, val). add_field (he_lower env name) val) headers []"

definition joined_header :: "(string \<times> string) list \<Rightarrow> string \<Rightarrow> string" where
  "joined_header found wanted = (case map_of found wanted of Some v \<Rightarrow> v | None \<Rightarrow> [])"

definition set_all :: "(string \<times> string) list \<Rightarrow> meta_entry list \<Rightarrow> meta_entry list" where
  "set_all kvs m = fold (\<lambda>(k, v) m. meta_set m k v) kvs m"

definition query_meta :: "http_env \<Rightarrow> string \<Rightarrow> (string \<times> string) list" where
  "query_meta env raw_query =
     (if raw_query = [] then []
      else concat (map (\<lambda>(key, val). [(META_HTTP_QUERY_PREFIX @ key, val), (META_REQ_QUERY_PREFIX @ key, val)]) (he_form env raw_query)))"

definition build_http_message :: "http_env \<Rightarrow> string \<Rightarrow> string \<Rightarrow> string \<Rightarrow> string \<Rightarrow> (string \<times> string) list \<Rightarrow> message" where
  "build_http_message env http_method path raw_query remote_addr headers =
     (let m = to_ascii_uppercase http_method;
          found = header_meta env headers;
          content_type = joined_header found ''content-type'';
          host = joined_header found ''host'' in
      \<lparr>msg_kind = m @ '':'' @ path,
       msg_meta =
         set_all (query_meta env raw_query)
           (set_all (map (\<lambda>(name, val). (META_HTTP_HEADER_PREFIX @ name, val)) found)
             (set_all
               [(META_HTTP_METHOD, m), (META_HTTP_PATH, path), (META_HTTP_RAW_QUERY, raw_query),
                (META_HTTP_REMOTE_ADDR, remote_addr), (META_HTTP_CONTENT_TYPE, content_type), (META_HTTP_HOST, host),
                (META_REQ_ACTION, action_for_http_method m), (META_REQ_RESOURCE, path),
                (META_REQ_CLIENT_IP, remote_addr), (META_REQ_CONTENT_TYPE, content_type)] []))\<rparr>)"

definition SINGLETON_REQUEST_HEADERS :: "string list" where
  "SINGLETON_REQUEST_HEADERS = [''authorization'', ''content-length'', ''content-type'', ''host'']"

fun repeated_singleton_loop :: "string set \<Rightarrow> string list \<Rightarrow> string option" where
  "repeated_singleton_loop seen [] = None"
| "repeated_singleton_loop seen (name # names) =
     (case List.find (\<lambda>s. eq_ignore_ascii_case s name) SINGLETON_REQUEST_HEADERS of
        None \<Rightarrow> repeated_singleton_loop seen names
      | Some s \<Rightarrow> (if s \<in> seen then Some s else repeated_singleton_loop (insert s seen) names))"

definition repeated_singleton_header :: "string list \<Rightarrow> string option" where
  "repeated_singleton_header names = repeated_singleton_loop {} names"

section \<open>Accessors\<close>

definition msg_set_meta :: "message \<Rightarrow> string \<Rightarrow> string \<Rightarrow> message" where
  "msg_set_meta msg key val = msg\<lparr>msg_meta := meta_set (msg_meta msg) key val\<rparr>"

definition msg_path :: "message \<Rightarrow> string" where
  "msg_path msg = get_meta msg META_REQ_RESOURCE"

definition msg_user_id :: "message \<Rightarrow> string" where
  "msg_user_id msg = get_meta msg META_AUTH_USER_ID"

definition msg_remote_addr :: "message \<Rightarrow> string" where
  "msg_remote_addr msg = get_meta msg META_REQ_CLIENT_IP"

definition msg_header :: "http_env \<Rightarrow> message \<Rightarrow> string \<Rightarrow> string" where
  "msg_header env msg name =
     (let val = get_meta msg (META_HTTP_HEADER_PREFIX @ name) in
      if val \<noteq> [] then val else get_meta msg (META_HTTP_HEADER_PREFIX @ he_lower env name))"

fun find_cookie :: "string \<Rightarrow> string list \<Rightarrow> string" where
  "find_cookie name [] = []"
| "find_cookie name (part # parts) =
     (let part = str_trim part in
      case str_find ''='' part of
        Some eq \<Rightarrow> (if take eq part = name then drop (eq + 1) part else find_cookie name parts)
      | None \<Rightarrow> find_cookie name parts)"

definition msg_cookie :: "http_env \<Rightarrow> message \<Rightarrow> string \<Rightarrow> string" where
  "msg_cookie env msg name =
     (let cookies = msg_header env msg ''cookie'' in
      if cookies = [] then [] else find_cookie name (split_on (CHR '';'') cookies))"

definition msg_var :: "message \<Rightarrow> string \<Rightarrow> string" where
  "msg_var msg name = get_meta msg (META_REQ_PARAM_PREFIX @ name)"

definition msg_query :: "message \<Rightarrow> string \<Rightarrow> string" where
  "msg_query msg name = get_meta msg (META_REQ_QUERY_PREFIX @ name)"

definition query_params :: "message \<Rightarrow> string \<Rightarrow> string option" where
  "query_params msg =
     map_of (rev (map (\<lambda>e. (drop (length META_REQ_QUERY_PREFIX) (me_key e), me_value e))
       (filter (\<lambda>e. starts_with META_REQ_QUERY_PREFIX (me_key e)) (msg_meta msg))))"

definition pagination_params :: "message \<Rightarrow> nat \<Rightarrow> nat \<times> nat \<times> nat" where
  "pagination_params msg default_page_size =
     (let page = max 1 (case parse_unsigned u64_max (msg_query msg ''page'') of Some n \<Rightarrow> n | None \<Rightarrow> 1);
          page_size = (case parse_unsigned u64_max (msg_query msg ''page_size'') of
                         Some n \<Rightarrow> (if n > 0 then n else default_page_size) | None \<Rightarrow> default_page_size);
          page_size = min 100 (max 1 page_size);
          offset = min u64_max ((page - 1) * page_size)
      in (page, page_size, offset))"

section \<open>What a request can say\<close>

lemma set_all_put_all: "set_all kvs m = meta.put_all m kvs"
  by (simp add: set_all_def meta.put_all_def)

text \<open>The lines of a header, in the order received.\<close>

definition header_lines :: "http_env \<Rightarrow> (string \<times> string) list \<Rightarrow> string \<Rightarrow> string list" where
  "header_lines env headers name = map snd (filter (\<lambda>(n, _). he_lower env n = name) headers)"

lemma map_of_add_field:
  "map_of (add_field name val fs) n =
     (if n = name then Some (case map_of fs n of None \<Rightarrow> val | Some joined \<Rightarrow> joined @ header_separator name @ val)
      else map_of fs n)"
  by (induction name val fs rule: add_field.induct) auto

lemma header_meta_lines:
  "map_of (header_meta env headers) name =
     (let lines = header_lines env headers name in
      if lines = [] then None else Some (join_with (header_separator name) lines))"
proof (induction headers rule: rev_induct)
  case (snoc h headers)
  obtain n v where h: "h = (n, v)" by fastforce
  have "header_meta env (headers @ [h]) = add_field (he_lower env n) v (header_meta env headers)"
    by (simp add: header_meta_def h)
  moreover have "header_lines env (headers @ [h]) name =
      header_lines env headers name @ (if he_lower env n = name then [v] else [])"
    by (simp add: header_lines_def h)
  ultimately show ?case
    using snoc.IH by (auto simp: map_of_add_field Let_def join_with_append)
qed (simp add: header_meta_def header_lines_def)

lemma distinct_add_field: "distinct (map fst fs) \<Longrightarrow> distinct (map fst (add_field name val fs)) \<and> set (map fst (add_field name val fs)) = insert name (set (map fst fs))"
  by (induction name val fs rule: add_field.induct) auto

lemma distinct_header_meta: "distinct (map fst (header_meta env headers))"
proof (induction headers rule: rev_induct)
  case (snoc h headers)
  then show ?case
    using distinct_add_field by (cases h) (auto simp: header_meta_def)
qed (simp add: header_meta_def)

lemma map_of_prefixed:
  "map_of (map (\<lambda>(n, v). (p @ n, v)) xs) key = (case strip_prefix p key of Some n \<Rightarrow> map_of xs n | None \<Rightarrow> None)"
proof (cases "strip_prefix p key")
  case None
  then have "\<forall>n. p @ n \<noteq> key"
    using strip_prefix_Some [of p key] by auto
  then have "map_of (map (\<lambda>(n, v). (p @ n, v)) xs) key = None"
    by (induction xs) auto
  then show ?thesis using None by simp
next
  case (Some n)
  then have "key = p @ n" by (simp add: strip_prefix_Some)
  moreover have "map_of (map (\<lambda>(n, v). (p @ n, v)) xs) (p @ n) = map_of xs n"
    by (induction xs) auto
  ultimately show ?thesis using Some by simp
qed

lemma map_of_rev_prefixed:
  "map_of (rev (map (\<lambda>(n, v). (p @ n, v)) xs)) key = (case strip_prefix p key of Some n \<Rightarrow> map_of (rev xs) n | None \<Rightarrow> None)"
  using map_of_prefixed [of p "rev xs" key] by (simp add: rev_map)

lemma query_keys_differ:
  "strip_prefix META_HTTP_QUERY_PREFIX key = Some n \<Longrightarrow> strip_prefix META_REQ_QUERY_PREFIX key = None"
  "strip_prefix META_HTTP_HEADER_PREFIX key = Some n \<Longrightarrow> strip_prefix META_HTTP_QUERY_PREFIX key = None"
  "strip_prefix META_HTTP_HEADER_PREFIX key = Some n \<Longrightarrow> strip_prefix META_REQ_QUERY_PREFIX key = None"
  by (drule strip_prefix_Some [THEN iffD1], simp add: strip_prefix_def request_key_defs)+

lemma map_of_query_meta:
  "map_of (rev (concat (map (\<lambda>(k, v). [(META_HTTP_QUERY_PREFIX @ k, v), (META_REQ_QUERY_PREFIX @ k, v)]) qs))) key =
     (case strip_prefix META_HTTP_QUERY_PREFIX key of
        Some n \<Rightarrow> map_of (rev qs) n
      | None \<Rightarrow> (case strip_prefix META_REQ_QUERY_PREFIX key of Some n \<Rightarrow> map_of (rev qs) n | None \<Rightarrow> None))"
proof (induction qs)
  case (Cons q qs)
  obtain k v where q: "q = (k, v)" by fastforce
  have "(META_HTTP_QUERY_PREFIX @ k = key) = (strip_prefix META_HTTP_QUERY_PREFIX key = Some k)"
    "(META_REQ_QUERY_PREFIX @ k = key) = (strip_prefix META_REQ_QUERY_PREFIX key = Some k)"
    by (auto simp: strip_prefix_Some)
  then show ?case
    using Cons.IH query_keys_differ(1) [of key]
    by (auto simp: q map_add_def split: option.splits)
qed (simp split: option.splits)

text \<open>What the meta of a request holds under a key, read off the head of the request.\<close>

definition request_header :: "http_env \<Rightarrow> (string \<times> string) list \<Rightarrow> string \<Rightarrow> string option" where
  "request_header env headers name =
     (let lines = header_lines env headers name in if lines = [] then None else Some (join_with (header_separator name) lines))"

definition request_query :: "http_env \<Rightarrow> string \<Rightarrow> string \<Rightarrow> string option" where
  "request_query env raw_query name = (if raw_query = [] then None else map_of (rev (he_form env raw_query)) name)"

definition request_meta :: "http_env \<Rightarrow> string \<Rightarrow> string \<Rightarrow> string \<Rightarrow> string \<Rightarrow> (string \<times> string) list \<Rightarrow> string \<Rightarrow> string option" where
  "request_meta env http_method path raw_query remote_addr headers key =
     (case strip_prefix ''http.header.'' key of Some name \<Rightarrow> request_header env headers name | None \<Rightarrow>
      case strip_prefix ''http.query.'' key of Some name \<Rightarrow> request_query env raw_query name | None \<Rightarrow>
      case strip_prefix ''req.query.'' key of Some name \<Rightarrow> request_query env raw_query name | None \<Rightarrow>
      map_of
        [(''http.method'', to_ascii_uppercase http_method), (''http.path'', path), (''http.raw_query'', raw_query),
         (''http.remote_addr'', remote_addr),
         (''http.content_type'', case request_header env headers ''content-type'' of Some v \<Rightarrow> v | None \<Rightarrow> []),
         (''http.host'', case request_header env headers ''host'' of Some v \<Rightarrow> v | None \<Rightarrow> []),
         (''req.action'', action_for_http_method (to_ascii_uppercase http_method)), (''req.resource'', path),
         (''req.client.ip'', remote_addr),
         (''req.content_type'', case request_header env headers ''content-type'' of Some v \<Rightarrow> v | None \<Rightarrow> [])] key)"

lemma map_of_header_meta: "map_of (rev (header_meta env headers)) name = request_header env headers name"
proof -
  have "map_of (rev (header_meta env headers)) = map_of (header_meta env headers)"
    using distinct_header_meta [of env headers] by (subst map_of_inject_set) (simp_all add: rev_map [symmetric])
  then show ?thesis
    by (simp add: header_meta_lines request_header_def)
qed

lemma joined_request_header:
  "joined_header (header_meta env headers) name = (case request_header env headers name of Some v \<Rightarrow> v | None \<Rightarrow> [])"
  by (simp add: joined_header_def header_meta_lines request_header_def Let_def)

text \<open>C36: A request says only what its head says.  The meta of the message built for a request is determined
  key by key: headers and query parameters, whatever their names, appear only below their prefixes, repeated
  header lines joined in order and the last of repeated parameters counting, while method, path, peer address and
  action come from the transport alone.\<close>

theorem request_meta_is_canonical:
  "meta_get (msg_meta (build_http_message env http_method path raw_query remote_addr headers)) key
     = request_meta env http_method path raw_query remote_addr headers key"
proof -
  have query: "map_of (rev (query_meta env raw_query)) key =
     (case strip_prefix META_HTTP_QUERY_PREFIX key of
        Some n \<Rightarrow> request_query env raw_query n
      | None \<Rightarrow> (case strip_prefix META_REQ_QUERY_PREFIX key of Some n \<Rightarrow> request_query env raw_query n | None \<Rightarrow> None))"
    using map_of_query_meta [of "he_form env raw_query" key]
    by (simp add: query_meta_def request_query_def split: option.splits)
  have header: "map_of (rev (map (\<lambda>(name, val). (META_HTTP_HEADER_PREFIX @ name, val)) (header_meta env headers))) key =
      (case strip_prefix META_HTTP_HEADER_PREFIX key of Some n \<Rightarrow> request_header env headers n | None \<Rightarrow> None)"
    by (simp add: map_of_rev_prefixed map_of_header_meta split: option.split)
  let ?transport = "\<lambda>m ct host. [(META_HTTP_METHOD, m), (META_HTTP_PATH, path), (META_HTTP_RAW_QUERY, raw_query),
     (META_HTTP_REMOTE_ADDR, remote_addr), (META_HTTP_CONTENT_TYPE, ct), (META_HTTP_HOST, host),
     (META_REQ_ACTION, action_for_http_method m), (META_REQ_RESOURCE, path), (META_REQ_CLIENT_IP, remote_addr),
     (META_REQ_CONTENT_TYPE, ct)]"
  have foreign: "map_of (rev (?transport m ct host)) (META_HTTP_HEADER_PREFIX @ n) = None"
    "map_of (rev (?transport m ct host)) (META_HTTP_QUERY_PREFIX @ n) = None"
    "map_of (rev (?transport m ct host)) (META_REQ_QUERY_PREFIX @ n) = None" for m ct host n
    by (simp_all add: request_key_defs)
  have swap: "map_of (rev (?transport m ct host)) = map_of (?transport m ct host)" for m ct host
    by (subst map_of_inject_set) (auto simp: request_key_defs)
  let ?m = "to_ascii_uppercase http_method"
  let ?line = "\<lambda>name. case request_header env headers name of Some v \<Rightarrow> v | None \<Rightarrow> []"
  let ?fixed = "?transport ?m (?line ''content-type'') (?line ''host'')"
  have built: "meta_get (msg_meta (build_http_message env http_method path raw_query remote_addr headers)) key =
     (case map_of (rev (query_meta env raw_query)) key of Some v \<Rightarrow> Some v | None \<Rightarrow>
      case map_of (rev (map (\<lambda>(name, val). (META_HTTP_HEADER_PREFIX @ name, val)) (header_meta env headers))) key of Some v \<Rightarrow> Some v | None \<Rightarrow>
      case map_of (rev ?fixed) key of Some v \<Rightarrow> Some v | None \<Rightarrow> meta_get [] key)"
    unfolding build_http_message_def Let_def message.simps set_all_put_all meta.get_put_all joined_request_header ..
  have spec: "request_meta env http_method path raw_query remote_addr headers key =
     (case strip_prefix META_HTTP_HEADER_PREFIX key of Some name \<Rightarrow> request_header env headers name | None \<Rightarrow>
      case strip_prefix META_HTTP_QUERY_PREFIX key of Some name \<Rightarrow> request_query env raw_query name | None \<Rightarrow>
      case strip_prefix META_REQ_QUERY_PREFIX key of Some name \<Rightarrow> request_query env raw_query name | None \<Rightarrow>
      map_of ?fixed key)"
    by (simp only: request_meta_def request_key_defs)
  show ?thesis
  proof (cases "strip_prefix META_HTTP_HEADER_PREFIX key")
    case (Some n)
    then have "key = META_HTTP_HEADER_PREFIX @ n" by (simp add: strip_prefix_Some)
    then have "map_of (rev ?fixed) key = None" by (simp only: foreign(1))
    then show ?thesis
      unfolding built spec query header using Some query_keys_differ(2,3) [OF Some] by (simp add: meta_get_def split: option.split)
  next
    case no_header: None
    show ?thesis
    proof (cases "strip_prefix META_HTTP_QUERY_PREFIX key")
      case (Some n)
      then have "key = META_HTTP_QUERY_PREFIX @ n" by (simp add: strip_prefix_Some)
      then have "map_of (rev ?fixed) key = None" by (simp only: foreign(2))
      then show ?thesis
        unfolding built spec query header using Some no_header by (simp add: meta_get_def split: option.split)
    next
      case no_query: None
      show ?thesis
      proof (cases "strip_prefix META_REQ_QUERY_PREFIX key")
        case (Some n)
        then have "key = META_REQ_QUERY_PREFIX @ n" by (simp add: strip_prefix_Some)
        then have "map_of (rev ?fixed) key = None" by (simp only: foreign(3))
        then show ?thesis
          unfolding built spec query header using Some no_header no_query by (simp add: meta_get_def split: option.split)
      next
        case None
        then show ?thesis
          unfolding built spec query header swap using no_header no_query by (simp add: meta_get_def del: map_of.simps split: option.split)
      qed
    qed
  qed
qed

end
