(* ===== verification/Http_Blocks.thy ===== *)
theory Http_Blocks
  imports Http_Request Flow_Plan Storage_Handler Fs_Paths
begin

text \<open>
  The blocks of an HTTP application: route patterns (\<^verbatim>\<open>crates/wafer-block/src/executor.rs\<close>), and the CORS, read-only
  guard, router and static file blocks (\<^verbatim>\<open>crates/wafer-block-cors\<close>, \<^verbatim>\<open>wafer-block-readonly-guard\<close>,
  \<^verbatim>\<open>wafer-block-router\<close>, \<^verbatim>\<open>wafer-block-web\<close>), each with its configuration at \<^verbatim>\<open>Init\<close> and its handler.  The parsed
  configuration, the answers of other blocks and the printing of numbers are parameters.
\<close>

section \<open>Configuration\<close>

text \<open>\<^verbatim>\<open>BlockConfig\<close> of \<^verbatim>\<open>crates/wafer-block/src/config.rs\<close>, the parsed payload of the event.\<close>

definition config_field :: "json option \<Rightarrow> string \<Rightarrow> json option" where
  "config_field config key = (case config of Some (Object obj) \<Rightarrow> map_of obj key | _ \<Rightarrow> None)"

definition config_str :: "json option \<Rightarrow> string \<Rightarrow> string" where
  "config_str config key = (case config_field config key of Some (String s) \<Rightarrow> s | _ \<Rightarrow> [])"

definition config_str_or :: "json option \<Rightarrow> string \<Rightarrow> string \<Rightarrow> string" where
  "config_str_or config key dflt = (let v = config_str config key in if v = [] then dflt else v)"

definition config_bool :: "json option \<Rightarrow> string \<Rightarrow> bool option" where
  "config_bool config key =
     (case config_field config key of
        Some (Bool b) \<Rightarrow> Some b
      | Some (String s) \<Rightarrow> (if s = ''true'' then Some True else if s = ''false'' then Some False else None)
      | _ \<Rightarrow> None)"

section \<open>Route patterns\<close>

definition is_placeholder :: "string \<Rightarrow> bool" where
  "is_placeholder seg \<longleftrightarrow> starts_with ''{'' seg \<and> ends_with ''}'' seg"

definition at_boundary :: "string \<Rightarrow> char \<Rightarrow> string \<Rightarrow> bool" where
  "at_boundary pre c s \<longleftrightarrow> length pre < length s \<and> starts_with pre s \<and> s ! length pre = c"

fun match_segments :: "string list \<Rightarrow> string list \<Rightarrow> bool" where
  "match_segments (pp # pps) (actual # actuals) =
     ((if is_placeholder pp then actual \<noteq> [] else pp = actual) \<and> match_segments pps actuals)"
| "match_segments _ _ = True"

definition match_path :: "string \<Rightarrow> string \<Rightarrow> bool" where
  "match_path pattern path =
     (if pattern = path then True
      else case strip_suffix ''/**'' pattern of
        Some pre \<Rightarrow> path = pre \<or> at_boundary pre slash path
      | None \<Rightarrow>
          length (split_on slash pattern) = length (split_on slash path)
          \<and> match_segments (split_on slash pattern) (split_on slash path))"

definition matches_pattern :: "string \<Rightarrow> string \<Rightarrow> bool" where
  "matches_pattern pattern kind =
     (if pattern = [] \<or> pattern = ''*'' then True
      else case str_find '':/'' pattern of
        Some idx \<Rightarrow>
          (case str_find '':/'' kind of
             None \<Rightarrow> False
           | Some msg_idx \<Rightarrow>
               \<not> (take idx pattern \<noteq> ''*'' \<and> take idx pattern \<noteq> take msg_idx kind)
               \<and> match_path (drop (idx + 1) pattern) (drop (msg_idx + 1) kind))
      | None \<Rightarrow>
          if pattern = kind then True
          else case strip_suffix ''.**'' pattern of
            Some pre \<Rightarrow> at_boundary pre dot kind
          | None \<Rightarrow>
              (case strip_suffix ''.*'' pattern of
                 Some pre \<Rightarrow> at_boundary pre dot kind \<and> dot \<notin> set (drop (length pre + 1) kind)
               | None \<Rightarrow> False))"

definition placeholder_name :: "string \<Rightarrow> string" where
  "placeholder_name seg = take (length seg - 2) (drop 1 seg)"

fun extract_vars :: "string list \<Rightarrow> string list \<Rightarrow> message \<Rightarrow> message" where
  "extract_vars (pp # pps) (actual # actuals) msg =
     extract_vars pps actuals
       (if is_placeholder pp then msg_set_meta msg (META_REQ_PARAM_PREFIX @ placeholder_name pp) actual else msg)"
| "extract_vars _ _ msg = msg"

definition extract_path_vars :: "string \<Rightarrow> string \<Rightarrow> message \<Rightarrow> message" where
  "extract_path_vars pattern path msg =
     (let pattern = (case strip_suffix ''/**'' pattern of Some p \<Rightarrow> p | None \<Rightarrow> pattern) in
      extract_vars (split_on slash pattern) (split_on slash path) msg)"

definition shape_of :: "string \<Rightarrow> string" where
  "shape_of seg =
     (case strip_prefix ''{'' seg of
        None \<Rightarrow> seg
      | Some rest \<Rightarrow>
          (case strip_suffix ''}'' rest of
             None \<Rightarrow> seg
           | Some inner \<Rightarrow> (if length inner > 3 \<and> ends_with ''...'' inner then ''{...}'' else ''{}'')))"

definition route_shape :: "string \<Rightarrow> string" where
  "route_shape pattern =
     (if ends_with ''/**'' pattern \<or> list_all (\<lambda>s. shape_of s = s) (split_on slash pattern) then pattern
      else join_with ''/'' (map shape_of (split_on slash pattern)))"

section \<open>The CORS block\<close>

definition DEFAULT_MAX_AGE_SECONDS :: nat where "DEFAULT_MAX_AGE_SECONDS = 86400"
definition DEFAULT_ALLOWED_METHODS :: string where "DEFAULT_ALLOWED_METHODS = ''GET, POST, PUT, PATCH, DELETE, OPTIONS''"
definition DEFAULT_ALLOWED_HEADERS :: string where "DEFAULT_ALLOWED_HEADERS = ''Content-Type, Authorization, X-Requested-With''"

datatype origin_match = Listed | Wildcard

definition is_vary :: "string \<Rightarrow> bool" where
  "is_vary key = (case strip_prefix META_RESP_HEADER_PREFIX key of Some name \<Rightarrow> eq_ignore_ascii_case name ''vary'' | None \<Rightarrow> False)"

definition vary_fields :: "meta_entry list \<Rightarrow> string list" where
  "vary_fields meta =
     filter (\<lambda>f. f \<noteq> []) (map str_trim (concat (map (\<lambda>m. split_on (CHR '','') (me_value m)) (filter (\<lambda>m. is_vary (me_key m)) meta))))"

definition vary_on_origin :: "message \<Rightarrow> message" where
  "vary_on_origin msg =
     (let found = vary_fields (msg_meta msg);
          found = (if list_ex (\<lambda>f. f = ''*'' \<or> eq_ignore_ascii_case f ''origin'') found then found else found @ [''Origin'']) in
      msg_set_meta (msg\<lparr>msg_meta := filter (\<lambda>m. \<not> is_vary (me_key m)) (msg_meta msg)\<rparr>)
        (META_RESP_HEADER_PREFIX @ ''Vary'') (join_with '', '' found))"

definition match_origin :: "string \<Rightarrow> string \<Rightarrow> origin_match option" where
  "match_origin allowed origin =
     (if origin = [] then None
      else if str_trim allowed = ''*'' then Some Wildcard
      else if list_ex (\<lambda>o'. str_trim o' = origin) (split_on (CHR '','') allowed) then Some Listed
      else None)"

record cors_block =
  cb_allowed_origins :: "string option"

definition ALLOW_ORIGIN :: string where "ALLOW_ORIGIN = ''resp.header.Access-Control-Allow-Origin''"
definition ALLOW_METHODS :: string where "ALLOW_METHODS = ''resp.header.Access-Control-Allow-Methods''"
definition ALLOW_HEADERS :: string where "ALLOW_HEADERS = ''resp.header.Access-Control-Allow-Headers''"
definition ALLOW_CREDENTIALS :: string where "ALLOW_CREDENTIALS = ''resp.header.Access-Control-Allow-Credentials''"
definition MAX_AGE :: string where "MAX_AGE = ''resp.header.Access-Control-Max-Age''"

definition cors_admit :: "string option \<Rightarrow> string \<Rightarrow> message \<Rightarrow> message \<times> bool" where
  "cors_admit origins origin msg =
     (case origins of
        None \<Rightarrow> (msg, False)
      | Some allowed \<Rightarrow>
          (let msg = vary_on_origin msg in
           case match_origin allowed origin of
             Some Listed \<Rightarrow> (msg_set_meta msg ALLOW_ORIGIN origin, True)
           | Some Wildcard \<Rightarrow> (msg_set_meta msg ALLOW_ORIGIN origin, False)
           | None \<Rightarrow> (msg, False)))"

definition or_default :: "string option \<Rightarrow> string \<Rightarrow> string" where
  "or_default v d = (case v of Some s \<Rightarrow> s | None \<Rightarrow> d)"

definition cors_message :: "http_env \<Rightarrow> (string \<Rightarrow> string option) \<Rightarrow> cors_block \<Rightarrow> message \<Rightarrow> message" where
  "cors_message env config_get block msg =
     (let origins = (case config_get ''allowed_origins'' of Some o' \<Rightarrow> Some o' | None \<Rightarrow> cb_allowed_origins block);
          methods = or_default (config_get ''allowed_methods'') DEFAULT_ALLOWED_METHODS;
          headers = or_default (config_get ''allowed_headers'') DEFAULT_ALLOWED_HEADERS;
          max_age = or_default (config_get ''max_age'') (show_nat DEFAULT_MAX_AGE_SECONDS);
          (msg, credentials) = cors_admit origins (msg_header env msg ''Origin'') msg;
          msg = msg_set_meta (msg_set_meta msg ALLOW_METHODS methods) ALLOW_HEADERS headers;
          msg = (if credentials then msg_set_meta msg ALLOW_CREDENTIALS ''true'' else msg)
      in msg_set_meta msg MAX_AGE max_age)"

definition cors_handle :: "http_env \<Rightarrow> (string \<Rightarrow> string option) \<Rightarrow> cors_block \<Rightarrow> message \<Rightarrow> output_stream" where
  "cors_handle env config_get block msg =
     (let out = cors_message env config_get block msg in
      if get_meta out ''http.method'' = ''OPTIONS''
      then halt [] (msg_meta (msg_set_meta out ''resp.status'' ''204''))
      else continue_with out)"

definition cors_init :: "json option \<Rightarrow> cors_block \<Rightarrow> cors_block" where
  "cors_init config block =
     (let origins =
        (case config_field config ''allowed_origins'' of
           Some (String s) \<Rightarrow> Some s
         | Some (Array arr) \<Rightarrow>
             (let strs = List.map_filter (\<lambda>v. case v of String s \<Rightarrow> Some s | _ \<Rightarrow> None) arr in
              if strs = [] then None else Some (join_with '','' strs))
         | _ \<Rightarrow> None)
      in case origins of
           Some v \<Rightarrow> (if str_trim v \<noteq> [] \<and> cb_allowed_origins block = None then block\<lparr>cb_allowed_origins := Some v\<rparr> else block)
         | None \<Rightarrow> block)"

section \<open>The read-only guard\<close>

definition parse_readonly :: "string option \<Rightarrow> wafer_error + bool" where
  "parse_readonly v =
     (case v of
        None \<Rightarrow> Inr False
      | Some s \<Rightarrow>
          if s = [] \<or> s = ''false'' \<or> s = ''0'' then Inr False
          else if s = ''true'' \<or> s = ''1'' then Inr True
          else Inl (wafer_error_new InvalidArgument
                 (Text ''wafer-run/readonly-guard: `readonly` must be true, 1, false or 0, got {other:?}'' [A_str s])))"

definition is_read :: "message \<Rightarrow> bool" where
  "is_read msg \<longleftrightarrow>
     msg_action msg = RETRIEVE \<or> msg_action msg = ''list''
     \<or> (msg_action msg = EXECUTE \<and> eq_ignore_ascii_case (get_meta msg META_HTTP_METHOD) ''OPTIONS'')"

definition readonly_handle :: "(string \<Rightarrow> string option) \<Rightarrow> message \<Rightarrow> output_stream" where
  "readonly_handle config_get msg =
     (case parse_readonly (config_get ''readonly'') of
        Inl e \<Rightarrow> out_error e
      | Inr readonly \<Rightarrow>
          if \<not> readonly \<or> is_read msg then continue_with msg
          else out_error (wafer_error_new PermissionDenied
                 (Text ''This instance is in read-only mode. Write operations are not allowed.'' [])))"

definition readonly_init :: "plan_env \<Rightarrow> json option \<Rightarrow> wafer_error + unit" where
  "readonly_init pe config =
     (case config_field config ''readonly'' of
        None \<Rightarrow> Inr ()
      | Some v \<Rightarrow>
          (case config_text pe v of
             Some s \<Rightarrow> and_then (parse_readonly (Some s)) (\<lambda>_. Inr ())
           | None \<Rightarrow> Inl (wafer_error_new InvalidArgument
                       (Text ''wafer-run/readonly-guard: `readonly` must be true, 1, false or 0, got {other}'' [A_json v]))))"

section \<open>The router\<close>

definition normalize_action :: "http_env \<Rightarrow> string \<Rightarrow> string" where
  "normalize_action env s = (case try_action_for_http_method s of Some a \<Rightarrow> a | None \<Rightarrow> he_lower env s)"

record route =
  ro_path :: string
  ro_actions :: "string list"
  ro_raw_actions :: "string list"
  ro_block :: string

record route_config_error =
  rx_index :: "nat option"
  rx_reason :: msg_text

definition required_field :: "json \<Rightarrow> string \<Rightarrow> msg_text + string" where
  "required_field entry key =
     (case config_field (Some entry) key of
        Some (String s) \<Rightarrow> (if s \<noteq> [] then Inr s else Inl (Text ''`{key}` must be a non-empty string in {entry}'' [A_str key, A_json entry]))
      | _ \<Rightarrow> Inl (Text ''`{key}` must be a non-empty string in {entry}'' [A_str key, A_json entry]))"

fun strings_of :: "json list \<Rightarrow> string list option" where
  "strings_of [] = Some []"
| "strings_of (String s # vs) = map_option (Cons s) (strings_of vs)"
| "strings_of _ = None"

definition route_action_list :: "json \<Rightarrow> json \<Rightarrow> msg_text + string list" where
  "route_action_list entry v =
     (case v of
        Array arr \<Rightarrow> (case strings_of arr of
                         Some ss \<Rightarrow> Inr ss
                       | None \<Rightarrow> Inl (Text ''`actions`/`methods` must be an array of strings in {entry}'' [A_json entry]))
      | _ \<Rightarrow> Inl (Text ''`actions`/`methods` must be an array of strings in {entry}'' [A_json entry]))"

definition parse_route :: "http_env \<Rightarrow> json \<Rightarrow> msg_text + route" where
  "parse_route env entry =
     (if \<not> (case entry of Object _ \<Rightarrow> True | _ \<Rightarrow> False)
      then Inl (Text ''expected an object, got {entry}'' [A_json entry])
      else
        and_then (required_field entry ''path'') (\<lambda>path.
        and_then (required_field entry ''block'') (\<lambda>block.
        and_then
          (case (config_field (Some entry) ''actions'', config_field (Some entry) ''methods'') of
             (Some _, Some _) \<Rightarrow> Inl (Text ''`actions` and `methods` are the same setting; give one, in {entry}'' [A_json entry])
           | (Some v, None) \<Rightarrow> route_action_list entry v
           | (None, Some v) \<Rightarrow> route_action_list entry v
           | (None, None) \<Rightarrow> Inr []) (\<lambda>raw.
        Inr \<lparr>ro_path = path, ro_actions = map (normalize_action env) raw, ro_raw_actions = raw, ro_block = block\<rparr>))))"

definition parse_routes :: "http_env \<Rightarrow> json \<Rightarrow> route_config_error + route list" where
  "parse_routes env config =
     (case config_field (Some config) ''routes'' of
        None \<Rightarrow> Inr []
      | Some (Array found) \<Rightarrow>
          traverse (\<lambda>(i, entry). case parse_route env entry of
                      Inl reason \<Rightarrow> Inl \<lparr>rx_index = Some i, rx_reason = reason\<rparr>
                    | Inr r \<Rightarrow> Inr r) (enumerate 0 found)
      | Some routes \<Rightarrow> Inl \<lparr>rx_index = None, rx_reason = Text ''expected a JSON array, got {routes}'' [A_json routes]\<rparr>)"

definition route_accepts :: "route \<Rightarrow> string \<Rightarrow> string \<Rightarrow> bool" where
  "route_accepts r action path \<longleftrightarrow> (ro_actions r = [] \<or> action \<in> set (ro_actions r)) \<and> match_path (ro_path r) path"

definition router_handle :: "(string \<Rightarrow> message \<Rightarrow> output_stream) \<Rightarrow> route list option \<Rightarrow> message \<Rightarrow> output_stream" where
  "router_handle call_block routes msg =
     (case List.find (\<lambda>r. route_accepts r (msg_action msg) (msg_path msg)) (case routes of Some rs \<Rightarrow> rs | None \<Rightarrow> []) of
        Some r \<Rightarrow> call_block (ro_block r) (extract_path_vars (ro_path r) (msg_path msg) msg)
      | None \<Rightarrow> out_error (wafer_error_new NotFound (Text ''no matching route'' [])))"

definition route_refs :: "http_env \<Rightarrow> json \<Rightarrow> (string \<times> string \<times> string option) list" where
  "route_refs env config =
     map (\<lambda>r. (ro_block r, ''route '' @ ro_path r,
               if ro_raw_actions r = [] then None else Some (join_with '' '' (ro_raw_actions r))))
       (case parse_routes env config of Inr rs \<Rightarrow> rs | Inl _ \<Rightarrow> [])"

definition prefixed_reason :: "route_config_error \<Rightarrow> msg_text" where
  "prefixed_reason e =
     (case rx_reason e of Text format args \<Rightarrow>
        (case rx_index e of
           Some i \<Rightarrow> Text (''wafer-run/router: routes[{i}]: '' @ format) (A_nat i # args)
         | None \<Rightarrow> Text (''wafer-run/router: routes: '' @ format) args))"

definition router_init :: "http_env \<Rightarrow> json option \<Rightarrow> route list option \<Rightarrow> wafer_error + route list option" where
  "router_init env config routes =
     (case routes of
        Some rs \<Rightarrow> Inr (Some rs)
      | None \<Rightarrow>
          (case parse_routes env (case config of Some c \<Rightarrow> c | None \<Rightarrow> Null) of
             Inl e \<Rightarrow> Inl (wafer_error_new InvalidArgument (prefixed_reason e))
           | Inr rs \<Rightarrow> Inr (Some rs)))"

section \<open>The static file block\<close>

definition DEFAULT_WEB_ROOT :: string where "DEFAULT_WEB_ROOT = ''public''"
definition DEFAULT_WEB_PREFIX :: string where "DEFAULT_WEB_PREFIX = ''''"
definition DEFAULT_WEB_SPA :: bool where "DEFAULT_WEB_SPA = False"
definition DEFAULT_WEB_INDEX :: string where "DEFAULT_WEB_INDEX = ''index.html''"
definition DEFAULT_CACHE_MAX_AGE :: nat where "DEFAULT_CACHE_MAX_AGE = 3600"
definition DEFAULT_IMMUTABLE_MAX_AGE :: nat where "DEFAULT_IMMUTABLE_MAX_AGE = 31536000"
definition DEFAULT_CACHE_MODE :: string where "DEFAULT_CACHE_MODE = ''normal''"

datatype cache_mode = Normal_cache | No_cache

record web_config =
  wc_folder :: string
  wc_prefix :: string
  wc_spa :: bool
  wc_index_file :: string
  wc_cache_max_age :: nat
  wc_immutable_max_age :: nat
  wc_cache_mode :: cache_mode

definition web_config_default :: web_config where
  "web_config_default =
     \<lparr>wc_folder = DEFAULT_WEB_ROOT, wc_prefix = DEFAULT_WEB_PREFIX, wc_spa = DEFAULT_WEB_SPA,
      wc_index_file = DEFAULT_WEB_INDEX, wc_cache_max_age = DEFAULT_CACHE_MAX_AGE,
      wc_immutable_max_age = DEFAULT_IMMUTABLE_MAX_AGE, wc_cache_mode = Normal_cache\<rparr>"

definition normalize_web_prefix :: "string \<Rightarrow> wafer_error + string" where
  "normalize_web_prefix pre =
     (if pre = [] then Inr []
      else if \<not> starts_with ''/'' pre
      then Inl (wafer_error_new InvalidArgument (Text ''wafer-run/web: `web_prefix` must start with `/`, got {prefix:?}'' [A_str pre]))
      else Inr (rev (dropWhile (\<lambda>c. c = slash) (rev pre))))"

definition parse_u32_or :: "string \<Rightarrow> nat \<Rightarrow> nat" where
  "parse_u32_or s dflt = (case parse_unsigned (2 ^ 32 - 1) s of Some n \<Rightarrow> n | None \<Rightarrow> dflt)"

definition from_block_config :: "json option \<Rightarrow> wafer_error + web_config" where
  "from_block_config config =
     and_then (normalize_web_prefix (config_str config ''web_prefix'')) (\<lambda>pre.
     Inr \<lparr>wc_folder = config_str_or config ''web_root'' DEFAULT_WEB_ROOT, wc_prefix = pre,
          wc_spa = (case config_bool config ''web_spa'' of Some b \<Rightarrow> b | None \<Rightarrow> DEFAULT_WEB_SPA),
          wc_index_file = config_str_or config ''web_index'' DEFAULT_WEB_INDEX,
          wc_cache_max_age = parse_u32_or (config_str config ''cache_max_age'') DEFAULT_CACHE_MAX_AGE,
          wc_immutable_max_age = parse_u32_or (config_str config ''immutable_max_age'') DEFAULT_IMMUTABLE_MAX_AGE,
          wc_cache_mode = (if config_str_or config ''cache_mode'' DEFAULT_CACHE_MODE = ''no-cache'' then No_cache else Normal_cache)\<rparr>)"

definition strip_web_prefix :: "string \<Rightarrow> string \<Rightarrow> string option" where
  "strip_web_prefix path pre =
     (case strip_prefix pre path of
        Some rest \<Rightarrow> (if rest = [] \<or> starts_with ''/'' rest then Some rest else None)
      | None \<Rightarrow> None)"

fun clean_loop :: "string list \<Rightarrow> string list \<Rightarrow> string list" where
  "clean_loop [] parts = parts"
| "clean_loop (seg # segs) parts =
     (if seg = [] \<or> seg = ''.'' then clean_loop segs parts
      else if seg = ''..'' then clean_loop segs (butlast parts)
      else clean_loop segs (parts @ [seg]))"

definition clean_path :: "string \<Rightarrow> string" where
  "clean_path p = slash # join_with ''/'' (clean_loop (split_on slash p) [])"

definition file_stem :: "string \<Rightarrow> string option" where
  "file_stem path =
     (case file_name path of
        None \<Rightarrow> None
      | Some name \<Rightarrow>
          (case rev (split_on dot name) of
             ext # before \<Rightarrow> (if before = [] \<or> before = [[]] then Some name else Some (join_with ''.'' (rev before)))
           | [] \<Rightarrow> Some name))"

definition hash_like :: "string \<Rightarrow> bool" where
  "hash_like part \<longleftrightarrow>
     6 \<le> length part \<and> length part \<le> 32 \<and> list_all is_ascii_alphanumeric part
     \<and> list_ex is_ascii_digit part \<and> list_ex (\<lambda>c. is_ascii_alphanumeric c \<and> \<not> is_ascii_digit c) part"

definition is_hashed_asset :: "string \<Rightarrow> bool" where
  "is_hashed_asset key \<longleftrightarrow>
     list_ex (\<lambda>dir. sublist dir key) [''/assets/'', ''/_next/static/'', ''/static/js/'', ''/static/css/'']
     \<or> (case file_stem key of
          Some stem \<Rightarrow> list_ex hash_like (concat (map (split_on (CHR ''-'')) (split_on dot stem)))
        | None \<Rightarrow> False)"

definition cache_control :: "string \<Rightarrow> string \<Rightarrow> web_config \<Rightarrow> string" where
  "cache_control key content_type config =
     (if wc_cache_mode config = No_cache then ''no-cache''
      else if starts_with ''text/html'' content_type then ''no-cache''
      else if is_hashed_asset key then ''public, max-age='' @ show_nat (wc_immutable_max_age config) @ '', immutable''
      else ''public, max-age='' @ show_nat (wc_cache_max_age config))"

text \<open>The storage client, with the keys it was asked for.\<close>

type_synonym store_get = "string \<Rightarrow> string \<Rightarrow> wafer_error + bytes \<times> object_info"

definition try_serve_static :: "store_get \<Rightarrow> string \<Rightarrow> string \<Rightarrow> string \<Rightarrow> (string \<times> string) list \<times> (wafer_error + bytes \<times> object_info)" where
  "try_serve_static get folder key index_file =
     (case get folder key of
        Inr r \<Rightarrow> ([(folder, key)], Inr r)
      | Inl e \<Rightarrow>
          if we_code e \<noteq> NotFound then ([(folder, key)], Inl e)
          else if key = [] \<or> extension key \<noteq> None
          then ([(folder, key)], Inl (wafer_error_new NotFound (Text ''static asset not found: {key}'' [A_str key])))
          else
            (let html_key = key @ ''.html'' in
             case get folder html_key of
               Inr r \<Rightarrow> ([(folder, key), (folder, html_key)], Inr r)
             | Inl e \<Rightarrow>
                 if we_code e \<noteq> NotFound then ([(folder, key), (folder, html_key)], Inl e)
                 else ([(folder, key), (folder, html_key), (folder, key @ ''/'' @ index_file)], get folder (key @ ''/'' @ index_file))))"

definition serve_index_spa :: "store_get \<Rightarrow> web_config \<Rightarrow> (string \<times> string) list \<times> output_stream" where
  "serve_index_spa get config =
     ([(wc_folder config, wc_index_file config)],
      case get (wc_folder config) (wc_index_file config) of
        Inr (data, _) \<Rightarrow>
          respond_with_meta data
            [\<lparr>me_key = META_RESP_CONTENT_TYPE, me_value = ''text/html; charset=utf-8''\<rparr>,
             \<lparr>me_key = META_RESP_HEADER_PREFIX @ ''Cache-Control'', me_value = ''no-cache''\<rparr>]
      | Inl _ \<Rightarrow> out_error (wafer_error_new NotFound (Text ''Index file not found'' [])))"

definition web_not_found :: output_stream where
  "web_not_found = out_error (wafer_error_new NotFound (Text ''Not found'' []))"

definition is_dotfile :: "string \<Rightarrow> bool" where
  "is_dotfile seg \<longleftrightarrow> starts_with ''.'' seg \<and> length seg > 1 \<and> seg \<noteq> ''.well-known''"

definition serve_file :: "store_get \<Rightarrow> web_config \<Rightarrow> message \<Rightarrow> (string \<times> string) list \<times> output_stream" where
  "serve_file get config msg =
     (case strip_web_prefix (msg_path msg) (wc_prefix config) of
        None \<Rightarrow> ([], web_not_found)
      | Some req_path \<Rightarrow>
          (let req_path = (if req_path = [] \<or> req_path = ''/'' then slash # wc_index_file config else req_path);
               clean = clean_path req_path in
           if list_ex is_dotfile (split_on slash clean) then ([], web_not_found)
           else
             (let key = dropWhile (\<lambda>c. c = slash) clean;
                  key = (if key = [] then wc_index_file config else key) in
              case try_serve_static get (wc_folder config) key (wc_index_file config) of
                (asked, Inr (data, info)) \<Rightarrow>
                  (let content_type =
                         (if oi_content_type info = [] \<or> oi_content_type info = UNKNOWN then mime_for_ext key else oi_content_type info) in
                   (asked, respond_with_meta data
                      [\<lparr>me_key = META_RESP_CONTENT_TYPE, me_value = content_type\<rparr>,
                       \<lparr>me_key = META_RESP_HEADER_PREFIX @ ''Cache-Control'', me_value = cache_control key content_type config\<rparr>]))
              | (asked, Inl e) \<Rightarrow>
                  (if we_code e = NotFound \<and> wc_spa config
                   then (asked @ fst (serve_index_spa get config), snd (serve_index_spa get config))
                   else (asked, out_error e)))))"

definition web_handle :: "store_get \<Rightarrow> web_config option \<Rightarrow> message \<Rightarrow> (string \<times> string) list \<times> output_stream" where
  "web_handle get config msg =
     (if msg_action msg \<noteq> [] \<and> msg_action msg \<noteq> ''retrieve''
      then ([], out_error (wafer_error_new Unimplemented (Text ''Only retrieve action is supported'' [])))
      else serve_file get (case config of Some c \<Rightarrow> c | None \<Rightarrow> web_config_default) msg)"

definition web_init :: "json option \<Rightarrow> web_config option \<Rightarrow> wafer_error + web_config option" where
  "web_init config current =
     and_then (from_block_config config) (\<lambda>c. Inr (case current of Some old \<Rightarrow> Some old | None \<Rightarrow> Some c))"

section \<open>Routing\<close>

lemma get_meta_set [simp]:
  "get_meta (msg_set_meta msg key val) key' = (if key' = key then val else get_meta msg key')"
  by (simp add: get_meta_def msg_set_meta_def meta.get_put)

definition placeholders :: "string list \<Rightarrow> string list" where
  "placeholders segs = map placeholder_name (filter is_placeholder segs)"

lemma extract_vars_other:
  "key \<notin> (\<lambda>n. META_REQ_PARAM_PREFIX @ n) ` set (placeholders pps) \<Longrightarrow> get_meta (extract_vars pps actuals msg) key = get_meta msg key"
  by (induction pps actuals msg rule: extract_vars.induct) (auto simp: placeholders_def)

text \<open>A pattern with its placeholders replaced by path variables.\<close>

definition rebuilt :: "message \<Rightarrow> string list \<Rightarrow> string list" where
  "rebuilt msg pps = map (\<lambda>seg. if is_placeholder seg then msg_var msg (placeholder_name seg) else seg) pps"

lemma extract_vars_rebuilt:
  "length pps = length actuals \<Longrightarrow> match_segments pps actuals \<Longrightarrow> distinct (placeholders pps)
     \<Longrightarrow> rebuilt (extract_vars pps actuals msg) pps = actuals"
proof (induction pps actuals msg rule: extract_vars.induct)
  case (1 pp pps actual actuals msg)
  let ?msg = "if is_placeholder pp then msg_set_meta msg (META_REQ_PARAM_PREFIX @ placeholder_name pp) actual else msg"
  have rest: "rebuilt (extract_vars pps actuals ?msg) pps = actuals"
    by (rule "1.IH") (use "1.prems" in \<open>auto simp: placeholders_def split: if_splits\<close>)
  have first: "(if is_placeholder pp then msg_var (extract_vars pps actuals ?msg) (placeholder_name pp) else pp) = actual"
  proof (cases "is_placeholder pp")
    case True
    then have "META_REQ_PARAM_PREFIX @ placeholder_name pp \<notin> (\<lambda>n. META_REQ_PARAM_PREFIX @ n) ` set (placeholders pps)"
      using "1.prems"(3) by (auto simp: placeholders_def)
    then show ?thesis
      using True by (simp add: msg_var_def extract_vars_other)
  qed (use "1.prems"(2) in simp)
  show ?case
    using rest first by (simp add: rebuilt_def)
qed (simp_all add: rebuilt_def)

lemma match_segments_same: "match_segments pps pps \<longleftrightarrow> (\<forall>pp \<in> set pps. is_placeholder pp \<longrightarrow> pp \<noteq> [])"
  by (induction pps) auto

lemma is_placeholder_nonempty: "is_placeholder pp \<Longrightarrow> pp \<noteq> []"
  by (auto simp: is_placeholder_def)

lemma match_path_rebuilt:
  assumes "match_path pattern path" and "strip_suffix ''/**'' pattern = None" and "distinct (placeholders (split_on slash pattern))"
  shows "join_with ''/'' (rebuilt (extract_path_vars pattern path msg) (split_on slash pattern)) = path"
proof -
  have "length (split_on slash pattern) = length (split_on slash path) \<and> match_segments (split_on slash pattern) (split_on slash path)"
    using assms(1,2) by (auto simp: match_path_def match_segments_same dest: is_placeholder_nonempty split: if_splits)
  then have "rebuilt (extract_path_vars pattern path msg) (split_on slash pattern) = split_on slash path"
    using extract_vars_rebuilt assms(2,3) by (simp add: extract_path_vars_def)
  then show ?thesis
    by (simp add: split_on_join)
qed

lemma extract_path_vars_other:
  "\<not> starts_with META_REQ_PARAM_PREFIX key \<Longrightarrow> get_meta (extract_path_vars pattern path msg) key = get_meta msg key"
  unfolding extract_path_vars_def Let_def by (rule extract_vars_other) auto


text \<open>A request for one item, routed by a template.\<close>

definition sample_routes :: "route list" where
  "sample_routes =
     [\<lparr>ro_path = ''/users'', ro_actions = [''retrieve''], ro_raw_actions = [''GET''], ro_block = ''list-users''\<rparr>,
      \<lparr>ro_path = ''/users/{id}'', ro_actions = [], ro_raw_actions = [], ro_block = ''get-user''\<rparr>]"

definition sample_get :: message where
  "sample_get = \<lparr>msg_kind = ''GET:/users/42'', msg_meta = [\<lparr>me_key = ''req.action'', me_value = ''retrieve''\<rparr>, \<lparr>me_key = ''req.resource'', me_value = ''/users/42''\<rparr>]\<rparr>"



section \<open>Cross-origin requests\<close>

lemma ws_len_in_prefix:
  assumes "ws_len_in ws (s @ t) = 0" and "[] \<notin> set ws"
  shows "ws_len_in ws s = 0"
proof (cases s)
  case (Cons c s')
  have "List.find (\<lambda>w. starts_with w (s @ t)) ws = None"
    using assms Cons by (auto simp: ws_len_in_def find_Some_iff split: if_splits option.splits) (metis nth_mem)
  then have "List.find (\<lambda>w. starts_with w s) ws = None"
    by (auto simp: find_None_iff starts_with_prefix prefix_def)
  then show ?thesis
    using assms(1) Cons by (simp add: ws_len_in_def split: if_splits)
qed (simp add: ws_len_in_def)

lemma trim_start_trimmed: "trim_start (str_trim s) = str_trim s"
proof -
  have none: "ws_len_in ws_multibyte (trim_start s) = 0"
    by (simp add: trim_start_def trim_by_enough)
  obtain q where "rev (trim_start s) = q @ rev (trim_end (trim_start s))"
    using trim_by_suffix unfolding trim_end_def by (metis rev_rev_ident)
  then have "trim_start s = str_trim s @ rev q"
    unfolding str_trim_def by (metis rev_append rev_rev_ident)
  then have "ws_len_in ws_multibyte (str_trim s) = 0"
    using none ws_len_in_prefix [of ws_multibyte "str_trim s"] ws_multibyte_hd by metis
  then show ?thesis
    by (simp add: trim_start_def trim_by_no_ws)
qed

lemma trim_end_trimmed: "trim_end (str_trim s) = str_trim s"
proof -
  have "ws_len_in (map rev ws_multibyte) (rev (str_trim s)) = 0"
    by (simp add: str_trim_def trim_end_def trim_by_enough)
  then show ?thesis
    by (simp add: trim_end_def trim_by_no_ws)
qed

lemma str_trim_trimmed: "str_trim (str_trim s) = str_trim s"
  by (simp only: str_trim_def [of "str_trim s"] trim_start_trimmed trim_end_trimmed)

lemma str_trim_space: "str_trim (CHR '' '' # s) = str_trim s"
  by (simp add: str_trim_def trim_start_def ws_len_in_def is_ws_byte_def)

lemma str_trim_subset: "set (str_trim s) \<subseteq> set s"
  using str_trim_sublist [of s] by (metis Un_upper1 Un_upper2 le_supI2 set_append subset_trans)

definition field_list :: "string list \<Rightarrow> bool" where
  "field_list fs \<longleftrightarrow> (\<forall>f \<in> set fs. f \<noteq> [] \<and> str_trim f = f \<and> CHR '','' \<notin> set f)"

text \<open>A list of fields printed with \<^verbatim>\<open>join(", ")\<close> is read back by splitting at the commas.\<close>

lemma fields_round_trip:
  "field_list fs \<Longrightarrow> filter (\<lambda>f. f \<noteq> []) (map str_trim (split_on (CHR '','') (join_with '', '' fs))) = fs"
proof (induction "'', ''" fs rule: join_with.induct)
  case (3 s t ss)
  have "split_on (CHR '','') (s @ '', '' @ join_with '', '' (t # ss))
      = s # split_on (CHR '','') (CHR '' '' # join_with '', '' (t # ss))"
    using 3 by (simp add: field_list_def split_on_append)
  moreover have "map str_trim (split_on (CHR '','') (CHR '' '' # u)) = map str_trim (split_on (CHR '','') u)" for u
    by (cases "split_on (CHR '','') u") (simp_all add: str_trim_space)
  ultimately show ?case
    using 3 by (simp add: field_list_def)
qed (simp_all add: field_list_def split_on_single)

lemma vary_fields_field_list: "field_list (vary_fields meta)"
  using split_on_no_delim str_trim_subset
  by (fastforce simp: field_list_def vary_fields_def str_trim_trimmed)

lemma vary_fields_append: "vary_fields (m @ m') = vary_fields m @ vary_fields m'"
  by (simp add: vary_fields_def)

lemma vary_fields_none: "(\<And>m. m \<in> set meta \<Longrightarrow> \<not> is_vary (me_key m)) \<Longrightarrow> vary_fields meta = []"
  by (simp add: vary_fields_def filter_empty_conv)

lemma vary_fields_set_other: "\<not> is_vary key \<Longrightarrow> vary_fields (meta_set meta key v) = vary_fields meta"
  by (induction meta) (simp_all add: vary_fields_def)

lemma meta_set_fresh: "(\<And>m. m \<in> set meta \<Longrightarrow> me_key m \<noteq> key) \<Longrightarrow> meta_set meta key v = meta @ [\<lparr>me_key = key, me_value = v\<rparr>]"
  by (induction meta) auto

lemma is_vary_key [simp]: "is_vary (META_RESP_HEADER_PREFIX @ ''Vary'')"
  by code_simp

definition varies_by_origin :: "string list \<Rightarrow> bool" where
  "varies_by_origin fs \<longleftrightarrow> list_ex (\<lambda>f. f = ''*'' \<or> eq_ignore_ascii_case f ''origin'') fs"

text \<open>The header keeps the fields of the response so far and names the origin.\<close>

lemma vary_on_origin_fields:
  "vary_fields (msg_meta (vary_on_origin msg))
     = (let fs = vary_fields (msg_meta msg) in if varies_by_origin fs then fs else fs @ [''Origin''])"
proof -
  let ?rest = "filter (\<lambda>m. \<not> is_vary (me_key m)) (msg_meta msg)"
  let ?found = "let fs = vary_fields (msg_meta msg) in if varies_by_origin fs then fs else fs @ [''Origin'']"
  have fresh: "meta_set ?rest (META_RESP_HEADER_PREFIX @ ''Vary'') v = ?rest @ [\<lparr>me_key = META_RESP_HEADER_PREFIX @ ''Vary'', me_value = v\<rparr>]" for v
    by (rule meta_set_fresh) auto
  have "field_list [''Origin'']"
    by code_simp
  then have "field_list ?found"
    using vary_fields_field_list [of "msg_meta msg"] by (auto simp: field_list_def Let_def)
  then have "vary_fields [\<lparr>me_key = META_RESP_HEADER_PREFIX @ ''Vary'', me_value = join_with '', '' ?found\<rparr>] = ?found"
    using fields_round_trip [of ?found] by (simp add: vary_fields_def)
  moreover have "vary_fields ?rest = []"
    by (rule vary_fields_none) auto
  ultimately show ?thesis
    unfolding vary_on_origin_def Let_def varies_by_origin_def msg_set_meta_def
    by (simp add: fresh vary_fields_append)
qed

lemma vary_on_origin_get: "\<not> is_vary key \<Longrightarrow> get_meta (vary_on_origin msg) key = get_meta msg key"
proof -
  assume "\<not> is_vary key"
  moreover from this have "key \<noteq> META_RESP_HEADER_PREFIX @ ''Vary''"
    using is_vary_key by metis
  moreover have "List.find (\<lambda>e. me_key e = key) (filter (\<lambda>m. \<not> is_vary (me_key m)) meta) = List.find (\<lambda>e. me_key e = key) meta" 
    if "\<not> is_vary key" for meta :: "meta_entry list"
    using that by (induction meta) auto
  ultimately show ?thesis
    by (simp add: vary_on_origin_def Let_def) (simp add: get_meta_def meta_get_def)
qed

lemma cors_keys [simp]:
  "\<not> is_vary ALLOW_ORIGIN" "\<not> is_vary ALLOW_METHODS" "\<not> is_vary ALLOW_HEADERS" "\<not> is_vary ALLOW_CREDENTIALS" "\<not> is_vary MAX_AGE"
  by code_simp+

lemma cors_keys_distinct: "distinct [ALLOW_ORIGIN, ALLOW_METHODS, ALLOW_HEADERS, ALLOW_CREDENTIALS, MAX_AGE]"
  by code_simp

lemma vary_fields_set_meta: "\<not> is_vary key \<Longrightarrow> vary_fields (msg_meta (msg_set_meta msg key v)) = vary_fields (msg_meta msg)"
  by (simp add: msg_set_meta_def vary_fields_set_other)

definition effective_origins :: "(string \<Rightarrow> string option) \<Rightarrow> cors_block \<Rightarrow> string option" where
  "effective_origins config_get block = (case config_get ''allowed_origins'' of Some o' \<Rightarrow> Some o' | None \<Rightarrow> cb_allowed_origins block)"

lemma cors_credentials:
  "get_meta (cors_message env config_get block msg) ALLOW_CREDENTIALS
     = (if snd (cors_admit (effective_origins config_get block) (msg_header env msg ''Origin'') msg) then ''true''
        else get_meta msg ALLOW_CREDENTIALS)"
  using cors_keys_distinct
  by (auto simp: cors_message_def cors_admit_def effective_origins_def Let_def vary_on_origin_get split: option.splits origin_match.splits)

text \<open>C38: The answer carries \<^verbatim>\<open>Access-Control-Allow-Credentials\<close> only for an origin that the configuration lists by name:
  a wildcard is reflected without credentials, an empty or unlisted origin gets none.  An origin that may use
  credentials is the one that \<^verbatim>\<open>Access-Control-Allow-Origin\<close> names, and the answer varies by the origin, with the
  fields it varied by before kept.\<close>

theorem cors_credentials_only_for_listed_origins:
  assumes "get_meta msg ALLOW_CREDENTIALS = []"
    and "get_meta (cors_message env config_get block msg) ALLOW_CREDENTIALS \<noteq> []"
  shows "\<exists>allowed. effective_origins config_get block = Some allowed \<and> str_trim allowed \<noteq> ''*''
       \<and> msg_header env msg ''Origin'' \<noteq> []
       \<and> msg_header env msg ''Origin'' \<in> str_trim ` set (split_on (CHR '','') allowed)
       \<and> get_meta (cors_message env config_get block msg) ALLOW_ORIGIN = msg_header env msg ''Origin''
       \<and> varies_by_origin (vary_fields (msg_meta (cors_message env config_get block msg)))
       \<and> set (vary_fields (msg_meta msg)) \<subseteq> set (vary_fields (msg_meta (cors_message env config_get block msg)))"
proof -
  let ?origin = "msg_header env msg ''Origin''"
  have admitted: "snd (cors_admit (effective_origins config_get block) ?origin msg)"
    using assms by (simp add: cors_credentials split: if_splits)
  then obtain allowed where allowed: "effective_origins config_get block = Some allowed" and listed: "match_origin allowed ?origin = Some Listed"
    by (auto simp: cors_admit_def Let_def split: option.splits origin_match.splits)
  have "cors_admit (effective_origins config_get block) ?origin msg = (msg_set_meta (vary_on_origin msg) ALLOW_ORIGIN ?origin, True)"
    by (simp add: cors_admit_def allowed listed)
  then have "get_meta (cors_message env config_get block msg) ALLOW_ORIGIN = ?origin"
    and vary: "vary_fields (msg_meta (cors_message env config_get block msg)) = vary_fields (msg_meta (vary_on_origin msg))"
    using cors_keys_distinct by (simp_all add: cors_message_def effective_origins_def Let_def vary_fields_set_meta)
  moreover have "eq_ignore_ascii_case ''Origin'' ''origin''"
    by code_simp
  then have "varies_by_origin (vary_fields (msg_meta (vary_on_origin msg)))
      \<and> set (vary_fields (msg_meta msg)) \<subseteq> set (vary_fields (msg_meta (vary_on_origin msg)))"
    by (auto simp: vary_on_origin_fields Let_def varies_by_origin_def)
  ultimately show ?thesis
    using allowed listed by (auto simp: match_origin_def list_ex_iff intro: rev_image_eqI split: if_splits)
qed

text \<open>A listed origin asking with a response that already varies by the encoding.\<close>

definition sample_origin_request :: message where
  "sample_origin_request =
     \<lparr>msg_kind = ''GET:/a'',
      msg_meta = [\<lparr>me_key = ''http.header.origin'', me_value = ''https://a.example''\<rparr>,
                  \<lparr>me_key = ''resp.header.vary'', me_value = ''Accept-Encoding''\<rparr>]\<rparr>"

definition sample_cors_block :: cors_block where
  "sample_cors_block = \<lparr>cb_allowed_origins = Some ''https://b.example, https://a.example''\<rparr>"

definition lower_origin :: http_env where
  "lower_origin = \<lparr>he_lower = to_ascii_lowercase, he_form = (\<lambda>_. [])\<rparr>"

theorem cors_credentials_only_for_listed_origins_witness:
  "get_meta (cors_message lower_origin (\<lambda>_. None) sample_cors_block sample_origin_request) ALLOW_ORIGIN = ''https://a.example''"
proof -
  have hyps: "get_meta sample_origin_request ALLOW_CREDENTIALS = []"
    "snd (cors_admit (effective_origins (\<lambda>_. None) sample_cors_block) (msg_header lower_origin sample_origin_request ''Origin'') sample_origin_request)"
    "msg_header lower_origin sample_origin_request ''Origin'' = ''https://a.example''"
    by code_simp+
  show ?thesis
    using cors_credentials_only_for_listed_origins [OF hyps(1), of lower_origin "\<lambda>_. None" sample_cors_block] hyps
    by (auto simp: cors_credentials)
qed


section \<open>The keys the static file block asks for\<close>

text \<open>A segment the block lets through: a plain name that is not hidden.\<close>

definition visible :: "string \<Rightarrow> bool" where
  "visible seg \<longleftrightarrow> seg \<noteq> [] \<and> seg \<noteq> ''.'' \<and> seg \<noteq> ''..'' \<and> \<not> is_dotfile seg"

definition named :: "string \<Rightarrow> bool" where
  "named s \<longleftrightarrow> s \<noteq> [] \<and> s \<noteq> ''.'' \<and> s \<noteq> ''..'' \<and> slash \<notin> set s"

lemma list_all_butlast: "list_all P xs \<Longrightarrow> list_all P (butlast xs)"
  by (auto simp: list_all_iff dest: in_set_butlastD)

lemma clean_loop_segments:
  "\<forall>s \<in> set segs. slash \<notin> set s \<Longrightarrow> list_all named parts \<Longrightarrow> list_all named (clean_loop segs parts)"
proof (induction segs parts rule: clean_loop.induct)
  case (2 seg segs parts)
  consider "seg = [] \<or> seg = ''.''" | "seg = ''..''" | "named seg"
    using "2.prems"(1) by (auto simp: named_def)
  then show ?case
    by cases (use 2 in \<open>simp_all add: list_all_butlast named_def\<close>)
qed simp

text \<open>What is left of a request path: the segments of the key.\<close>

lemma clean_path_segments:
  obtains segs where "clean_path p = slash # join_with ''/'' segs" and "list_all named segs"
proof (rule that)
  show "clean_path p = slash # join_with ''/'' (clean_loop (split_on slash p) [])"
    by (simp add: clean_path_def)
  show "list_all named (clean_loop (split_on slash p) [])"
    by (rule clean_loop_segments) (use split_on_no_delim in \<open>simp_all\<close>)
qed

lemma dropWhile_join:
  assumes "list_all named segs"
  shows "dropWhile (\<lambda>c. c = slash) (join_with ''/'' segs) = join_with ''/'' segs"
proof (cases segs)
  case (Cons s ss)
  then obtain c s' where "s = c # s'" "c \<noteq> slash"
    using assms by (cases s) (auto simp: named_def)
  then show ?thesis
    by (simp add: Cons join_with_hd)
qed simp

lemma split_on_append_last:
  "d \<notin> set t \<Longrightarrow> split_on d (s @ t) = butlast (split_on d s) @ [last (split_on d s) @ t]"
proof (induction s)
  case (Cons c s)
  obtain p ps where "split_on d s = p # ps"
    by (cases "split_on d s") auto
  then show ?case
    using Cons by (cases ps rule: rev_cases) (simp_all add: butlast_append)
qed (simp add: split_on_single)

lemma cleaned_key_segments:
  assumes "\<not> list_ex is_dotfile (split_on slash (clean_path p))" and "dropWhile (\<lambda>c. c = slash) (clean_path p) = key" and "key \<noteq> []"
  shows "list_all visible (split_on slash key)"
proof -
  obtain segs where cp: "clean_path p = slash # join_with ''/'' segs" and good: "list_all named segs"
    by (rule clean_path_segments)
  have key: "key = join_with ''/'' segs"
    using assms(2) cp good by (simp add: dropWhile_join)
  then have "segs \<noteq> []"
    using assms(3) by auto
  then have "split_on slash key = segs"
    using good key split_on_join_inverse [of segs slash] by (simp add: list_all_iff named_def)
  moreover have "\<forall>s \<in> set segs. \<not> is_dotfile s"
    using assms(1) cp key \<open>split_on slash key = segs\<close> by (simp add: list_ex_iff)
  ultimately show ?thesis
    using good by (simp add: visible_def named_def list_all_iff)
qed

text \<open>The clean URL fallback turns the last segment of a key without an extension into a page.\<close>

definition served_segment :: "string \<Rightarrow> bool" where
  "served_segment seg \<longleftrightarrow> visible seg \<or> seg = ''.well-known.html''"

lemma visible_html: "visible seg \<Longrightarrow> served_segment (seg @ ''.html'')"
  by (cases seg) (auto simp: visible_def served_segment_def is_dotfile_def starts_with_def)

lemma visible_served: "list_all visible segs \<Longrightarrow> list_all served_segment segs"
  by (simp add: list_all_iff served_segment_def)

lemma html_key_segments:
  assumes "list_all visible (split_on slash key)"
  shows "list_all served_segment (split_on slash (key @ ''.html''))"
proof -
  have "visible (last (split_on slash key))"
    using assms by (simp add: list_all_iff)
  then show ?thesis
    using split_on_append_last [of slash "''.html''" key] visible_served [OF list_all_butlast [OF assms]] visible_html
    by simp
qed

lemma index_key_segments:
  "list_all visible (split_on slash key) \<Longrightarrow> list_all visible (split_on slash index)
     \<Longrightarrow> list_all visible (split_on slash (key @ slash # index))"
  by (simp add: split_on_append_any)

lemma try_serve_static_keys:
  assumes "list_all visible (split_on slash key)" and "list_all visible (split_on slash index)"
    and "(f, k) \<in> set (fst (try_serve_static get folder key index))"
  shows "f = folder \<and> list_all served_segment (split_on slash k)"
proof -
  have "f = folder \<and> k \<in> {key, key @ ''.html'', key @ slash # index}"
    using assms(3) by (auto simp: try_serve_static_def Let_def split: sum.splits if_splits)
  then show ?thesis
    using assms(1,2) html_key_segments index_key_segments visible_served by blast
qed

lemma serve_index_spa_keys: "fst (serve_index_spa get config) = [(wc_folder config, wc_index_file config)]"
  by (simp add: serve_index_spa_def)

lemma serve_file_asks:
  assumes "(folder, key) \<in> set (fst (serve_file get config msg))"
  obtains p c target where "strip_web_prefix (msg_path msg) (wc_prefix config) = Some p"
    and "\<not> list_ex is_dotfile (split_on slash (clean_path c))"
    and "target = dropWhile (\<lambda>c. c = slash) (clean_path c) \<and> target \<noteq> [] \<or> target = wc_index_file config"
    and "(folder, key) \<in> set (fst (try_serve_static get (wc_folder config) target (wc_index_file config)))
      \<or> (folder, key) = (wc_folder config, wc_index_file config)"
proof -
  obtain p where p: "strip_web_prefix (msg_path msg) (wc_prefix config) = Some p"
    using assms by (cases "strip_web_prefix (msg_path msg) (wc_prefix config)") (simp_all add: serve_file_def)
  define c where "c = (if p = [] \<or> p = ''/'' then slash # wc_index_file config else p)"
  define k where "k = dropWhile (\<lambda>c. c = slash) (clean_path c)"
  define target where "target = (if k = [] then wc_index_file config else k)"
  have shown: "\<not> list_ex is_dotfile (split_on slash (clean_path c))"
    using assms p by (cases "list_ex is_dotfile (split_on slash (clean_path c))") (simp_all add: serve_file_def Let_def c_def)
  obtain asked res where tried: "try_serve_static get (wc_folder config) target (wc_index_file config) = (asked, res)"
    by fastforce
  have unfolded: "serve_file get config msg =
     (case (asked, res) of
        (asked, Inr (data, info)) \<Rightarrow> (asked, snd (serve_file get config msg))
      | (asked, Inl e) \<Rightarrow>
          (if we_code e = NotFound \<and> wc_spa config
           then (asked @ fst (serve_index_spa get config), snd (serve_file get config msg))
           else (asked, snd (serve_file get config msg))))"
    using shown
    by (cases res)
      (simp_all add: serve_file_def Let_def p c_def [symmetric] k_def [symmetric] target_def [symmetric] tried split: prod.split)
  have "fst (serve_file get config msg) \<in> {asked, asked @ [(wc_folder config, wc_index_file config)]}"
    by (subst unfolded) (simp add: serve_index_spa_keys split: sum.split prod.split)
  then have "(folder, key) \<in> set asked \<or> (folder, key) = (wc_folder config, wc_index_file config)"
    using assms by auto
  then show ?thesis
    using that [OF p shown, of target] tried by (auto simp: target_def k_def)
qed


text \<open>A page asked for by its clean URL.\<close>

definition one_page :: store_get where
  "one_page folder key =
     (if key = ''about.html'' then Inr ([], \<lparr>oi_key = key, oi_size = 0, oi_content_type = [], oi_last_modified = 0\<rparr>)
      else Inl (wafer_error_new NotFound (Text ''not found'' [])))"

definition page_config :: web_config where
  "page_config =
     \<lparr>wc_folder = ''public'', wc_prefix = [], wc_spa = False, wc_index_file = ''index.html'',
      wc_cache_max_age = 1, wc_immutable_max_age = 1, wc_cache_mode = No_cache\<rparr>"

definition page_request :: message where
  "page_request = \<lparr>msg_kind = ''GET:/about'', msg_meta = [\<lparr>me_key = ''req.resource'', me_value = ''/about''\<rparr>]\<rparr>"


text \<open>The content type is guessed from the key asked for, not from the key that was served: a page found by the clean
  URL fallback, stored without a type, is not sent as HTML.\<close>

lemma clean_url_pages_are_typed_by_the_request:
  "snd (web_handle one_page (Some page_config) page_request)
     = respond_with_meta []
         [\<lparr>me_key = META_RESP_CONTENT_TYPE, me_value = UNKNOWN\<rparr>,
          \<lparr>me_key = META_RESP_HEADER_PREFIX @ ''Cache-Control'', me_value = ''no-cache''\<rparr>]
   \<and> mime_for_ext ''about.html'' = ''text/html; charset=utf-8''"
  by code_simp

section \<open>Shapes of route patterns\<close>

lemma ends_with_suffix: "ends_with p s \<longleftrightarrow> suffix p s"
  by (simp add: ends_with_iff suffix_def)

lemma shape_of_cases:
  "shape_of seg = (if is_placeholder seg then if length seg > 5 \<and> ends_with ''...}'' seg then ''{...}'' else ''{}'' else seg)"
proof (cases "is_placeholder seg")
  case True
  then obtain inner where seg: "seg = CHR ''{'' # inner @ ''}''"
    by (auto simp: is_placeholder_def starts_with_prefix ends_with_suffix prefix_def suffix_def Cons_eq_append_conv)
  then have "shape_of seg = (if length inner > 3 \<and> ends_with ''...'' inner then ''{...}'' else ''{}'')"
    by (simp add: shape_of_def strip_prefix_def strip_suffix_def starts_with_prefix ends_with_suffix)
  moreover have "length inner > 3 \<and> ends_with ''...'' inner \<longleftrightarrow> length seg > 5 \<and> ends_with ''...}'' seg"
    using seg by (auto simp: ends_with_suffix suffix_def Cons_eq_append_conv)
  ultimately show ?thesis
    using True by simp
next
  case False
  then show ?thesis
    by (auto simp: shape_of_def is_placeholder_def strip_prefix_def strip_suffix_def starts_with_prefix ends_with_suffix
        prefix_def suffix_def Cons_eq_append_conv split: option.splits if_splits)
qed

lemma shape_of_placeholder: "is_placeholder (shape_of seg) = is_placeholder seg"
  by (simp add: shape_of_cases) (simp add: is_placeholder_def starts_with_def ends_with_def)

lemma shape_of_eq:
  assumes "shape_of a = shape_of b"
  shows "is_placeholder a = is_placeholder b \<and> (is_placeholder a \<or> a = b)"
  using assms shape_of_placeholder [of a] shape_of_placeholder [of b] by (auto simp: shape_of_cases split: if_splits)

lemma match_segments_shape:
  "map shape_of pps = map shape_of qqs \<Longrightarrow> match_segments pps actuals = match_segments qqs actuals"
proof (induction pps actuals arbitrary: qqs rule: match_segments.induct)
  case (1 pp pps actual actuals)
  then obtain qq rest where "qqs = qq # rest" "shape_of pp = shape_of qq" "map shape_of pps = map shape_of rest"
    by (cases qqs) auto
  then show ?case
    using 1 shape_of_eq [of pp qq] by auto
qed auto

lemma ends_with_rest_iff: "ends_with ''/**'' p \<longleftrightarrow> (\<exists>xs. xs \<noteq> [] \<and> split_on slash p = xs @ [''**''])"
proof
  assume "ends_with ''/**'' p"
  then obtain r where "p = r @ slash # ''**''"
    by (auto simp: ends_with_suffix suffix_def)
  then show "\<exists>xs. xs \<noteq> [] \<and> split_on slash p = xs @ [''**'']"
    by (intro exI [of _ "split_on slash r"]) (simp add: split_on_append_any)
next
  assume "\<exists>xs. xs \<noteq> [] \<and> split_on slash p = xs @ [''**'']"
  then obtain xs where "xs \<noteq> []" "split_on slash p = xs @ [''**'']"
    by blast
  then have "p = join_with ''/'' xs @ ''/'' @ ''**''"
    using split_on_join [of slash p] join_with_append [of xs "[''**'']" "''/''"] by simp
  then show "ends_with ''/**'' p"
    by (simp add: ends_with_suffix suffix_def)
qed

lemma shape_of_no_slash: "slash \<notin> set seg \<Longrightarrow> slash \<notin> set (shape_of seg)"
  by (simp add: shape_of_cases)

lemma route_shape_split:
  assumes "\<not> ends_with ''/**'' p"
  shows "split_on slash (route_shape p) = map shape_of (split_on slash p)"
proof (cases "list_all (\<lambda>s. shape_of s = s) (split_on slash p)")
  case True
  then show ?thesis
    by (simp add: route_shape_def list_all_iff map_idI)
next
  case False
  have "split_on slash (join_with ''/'' (map shape_of (split_on slash p))) = map shape_of (split_on slash p)"
    by (rule split_on_join_inverse) (use split_on_no_delim shape_of_no_slash in auto)
  then show ?thesis
    using False assms by (simp add: route_shape_def)
qed

lemma shape_of_rest: "shape_of seg = ''**'' \<longleftrightarrow> seg = ''**''"
  by (auto simp: shape_of_cases is_placeholder_def starts_with_def)

lemma route_shape_rest: "ends_with ''/**'' (route_shape p) = ends_with ''/**'' p"
proof (cases "ends_with ''/**'' p")
  case True
  then show ?thesis by (simp add: route_shape_def)
next
  case False
  have False if reshaped: "ends_with ''/**'' (route_shape p)"
  proof -
    obtain xs where "xs \<noteq> []" and "map shape_of (split_on slash p) = xs @ [''**'']"
      using reshaped route_shape_split [OF False] by (auto simp: ends_with_rest_iff)
    then obtain us z where "us \<noteq> []" and sp: "split_on slash p = us @ [z]" and "shape_of z = ''**''"
      by (cases "split_on slash p" rule: rev_cases) fastforce+
    then have "split_on slash p = us @ [''**'']"
      by (simp only: shape_of_rest)
    then show False
      using False \<open>us \<noteq> []\<close> by (simp only: ends_with_rest_iff) blast
  qed
  then show ?thesis
    using False by blast
qed

lemma match_path_segments:
  assumes "\<not> ends_with ''/**'' p"
  shows "match_path p path \<longleftrightarrow> length (split_on slash p) = length (split_on slash path) \<and> match_segments (split_on slash p) (split_on slash path)"
  using assms by (auto simp: match_path_def strip_suffix_def match_segments_same dest: is_placeholder_nonempty)

text \<open>C40: Two route patterns of the same shape match exactly the same paths, so comparing shapes finds every pair of
  endpoints that differ in the names of their placeholders only.\<close>

theorem routes_of_one_shape_match_alike:
  assumes "route_shape p = route_shape q"
  shows "match_path p path = match_path q path"
proof (cases "ends_with ''/**'' p")
  case True
  then have "ends_with ''/**'' q"
    using assms route_shape_rest by metis
  then show ?thesis
    using True assms by (simp add: route_shape_def)
next
  case False
  then have q: "\<not> ends_with ''/**'' q"
    using assms route_shape_rest by metis
  have shapes: "map shape_of (split_on slash p) = map shape_of (split_on slash q)"
    using assms route_shape_split [OF False] route_shape_split [OF q] by simp
  then have "length (split_on slash p) = length (split_on slash q)"
    by (metis length_map)
  then show ?thesis
    using match_path_segments [OF False] match_path_segments [OF q] match_segments_shape [OF shapes] by simp
qed

theorem routes_of_one_shape_match_alike_witness:
  "match_path ''/items/{id}/tags'' ''/items/7/tags'' = match_path ''/items/{item}/tags'' ''/items/7/tags''"
proof -
  have "route_shape ''/items/{id}/tags'' = route_shape ''/items/{item}/tags''"
    by code_simp
  then show ?thesis
    by (rule routes_of_one_shape_match_alike)
qed

end
