(* ===== verification/Spec2Isabelle.thy ===== *)
theory Spec2Isabelle
  imports Flow_Validate Flow_Accumulator Wrap_Names Wrap_Policy Wrap_Patterns Http_Streaming Response_Carried Registration_Authority Flow_Schedule Flow_Routing Init_Dispatch Call_Context
    Network_Fetch Rate_Limit Db_Handler Storage_Listing Http_Blocks
begin

text \<open>
  Verification of the WAFER runtime (\<^verbatim>\<open>wafer-run\<close>).

  \<^bold>\<open>The program.\<close>  A WAFER application is a set of blocks that answer messages with streams of events.
  The runtime registers blocks (\<^verbatim>\<open>wafer-run/src/runtime\<close>), initialises them on first use, runs flows of
  steps over them (\<^verbatim>\<open>wafer-flow\<close>, \<^verbatim>\<open>wafer-run/src/waferflow\<close>) and mediates every call one block makes to
  another.  What a block may reach is decided twice: WRAP (\<^verbatim>\<open>wafer-block/src/wrap.rs\<close>) compares the calling
  block with the owner of a resource and the grants, and capabilities (\<^verbatim>\<open>capabilities.rs\<close>) bound sandboxed
  blocks.  Service blocks (database, storage, network, rate limiter) decode a request, have the context authorize
  the resources it names, and call a backend.  The HTTP codec turns the terminal of a stream into a response.

  \<^bold>\<open>How it is modelled.\<close>  Rust structs are records, enums datatypes, \<^verbatim>\<open>Result\<close> is a sum with the error on
  the left (\<open>and_then\<close> is \<^verbatim>\<open>?\<close>, \<open>traverse\<close> a loop with \<^verbatim>\<open>?\<close>), strings are byte lists, error texts are kept
  as format string and arguments.  Stateful code passes its state.  What the sources call but do not
  contain is a parameter: URL parsing, Unicode lower-casing, JSON and MessagePack codecs, the printing of
  \<^verbatim>\<open>f64\<close>, HTTP servers, database backends, hashing, clocks and the answers of blocks.  Concurrency appears
  as interleaving: the branches of a flow are resumable tasks under an arbitrary scheduler, the shared
  structures behind locks are step relations.

  \<^bold>\<open>Theories.\<close>
  \<^item> \<open>Wafer_Prelude\<close>, \<open>Transitions\<close>: results, lists, Rust's \<^verbatim>\<open>str\<close> operations, keyed stores and state machines
    as locales, which the components interpret on their own definitions.
  \<^item> Flow language (\<^verbatim>\<open>wafer-flow/src\<close>): \<open>Flow_Json\<close> and \<open>Flow_Expr\<close> (\<^verbatim>\<open>expr.rs\<close>: parser and evaluator of
    conditions), \<open>Flow_Accumulator\<close> (\<^verbatim>\<open>accumulator.rs\<close>, \<^verbatim>\<open>compiled.rs\<close>: compiled templates resolve as the
    uncompiled ones, to well-formed values), \<open>Flow_Types\<close> (\<^verbatim>\<open>types.rs\<close>: timeouts are exact), \<open>Flow_Validate\<close>
    (\<^verbatim>\<open>validate.rs\<close>: equivalent to a declarative condition).
  \<^item> Flow execution: \<open>Flow_Plan\<close> (\<^verbatim>\<open>plan.rs\<close>), \<open>Async_Tasks\<close> (tasks and schedulers), \<open>Flow_Executor\<close>
    (\<^verbatim>\<open>executor.rs\<close>), \<open>Flow_Runner\<close> (\<^verbatim>\<open>runtime/runner.rs\<close>).  \<open>Flow_Budget\<close>: every request is answered and
    dispatches within its step budget; \<open>Flow_Schedule\<close>: outcomes do not depend on the interleaving;
    \<open>Flow_Frame\<close>: a step writes only its own entries; \<open>Flow_Streaming\<close>: streaming a terminal step equals
    collecting it; \<open>Flow_Routing\<close>: accepted flows route to existing targets.
  \<^item> Messages and responses: \<open>Core_Types\<close> (\<^verbatim>\<open>core_types.rs\<close>), \<open>Streams\<close> (\<^verbatim>\<open>streams/output.rs\<close>: the protocol of a
    sink), \<open>Http_Request\<close> (\<^verbatim>\<open>http_codec.rs\<close>, \<^verbatim>\<open>message_ext.rs\<close>: a request becomes its canonical meta), \<open>Http_Codec\<close> and \<open>Http_Streaming\<close> (\<^verbatim>\<open>http_codec.rs\<close>: only sendable headers, declared
    lengths enforced), \<open>Restrictive_Headers\<close>, \<open>Response_Meta\<close> and
    \<open>Response_Carried\<close> (\<^verbatim>\<open>restrictive_headers.rs\<close>, \<^verbatim>\<open>response_meta.rs\<close>: overlaying only tightens).
  \<^item> Access: \<open>Wrap\<close> (\<^verbatim>\<open>wrap.rs\<close>, \<^verbatim>\<open>grants.rs\<close>) with \<open>Wrap_Names\<close>, \<open>Wrap_Patterns\<close>, \<open>Wrap_Policy\<close>; \<open>Registration\<close> and
    \<open>Registration_Authority\<close> (\<^verbatim>\<open>registration.rs\<close>, \<^verbatim>\<open>lifecycle.rs\<close>: access to another block's resources needs a
    grant of its owner); \<open>Capabilities\<close>; \<open>Call_Context\<close> (\<^verbatim>\<open>call_gates.rs\<close>, \<^verbatim>\<open>context.rs\<close>: every frame is attributed
    to its caller).
  \<^item> Initialisation: \<open>Init_Waits\<close> (\<^verbatim>\<open>init_waits.rs\<close>: no deadlock), \<open>Init_Attempt\<close>, \<open>Init_Slot\<close> (\<^verbatim>\<open>slot.rs\<close>: refines
    a history of attempts with backoff), \<open>Init_Dispatch\<close> (\<^verbatim>\<open>runtime.rs\<close>: errors of a refused dispatch).
  \<^item> Services: \<open>Ip_Addr\<close>, \<open>Net_Security\<close>, \<open>Network_Fetch\<close> (\<^verbatim>\<open>wafer-net-security\<close>, \<^verbatim>\<open>wafer-block-network\<close>,
    \<^verbatim>\<open>interfaces/network\<close>: only granted and public addresses are contacted, redirects included), \<open>Rate_Limit\<close>
    (\<^verbatim>\<open>wafer-block-ip-rate-limit\<close>), \<open>Sql_Lex\<close> and \<open>Sql_Ddl\<close> (\<^verbatim>\<open>wafer-sql-utils/src/ddl.rs\<close>: generated DDL read by
    its dialect says what the schema says), \<open>Db_Types\<close>, \<open>Db_Convert\<close>, \<open>Db_Handler\<close>
    (\<^verbatim>\<open>interfaces/database/handler.rs\<close>: every backend call is authorized on the names it carries).
  \<^item> Storage: \<open>Storage_Handler\<close> (\<^verbatim>\<open>interfaces/storage\<close>: each request resolves to one path, which is authorized and
    handed to the backend), \<open>Fs_Paths\<close> (\<^verbatim>\<open>std::path\<close>, \<^verbatim>\<open>normalize_lexical\<close>, \<^verbatim>\<open>mime.rs\<close>), \<open>Local_Storage\<close>
    (\<^verbatim>\<open>wafer-block-local-storage\<close> over a filesystem in which any call may fail), \<open>Storage_Confinement\<close> (no visible
    change outside what the caller may write; atomic uploads; what is written is read), \<open>Storage_Listing\<close>
    (listings show what is stored; cursors visit every object once).
  \<^item> HTTP blocks: \<open>Http_Blocks\<close> (\<^verbatim>\<open>wafer-block/src/executor.rs\<close>, \<^verbatim>\<open>wafer-block-cors\<close>, \<^verbatim>\<open>wafer-block-readonly-guard\<close>,
    \<^verbatim>\<open>wafer-block-router\<close>, \<^verbatim>\<open>wafer-block-web\<close>): routes dispatch to the first match and patterns of one shape match
    alike; credentials only for listed origins; only visible files of the configured folder are served.

  \<^bold>\<open>Interfaces.\<close>  \<open>keyed_store\<close> is the contract of message meta and of the accumulator; \<open>transition_invariant\<close>
  and its extensions that of the init slot, the wait graph, the attempt records and the rate limiter;
  \<open>storage_backend\<close> that of the storage handler with its backend, which the filesystem backend fulfils.
  The database handler uses the authorization of \<open>Call_Context\<close> and the attempt records of \<open>Init_Attempt\<close>;
  the network handler the same authorization and the address checks of \<open>Net_Security\<close>.

  \<^bold>\<open>Bounds and fuel.\<close>  The executor runs on fuel; one unit more than the step budget of the flow that is
  entered suffices, because every dispatch, jump and transfer spends a step (\<open>Flow_Budget\<close> proves that an
  answer is always given).  Redirects recurse on the hops left.  Counters of type \<^verbatim>\<open>usize\<close> and \<^verbatim>\<open>u64\<close> that
  count live objects are naturals: they cannot reach their bound before memory does; where the source
  saturates, wraps or checks (timeouts, body sizes, rate-limit counts, backoff) the model does too.

  \<^bold>\<open>Not modelled.\<close>  The wasm hosts (\<^verbatim>\<open>wafer-run/src/wasm\<close>), the FFI, Node and browser bindings and the HTTP
  listener embed third-party engines and servers; remote blocks and the registry loader are I/O over an
  HTTP client; the SQL executor and drivers build statements with \<^verbatim>\<open>sea-query\<close> and run them in SQLite and
  PostgreSQL; \<^verbatim>\<open>discovery.rs\<close> renders documentation; the crypto block wraps cryptographic crates; the command
  line, the derive macros and the typed clients generate or forward calls to what is modelled here.  Logging,
  metrics and tracing have no effect on results and are left out throughout.
\<close>

end
